(* ===== verification/Prelude.thy ===== *)
theory Prelude
  imports Main "HOL-Library.Word"
begin

text \<open>
  Shared ground of the development: the collections of rewrite rules each
  component fills, the C conventions every model uses (truth values, the sign
  test on return codes), and the generic facts on lists, maps and functions
  that several components need.
\<close>

section \<open>Collections\<close>

named_theorems queue_simps \<open>field equations of the queue.h list heap\<close>
named_theorems op_simps \<open>unfolding equations of the small operations of a component\<close>
named_theorems inv_intros \<open>preservation facts of component invariants\<close>

section \<open>C conventions\<close>

type_synonym cint = int

definition cbool :: "bool \<Rightarrow> cint" where
  "cbool b = (if b then 1 else 0)"

lemma cbool_simps [simp]: "cbool True = 1" "cbool False = 0"
  by (simp_all add: cbool_def)

lemma cbool_eq_iff [simp]: "cbool b = 1 \<longleftrightarrow> b" "cbool b = 0 \<longleftrightarrow> \<not> b"
  by (simp_all add: cbool_def)

section \<open>Results\<close>

text \<open>A call that ends the program with an error is Inl, any other result Inr.\<close>

fun rbind :: "'e + 'a \<Rightarrow> ('a \<Rightarrow> 'e + 'b) \<Rightarrow> 'e + 'b" where
  "rbind (Inl e) f = Inl e"
| "rbind (Inr x) f = f x"

lemma rbind_Inr_iff [simp]: "rbind r f = Inr y \<longleftrightarrow> (\<exists>x. r = Inr x \<and> f x = Inr y)"
  by (cases r) auto

lemma rbind_Inl_iff: "rbind r f = Inl e \<longleftrightarrow> r = Inl e \<or> (\<exists>x. r = Inr x \<and> f x = Inl e)"
  by (cases r) auto

section \<open>Pointers the model does not look through\<close>

type_synonym cptr = nat

definition NULL :: cptr where "NULL = 0"

section \<open>Lists\<close>

lemma distinct_remove1_notin [simp]: "distinct xs \<Longrightarrow> x \<notin> set (remove1 x xs)"
  by simp

lemma remove1_append_here [simp]: "x \<notin> set as \<Longrightarrow> remove1 x (as @ x # bs) = as @ bs"
  by (induction as) auto

lemma length_filter_le_Suc: "length (filter P xs) \<le> length xs"
  by simp

lemma foldl_Cons_rev: "foldl (\<lambda>acc x. f x # acc) acc xs = rev (map f xs) @ acc"
  by (induction xs arbitrary: acc) auto

lemma nth_upd_same [simp]: "i < length xs \<Longrightarrow> xs[i := v] ! i = v"
  by simp

lemma dropWhile_hd_not: "dropWhile P xs = y # ys \<Longrightarrow> \<not> P y"
  by (induction xs) (auto split: if_splits)

lemma takeWhile_prefix_length [simp]: "length (takeWhile P xs) \<le> length xs"
  by (rule length_takeWhile_le)

section \<open>Loops as folds\<close>

lemma fold_inv:
  assumes "P s" "\<And>x s. x \<in> set xs \<Longrightarrow> P s \<Longrightarrow> P (f x s)"
  shows "P (fold f xs s)"
  using assms by (induction xs arbitrary: s) auto

lemma fold_frame:
  assumes "\<And>x s. g (f x s) = g s"
  shows "g (fold f xs s) = g s"
  by (induction xs arbitrary: s) (simp_all add: assms)

lemma fold_each:
  assumes "x \<in> set xs" "\<And>s. P x (f x s)" "\<And>y s. P x s \<Longrightarrow> P x (f y s)"
  shows "P x (fold f xs s)"
  using assms(1)
proof (induction xs arbitrary: s)
  case (Cons y xs)
  show ?case
  proof (cases "x = y")
    case True
    have "P x (f y s)" using assms(2) True by simp
    then show ?thesis by (simp add: fold_inv assms(3))
  qed (use Cons in auto)
qed simp

section \<open>Decimal output of printf\<close>

fun digit :: "nat \<Rightarrow> char" where
  "digit n = char_of (48 + n mod 10)"

fun dec :: "nat \<Rightarrow> string" where
  "dec n = (if n < 10 then [digit n] else dec (n div 10) @ [digit n])"

declare dec.simps [simp del] digit.simps [simp del]

definition dec_int :: "int \<Rightarrow> string" where
  "dec_int i = (if i < 0 then CHR ''-'' # dec (nat (- i)) else dec (nat i))"

lemma dec_not_Nil [simp]: "dec n \<noteq> []"
  by (subst dec.simps) simp

lemma dec_length_le: "n < 10 ^ k \<Longrightarrow> 0 < k \<Longrightarrow> length (dec n) \<le> k"
proof (induction k arbitrary: n)
  case (Suc k)
  show ?case
  proof (cases "n < 10")
    case True
    then show ?thesis by (subst dec.simps) simp
  next
    case False
    then have "0 < k" using Suc.prems by (cases k) auto
    moreover have "n div 10 < 10 ^ k" using Suc.prems by (simp add: less_mult_imp_div_less mult.commute)
    ultimately have "length (dec (n div 10)) \<le> k" using Suc.IH by blast
    then show ?thesis using False by (subst dec.simps) simp
  qed
qed simp

text \<open>Reading a decimal back: the digits determine the number.\<close>

fun undec :: "string \<Rightarrow> nat" where
  "undec s = foldl (\<lambda>a c. 10 * a + (of_char c - 48)) 0 s"

declare undec.simps [simp del]

lemma undec_dec [simp]: "undec (dec n) = n"
proof (induction n rule: dec.induct)
  case (1 n)
  have d: "of_char (digit n) - 48 = n mod 10" for n :: nat
    by (simp add: digit.simps)
  show ?case
  proof (cases "n < 10")
    case True
    then show ?thesis by (subst dec.simps) (simp add: undec.simps d)
  next
    case False
    then have "undec (dec (n div 10)) = n div 10" using 1 by simp
    then show ?thesis using False
      by (subst dec.simps) (simp add: undec.simps d)
  qed
qed

lemma dec_inj [simp]: "dec m = dec n \<longleftrightarrow> m = n"
  by (metis undec_dec)

lemma dec_chars: "c \<in> set (dec n) \<Longrightarrow> 48 \<le> (of_char c :: nat) \<and> (of_char c :: nat) \<le> 57"
proof (induction n rule: dec.induct)
  case (1 n)
  have d: "48 \<le> (of_char (digit n) :: nat) \<and> (of_char (digit n) :: nat) \<le> 57" for n :: nat
  proof -
    have "48 + n mod 10 < 256" by (rule le_less_trans [of _ "48 + 9"]) auto
    then have "of_char (digit n) = 48 + n mod 10" by (simp add: digit.simps)
    moreover have "n mod 10 \<le> 9" using mod_less_divisor [of 10 n] by linarith
    ultimately show ?thesis by linarith
  qed
  show ?case
    using 1 d dec.simps [of n] by (auto split: if_splits)
qed

end
