(* ===== verification/CString.thy ===== *)
theory CString
  imports Prelude
begin

text \<open>
  The C library's string functions the programs call: sscanf of a decimal, atoi, strstr,
  strncmp of a prefix and strtok, over strings as character lists.
\<close>

definition PATH_MAX :: nat where "PATH_MAX = 4096"

section \<open>Numbers\<close>

text \<open>sscanf with the format "%d".\<close>

definition is_digit_char :: "char \<Rightarrow> bool" where
  "is_digit_char c \<longleftrightarrow> 48 \<le> (of_char c :: nat) \<and> (of_char c :: nat) \<le> 57"

definition is_space_char :: "char \<Rightarrow> bool" where
  "is_space_char c \<longleftrightarrow> (of_char c :: nat) \<in> {9, 10, 11, 12, 13, 32}"

definition scan_int :: "string \<Rightarrow> int option" where
  "scan_int str =
    (let s1 = dropWhile is_space_char str;
         (neg, s2) = (case s1 of
             [] \<Rightarrow> (False, [])
           | c # cs \<Rightarrow> if c = CHR ''-'' then (True, cs)
                      else if c = CHR ''+'' then (False, cs) else (False, c # cs));
         ds = takeWhile is_digit_char s2
     in if ds = [] then None
        else Some (if neg then - int (undec ds) else int (undec ds)))"

definition atoi :: "string \<Rightarrow> int" where
  "atoi str = (case scan_int str of None \<Rightarrow> 0 | Some i \<Rightarrow> i)"

section \<open>Prefixes and substrings\<close>

fun is_prefix :: "string \<Rightarrow> string \<Rightarrow> bool" where
  "is_prefix [] s = True"
| "is_prefix (c # cs) [] = False"
| "is_prefix (c # cs) (d # ds) = (c = d \<and> is_prefix cs ds)"

text \<open>strstr(s, pat) != NULL\<close>

fun strstr :: "string \<Rightarrow> string \<Rightarrow> bool" where
  "strstr [] pat = is_prefix pat []"
| "strstr (c # s) pat = (is_prefix pat (c # s) \<or> strstr s pat)"

lemma is_prefix_iff: "is_prefix p s \<longleftrightarrow> (\<exists>t. s = p @ t)"
  by (induction p s rule: is_prefix.induct) auto

lemma strstr_iff: "strstr s p \<longleftrightarrow> (\<exists>a b. s = a @ p @ b)"
proof (induction s p rule: strstr.induct)
  case (2 c s p)
  then show ?case by (simp add: is_prefix_iff) (metis append_Cons append_Nil list.exhaust list.inject)
qed (simp add: is_prefix_iff)

section \<open>strtok\<close>

text \<open>One call: skip delimiters, take a token, and drop the delimiter that ended it.\<close>

definition strtok :: "char set \<Rightarrow> string \<Rightarrow> (string \<times> string) option" where
  "strtok delims s =
    (let s' = dropWhile (\<lambda>c. c \<in> delims) s in
     if s' = [] then None
     else Some (takeWhile (\<lambda>c. c \<notin> delims) s', tl (dropWhile (\<lambda>c. c \<notin> delims) s')))"

lemma strtok_length: "strtok delims s = Some (tok, rest) \<Longrightarrow> length rest < length s"
proof -
  assume a: "strtok delims s = Some (tok, rest)"
  let ?s' = "dropWhile (\<lambda>c. c \<in> delims) s"
  have s: "?s' \<noteq> []" "rest = tl (dropWhile (\<lambda>c. c \<notin> delims) ?s')"
    using a by (auto simp: strtok_def Let_def split: if_splits)
  have "length rest \<le> length ?s' - 1"
    unfolding s(2) length_tl by (rule diff_le_mono) (rule length_dropWhile_le)
  also have "\<dots> < length ?s'" using s(1) by simp
  also have "length ?s' \<le> length s" by (rule length_dropWhile_le)
  finally show ?thesis .
qed

text \<open>All the tokens of repeated calls with the same delimiters.\<close>

function strtoks :: "char set \<Rightarrow> string \<Rightarrow> string list" where
  "strtoks delims s =
    (case strtok delims s of None \<Rightarrow> [] | Some (tok, rest) \<Rightarrow> tok # strtoks delims rest)"
  by pat_completeness auto

termination strtoks
  by (relation "measure (\<lambda>(delims, s). length s)") (auto dest: strtok_length)

declare strtoks.simps [simp del]

lemma strtok_token:
  assumes "x \<noteq> []" "\<forall>c\<in>set x. c \<notin> D" "d \<in> D"
  shows "strtok D (x @ d # rest) = Some (x, rest)" and "strtok D x = Some (x, [])"
proof -
  obtain c cs where x: "x = c # cs" "c \<notin> D" using assms(1,2) by (cases x) auto
  have t: "takeWhile (\<lambda>c. c \<notin> D) (x @ d # rest) = x" "dropWhile (\<lambda>c. c \<notin> D) (x @ d # rest) = d # rest"
    using assms(2,3) by (simp_all add: takeWhile_append dropWhile_append)
  have w: "takeWhile (\<lambda>c. c \<notin> D) x = x" "dropWhile (\<lambda>c. c \<notin> D) x = []"
    using assms(2) by (simp_all add: takeWhile_eq_all_conv dropWhile_eq_Nil_conv)
  have u: "dropWhile (\<lambda>c. c \<in> D) (x @ d # rest) = x @ d # rest" "dropWhile (\<lambda>c. c \<in> D) x = x"
    using x by simp_all
  show "strtok D (x @ d # rest) = Some (x, rest)"
    unfolding strtok_def Let_def u t using assms(1,3) by simp
  show "strtok D x = Some (x, [])"
    unfolding strtok_def Let_def u w using assms(1) by simp
qed

text \<open>Joining with one delimiter and splitting again gives the tokens back.\<close>

fun join_with :: "char \<Rightarrow> string list \<Rightarrow> string" where
  "join_with d [] = []"
| "join_with d [x] = x"
| "join_with d (x # y # xs) = x @ d # join_with d (y # xs)"

lemma strtoks_join:
  assumes "\<forall>x\<in>set xs. x \<noteq> [] \<and> (\<forall>c\<in>set x. c \<notin> D)" "d \<in> D"
  shows "strtoks D (join_with d xs) = xs"
  using assms
proof (induction d xs rule: join_with.induct)
  case (1 d)
  then show ?case by (subst strtoks.simps) (simp add: strtok_def)
next
  case (2 d x)
  have "strtok D x = Some (x, [])" using 2 strtok_token(2) [of x D d] by simp
  moreover have "strtoks D [] = []" by (subst strtoks.simps) (simp add: strtok_def)
  ultimately show ?case by (subst strtoks.simps) simp
next
  case (3 d x y xs)
  have "strtok D (x @ d # join_with d (y # xs)) = Some (x, join_with d (y # xs))"
    using 3 strtok_token(1) [of x D d] by simp
  then show ?case using 3 by (subst strtoks.simps) simp
qed

end
