(* ===== verification/ListQueue.thy ===== *)
theory ListQueue
  imports Prelude
begin

text \<open>
  The doubly linked lists of monitor/src/queue.h (the LIST macros) at the level
  of pointers.  A link field le_prev of the C code is the ADDRESS of the
  pointer that points at the node: either a list head or the le_next field of
  the node before.  The heap keeps several list heads, because the thread list
  and the free list of pthread.c share one link field.  The abstraction
  relation \<open>lists_rep\<close> gives each head its sequence of nodes; every macro is
  shown to implement its list operation, and the interface locale
  \<open>node_lists\<close> is what the thread pool relies on.
\<close>

section \<open>Heap\<close>

datatype ('q, 'a) loc = Head 'q | NextOf 'a

record ('q, 'a) lheap =
  lh_first :: "'q \<Rightarrow> 'a option"
  le_next  :: "'a \<Rightarrow> 'a option"
  le_prev  :: "'a \<Rightarrow> ('q, 'a) loc option"

fun load :: "('q, 'a) lheap \<Rightarrow> ('q, 'a) loc \<Rightarrow> 'a option" where
  "load h (Head q) = lh_first h q"
| "load h (NextOf x) = le_next h x"

fun store :: "('q, 'a) loc \<Rightarrow> 'a option \<Rightarrow> ('q, 'a) lheap \<Rightarrow> ('q, 'a) lheap" where
  "store (Head q) v h = h\<lparr>lh_first := (lh_first h)(q := v)\<rparr>"
| "store (NextOf x) v h = h\<lparr>le_next := (le_next h)(x := v)\<rparr>"

definition set_prev :: "'a \<Rightarrow> ('q, 'a) loc option \<Rightarrow> ('q, 'a) lheap \<Rightarrow> ('q, 'a) lheap" where
  "set_prev x l h = h\<lparr>le_prev := (le_prev h)(x := l)\<rparr>"

lemma store_load [queue_simps]:
  "load (store l v h) l' = (if l = l' then v else load h l')"
  by (cases l; cases l') auto

lemma store_prev [queue_simps]: "le_prev (store l v h) x = le_prev h x"
  by (cases l) auto

lemma set_prev_load [queue_simps]: "load (set_prev x l h) l' = load h l'"
  by (cases l') (auto simp: set_prev_def)

lemma set_prev_prev [queue_simps]:
  "le_prev (set_prev x l h) y = (if y = x then l else le_prev h y)"
  by (simp add: set_prev_def)

lemma next_load: "le_next h x = load h (NextOf x)"
  by simp

lemma first_load: "lh_first h q = load h (Head q)"
  by simp

declare load.simps [simp del] store.simps [simp del]

section \<open>The macros\<close>

definition LIST_INIT :: "'q \<Rightarrow> ('q, 'a) lheap \<Rightarrow> ('q, 'a) lheap" where
  "LIST_INIT q h = store (Head q) None h"

definition LIST_EMPTY :: "'q \<Rightarrow> ('q, 'a) lheap \<Rightarrow> bool" where
  "LIST_EMPTY q h = (load h (Head q) = None)"

definition LIST_INSERT_HEAD :: "'q \<Rightarrow> 'a \<Rightarrow> ('q, 'a) lheap \<Rightarrow> ('q, 'a) lheap" where
  "LIST_INSERT_HEAD q x h =
    (let h1 = store (NextOf x) (load h (Head q)) h;
         h2 = (case load h1 (NextOf x) of
                 None \<Rightarrow> h1
               | Some f \<Rightarrow> set_prev f (Some (NextOf x)) h1);
         h3 = store (Head q) (Some x) h2
     in set_prev x (Some (Head q)) h3)"

definition LIST_INSERT_AFTER :: "'a \<Rightarrow> 'a \<Rightarrow> ('q, 'a) lheap \<Rightarrow> ('q, 'a) lheap" where
  "LIST_INSERT_AFTER y x h =
    (let h1 = store (NextOf x) (load h (NextOf y)) h;
         h2 = (case load h1 (NextOf x) of
                 None \<Rightarrow> h1
               | Some f \<Rightarrow> set_prev f (Some (NextOf x)) h1);
         h3 = store (NextOf y) (Some x) h2
     in set_prev x (Some (NextOf y)) h3)"

text \<open>A dereference of an le_prev that was never set is the value None.\<close>

definition LIST_INSERT_BEFORE ::
  "'a \<Rightarrow> 'a \<Rightarrow> ('q, 'a) lheap \<Rightarrow> ('q, 'a) lheap option" where
  "LIST_INSERT_BEFORE y x h =
    (let h1 = set_prev x (le_prev h y) h;
         h2 = store (NextOf x) (Some y) h1
     in case le_prev h2 y of
          None \<Rightarrow> None
        | Some l \<Rightarrow> Some (set_prev y (Some (NextOf x)) (store l (Some x) h2)))"

definition LIST_REMOVE :: "'a \<Rightarrow> ('q, 'a) lheap \<Rightarrow> ('q, 'a) lheap option" where
  "LIST_REMOVE x h =
    (let h1 = (case load h (NextOf x) of
                 None \<Rightarrow> h
               | Some n \<Rightarrow> set_prev n (le_prev h x) h)
     in case le_prev h1 x of
          None \<Rightarrow> None
        | Some l \<Rightarrow> Some (store l (load h1 (NextOf x)) h1))"

text \<open>LIST_FOREACH: the nodes the loop visits; None when the fuel runs out.\<close>

fun LIST_FOREACH :: "nat \<Rightarrow> ('q, 'a) lheap \<Rightarrow> 'a option \<Rightarrow> 'a list option" where
  "LIST_FOREACH 0 h v = None"
| "LIST_FOREACH (Suc n) h None = Some []"
| "LIST_FOREACH (Suc n) h (Some x) =
     map_option (Cons x) (LIST_FOREACH n h (load h (NextOf x)))"

section \<open>Abstraction\<close>

fun chain :: "('q, 'a) lheap \<Rightarrow> ('q, 'a) loc \<Rightarrow> 'a list \<Rightarrow> bool" where
  "chain h l [] = (load h l = None)"
| "chain h l (x # xs) =
     (load h l = Some x \<and> le_prev h x = Some l \<and> chain h (NextOf x) xs)"

definition lists_rep :: "('q, 'a) lheap \<Rightarrow> ('q \<Rightarrow> 'a list) \<Rightarrow> bool" where
  "lists_rep h Q \<longleftrightarrow>
     (\<forall>q. chain h (Head q) (Q q) \<and> distinct (Q q)) \<and>
     (\<forall>q q'. q \<noteq> q' \<longrightarrow> set (Q q) \<inter> set (Q q') = {})"

lemma chain_frame:
  "chain h l xs \<Longrightarrow> load h' l = load h l \<Longrightarrow>
   (\<And>x. x \<in> set xs \<Longrightarrow> load h' (NextOf x) = load h (NextOf x) \<and> le_prev h' x = le_prev h x) \<Longrightarrow>
   chain h' l xs"
proof (induction xs arbitrary: l)
  case (Cons x xs)
  have "chain h' (NextOf x) xs"
    by (rule Cons.IH) (use Cons.prems in auto)
  then show ?case using Cons.prems by simp
qed simp

lemma chain_first: "chain h l xs \<Longrightarrow> load h l = (case xs of [] \<Rightarrow> None | x # _ \<Rightarrow> Some x)"
  by (cases xs) auto

lemma chain_det: "chain h l xs \<Longrightarrow> chain h l ys \<Longrightarrow> xs = ys"
proof (induction xs arbitrary: l ys)
  case Nil
  then show ?case by (cases ys) auto
next
  case (Cons x xs)
  then show ?case by (cases ys) auto
qed

lemma chain_prev_mem:
  "chain h l (as @ x # bs) \<Longrightarrow> le_prev h x = Some (if as = [] then l else NextOf (last as))"
  by (induction as arbitrary: l) auto

lemma chain_next:
  "chain h l (as @ x # bs) \<Longrightarrow>
   load h (NextOf x) = (case bs of [] \<Rightarrow> None | b # _ \<Rightarrow> Some b)"
  by (induction as arbitrary: l) (auto dest: chain_first)

text \<open>Walking a well-linked list ends, with one unit of fuel per node and one for NULL.\<close>

lemma foreach_chain:
  "chain h l xs \<Longrightarrow> length xs < n \<Longrightarrow> LIST_FOREACH n h (load h l) = Some xs"
proof (induction xs arbitrary: l n)
  case Nil
  then show ?case by (cases n) auto
next
  case (Cons x xs)
  then obtain m where "n = Suc m" "length xs < m" by (cases n) auto
  then show ?case using Cons.IH [of "NextOf x" m] Cons.prems by simp
qed

text \<open>A list split at a point: the links of the part before it, and the chain from its end.\<close>

fun linked :: "('q, 'a) lheap \<Rightarrow> ('q, 'a) loc \<Rightarrow> 'a list \<Rightarrow> bool" where
  "linked h l [] = True"
| "linked h l (x # xs) =
     (load h l = Some x \<and> le_prev h x = Some l \<and> linked h (NextOf x) xs)"

definition end_loc :: "('q, 'a) loc \<Rightarrow> 'a list \<Rightarrow> ('q, 'a) loc" where
  "end_loc l as = (if as = [] then l else NextOf (last as))"

lemma end_loc_simps [simp]: "end_loc l [] = l" "end_loc l (x # xs) = end_loc (NextOf x) xs"
  by (auto simp: end_loc_def)

lemma end_loc_mem: "end_loc l as = l \<or> end_loc l as \<in> NextOf ` set as"
  by (auto simp: end_loc_def)

lemma chain_append: "chain h l (as @ bs) \<longleftrightarrow> linked h l as \<and> chain h (end_loc l as) bs"
  by (induction as arbitrary: l) auto

lemma linked_frame:
  assumes "linked h l as" "distinct as" "l \<notin> NextOf ` set as"
    and "\<And>k. k \<in> insert l (NextOf ` set as) \<Longrightarrow> k \<noteq> end_loc l as \<Longrightarrow> load h' k = load h k"
    and "\<And>y. y \<in> set as \<Longrightarrow> le_prev h' y = le_prev h y"
  shows "linked h' l as"
  using assms
proof (induction as arbitrary: l)
  case (Cons x xs)
  have "linked h' (NextOf x) xs"
    by (rule Cons.IH) (use Cons.prems in auto)
  moreover have "l \<noteq> end_loc l (x # xs)"
    using Cons.prems(3) end_loc_mem [of "NextOf x" xs] by auto
  ultimately show ?case using Cons.prems by simp
qed simp

section \<open>What each macro does to the locations\<close>

lemma insert_head_load [queue_simps]:
  "load (LIST_INSERT_HEAD q x h) l =
     (if l = Head q then Some x
      else if l = NextOf x then load h (Head q) else load h l)"
  by (auto simp: LIST_INSERT_HEAD_def Let_def queue_simps split: option.splits)

lemma insert_head_prev [queue_simps]:
  "le_prev (LIST_INSERT_HEAD q x h) y =
     (if y = x then Some (Head q)
      else if load h (Head q) = Some y then Some (NextOf x) else le_prev h y)"
  by (auto simp: LIST_INSERT_HEAD_def Let_def queue_simps split: option.splits)

lemma insert_after_load [queue_simps]:
  "load (LIST_INSERT_AFTER y x h) l =
     (if l = NextOf y then Some x
      else if l = NextOf x then load h (NextOf y) else load h l)"
  by (auto simp: LIST_INSERT_AFTER_def Let_def queue_simps split: option.splits)

lemma insert_after_prev [queue_simps]:
  "le_prev (LIST_INSERT_AFTER y x h) z =
     (if z = x then Some (NextOf y)
      else if load h (NextOf y) = Some z then Some (NextOf x) else le_prev h z)"
  by (auto simp: LIST_INSERT_AFTER_def Let_def queue_simps split: option.splits)

lemma insert_before_some:
  assumes "le_prev h y = Some l" "x \<noteq> y"
  obtains h' where "LIST_INSERT_BEFORE y x h = Some h'"
    and "\<And>k. load h' k = (if k = l then Some x else if k = NextOf x then Some y else load h k)"
    and "\<And>z. le_prev h' z = (if z = y then Some (NextOf x) else if z = x then Some l else le_prev h z)"
proof
  let ?h2 = "store (NextOf x) (Some y) (set_prev x (le_prev h y) h)"
  show "LIST_INSERT_BEFORE y x h = Some (set_prev y (Some (NextOf x)) (store l (Some x) ?h2))"
    using assms by (simp add: LIST_INSERT_BEFORE_def Let_def queue_simps)
qed (use assms in \<open>auto simp: queue_simps\<close>)

lemma remove_some:
  assumes "le_prev h x = Some l" "load h (NextOf x) \<noteq> Some x"
  obtains h' where "LIST_REMOVE x h = Some h'"
    and "\<And>k. load h' k = (if k = l then load h (NextOf x) else load h k)"
    and "\<And>z. le_prev h' z = (if load h (NextOf x) = Some z then Some l else le_prev h z)"
proof (cases "load h (NextOf x)")
  case None
  then show thesis
    using assms that [of "store l None h"] by (auto simp: LIST_REMOVE_def Let_def queue_simps)
next
  case (Some n)
  then show thesis
    using assms that [of "store l (Some n) (set_prev n (Some l) h)"]
    by (auto simp: LIST_REMOVE_def Let_def queue_simps)
qed

section \<open>Refinement: each macro is its list operation\<close>

lemma lists_repI:
  assumes "\<And>q. chain h (Head q) (Q q)" "\<And>q. distinct (Q q)"
    and "\<And>q q'. q \<noteq> q' \<Longrightarrow> set (Q q) \<inter> set (Q q') = {}"
  shows "lists_rep h Q"
  using assms by (auto simp: lists_rep_def)

lemma lists_repD:
  assumes "lists_rep h Q"
  shows "chain h (Head q) (Q q)" "distinct (Q q)"
    and "q \<noteq> q' \<Longrightarrow> x \<in> set (Q q) \<Longrightarrow> x \<notin> set (Q q')"
  using assms by (auto simp: lists_rep_def)

lemma rep_upd_sets:
  assumes "lists_rep h Q" "distinct ys"
    and "\<And>z. z \<in> set ys \<Longrightarrow> z \<in> set (Q q) \<or> (\<forall>q'. z \<notin> set (Q q'))"
  shows "distinct ((Q(q := ys)) q1)"
    and "q1 \<noteq> q2 \<Longrightarrow> set ((Q(q := ys)) q1) \<inter> set ((Q(q := ys)) q2) = {}"
  using assms by (auto simp: lists_rep_def) blast+

lemma rep_init:
  assumes rep: "lists_rep h Q"
  shows "lists_rep (LIST_INIT q h) (Q(q := []))"
proof (rule lists_repI)
  fix q'
  show "chain (LIST_INIT q h) (Head q') ((Q(q := [])) q')"
  proof (cases "q' = q")
    case False
    have "chain (LIST_INIT q h) (Head q') (Q q')"
      by (rule chain_frame [OF lists_repD(1) [OF rep]]) (use False in \<open>auto simp: LIST_INIT_def queue_simps\<close>)
    then show ?thesis using False by simp
  qed (simp add: LIST_INIT_def queue_simps)
qed (use rep in \<open>auto simp: lists_rep_def\<close>)

lemma rep_insert_head:
  assumes rep: "lists_rep h Q" and new: "\<And>q'. x \<notin> set (Q q')"
  shows "lists_rep (LIST_INSERT_HEAD q x h) (Q(q := x # Q q))"
proof (rule lists_repI)
  fix q'
  let ?h = "LIST_INSERT_HEAD q x h"
  note ch = lists_repD(1) [OF rep]
  show "chain ?h (Head q') ((Q(q := x # Q q)) q')"
  proof (cases "q' = q")
    case True
    have "chain ?h (NextOf x) (Q q)"
    proof (cases "Q q")
      case Nil
      then show ?thesis using ch [of q] by (simp add: queue_simps)
    next
      case (Cons f fs)
      have "chain h (NextOf f) fs" using ch [of q] Cons by simp
      moreover have "f \<notin> set fs" using lists_repD(2) [OF rep, of q] Cons by simp
      ultimately have "chain ?h (NextOf f) fs"
        by (rule_tac chain_frame) (use new [of q] ch [of q] Cons in \<open>auto simp: queue_simps\<close>)
      then show ?thesis using ch [of q] Cons new [of q] by (auto simp: queue_simps)
    qed
    then show ?thesis using True by (simp add: queue_simps)
  next
    case False
    have "load h (Head q) = Some y \<Longrightarrow> y \<notin> set (Q q')" for y
      using chain_first [OF ch [of q]] lists_repD(3) [OF rep, of q q' y] False
      by (cases "Q q") auto
    then have "chain ?h (Head q') (Q q')"
      by (intro chain_frame [OF ch [of q']]) (use new [of q'] False in \<open>auto simp: queue_simps\<close>)
    then show ?thesis using False by simp
  qed
qed (use rep new in \<open>auto simp: lists_rep_def\<close>)

lemma rep_insert_after:
  assumes rep: "lists_rep h Q" and split: "Q q = as @ y # bs"
    and new: "\<And>q'. x \<notin> set (Q q')"
  shows "lists_rep (LIST_INSERT_AFTER y x h) (Q(q := as @ y # x # bs))"
proof (rule lists_repI)
  fix q'
  let ?h = "LIST_INSERT_AFTER y x h"
  note ch = lists_repD(1) [OF rep] and dis = lists_repD(2) [OF rep, of q]
  have nxt: "load h (NextOf y) = (case bs of [] \<Rightarrow> None | b # _ \<Rightarrow> Some b)"
    using chain_next [of h "Head q" as y bs] ch [of q] split by simp
  show "chain ?h (Head q') ((Q(q := as @ y # x # bs)) q')"
  proof (cases "q' = q")
    case True
    have old: "linked h (Head q) (as @ [y])" "chain h (NextOf y) bs"
      using ch [of q] split chain_append [of h "Head q" "as @ [y]" bs] by (auto simp: end_loc_def)
    have "linked ?h (Head q) (as @ [y])"
      by (rule linked_frame [OF old(1)])
        (use dis split new [of q] nxt in \<open>auto simp: queue_simps end_loc_def split: list.splits\<close>)
    moreover have "chain ?h (NextOf x) bs"
    proof (cases bs)
      case (Cons b cs)
      have "chain h (NextOf b) cs" using old(2) Cons by simp
      then have "chain ?h (NextOf b) cs"
        by (rule chain_frame) (use Cons dis split new [of q] nxt in \<open>auto simp: queue_simps\<close>)
      then show ?thesis using Cons dis split new [of q] nxt by (auto simp: queue_simps)
    qed (use nxt new [of q] split in \<open>auto simp: queue_simps\<close>)
    ultimately show ?thesis
      using True chain_append [of ?h "Head q" "as @ [y]" "x # bs"]
      by (simp add: end_loc_def queue_simps)
  next
    case False
    have "z \<in> set (Q q) \<Longrightarrow> z \<notin> set (Q q')" for z
      using lists_repD(3) [OF rep, of q q' z] False by auto
    then have "chain ?h (Head q') (Q q')"
      by (intro chain_frame [OF ch [of q']])
        (use new [of q'] False split nxt in \<open>auto simp: queue_simps split: list.splits\<close>)
    then show ?thesis using False by simp
  qed
next
  have d: "distinct (as @ y # x # bs)" using lists_repD(2) [OF rep, of q] split new [of q] by auto
  have s: "z \<in> set (Q q) \<or> (\<forall>q'. z \<notin> set (Q q'))" if "z \<in> set (as @ y # x # bs)" for z
    using that split new by auto
  show "distinct ((Q(q := as @ y # x # bs)) q')" for q'
    by (rule rep_upd_sets(1) [OF rep d s])
  show "set ((Q(q := as @ y # x # bs)) q1) \<inter> set ((Q(q := as @ y # x # bs)) q2) = {}"
    if "q1 \<noteq> q2" for q1 q2
    by (rule rep_upd_sets(2) [OF rep d s that])
qed

lemma rep_remove:
  assumes rep: "lists_rep h Q" and mem: "x \<in> set (Q q)"
  shows "\<exists>h'. LIST_REMOVE x h = Some h' \<and> lists_rep h' (Q(q := remove1 x (Q q)))"
proof -
  note ch = lists_repD(1) [OF rep] and dis = lists_repD(2) [OF rep, of q]
  obtain as bs where split: "Q q = as @ x # bs" using mem by (meson split_list)
  then have rem: "remove1 x (Q q) = as @ bs" using dis by simp
  let ?l = "end_loc (Head q) as"
  have prev: "le_prev h x = Some ?l"
    using chain_prev_mem [of h "Head q" as x bs] ch [of q] split by (simp add: end_loc_def)
  have nxt: "load h (NextOf x) = (case bs of [] \<Rightarrow> None | b # _ \<Rightarrow> Some b)"
    using chain_next [of h "Head q" as x bs] ch [of q] split by simp
  have "load h (NextOf x) \<noteq> Some x" using nxt dis split by (auto split: list.splits)
  then obtain h' where h': "LIST_REMOVE x h = Some h'"
    "\<And>k. load h' k = (if k = ?l then load h (NextOf x) else load h k)"
    "\<And>z. le_prev h' z = (if load h (NextOf x) = Some z then Some ?l else le_prev h z)"
    using remove_some [OF prev] by blast
  have l_in: "?l = Head q \<or> ?l \<in> NextOf ` set as" by (rule end_loc_mem)
  have "lists_rep h' (Q(q := as @ bs))"
  proof (rule lists_repI)
    fix q'
    show "chain h' (Head q') ((Q(q := as @ bs)) q')"
    proof (cases "q' = q")
      case True
      have old: "linked h (Head q) as" "chain h (NextOf x) bs"
        using ch [of q] split by (auto simp: chain_append)
      have "linked h' (Head q) as"
        by (rule linked_frame [OF old(1)]) (use dis split nxt in \<open>auto simp: h' split: list.splits\<close>)
      moreover have "chain h' ?l bs"
      proof (cases bs)
        case (Cons b cs)
        have "chain h (NextOf b) cs" using old(2) Cons by simp
        then have "chain h' (NextOf b) cs"
          by (rule chain_frame) (use Cons dis split nxt l_in in \<open>auto simp: h'\<close>)
        then show ?thesis using Cons nxt by (simp add: h')
      qed (use nxt in \<open>simp add: h'\<close>)
      ultimately show ?thesis using True by (simp add: chain_append)
    next
      case False
      have "z \<in> set (Q q) \<Longrightarrow> z \<notin> set (Q q')" for z
        using lists_repD(3) [OF rep, of q q' z] False by auto
      moreover have "Head q' \<noteq> ?l" "\<And>y. y \<in> set (Q q') \<Longrightarrow> NextOf y \<noteq> ?l"
        using l_in False calculation split by auto
      moreover have "load h (NextOf x) = Some z \<Longrightarrow> z \<in> set (Q q)" for z
        using nxt split by (cases bs) auto
      ultimately have "chain h' (Head q') (Q q')"
        by (intro chain_frame [OF ch [of q']]) (auto simp: h')
      then show ?thesis using False by simp
    qed
  next
    have d: "distinct (as @ bs)" using dis split by simp
    have s: "z \<in> set (Q q) \<or> (\<forall>q'. z \<notin> set (Q q'))" if "z \<in> set (as @ bs)" for z
      using that split by auto
    show "distinct ((Q(q := as @ bs)) q')" for q'
      by (rule rep_upd_sets(1) [OF rep d s])
    show "set ((Q(q := as @ bs)) q1) \<inter> set ((Q(q := as @ bs)) q2) = {}"
      if "q1 \<noteq> q2" for q1 q2
      by (rule rep_upd_sets(2) [OF rep d s that])
  qed
  then show ?thesis using h'(1) rem by auto
qed

lemma rep_insert_before:
  assumes rep: "lists_rep h Q" and split: "Q q = as @ y # bs"
    and new: "\<And>q'. x \<notin> set (Q q')"
  shows "\<exists>h'. LIST_INSERT_BEFORE y x h = Some h' \<and> lists_rep h' (Q(q := as @ x # y # bs))"
proof -
  note ch = lists_repD(1) [OF rep] and dis = lists_repD(2) [OF rep, of q]
  let ?l = "end_loc (Head q) as"
  have prev: "le_prev h y = Some ?l"
    using chain_prev_mem [of h "Head q" as y bs] ch [of q] split by (simp add: end_loc_def)
  have xy: "x \<noteq> y" "x \<notin> set as" "x \<notin> set bs" using new [of q] split by auto
  obtain h' where h': "LIST_INSERT_BEFORE y x h = Some h'"
    "\<And>k. load h' k = (if k = ?l then Some x else if k = NextOf x then Some y else load h k)"
    "\<And>z. le_prev h' z = (if z = y then Some (NextOf x) else if z = x then Some ?l else le_prev h z)"
    using insert_before_some [OF prev xy(1)] by blast
  have l_in: "?l = Head q \<or> ?l \<in> NextOf ` set as" by (rule end_loc_mem)
  have d: "distinct (as @ x # y # bs)" using dis split xy by auto
  have s: "z \<in> set (Q q) \<or> (\<forall>q'. z \<notin> set (Q q'))" if "z \<in> set (as @ x # y # bs)" for z
    using that split new by auto
  have "lists_rep h' (Q(q := as @ x # y # bs))"
  proof (rule lists_repI)
    fix q'
    show "chain h' (Head q') ((Q(q := as @ x # y # bs)) q')"
    proof (cases "q' = q")
      case True
      have old: "linked h (Head q) as" "chain h (NextOf y) bs"
        using ch [of q] split by (auto simp: chain_append)
      have "linked h' (Head q) as"
        by (rule linked_frame [OF old(1)]) (use d xy in \<open>auto simp: h'\<close>)
      moreover have "chain h' (NextOf y) bs"
        by (rule chain_frame [OF old(2)]) (use l_in d xy in \<open>auto simp: h'\<close>)
      moreover have "NextOf x \<noteq> ?l" using l_in xy by auto
      ultimately show ?thesis using True xy by (simp add: chain_append h')
    next
      case False
      have "z \<in> set (Q q) \<Longrightarrow> z \<notin> set (Q q')" for z
        using lists_repD(3) [OF rep, of q q' z] False by auto
      moreover have "Head q' \<noteq> ?l" "\<And>z. z \<in> set (Q q') \<Longrightarrow> NextOf z \<noteq> ?l"
        using l_in False calculation split by auto
      moreover have "y \<notin> set (Q q')" using calculation(1) split by simp
      ultimately have "chain h' (Head q') (Q q')"
        by (intro chain_frame [OF ch [of q']]) (use new [of q'] in \<open>auto simp: h'\<close>)
      then show ?thesis using False by simp
    qed
  qed (use rep_upd_sets [OF rep d s] in \<open>auto simp del: fun_upd_apply\<close>)
  then show ?thesis using h'(1) by blast
qed

lemma rep_det: "lists_rep h Q \<Longrightarrow> lists_rep h Q' \<Longrightarrow> Q = Q'"
  using chain_det by (fastforce simp: lists_rep_def)

lemma rep_foreach:
  "lists_rep h Q \<Longrightarrow> length (Q q) < n \<Longrightarrow> LIST_FOREACH n h (load h (Head q)) = Some (Q q)"
  by (rule foreach_chain) (auto dest: lists_repD)

lemma rep_first: "lists_rep h Q \<Longrightarrow> load h (Head q) = (case Q q of [] \<Rightarrow> None | x # _ \<Rightarrow> Some x)"
  by (rule chain_first) (rule lists_repD(1))

lemma rep_empty: "lists_rep h Q \<Longrightarrow> LIST_EMPTY q h \<longleftrightarrow> Q q = []"
  by (auto simp: LIST_EMPTY_def rep_first split: list.splits)

section \<open>The interface the thread pool uses\<close>

locale node_lists =
  fixes rep :: "'s \<Rightarrow> ('q \<Rightarrow> 'a list) \<Rightarrow> bool"
    and first :: "'q \<Rightarrow> 's \<Rightarrow> 'a option"
    and ins :: "'q \<Rightarrow> 'a \<Rightarrow> 's \<Rightarrow> 's"
    and rem :: "'a \<Rightarrow> 's \<Rightarrow> 's option"
  assumes first_rep: "rep s Q \<Longrightarrow> first q s = (case Q q of [] \<Rightarrow> None | x # _ \<Rightarrow> Some x)"
    and ins_rep: "rep s Q \<Longrightarrow> (\<And>q'. x \<notin> set (Q q')) \<Longrightarrow> rep (ins q x s) (Q(q := x # Q q))"
    and rem_rep: "rep s Q \<Longrightarrow> x \<in> set (Q q) \<Longrightarrow>
                    \<exists>s'. rem x s = Some s' \<and> rep s' (Q(q := remove1 x (Q q)))"
    and rep_distinct: "rep s Q \<Longrightarrow> distinct (Q q)"
    and rep_disjoint: "rep s Q \<Longrightarrow> q \<noteq> q' \<Longrightarrow> x \<in> set (Q q) \<Longrightarrow> x \<notin> set (Q q')"
begin

text \<open>Moving a node to another list, and taking the first node of a list.\<close>

definition move :: "'q \<Rightarrow> 'a \<Rightarrow> 's \<Rightarrow> 's option" where
  "move q' x s = map_option (ins q' x) (rem x s)"

lemma removed_everywhere:
  assumes "rep s Q" "x \<in> set (Q q)"
  shows "x \<notin> set ((Q(q := remove1 x (Q q))) q')"
  using assms rep_distinct [of s Q q] rep_disjoint [of s Q q q' x] by auto

lemma move_rep:
  assumes "rep s Q" "x \<in> set (Q q)" "q \<noteq> q'"
  shows "\<exists>s'. move q' x s = Some s' \<and> rep s' (Q(q := remove1 x (Q q), q' := x # Q q'))"
proof -
  obtain s1 where s1: "rem x s = Some s1" "rep s1 (Q(q := remove1 x (Q q)))"
    using rem_rep [OF assms(1,2)] by blast
  have "rep (ins q' x s1) (Q(q := remove1 x (Q q), q' := x # Q q'))"
    using ins_rep [OF s1(2) removed_everywhere [OF assms(1,2)], of q']
    by (simp only: fun_upd_other [OF assms(3) [symmetric]])
  then show ?thesis using s1(1) by (simp add: move_def)
qed

lemma rem_first:
  assumes "rep s Q" "Q q = x # xs"
  shows "\<exists>s'. rem x s = Some s' \<and> rep s' (Q(q := xs))"
  using rem_rep [OF assms(1), of x q] assms(2) by simp

text \<open>A node put on a list and taken off again leaves the sequences as they were.\<close>

lemma ins_rem:
  assumes "rep s Q" "\<And>q'. x \<notin> set (Q q')"
  shows "\<exists>s'. rem x (ins q x s) = Some s' \<and> rep s' Q"
  using rem_first [OF ins_rep [OF assms, of q], of q x "Q q"] by (simp add: fun_upd_idem)

end

interpretation qh: node_lists lists_rep "\<lambda>q h. load h (Head q)" LIST_INSERT_HEAD LIST_REMOVE
  by unfold_locales
    (rule rep_first rep_insert_head rep_remove lists_repD(2) lists_repD(3); assumption)+

section \<open>Running operations against a specification\<close>

text \<open>A run of operations of which each may fail, a run of steps of a specification, and
  the contract that carries a simulation of single operations over to runs.\<close>

fun run_macros :: "('op \<Rightarrow> 's \<Rightarrow> 's option) \<Rightarrow> 'op list \<Rightarrow> 's \<Rightarrow> 's option" where
  "run_macros step [] s = Some s"
| "run_macros step (op # ops) s = (case step op s of None \<Rightarrow> None | Some s' \<Rightarrow> run_macros step ops s')"

inductive spec_run :: "('op \<Rightarrow> 'b \<Rightarrow> 'b \<Rightarrow> bool) \<Rightarrow> 'op list \<Rightarrow> 'b \<Rightarrow> 'b \<Rightarrow> bool"
  for spec :: "'op \<Rightarrow> 'b \<Rightarrow> 'b \<Rightarrow> bool" where
  nothing: "spec_run spec [] Q Q"
| next_op: "spec op Q Q1 \<Longrightarrow> spec_run spec ops Q1 Q2 \<Longrightarrow> spec_run spec (op # ops) Q Q2"

locale op_refinement =
  fixes rep :: "'s \<Rightarrow> 'b \<Rightarrow> bool"
    and step :: "'op \<Rightarrow> 's \<Rightarrow> 's option"
    and spec :: "'op \<Rightarrow> 'b \<Rightarrow> 'b \<Rightarrow> bool"
  assumes step_simulates: "spec op Q Q' \<Longrightarrow> rep s Q \<Longrightarrow> \<exists>s'. step op s = Some s' \<and> rep s' Q'"
begin

lemma runs_simulate:
  "spec_run spec ops Q Q' \<Longrightarrow> rep s Q \<Longrightarrow> \<exists>s'. run_macros step ops s = Some s' \<and> rep s' Q'"
proof (induction arbitrary: s rule: spec_run.induct)
  case (next_op op Q Q1 ops Q2)
  then show ?case using step_simulates [OF next_op(1) next_op(4)] by fastforce
qed simp

end

section \<open>The macros refine operations on lists\<close>

datatype ('q, 'a) list_op =
    Init 'q
  | InsertHead 'q 'a
  | InsertAfter 'a 'a
  | InsertBefore 'a 'a
  | Remove 'a

fun macro :: "('q, 'a) list_op \<Rightarrow> ('q, 'a) lheap \<Rightarrow> ('q, 'a) lheap option" where
  "macro (Init q) h = Some (LIST_INIT q h)"
| "macro (InsertHead q x) h = Some (LIST_INSERT_HEAD q x h)"
| "macro (InsertAfter y x) h = Some (LIST_INSERT_AFTER y x h)"
| "macro (InsertBefore y x) h = LIST_INSERT_BEFORE y x h"
| "macro (Remove x) h = LIST_REMOVE x h"

text \<open>The specification: sequences of nodes, one for each head, no node on two of them.\<close>

inductive spec_step :: "('q, 'a) list_op \<Rightarrow> ('q \<Rightarrow> 'a list) \<Rightarrow> ('q \<Rightarrow> 'a list) \<Rightarrow> bool" where
  "spec_step (Init q) Q (Q(q := []))"
| "(\<And>q'. x \<notin> set (Q q')) \<Longrightarrow> spec_step (InsertHead q x) Q (Q(q := x # Q q))"
| "Q q = as @ y # bs \<Longrightarrow> (\<And>q'. x \<notin> set (Q q')) \<Longrightarrow> spec_step (InsertAfter y x) Q (Q(q := as @ y # x # bs))"
| "Q q = as @ y # bs \<Longrightarrow> (\<And>q'. x \<notin> set (Q q')) \<Longrightarrow> spec_step (InsertBefore y x) Q (Q(q := as @ x # y # bs))"
| "x \<in> set (Q q) \<Longrightarrow> spec_step (Remove x) Q (Q(q := remove1 x (Q q)))"

lemma macro_simulates:
  assumes "spec_step op Q Q'" "lists_rep h Q"
  shows "\<exists>h'. macro op h = Some h' \<and> lists_rep h' Q'"
  using assms
  by (cases rule: spec_step.cases)
    (auto intro: rep_init rep_insert_head rep_insert_after rep_insert_before rep_remove)

interpretation lm: op_refinement lists_rep macro spec_step
  by unfold_locales (rule macro_simulates)

text \<open>C11: the macros refine operations on sequences.  Whatever macros a program runs, on
  nodes the specification allows (a node inserted is on no list, a node named is on one),
  no pointer that was never set is followed, and the heap they leave stands for the
  sequences the specification leaves: LIST_EMPTY, LIST_FIRST and a LIST_FOREACH with room
  for the list show exactly that sequence.\<close>
theorem list_macros_refine:
  assumes "spec_run spec_step ops Q Q'" "lists_rep h Q" "length (Q' q) < n"
  shows "\<exists>h'. run_macros macro ops h = Some h' \<and> lists_rep h' Q' \<and> LIST_EMPTY q h' = (Q' q = []) \<and>
    load h' (Head q) = (case Q' q of [] \<Rightarrow> None | x # _ \<Rightarrow> Some x) \<and>
    LIST_FOREACH n h' (load h' (Head q)) = Some (Q' q)"
proof -
  obtain h' where h': "run_macros macro ops h = Some h'" "lists_rep h' Q'"
    using lm.runs_simulate [OF assms(1,2)] by blast
  then show ?thesis
    using rep_empty [OF h'(2)] rep_first [OF h'(2)] rep_foreach [of h' Q' q n, OF h'(2) assms(3)] by simp
qed

definition no_lists :: "(nat, nat) lheap" where
  "no_lists = \<lparr>lh_first = (\<lambda>_. None), le_next = (\<lambda>_. None), le_prev = (\<lambda>_. None)\<rparr>"

theorem list_macros_refine_witness:
  "\<exists>h'. run_macros macro [InsertHead 0 1, InsertAfter 1 2, InsertBefore 1 3, Remove 1] no_lists = Some h' \<and>
    LIST_FOREACH 9 h' (load h' (Head 0)) = Some [3, 2]"
proof -
  let ?Q = "\<lambda>_ :: nat. [] :: nat list"
  have rep: "lists_rep no_lists ?Q"
    by (simp add: lists_rep_def no_lists_def load.simps)
  have "spec_step (InsertHead 0 1) ?Q (?Q(0 := [1]))"
    using spec_step.intros(2) [of 1 ?Q 0] by simp
  moreover have "spec_step (InsertAfter 1 2) (?Q(0 := [1])) (?Q(0 := [1, 2]))"
    using spec_step.intros(3) [of "?Q(0 := [1])" 0 "[]" 1 "[]" 2] by simp
  moreover have "spec_step (InsertBefore 1 3) (?Q(0 := [1, 2])) (?Q(0 := [3, 1, 2]))"
    using spec_step.intros(4) [of "?Q(0 := [1, 2])" 0 "[]" 1 "[2]" 3] by simp
  moreover have "spec_step (Remove 1) (?Q(0 := [3, 1, 2])) (?Q(0 := [3, 2]))"
    using spec_step.intros(5) [of 1 "?Q(0 := [3, 1, 2])" 0] by simp
  ultimately have "spec_run spec_step [InsertHead 0 1, InsertAfter 1 2, InsertBefore 1 3, Remove 1] ?Q (?Q(0 := [3, 2]))"
    by (blast intro: spec_run.intros)
  from list_macros_refine [OF this rep, of 0 9] show ?thesis by auto
qed

end
