(* ===== verification/Spinlock.thy ===== *)
theory Spinlock
  imports Prelude
begin

text \<open>
  monitor/src/atomic.h and monitor/src/spinlock.h: compare-and-swap on a long,
  its powerpc form as a load-linked / store-conditional loop, and the
  test-and-test-and-set spinlock.  Threads run the lock code one memory access
  at a time; every interleaving is a path of the step relation \<open>lock_step\<close>.
\<close>

section \<open>Compare and swap\<close>

type_synonym clong = "64 word"

definition compare_and_swap :: "clong \<Rightarrow> clong \<Rightarrow> clong \<Rightarrow> clong \<times> clong" where
  "compare_and_swap mem old new = (mem, if mem = old then new else mem)"

text \<open>
  The powerpc loop.  Each entry of the list is what happens between the load
  and the store conditional: another thread's stores (the last one counts, and
  the reservation is lost), or a spurious failure.  After the list the
  reservation holds.  The result is the value returned and the memory at the end.
\<close>

datatype disturb = OtherStore clong | Spurious

fun store_conditional :: "disturb list \<Rightarrow> clong \<Rightarrow> clong \<Rightarrow> bool \<times> clong \<times> disturb list" where
  "store_conditional [] mem v = (True, v, [])"
| "store_conditional (OtherStore w # ds) mem v = (False, w, ds)"
| "store_conditional (Spurious # ds) mem v = (False, mem, ds)"

fun compare_and_swap_llsc :: "disturb list \<Rightarrow> clong \<Rightarrow> clong \<Rightarrow> clong \<Rightarrow> clong \<times> clong" where
  "compare_and_swap_llsc [] mem old new =
     (if mem \<noteq> old then (mem, mem) else (mem, fst (snd (store_conditional [] mem new))))"
| "compare_and_swap_llsc (d # ds) mem old new =
     (if mem \<noteq> old then (mem, mem)
      else compare_and_swap_llsc ds (fst (snd (store_conditional (d # ds) mem new))) old new)"

text \<open>The memory the loop last loaded from.\<close>

fun last_loaded :: "disturb list \<Rightarrow> clong \<Rightarrow> clong \<Rightarrow> clong" where
  "last_loaded [] mem old = mem"
| "last_loaded (d # ds) mem old =
     (if mem \<noteq> old then mem
      else last_loaded ds (case d of OtherStore w \<Rightarrow> w | Spurious \<Rightarrow> mem) old)"

section \<open>The spinlock\<close>

datatype pc = Idle | Spin | Try | Held

record 't lockst =
  lock_val :: clong
  pcs :: "'t \<Rightarrow> pc"

definition set_pc :: "'t \<Rightarrow> pc \<Rightarrow> 't lockst \<Rightarrow> 't lockst" where
  "set_pc t p s = s\<lparr>pcs := (pcs s)(t := p)\<rparr>"

definition spinlock_init :: "'t lockst" where
  "spinlock_init = \<lparr>lock_val = 0, pcs = (\<lambda>_. Idle)\<rparr>"

text \<open>spinlock_trylock: 0 when the lock was taken, else -1.\<close>

definition spinlock_trylock :: "'t \<Rightarrow> 't lockst \<Rightarrow> cint \<times> 't lockst" where
  "spinlock_trylock t s =
    (let (prev, v) = compare_and_swap (lock_val s) 0 1 in
     if prev = 0 then (0, set_pc t Held (s\<lparr>lock_val := v\<rparr>)) else (-1, s\<lparr>lock_val := v\<rparr>))"

text \<open>One access of spinlock_lock: the inner test loop, then the compare and swap.\<close>

definition spinlock_lock_step :: "'t \<Rightarrow> 't lockst \<Rightarrow> 't lockst" where
  "spinlock_lock_step t s =
    (case pcs s t of
       Idle \<Rightarrow> set_pc t Spin s
     | Spin \<Rightarrow> if lock_val s \<noteq> 0 then s else set_pc t Try s
     | Try \<Rightarrow> (let (prev, v) = compare_and_swap (lock_val s) 0 1 in
               if prev = 0 then set_pc t Held (s\<lparr>lock_val := v\<rparr>)
               else set_pc t Spin (s\<lparr>lock_val := v\<rparr>))
     | Held \<Rightarrow> s)"

definition spinlock_unlock :: "'t \<Rightarrow> 't lockst \<Rightarrow> 't lockst" where
  "spinlock_unlock t s = set_pc t Idle (s\<lparr>lock_val := 0\<rparr>)"

inductive lock_step :: "'t lockst \<Rightarrow> 't lockst \<Rightarrow> bool" where
  acquire: "lock_step s (spinlock_lock_step t s)"
| release: "pcs s t = Held \<Longrightarrow> lock_step s (spinlock_unlock t s)"
| attempt: "pcs s t = Idle \<Longrightarrow> lock_step s (snd (spinlock_trylock t s))"

inductive lock_reach :: "'t lockst \<Rightarrow> bool" where
  start: "lock_reach spinlock_init"
| more: "lock_reach s \<Longrightarrow> lock_step s s' \<Longrightarrow> lock_reach s'"

inductive_cases lock_stepE: "lock_step s s'"

text \<open>The invariant: the word is 1 exactly while one thread is inside, else 0.\<close>

definition holders :: "'t lockst \<Rightarrow> 't set" where
  "holders s = {t. pcs s t = Held}"

definition lock_inv :: "'t lockst \<Rightarrow> bool" where
  "lock_inv s \<longleftrightarrow>
     (lock_val s = 0 \<and> holders s = {}) \<or> (lock_val s = 1 \<and> (\<exists>t. holders s = {t}))"

lemma set_pc_simps [simp]:
  "lock_val (set_pc t p s) = lock_val s" "pcs (set_pc t p s) = (pcs s)(t := p)"
  by (simp_all add: set_pc_def)

lemma holders_set_pc [simp]:
  "holders (set_pc t p s) = (if p = Held then insert t (holders s) else holders s - {t})"
  by (auto simp: holders_def)

lemma holders_val [simp]: "holders (s\<lparr>lock_val := v\<rparr>) = holders s"
  by (simp add: holders_def)

lemma mem_holders: "t \<in> holders s \<longleftrightarrow> pcs s t = Held"
  by (simp add: holders_def)

lemma lock_inv_lock:
  assumes "lock_inv s"
  shows "lock_inv (spinlock_lock_step t s)"
proof (cases "pcs s t = Held")
  case True
  then show ?thesis using assms by (simp add: spinlock_lock_step_def)
next
  case False
  then have "t \<notin> holders s" by (simp add: mem_holders)
  then have "holders s - {t} = holders s" by simp
  then show ?thesis
    using assms False unfolding lock_inv_def spinlock_lock_step_def compare_and_swap_def
    by (cases "pcs s t"; elim disjE conjE) simp_all
qed

lemma lock_inv_unlock: "lock_inv s \<Longrightarrow> pcs s t = Held \<Longrightarrow> lock_inv (spinlock_unlock t s)"
  unfolding lock_inv_def spinlock_unlock_def by (auto simp: mem_holders [symmetric])

lemma lock_inv_trylock:
  assumes "lock_inv s" "pcs s t = Idle"
  shows "lock_inv (snd (spinlock_trylock t s))"
  using assms unfolding lock_inv_def spinlock_trylock_def compare_and_swap_def
  by (elim disjE conjE) simp_all

lemma lock_inv_step: "lock_step s s' \<Longrightarrow> lock_inv s \<Longrightarrow> lock_inv s'"
  by (erule lock_stepE) (auto intro: lock_inv_lock lock_inv_unlock lock_inv_trylock)

lemma lock_inv_reach: "lock_reach s \<Longrightarrow> lock_inv s"
proof (induction rule: lock_reach.induct)
  case start
  show ?case by (simp add: lock_inv_def spinlock_init_def holders_def)
qed (rule lock_inv_step)

section \<open>Properties\<close>

text \<open>C16: mutual exclusion in every interleaving.  In every state the lock code can
  reach, a thread inside the lock is the only one, the word is 1, and any
  other thread's trylock returns -1 and leaves the lock as it was.\<close>
theorem spinlock_mutual_exclusion:
  assumes "lock_reach s" "pcs s t = Held"
  shows "lock_val s = 1 \<and> (\<forall>u. pcs s u = Held \<longrightarrow> u = t) \<and> spinlock_trylock u s = (-1, s)"
proof -
  have "lock_inv s" using assms(1) by (rule lock_inv_reach)
  then obtain "lock_val s = 1" "holders s = {t}"
    using assms(2) unfolding lock_inv_def by (auto simp: mem_holders [symmetric])
  then show ?thesis
    by (auto simp: spinlock_trylock_def compare_and_swap_def mem_holders [symmetric])
qed

theorem spinlock_mutual_exclusion_witness:
  "let s = spinlock_lock_step 1 (spinlock_lock_step 2 (spinlock_lock_step 1
             (spinlock_lock_step 1 (spinlock_init :: nat lockst))))
   in pcs s 1 = Held \<and> pcs s 2 = Spin \<and> lock_val s = 1 \<and> spinlock_trylock 2 s = (-1, s)"
proof -
  let ?s = "spinlock_lock_step 1 (spinlock_lock_step 2 (spinlock_lock_step 1
             (spinlock_lock_step 1 (spinlock_init :: nat lockst))))"
  have r: "lock_reach ?s"
    by (intro lock_reach.more [OF _ lock_step.acquire] lock_reach.start)
  have h: "pcs ?s 1 = Held" "pcs ?s 2 = Spin"
    by (simp_all add: spinlock_lock_step_def spinlock_init_def compare_and_swap_def)
  show ?thesis
    using spinlock_mutual_exclusion [OF r h(1), of 2] h unfolding Let_def by blast
qed

text \<open>No lost wake-up.  When the holder unlocks, a thread spinning in the inner
  loop leaves it and takes the lock with its next two accesses.\<close>
lemma spinlock_handover:
  assumes "lock_reach s" "pcs s t = Held" "pcs s u = Spin"
  shows "pcs (spinlock_lock_step u (spinlock_lock_step u (spinlock_unlock t s))) u = Held"
proof -
  have "u \<noteq> t" using assms by auto
  then show ?thesis
    using assms(3) by (simp add: spinlock_lock_step_def spinlock_unlock_def compare_and_swap_def)
qed

text \<open>The powerpc load-linked / store-conditional loop is a compare and swap on the
  memory it last loaded, whatever other threads store in between, and it ends.\<close>
lemma llsc_is_compare_and_swap:
  "compare_and_swap_llsc ds mem old new = compare_and_swap (last_loaded ds mem old) old new"
  by (induction ds arbitrary: mem) (auto simp: compare_and_swap_def split: disturb.splits)

end
