(* ===== verification/SigString.thy ===== *)
theory SigString
  imports Prelude
begin

text \<open>
  monitor/src/utils.c: a signal set, or a list of signals ended by a value that
  is not positive, printed as ranges into a buffer of a given size.  The buffer
  is modelled by the string it holds up to its NUL byte, and a run of
  consecutive signals is one item.
\<close>

definition SIG_ITEM_SIZE :: nat where "SIG_ITEM_SIZE = 15"
definition MONITOR_NSIG :: nat where "MONITOR_NSIG = 65"

section \<open>Items\<close>

text \<open>The sprintf of one run.\<close>

definition sig_item :: "nat \<Rightarrow> nat \<Rightarrow> string" where
  "sig_item first sig =
    (if sig > first then '' '' @ dec first @ ''-'' @ dec sig @ '',''
     else '' '' @ dec sig @ '','')"

definition and_more :: string where "and_more = '' and more''"

text \<open>buf[(pos > 0) ? pos - 1 : 0] = 0\<close>

definition close_string :: "string \<Rightarrow> string" where
  "close_string buf = take (if length buf > 0 then length buf - 1 else 0) buf"

section \<open>monitor_sigset_string\<close>

function (sequential) run_end :: "(nat \<Rightarrow> bool) \<Rightarrow> nat \<Rightarrow> nat" where
  "run_end S sig =
     (if sig + 1 < MONITOR_NSIG \<and> S (sig + 1) then run_end S (sig + 1) else sig)"
  by pat_completeness auto
termination by (relation "measure (\<lambda>(S, sig). MONITOR_NSIG - sig)") auto

declare run_end.simps [simp del]

lemma run_end_ge: "sig \<le> run_end S sig"
proof (induction S sig rule: run_end.induct)
  case (1 S sig)
  then show ?case by (subst run_end.simps) auto
qed

function (sequential) sigset_loop ::
  "(nat \<Rightarrow> bool) \<Rightarrow> nat \<Rightarrow> nat \<Rightarrow> string \<Rightarrow> nat \<Rightarrow> int \<Rightarrow> string \<times> int" where
  "sigset_loop S bsize sig buf prev num_sigs =
    (if \<not> sig < MONITOR_NSIG then (close_string buf, num_sigs)
     else if \<not> S sig then sigset_loop S bsize (sig + 1) buf prev num_sigs
     else if length buf + SIG_ITEM_SIZE > bsize then (take prev buf @ and_more, -1)
     else let sig2 = run_end S sig
          in sigset_loop S bsize (sig2 + 1) (buf @ sig_item sig sig2) (length buf)
               (num_sigs + (int sig2 - int sig) + 1))"
  by pat_completeness auto
termination
proof (relation "measure (\<lambda>(S, bsize, sig, buf, prev, n). MONITOR_NSIG - sig)", goal_cases)
  case (3 S bsize sig buf prev n sig2)
  then show ?case using run_end_ge [of sig S] by auto
qed auto

declare sigset_loop.simps [simp del]

text \<open>Outer None is buf == NULL, inner None is set == NULL; the first result is the buffer.\<close>

definition monitor_sigset_string ::
  "bool \<Rightarrow> nat \<Rightarrow> (nat \<Rightarrow> bool) option \<Rightarrow> string option \<times> int" where
  "monitor_sigset_string buf_null bsize sset =
    (if buf_null then (None, -1)
     else if bsize < SIG_ITEM_SIZE then (Some [], -1)
     else case sset of
            None \<Rightarrow> (Some '' (null)'', 0)
          | Some S \<Rightarrow> (let (b, n) = sigset_loop S bsize 1 [] 0 0 in (Some b, n)))"

section \<open>monitor_signal_list_string\<close>

text \<open>The inner loop: the run's last signal and the rest of the list; None when the
  list has no element left to read.\<close>

fun list_run :: "int \<Rightarrow> int list \<Rightarrow> (int \<times> int list) option" where
  "list_run sig [] = None"
| "list_run sig (x # xs) = (if x = sig + 1 then list_run x xs else Some (sig, x # xs))"

lemma list_run_length: "list_run sig xs = Some (l, ys) \<Longrightarrow> length ys \<le> length xs"
  by (induction sig xs rule: list_run.induct) (auto split: if_splits)

function (sequential) siglist_loop ::
  "int list \<Rightarrow> nat \<Rightarrow> string \<Rightarrow> nat \<Rightarrow> int \<Rightarrow> (string \<times> int) option" where
  "siglist_loop [] bsize buf prev num_sigs = None"
| "siglist_loop (sig # rest) bsize buf prev num_sigs =
    (if \<not> sig > 0 then Some (close_string buf, num_sigs)
     else if length buf + SIG_ITEM_SIZE > bsize then Some (take prev buf @ and_more, -1)
     else case list_run sig rest of
            None \<Rightarrow> None
          | Some (sig2, rest') \<Rightarrow>
              siglist_loop rest' bsize (buf @ sig_item (nat sig) (nat sig2)) (length buf)
                (num_sigs + (sig2 - sig) + 1))"
  by pat_completeness auto
termination
  by (relation "measure (\<lambda>(xs, bsize, buf, prev, n). length xs)")
    (auto dest!: list_run_length)

definition monitor_signal_list_string ::
  "bool \<Rightarrow> nat \<Rightarrow> int list option \<Rightarrow> (string option \<times> int) option" where
  "monitor_signal_list_string buf_null bsize lst =
    (if buf_null then Some (None, -1)
     else if bsize < SIG_ITEM_SIZE then Some (Some [], -1)
     else case lst of
            None \<Rightarrow> Some (Some '' (null)'', 0)
          | Some xs \<Rightarrow> map_option (\<lambda>(b, n). (Some b, n)) (siglist_loop xs bsize [] 0 0))"

section \<open>What the printed string says\<close>

type_synonym run = "nat \<times> nat"

definition print_runs :: "run list \<Rightarrow> string" where
  "print_runs rs = concat (map (\<lambda>(a, c). sig_item a c) rs)"

definition run_sigs :: "run list \<Rightarrow> nat set" where
  "run_sigs rs = (\<Union>(a, c) \<in> set rs. {a..c})"

text \<open>Runs in increasing order from lo on, with a signal missing between two of them.\<close>

fun maximal_runs :: "nat \<Rightarrow> run list \<Rightarrow> bool" where
  "maximal_runs lo [] = True"
| "maximal_runs lo ((a, c) # rs) = (lo \<le> a \<and> a \<le> c \<and> maximal_runs (c + 2) rs)"

lemma print_runs_simps [simp]:
  "print_runs [] = []" "print_runs ((a, c) # rs) = sig_item a c @ print_runs rs"
  by (simp_all add: print_runs_def)

lemma run_sigs_simps [simp]:
  "run_sigs [] = {}" "run_sigs ((a, c) # rs) = {a..c} \<union> run_sigs rs"
  by (auto simp: run_sigs_def)

lemma maximal_runs_ge: "maximal_runs lo rs \<Longrightarrow> s \<in> run_sigs rs \<Longrightarrow> lo \<le> s"
  by (induction lo rs rule: maximal_runs.induct) force+

lemma maximal_runs_mono: "maximal_runs lo rs \<Longrightarrow> lo' \<le> lo \<Longrightarrow> maximal_runs lo' rs"
  by (cases rs) auto

lemma finite_run_sigs [simp]: "finite (run_sigs rs)"
  by (auto simp: run_sigs_def)

lemma sig_item_length:
  assumes "a \<le> c" "c < 10 ^ k" "0 < k"
  shows "length (sig_item a c) \<le> 2 * k + 3"
  using dec_length_le [of a k] dec_length_le [of c k] assms by (simp add: sig_item_def)

lemma run_end_props:
  "sig < MONITOR_NSIG \<Longrightarrow> S sig \<Longrightarrow>
   run_end S sig < MONITOR_NSIG \<and> (\<forall>s \<in> {sig..run_end S sig}. S s) \<and>
   (run_end S sig + 1 < MONITOR_NSIG \<longrightarrow> \<not> S (run_end S sig + 1))"
proof (induction S sig rule: run_end.induct)
  case (1 S sig)
  show ?case
  proof (cases "sig + 1 < MONITOR_NSIG \<and> S (sig + 1)")
    case True
    have eq: "run_end S sig = run_end S (sig + 1)" using True by (subst run_end.simps) simp
    have "{sig..run_end S (sig + 1)} = insert sig {sig + 1..run_end S (sig + 1)}"
      using run_end_ge [of "sig + 1" S] by auto
    then show ?thesis using 1 True unfolding eq by auto
  next
    case False
    then have "run_end S sig = sig" by (subst run_end.simps) auto
    then show ?thesis using 1 False by simp
  qed
qed

text \<open>The loop writes only inside the buffer.\<close>

lemma sigset_loop_bounds:
  assumes "sigset_loop S bsize sig buf prev n = (b, m)"
    and "length buf < bsize" "prev + SIG_ITEM_SIZE \<le> bsize"
  shows "length b < bsize"
  using assms
proof (induction S bsize sig buf prev n rule: sigset_loop.induct)
  case (1 S bsize sig buf prev n)
  show ?case
  proof (cases "sig < MONITOR_NSIG \<and> S sig \<and> length buf + SIG_ITEM_SIZE \<le> bsize")
    case True
    let ?e = "run_end S sig"
    have "length (sig_item sig ?e) \<le> 7"
      using sig_item_length [of sig ?e 2] run_end_ge [of sig S] run_end_props [of sig S] True
      by (simp add: MONITOR_NSIG_def)
    then show ?thesis
      using True "1.prems" "1.IH"(2) [of ?e]
      by (subst (asm) sigset_loop.simps) (simp add: Let_def SIG_ITEM_SIZE_def)
  next
    case False
    then show ?thesis
      using "1.prems" "1.IH"(1)
      by (subst (asm) sigset_loop.simps)
        (auto simp: close_string_def and_more_def SIG_ITEM_SIZE_def split: if_splits)
  qed
qed

lemma sigset_loop_runs:
  assumes "sigset_loop S bsize sig buf prev n = (b, m)" "0 \<le> n" "m \<noteq> -1"
  shows "\<exists>rs. b = close_string (buf @ print_runs rs) \<and> maximal_runs sig rs \<and>
           run_sigs rs = {s. sig \<le> s \<and> s < MONITOR_NSIG \<and> S s} \<and>
           m = n + int (card (run_sigs rs))"
  using assms
proof (induction S bsize sig buf prev n rule: sigset_loop.induct)
  case (1 S bsize sig buf prev n)
  consider (fin) "\<not> sig < MONITOR_NSIG" | (skip) "sig < MONITOR_NSIG" "\<not> S sig"
    | (full) "sig < MONITOR_NSIG" "S sig" "length buf + SIG_ITEM_SIZE > bsize"
    | (item) "sig < MONITOR_NSIG" "S sig" "length buf + SIG_ITEM_SIZE \<le> bsize" by linarith
  then show ?case
  proof cases
    case fin
    then show ?thesis using "1.prems" by (subst (asm) sigset_loop.simps) (intro exI [of _ "[]"], auto)
  next
    case skip
    then have "sigset_loop S bsize (sig + 1) buf prev n = (b, m)"
      using "1.prems" by (subst (asm) sigset_loop.simps) simp
    with skip "1.prems" "1.IH"(1) obtain rs where
      rs: "b = close_string (buf @ print_runs rs)" "maximal_runs (sig + 1) rs"
        "run_sigs rs = {s. sig + 1 \<le> s \<and> s < MONITOR_NSIG \<and> S s}"
        "m = n + int (card (run_sigs rs))" by blast
    have "{s. sig + 1 \<le> s \<and> s < MONITOR_NSIG \<and> S s} = {s. sig \<le> s \<and> s < MONITOR_NSIG \<and> S s}"
      using skip by (auto simp: Suc_le_eq) (metis le_neq_implies_less)
    then show ?thesis using rs maximal_runs_mono [OF rs(2), of sig] by auto
  next
    case full
    then show ?thesis using "1.prems" by (subst (asm) sigset_loop.simps) simp
  next
    case item
    let ?e = "run_end S sig"
    note e = run_end_ge [of sig S] run_end_props [of sig S, OF item(1,2)]
    have "sigset_loop S bsize (?e + 1) (buf @ sig_item sig ?e) (length buf) (n + (int ?e - int sig) + 1)
        = (b, m)" using item "1.prems" by (subst (asm) sigset_loop.simps) (simp add: Let_def)
    with item "1.prems" e(1) "1.IH"(2) [of ?e] obtain rs where
      rs: "b = close_string ((buf @ sig_item sig ?e) @ print_runs rs)" "maximal_runs (?e + 1) rs"
        "run_sigs rs = {s. ?e + 1 \<le> s \<and> s < MONITOR_NSIG \<and> S s}"
        "m = n + (int ?e - int sig) + 1 + int (card (run_sigs rs))" by auto
    have sets: "{sig..?e} \<union> run_sigs rs = {s. sig \<le> s \<and> s < MONITOR_NSIG \<and> S s}"
    proof (rule set_eqI)
      fix s
      have "S s" "s < MONITOR_NSIG" if "sig \<le> s" "s \<le> ?e" using e(2) that by auto
      then show "s \<in> {sig..?e} \<union> run_sigs rs \<longleftrightarrow> s \<in> {s. sig \<le> s \<and> s < MONITOR_NSIG \<and> S s}"
        unfolding rs(3) using e(1) by (cases "s \<le> ?e") auto
    qed
    have "maximal_runs (?e + 2) rs"
    proof (cases rs)
      case (Cons r rs')
      obtain a c where r: "r = (a, c)" by (cases r)
      have "a \<in> run_sigs rs" using rs(2) Cons r by simp
      then have "a \<noteq> ?e + 1" using e(2) rs(3) by auto
      then show ?thesis using rs(2) Cons r by simp
    qed simp
    moreover have "{sig..?e} \<inter> run_sigs rs = {}" unfolding rs(3) by auto
    then have "card ({sig..?e} \<union> run_sigs rs) = (?e + 1 - sig) + card (run_sigs rs)"
      using card_Un_disjoint [of "{sig..?e}" "run_sigs rs"] by simp
    ultimately show ?thesis
      using rs(1,4) e(1) sets
      by (intro exI [of _ "(sig, ?e) # rs"]) (simp add: of_nat_diff)
  qed
qed

text \<open>Enough room for seven characters a signal, and nothing is cut off.\<close>

lemma sigset_loop_complete:
  assumes "sigset_loop S bsize sig buf prev n = (b, m)"
    and "0 \<le> n" "length buf + 7 * (MONITOR_NSIG - sig) + 8 \<le> bsize"
  shows "0 \<le> m"
  using assms
proof (induction S bsize sig buf prev n rule: sigset_loop.induct)
  case (1 S bsize sig buf prev n)
  consider (fin) "\<not> sig < MONITOR_NSIG" | (skip) "sig < MONITOR_NSIG" "\<not> S sig"
    | (item) "sig < MONITOR_NSIG" "S sig" by blast
  then show ?case
  proof cases
    case fin
    then show ?thesis using "1.prems" by (subst (asm) sigset_loop.simps) simp
  next
    case skip
    then show ?thesis using "1.prems" "1.IH"(1) by (subst (asm) sigset_loop.simps) simp
  next
    case item
    let ?e = "run_end S sig"
    have e: "sig \<le> ?e" "?e < MONITOR_NSIG" "length (sig_item sig ?e) \<le> 7"
      using run_end_ge [of sig S] run_end_props [of sig S, OF item] sig_item_length [of sig ?e 2]
      by (auto simp: MONITOR_NSIG_def)
    then have room: "length buf + SIG_ITEM_SIZE \<le> bsize"
      using "1.prems"(3) item(1) by (simp add: SIG_ITEM_SIZE_def)
    have "sigset_loop S bsize (?e + 1) (buf @ sig_item sig ?e) (length buf) (n + (int ?e - int sig) + 1)
        = (b, m)" using item room "1.prems" by (subst (asm) sigset_loop.simps) (simp add: Let_def)
    then show ?thesis using "1.IH"(2) [of ?e] item room "1.prems" e by simp
  qed
qed

definition MONITOR_SIG_BUF_SIZE :: nat where "MONITOR_SIG_BUF_SIZE = 500"

section \<open>Properties\<close>

text \<open>C21: a signal set printed into the buffer of the size the callers use.  The string fits,
  the result is the number of signals in the set (never -1), and the string is the
  maximal runs of the set in increasing order, each printed as an item, the last comma
  cut off.\<close>
theorem sigset_string_lists_set:
  "\<exists>b rs. monitor_sigset_string False MONITOR_SIG_BUF_SIZE (Some S) =
      (Some b, int (card {s. 1 \<le> s \<and> s < MONITOR_NSIG \<and> S s})) \<and>
    length b < MONITOR_SIG_BUF_SIZE \<and> b = close_string (print_runs rs) \<and> maximal_runs 1 rs \<and>
    run_sigs rs = {s. 1 \<le> s \<and> s < MONITOR_NSIG \<and> S s}"
proof -
  obtain b m where l: "sigset_loop S MONITOR_SIG_BUF_SIZE 1 [] 0 0 = (b, m)" by fastforce
  have "0 \<le> m" by (rule sigset_loop_complete [OF l]) (simp_all add: MONITOR_SIG_BUF_SIZE_def MONITOR_NSIG_def)
  then have m: "m \<noteq> -1" by simp
  obtain rs where "b = close_string (print_runs rs)" "maximal_runs 1 rs"
      "run_sigs rs = {s. 1 \<le> s \<and> s < MONITOR_NSIG \<and> S s}" "m = int (card (run_sigs rs))"
    using sigset_loop_runs [OF l order.refl m] by auto
  moreover have "length b < MONITOR_SIG_BUF_SIZE"
    by (rule sigset_loop_bounds [OF l]) (simp_all add: MONITOR_SIG_BUF_SIZE_def SIG_ITEM_SIZE_def)
  moreover have "monitor_sigset_string False MONITOR_SIG_BUF_SIZE (Some S) = (Some b, m)"
    using l by (simp add: monitor_sigset_string_def MONITOR_SIG_BUF_SIZE_def SIG_ITEM_SIZE_def)
  ultimately show ?thesis by (intro exI conjI) simp_all
qed

end
