(* ===== verification/Signal.thy ===== *)
theory Signal
  imports Prelude CString SigString
begin

unbundle bit_operations_syntax

text \<open>
  monitor/src/signal.c: the table of signals, the handler the monitor installs
  for every signal, the client's and the application's sigaction, the masks of
  the application with the client's signals taken out, and the choice of the
  signal for thread shootdown.  The kernel's table of actions and the mask of
  the thread are part of the state; calls whose effect is outside (handlers,
  raise, the end-of-process functions) are events in the order of the code.
\<close>

section \<open>Data\<close>

definition SIGILL :: nat where "SIGILL = 4"
definition SIGABRT :: nat where "SIGABRT = 6"
definition SIGBUS :: nat where "SIGBUS = 7"
definition SIGKILL :: nat where "SIGKILL = 9"
definition SIGUSR1 :: nat where "SIGUSR1 = 10"
definition SIGSEGV :: nat where "SIGSEGV = 11"
definition SIGUSR2 :: nat where "SIGUSR2 = 12"
definition SIGPIPE :: nat where "SIGPIPE = 13"
definition SIGCHLD :: nat where "SIGCHLD = 17"
definition SIGCONT :: nat where "SIGCONT = 18"
definition SIGSTOP :: nat where "SIGSTOP = 19"
definition SIGTSTP :: nat where "SIGTSTP = 20"
definition SIGTTIN :: nat where "SIGTTIN = 21"
definition SIGTTOU :: nat where "SIGTTOU = 22"
definition SIGURG :: nat where "SIGURG = 23"
definition SIGWINCH :: nat where "SIGWINCH = 28"
definition SIGPWR :: nat where "SIGPWR = 30"

lemmas signum_defs = SIGILL_def SIGABRT_def SIGBUS_def SIGKILL_def SIGUSR1_def SIGSEGV_def
  SIGUSR2_def SIGPIPE_def SIGCHLD_def SIGCONT_def SIGSTOP_def SIGTSTP_def SIGTTIN_def
  SIGTTOU_def SIGURG_def SIGWINCH_def SIGPWR_def MONITOR_NSIG_def

type_synonym saflags = "32 word"
type_synonym sigset = "nat set"

definition SA_SIGINFO :: saflags where "SA_SIGINFO = 4"
definition SA_ONSTACK :: saflags where "SA_ONSTACK = 0x08000000"
definition SA_RESTART :: saflags where "SA_RESTART = 0x10000000"
definition SA_RESETHAND :: saflags where "SA_RESETHAND = 0x80000000"

definition SAFLAGS_REQUIRED :: saflags where
  "SAFLAGS_REQUIRED = SA_SIGINFO OR SA_RESTART"

definition SAFLAGS_FORBIDDEN :: saflags where
  "SAFLAGS_FORBIDDEN = SA_RESETHAND OR SA_ONSTACK"

lemmas saflags_defs = SAFLAGS_REQUIRED_def SAFLAGS_FORBIDDEN_def
  SA_SIGINFO_def SA_ONSTACK_def SA_RESTART_def SA_RESETHAND_def

text \<open>A disposition: default, ignore, the monitor's handler, or a function of the program.\<close>

datatype disposition = SIG_DFL | SIG_IGN | MonitorHandler | HandlerFn nat

record sigact =
  sa_handler :: disposition
  sa_flags :: saflags
  sa_mask :: sigset

definition zero_sigact :: sigact where
  "zero_sigact = \<lparr>sa_handler = SIG_DFL, sa_flags = 0, sa_mask = {}\<rparr>"

record monitor_signal_entry =
  mse_appl_act :: sigact
  mse_kern_act :: sigact
  mse_client_handler :: "nat option"
  mse_client_flags :: int
  mse_avoid :: bool
  mse_invalid :: bool
  mse_noterm :: bool
  mse_noraise :: bool
  mse_stop :: bool
  mse_blocked :: bool
  mse_appl_hand :: bool
  mse_keep_open :: bool

definition zero_entry :: monitor_signal_entry where
  "zero_entry = \<lparr>mse_appl_act = zero_sigact, mse_kern_act = zero_sigact,
     mse_client_handler = None, mse_client_flags = 0, mse_avoid = False,
     mse_invalid = False, mse_noterm = False, mse_noraise = False, mse_stop = False,
     mse_blocked = False, mse_appl_hand = False, mse_keep_open = False\<rparr>"

definition monitor_signal_avoid_list :: "nat list" where
  "monitor_signal_avoid_list = [SIGKILL, SIGSTOP]"

definition monitor_signal_noterm_list :: "nat list" where
  "monitor_signal_noterm_list = [SIGCHLD, SIGCONT, SIGURG, SIGWINCH]"

definition monitor_signal_noraise_list :: "nat list" where
  "monitor_signal_noraise_list = [SIGSEGV, SIGBUS, SIGILL]"

definition monitor_signal_stop_list :: "nat list" where
  "monitor_signal_stop_list = [SIGTSTP, SIGTTIN, SIGTTOU]"

definition monitor_extra_list :: "nat list" where
  "monitor_extra_list = [SIGUSR2, SIGUSR1, SIGPWR, SIGURG, SIGPIPE]"

definition last_resort_signal :: nat where
  "last_resort_signal = SIGWINCH"

text \<open>What the host fixes: the build's --enable-client-signals list, SIGRTMIN, the
  signals the kernel's sigaction refuses, and the environment variable.\<close>

record sigsys =
  monitor_signal_open_list :: "int list"
  sigrtmin :: nat
  sys_refuses :: "nat \<Rightarrow> bool"
  shootdown_env :: "string option"

datatype sigev =
    ClientHandler nat nat
  | ApplSigaction nat nat
  | ApplHandler nat nat
  | Raise nat
  | EndProcess
  | EndLibrary
  | InvalidSignalWarning int
  | HandlerReentered nat

record sigst =
  signal_init_done :: bool
  monitor_signal_array :: "nat \<Rightarrow> monitor_signal_entry"
  monitor_shootdown_list :: "nat list"
  shootdown_signal :: int
  kern_table :: "nat \<Rightarrow> sigact"
  proc_mask :: sigset
  sig_trace :: "sigev list"

abbreviation mse :: "nat \<Rightarrow> sigst \<Rightarrow> monitor_signal_entry" where
  "mse sig s \<equiv> monitor_signal_array s sig"

definition upd_mse ::
  "nat \<Rightarrow> (monitor_signal_entry \<Rightarrow> monitor_signal_entry) \<Rightarrow> sigst \<Rightarrow> sigst" where
  "upd_mse sig f s =
     s\<lparr>monitor_signal_array := (monitor_signal_array s)(sig := f (monitor_signal_array s sig))\<rparr>"

definition sig_emit :: "sigev \<Rightarrow> sigst \<Rightarrow> sigst" where
  "sig_emit e s = s\<lparr>sig_trace := sig_trace s @ [e]\<rparr>"

section \<open>The system calls\<close>

text \<open>sigaction(2) as documented: the old action, and the new one installed, or -1.\<close>

definition real_sigaction ::
  "sigsys \<Rightarrow> nat \<Rightarrow> sigact option \<Rightarrow> sigst \<Rightarrow> (int \<times> sigact) \<times> sigst" where
  "real_sigaction sys sig act s =
    (if sys_refuses sys sig then ((-1, zero_sigact), s)
     else ((0, kern_table s sig),
           case act of None \<Rightarrow> s | Some a \<Rightarrow> s\<lparr>kern_table := (kern_table s)(sig := a)\<rparr>))"

datatype sighow = SIG_BLOCK | SIG_UNBLOCK | SIG_SETMASK

definition real_sigprocmask :: "sighow \<Rightarrow> sigset option \<Rightarrow> sigst \<Rightarrow> sigset \<times> sigst" where
  "real_sigprocmask how new s =
    (proc_mask s,
     case new of
       None \<Rightarrow> s
     | Some m \<Rightarrow> s\<lparr>proc_mask :=
         (case how of SIG_BLOCK \<Rightarrow> proc_mask s \<union> m
                    | SIG_UNBLOCK \<Rightarrow> proc_mask s - m
                    | SIG_SETMASK \<Rightarrow> m)\<rparr>)"

section \<open>monitor_signal_init\<close>

definition mark_avoid :: "sigst \<Rightarrow> sigst" where
  "mark_avoid s = fold (\<lambda>sig. upd_mse sig (\<lambda>e. e\<lparr>mse_avoid := True\<rparr>)) monitor_signal_avoid_list s"

definition mark_noterm :: "sigst \<Rightarrow> sigst" where
  "mark_noterm s = fold (\<lambda>sig. upd_mse sig (\<lambda>e. e\<lparr>mse_noterm := True\<rparr>)) monitor_signal_noterm_list s"

definition mark_noraise :: "sigst \<Rightarrow> sigst" where
  "mark_noraise s = fold (\<lambda>sig. upd_mse sig (\<lambda>e. e\<lparr>mse_noraise := True\<rparr>)) monitor_signal_noraise_list s"

definition mark_stop :: "sigst \<Rightarrow> sigst" where
  "mark_stop s = fold (\<lambda>sig. upd_mse sig (\<lambda>e. e\<lparr>mse_stop := True\<rparr>)) monitor_signal_stop_list s"

definition mark_open :: "sigsys \<Rightarrow> sigst \<Rightarrow> sigst" where
  "mark_open sys s =
     fold (\<lambda>sig s. if 1 \<le> sig \<and> sig < int MONITOR_NSIG
                   then upd_mse (nat sig) (\<lambda>e. e\<lparr>mse_keep_open := True\<rparr>) s else s)
       (takeWhile (\<lambda>sig. sig > 0) (monitor_signal_open_list sys)) s"

definition install_handler :: "sigsys \<Rightarrow> nat \<Rightarrow> sigst \<Rightarrow> sigst" where
  "install_handler sys sig s =
    (if mse_avoid (mse sig s) then s
     else let sa = \<lparr>sa_handler = MonitorHandler, sa_flags = SAFLAGS_REQUIRED, sa_mask = {}\<rparr>;
              s1 = upd_mse sig (\<lambda>e. e\<lparr>mse_kern_act := sa\<rparr>) s;
              ((ret, old), s2) = real_sigaction sys sig (Some sa) s1
          in if ret = 0 then upd_mse sig (\<lambda>e. e\<lparr>mse_appl_act := old\<rparr>) s2
             else upd_mse sig (\<lambda>e. e\<lparr>mse_invalid := True\<rparr>) s2)"

definition install_all :: "sigsys \<Rightarrow> sigst \<Rightarrow> sigst" where
  "install_all sys s = fold (install_handler sys) [1..<MONITOR_NSIG] s"

definition shootdown_ok :: "sigst \<Rightarrow> nat \<Rightarrow> bool" where
  "shootdown_ok s sig \<longleftrightarrow>
     \<not> mse_avoid (mse sig s) \<and> \<not> mse_invalid (mse sig s) \<and>
     \<not> mse_stop (mse sig s) \<and> \<not> mse_keep_open (mse sig s)"

definition build_shootdown_list :: "sigsys \<Rightarrow> sigst \<Rightarrow> sigst" where
  "build_shootdown_list sys s =
    s\<lparr>monitor_shootdown_list :=
        filter (\<lambda>sig. sig < MONITOR_NSIG \<and> shootdown_ok s sig)
          (map (\<lambda>i. sigrtmin sys + i) [6..<14])
        @ filter (shootdown_ok s) monitor_extra_list
        @ [last_resort_signal]\<rparr>"

definition shootdown_from_env :: "sigsys \<Rightarrow> sigst \<Rightarrow> sigst" where
  "shootdown_from_env sys s =
    (case shootdown_env sys of
       None \<Rightarrow> s
     | Some str \<Rightarrow>
         let s1 = s\<lparr>shootdown_signal := -1\<rparr>
         in case scan_int str of
              None \<Rightarrow> s1
            | Some sig \<Rightarrow>
                if sig > 0 \<and> sig < int MONITOR_NSIG
                   \<and> \<not> mse_avoid (mse (nat sig) s1) \<and> \<not> mse_invalid (mse (nat sig) s1)
                   \<and> \<not> mse_stop (mse (nat sig) s1)
                then upd_mse (nat sig) (\<lambda>e. e\<lparr>mse_keep_open := True\<rparr>) (s1\<lparr>shootdown_signal := sig\<rparr>)
                else s1)"

definition monitor_signal_init :: "sigsys \<Rightarrow> sigst \<Rightarrow> sigst" where
  "monitor_signal_init sys s =
    (if signal_init_done s then s
     else let s0 = s\<lparr>signal_init_done := True, monitor_signal_array := (\<lambda>_. zero_entry)\<rparr>;
              s1 = mark_open sys (mark_stop (mark_noraise (mark_noterm (mark_avoid s0))));
              s2 = install_all sys s1
          in shootdown_from_env sys (build_shootdown_list sys s2))"

section \<open>monitor_remove_client_signals\<close>

text \<open>The search: the first unblocked signal of the list, and the first that is also
  outside the set (where the loop breaks).\<close>

fun find_avail :: "sigst \<Rightarrow> sigset \<Rightarrow> nat list \<Rightarrow> int \<Rightarrow> int \<times> int" where
  "find_avail s sset [] old_avail = (old_avail, -1)"
| "find_avail s sset (sig # sigs) old_avail =
    (if \<not> mse_blocked (mse sig s) then
       (let old_avail' = (if old_avail < 0 then int sig else old_avail) in
        if sig \<notin> sset then (old_avail', int sig)
        else find_avail s sset sigs old_avail')
     else find_avail s sset sigs old_avail)"

definition choose_open_signal :: "sigset \<Rightarrow> sigst \<Rightarrow> sigst" where
  "choose_open_signal sset s =
    (if shootdown_signal s < 0 then
       (let (old_avail, new_avail) = find_avail s sset (monitor_shootdown_list s) (-1) in
        if old_avail > 0 \<and> new_avail < 0
        then upd_mse (nat old_avail) (\<lambda>e. e\<lparr>mse_keep_open := True\<rparr>)
               (s\<lparr>shootdown_signal := old_avail\<rparr>)
        else s)
     else s)"

definition strip_signal :: "nat \<Rightarrow> sigset \<times> sigst \<Rightarrow> sigset \<times> sigst" where
  "strip_signal sig ms =
    (let (sset, s) = ms in
     if \<not> mse_avoid (mse sig s) \<and> \<not> mse_invalid (mse sig s) then
       if mse_keep_open (mse sig s) then (sset - {sig}, s)
       else if sig \<in> sset then (sset, upd_mse sig (\<lambda>e. e\<lparr>mse_blocked := True\<rparr>) s)
       else (sset, s)
     else (sset, s))"

definition monitor_remove_client_signals :: "sigset \<Rightarrow> sigst \<Rightarrow> sigset \<times> sigst" where
  "monitor_remove_client_signals sset s =
     fold strip_signal [1..<MONITOR_NSIG] (sset, choose_open_signal sset s)"

definition monitor_adjust_saflags :: "saflags \<Rightarrow> saflags" where
  "monitor_adjust_saflags flags = (flags OR SAFLAGS_REQUIRED) AND NOT SAFLAGS_FORBIDDEN"

section \<open>monitor_shootdown_signal\<close>

fun find_unused :: "sigst \<Rightarrow> nat list \<Rightarrow> int \<times> int \<times> int \<Rightarrow> int \<times> int \<times> int" where
  "find_unused s [] ans = ans"
| "find_unused s (sig # sigs) (ans1, ans2, ans3) =
    (if \<not> mse_blocked (mse sig s) then
       (let ans3' = (if ans3 < 0 then int sig else ans3) in
        if mse_client_handler (mse sig s) = None then
          (let ans2' = (if ans2 < 0 then int sig else ans2) in
           if \<not> mse_appl_hand (mse sig s) then (int sig, ans2', ans3')
           else find_unused s sigs (ans1, ans2', ans3'))
        else find_unused s sigs (ans1, ans2, ans3'))
     else find_unused s sigs (ans1, ans2, ans3))"

definition monitor_shootdown_signal :: "sigst \<Rightarrow> int \<times> sigst" where
  "monitor_shootdown_signal s =
    (if shootdown_signal s > 0 then (shootdown_signal s, s)
     else let (ans1, ans2, ans3) = find_unused s (monitor_shootdown_list s) (-1, -1, -1);
              choice = (if ans1 > 0 then ans1 else if ans2 > 0 then ans2
                        else if ans3 > 0 then ans3 else int last_resort_signal)
          in (choice, s\<lparr>shootdown_signal := choice\<rparr>))"

section \<open>Handlers\<close>

text \<open>The client's return code for a handler and a signal is a parameter.\<close>

definition offer_client ::
  "(nat \<Rightarrow> nat \<Rightarrow> int) \<Rightarrow> nat \<Rightarrow> sigst \<Rightarrow> bool \<times> sigst" where
  "offer_client ret sig s =
    (case mse_client_handler (mse sig s) of
       None \<Rightarrow> (False, s)
     | Some h \<Rightarrow> (ret h sig = 0, sig_emit (ClientHandler h sig) s))"

definition monitor_sigwait_handler ::
  "sigsys \<Rightarrow> (nat \<Rightarrow> nat \<Rightarrow> int) \<Rightarrow> int \<Rightarrow> sigst \<Rightarrow> int \<times> sigst" where
  "monitor_sigwait_handler sys ret sig s0 =
    (let s = monitor_signal_init sys s0 in
     if sig \<le> 0 \<or> sig \<ge> int MONITOR_NSIG then (1, s)
     else let (accepted, s1) = offer_client ret (nat sig) s in (cbool (\<not> accepted), s1))"

definition invalid_signal :: "int \<Rightarrow> sigst \<Rightarrow> bool" where
  "invalid_signal sig s \<longleftrightarrow>
     sig \<le> 0 \<or> sig \<ge> int MONITOR_NSIG \<or>
     mse_avoid (mse (nat sig) s) \<or> mse_invalid (mse (nat sig) s)"

definition default_action :: "sigsys \<Rightarrow> nat \<Rightarrow> sigst \<Rightarrow> sigst" where
  "default_action sys sig s =
    (if mse_noterm (mse sig s) then s
     else if mse_stop (mse sig s) then sig_emit (Raise SIGSTOP) s
     else let s1 = sig_emit EndLibrary (sig_emit EndProcess s);
              action = \<lparr>sa_handler = SIG_DFL, sa_flags = 0, sa_mask = {}\<rparr>;
              s2 = snd (real_sigaction sys sig (Some action) s1);
              s3 = snd (real_sigprocmask SIG_SETMASK (Some {}) s2)
          in if mse_noraise (mse sig s3) then s3 else sig_emit (Raise sig) s3)"

definition monitor_signal_handler ::
  "sigsys \<Rightarrow> (nat \<Rightarrow> nat \<Rightarrow> int) \<Rightarrow> int \<Rightarrow> sigst \<Rightarrow> sigst" where
  "monitor_signal_handler sys ret sig s =
    (if invalid_signal sig s then sig_emit (InvalidSignalWarning sig) s
     else let (accepted, s1) = offer_client ret (nat sig) s;
              sa = mse_appl_act (mse (nat sig) s1)
          in if accepted then s1
             else case sa_handler sa of
                    SIG_IGN \<Rightarrow> s1
                  | SIG_DFL \<Rightarrow> default_action sys (nat sig) s1
                  | HandlerFn h \<Rightarrow>
                      if sa_flags sa AND SA_SIGINFO \<noteq> 0 then sig_emit (ApplSigaction h (nat sig)) s1
                      else sig_emit (ApplHandler h (nat sig)) s1
                  | MonitorHandler \<Rightarrow> sig_emit (HandlerReentered (nat sig)) s1)"

section \<open>sigaction, signal, sigprocmask and abort\<close>

text \<open>The kernel's action for a signal gets the flags and the mask of act, adjusted.\<close>

definition set_kern_act :: "sigsys \<Rightarrow> nat \<Rightarrow> sigact \<Rightarrow> sigst \<Rightarrow> sigst" where
  "set_kern_act sys sig act s =
    (let s1 = upd_mse sig (\<lambda>e. e\<lparr>mse_kern_act := (mse_kern_act e)
                \<lparr>sa_flags := monitor_adjust_saflags (sa_flags act), sa_mask := sa_mask act\<rparr>\<rparr>) s;
         (mask, s2) = monitor_remove_client_signals (sa_mask act) s1;
         s3 = upd_mse sig (\<lambda>e. e\<lparr>mse_kern_act := (mse_kern_act e)\<lparr>sa_mask := mask\<rparr>\<rparr>) s2
     in snd (real_sigaction sys sig (Some (mse_kern_act (mse sig s3))) s3))"

definition monitor_sigaction ::
  "sigsys \<Rightarrow> int \<Rightarrow> nat option \<Rightarrow> int \<Rightarrow> sigact option \<Rightarrow> sigst \<Rightarrow> int \<times> sigst" where
  "monitor_sigaction sys sig handler flags act s0 =
    (let s = monitor_signal_init sys s0 in
     if invalid_signal sig s then (-1, s)
     else let s1 = upd_mse (nat sig) (\<lambda>e. e\<lparr>mse_keep_open := True\<rparr>) s;
              s2 = upd_mse (nat sig)
                     (\<lambda>e. e\<lparr>mse_client_handler := handler, mse_client_flags := flags\<rparr>) s1
          in (0, case act of None \<Rightarrow> s2 | Some a \<Rightarrow> set_kern_act sys (nat sig) a s2))"

definition monitor_real_abort :: "sigsys \<Rightarrow> sigst \<Rightarrow> sigst" where
  "monitor_real_abort sys s =
    (let action = \<lparr>sa_handler = SIG_DFL, sa_flags = 0, sa_mask = {}\<rparr>;
         s1 = snd (real_sigaction sys SIGABRT (Some action) s);
         s2 = snd (real_sigprocmask SIG_SETMASK (Some {}) s1)
     in sig_emit (Raise SIGABRT) s2)"

text \<open>The result is the return code and what is stored through oldact.\<close>

definition monitor_appl_sigaction ::
  "sigsys \<Rightarrow> int \<Rightarrow> sigact option \<Rightarrow> sigst \<Rightarrow> (int \<times> sigact option) \<times> sigst" where
  "monitor_appl_sigaction sys sig act s0 =
    (let s = monitor_signal_init sys s0 in
     if sig \<le> 0 \<or> sig \<ge> int MONITOR_NSIG \<or> mse_invalid (mse (nat sig) s) then ((-1, None), s)
     else if mse_avoid (mse (nat sig) s) then
       (let ((ret, old), s1) = real_sigaction sys (nat sig) act s
        in ((ret, if ret = 0 then Some old else None), s1))
     else
       let caught = (case act of None \<Rightarrow> False
                     | Some a \<Rightarrow> sa_handler a \<noteq> SIG_DFL \<and> sa_handler a \<noteq> SIG_IGN);
           s1 = (if caught then upd_mse (nat sig) (\<lambda>e. e\<lparr>mse_appl_hand := True\<rparr>) s else s);
           oldact = mse_appl_act (mse (nat sig) s1)
       in ((0, Some oldact),
           case act of
             None \<Rightarrow> s1
           | Some a \<Rightarrow>
               set_kern_act sys (nat sig) a (upd_mse (nat sig) (\<lambda>e. e\<lparr>mse_appl_act := a\<rparr>) s1)))"

definition sigaction ::
  "sigsys \<Rightarrow> int \<Rightarrow> sigact option \<Rightarrow> sigst \<Rightarrow> (int \<times> sigact option) \<times> sigst" where
  "sigaction sys sig act s = monitor_appl_sigaction sys sig act s"

text \<open>None stands for SIG_ERR (with errno = EINVAL).\<close>

definition signal :: "sigsys \<Rightarrow> int \<Rightarrow> disposition \<Rightarrow> sigst \<Rightarrow> disposition option \<times> sigst" where
  "signal sys sig handler s =
    (let act = \<lparr>sa_handler = handler, sa_flags = 0, sa_mask = {}\<rparr>;
         ((ret, old), s1) = monitor_appl_sigaction sys sig (Some act) s
     in (if ret = 0 then map_option sa_handler old else None, s1))"

definition sigprocmask ::
  "sigsys \<Rightarrow> sighow \<Rightarrow> sigset option \<Rightarrow> sigst \<Rightarrow> sigset \<times> sigst" where
  "sigprocmask sys how sset s0 =
    (let s = monitor_signal_init sys s0 in
     case sset of
       Some m \<Rightarrow>
         if how = SIG_BLOCK \<or> how = SIG_SETMASK then
           (let (my_set, s1) = monitor_remove_client_signals m s
            in real_sigprocmask how (Some my_set) s1)
         else real_sigprocmask how sset s
     | None \<Rightarrow> real_sigprocmask how sset s)"

end
