(* ===== verification/SignalFacts.thy ===== *)
theory SignalFacts
  imports Signal
begin

text \<open>
  Facts on the operations of Signal: closed forms of the loops over the signal
  table, the invariants \<open>kern_inv\<close> (the kernel runs the monitor's handler with
  the required flags for every valid signal) and \<open>open_inv\<close> (some signal stays
  open for thread shootdown), and the properties of the component.
\<close>

section \<open>Single updates\<close>

lemma upd_mse_simps [simp, op_simps]:
  "mse x (upd_mse sig f s) = (if x = sig then f (mse sig s) else mse x s)"
  "signal_init_done (upd_mse sig f s) = signal_init_done s"
  "monitor_shootdown_list (upd_mse sig f s) = monitor_shootdown_list s"
  "shootdown_signal (upd_mse sig f s) = shootdown_signal s"
  "kern_table (upd_mse sig f s) = kern_table s"
  "proc_mask (upd_mse sig f s) = proc_mask s"
  "sig_trace (upd_mse sig f s) = sig_trace s"
  by (simp_all add: upd_mse_def)

lemma sig_emit_simps [simp, op_simps]:
  "monitor_signal_array (sig_emit e s) = monitor_signal_array s"
  "signal_init_done (sig_emit e s) = signal_init_done s"
  "monitor_shootdown_list (sig_emit e s) = monitor_shootdown_list s"
  "shootdown_signal (sig_emit e s) = shootdown_signal s"
  "kern_table (sig_emit e s) = kern_table s"
  "proc_mask (sig_emit e s) = proc_mask s"
  "sig_trace (sig_emit e s) = sig_trace s @ [e]"
  by (simp_all add: sig_emit_def)

lemma real_sigaction_frame [simp, op_simps]:
  "monitor_signal_array (snd (real_sigaction sys sig act s)) = monitor_signal_array s"
  "signal_init_done (snd (real_sigaction sys sig act s)) = signal_init_done s"
  "monitor_shootdown_list (snd (real_sigaction sys sig act s)) = monitor_shootdown_list s"
  "shootdown_signal (snd (real_sigaction sys sig act s)) = shootdown_signal s"
  "proc_mask (snd (real_sigaction sys sig act s)) = proc_mask s"
  "sig_trace (snd (real_sigaction sys sig act s)) = sig_trace s"
  by (auto simp: real_sigaction_def split: option.splits)

lemma real_sigprocmask_frame [simp, op_simps]:
  "monitor_signal_array (snd (real_sigprocmask how m s)) = monitor_signal_array s"
  "signal_init_done (snd (real_sigprocmask how m s)) = signal_init_done s"
  "monitor_shootdown_list (snd (real_sigprocmask how m s)) = monitor_shootdown_list s"
  "shootdown_signal (snd (real_sigprocmask how m s)) = shootdown_signal s"
  "kern_table (snd (real_sigprocmask how m s)) = kern_table s"
  "sig_trace (snd (real_sigprocmask how m s)) = sig_trace s"
  by (auto simp: real_sigprocmask_def split: option.splits)

abbreviation valid_sig :: "nat \<Rightarrow> sigst \<Rightarrow> bool" where
  "valid_sig sig s \<equiv> \<not> mse_avoid (mse sig s) \<and> \<not> mse_invalid (mse sig s)"

section \<open>The loop that strips a mask\<close>

definition strip_entry :: "sigset \<Rightarrow> nat set \<Rightarrow> sigst \<Rightarrow> nat \<Rightarrow> monitor_signal_entry" where
  "strip_entry m A s x =
     (if x \<in> A \<and> valid_sig x s \<and> \<not> mse_keep_open (mse x s) \<and> x \<in> m
      then (mse x s)\<lparr>mse_blocked := True\<rparr> else mse x s)"

lemma strip_fold:
  "fold strip_signal sigs (m, s) =
     (m - {x \<in> set sigs. valid_sig x s \<and> mse_keep_open (mse x s)},
      s\<lparr>monitor_signal_array := strip_entry m (set sigs) s\<rparr>)"
proof (induction sigs arbitrary: m s)
  case Nil
  have "strip_entry m {} s = monitor_signal_array s" by (rule ext) (simp add: strip_entry_def)
  then show ?case by simp
next
  case (Cons sig sigs)
  obtain m1 s1 where one: "strip_signal sig (m, s) = (m1, s1)" by fastforce
  have m1: "m1 = m - {x \<in> {sig}. valid_sig x s \<and> mse_keep_open (mse x s)}"
    and s1: "s1 = s\<lparr>monitor_signal_array := strip_entry m {sig} s\<rparr>"
    using one
    by (auto simp: strip_signal_def upd_mse_def strip_entry_def fun_eq_iff split: if_splits
        intro!: sigst.equality)
  have keep: "valid_sig x s1 = valid_sig x s" "mse_keep_open (mse x s1) = mse_keep_open (mse x s)" for x
    unfolding s1 by (simp_all add: strip_entry_def)
  have "strip_entry m1 (set sigs) s1 = strip_entry m (set (sig # sigs)) s"
    unfolding m1 s1 by (rule ext) (auto simp: strip_entry_def)
  then show ?case
    unfolding fold.simps comp_def one Cons.IH keep using m1 s1 by auto
qed

lemma remove_client_signals_eq:
  "monitor_remove_client_signals m s =
     (let s1 = choose_open_signal m s in
      (m - {x. 1 \<le> x \<and> x < MONITOR_NSIG \<and> valid_sig x s1 \<and> mse_keep_open (mse x s1)},
       s1\<lparr>monitor_signal_array := strip_entry m {1..<MONITOR_NSIG} s1\<rparr>))"
  unfolding monitor_remove_client_signals_def Let_def strip_fold by auto

text \<open>What choosing a signal to keep open may change.\<close>

lemma choose_open_cases:
  obtains "choose_open_signal m s = s"
  | sig where "shootdown_signal s < 0" "sig > 0"
      "choose_open_signal m s =
         upd_mse sig (\<lambda>e. e\<lparr>mse_keep_open := True\<rparr>) (s\<lparr>shootdown_signal := int sig\<rparr>)"
proof -
  obtain o1 n1 where "find_avail s m (monitor_shootdown_list s) (-1) = (o1, n1)" by fastforce
  then have eq: "choose_open_signal m s =
      (if shootdown_signal s < 0 \<and> o1 > 0 \<and> n1 < 0
       then upd_mse (nat o1) (\<lambda>e. e\<lparr>mse_keep_open := True\<rparr>) (s\<lparr>shootdown_signal := o1\<rparr>) else s)"
    by (simp add: choose_open_signal_def)
  show thesis
  proof (cases "shootdown_signal s < 0 \<and> o1 > 0 \<and> n1 < 0")
    case True
    then show thesis using that(2) [of "nat o1"] eq by simp
  next
    case False
    show thesis by (rule that(1)) (use eq False in auto)
  qed
qed

lemma strip_entry_frame [simp]:
  "mse_avoid (strip_entry m A s x) = mse_avoid (mse x s)"
  "mse_invalid (strip_entry m A s x) = mse_invalid (mse x s)"
  "mse_keep_open (strip_entry m A s x) = mse_keep_open (mse x s)"
  "mse_kern_act (strip_entry m A s x) = mse_kern_act (mse x s)"
  "mse_appl_act (strip_entry m A s x) = mse_appl_act (mse x s)"
  "mse_client_handler (strip_entry m A s x) = mse_client_handler (mse x s)"
  "mse_appl_hand (strip_entry m A s x) = mse_appl_hand (mse x s)"
  "mse_noterm (strip_entry m A s x) = mse_noterm (mse x s)"
  "mse_noraise (strip_entry m A s x) = mse_noraise (mse x s)"
  "mse_stop (strip_entry m A s x) = mse_stop (mse x s)"
  by (simp_all add: strip_entry_def)

lemma strip_entry_blocked [simp]:
  "mse_blocked (strip_entry m A s x) \<longleftrightarrow>
     mse_blocked (mse x s) \<or> (x \<in> A \<and> valid_sig x s \<and> \<not> mse_keep_open (mse x s) \<and> x \<in> m)"
  by (auto simp: strip_entry_def)

lemma choose_open_frame [simp]:
  "mse_avoid (mse x (choose_open_signal m s)) = mse_avoid (mse x s)"
  "mse_invalid (mse x (choose_open_signal m s)) = mse_invalid (mse x s)"
  "mse_kern_act (mse x (choose_open_signal m s)) = mse_kern_act (mse x s)"
  "mse_appl_act (mse x (choose_open_signal m s)) = mse_appl_act (mse x s)"
  "mse_client_handler (mse x (choose_open_signal m s)) = mse_client_handler (mse x s)"
  "mse_appl_hand (mse x (choose_open_signal m s)) = mse_appl_hand (mse x s)"
  "mse_blocked (mse x (choose_open_signal m s)) = mse_blocked (mse x s)"
  "mse_stop (mse x (choose_open_signal m s)) = mse_stop (mse x s)"
  "kern_table (choose_open_signal m s) = kern_table s"
  "proc_mask (choose_open_signal m s) = proc_mask s"
  "monitor_shootdown_list (choose_open_signal m s) = monitor_shootdown_list s"
  "signal_init_done (choose_open_signal m s) = signal_init_done s"
  "sig_trace (choose_open_signal m s) = sig_trace s"
  by (cases rule: choose_open_cases [of m s]; simp)+

lemma remove_client_frame [simp, op_simps]:
  "mse_avoid (mse x (snd (monitor_remove_client_signals m s))) = mse_avoid (mse x s)"
  "mse_invalid (mse x (snd (monitor_remove_client_signals m s))) = mse_invalid (mse x s)"
  "mse_kern_act (mse x (snd (monitor_remove_client_signals m s))) = mse_kern_act (mse x s)"
  "mse_appl_act (mse x (snd (monitor_remove_client_signals m s))) = mse_appl_act (mse x s)"
  "kern_table (snd (monitor_remove_client_signals m s)) = kern_table s"
  "proc_mask (snd (monitor_remove_client_signals m s)) = proc_mask s"
  "monitor_shootdown_list (snd (monitor_remove_client_signals m s)) = monitor_shootdown_list s"
  "signal_init_done (snd (monitor_remove_client_signals m s)) = signal_init_done s"
  "sig_trace (snd (monitor_remove_client_signals m s)) = sig_trace s"
  by (simp_all add: remove_client_signals_eq Let_def)

section \<open>Flags\<close>

definition flags_ok :: "saflags \<Rightarrow> bool" where
  "flags_ok f \<longleftrightarrow> f AND SAFLAGS_REQUIRED = SAFLAGS_REQUIRED \<and> f AND SAFLAGS_FORBIDDEN = 0"

lemma required_forbidden: "SAFLAGS_REQUIRED AND SAFLAGS_FORBIDDEN = 0"
  by (simp add: saflags_defs)

lemma bit_split:
  fixes f r x :: "'a::len word"
  assumes "r AND x = 0"
  shows "((f OR r) AND NOT x) AND r = r" "((f OR r) AND NOT x) AND x = 0"
    and "((f OR r) AND NOT x) AND NOT (r OR x) = f AND NOT (r OR x)"
proof -
  have d: "bit r n \<Longrightarrow> \<not> bit x n" for n
    using assms by (metis bit_0_eq bit_and_iff bot_apply bot_bool_def)
  show "((f OR r) AND NOT x) AND r = r" "((f OR r) AND NOT x) AND x = 0"
    and "((f OR r) AND NOT x) AND NOT (r OR x) = f AND NOT (r OR x)"
    by (rule bit_word_eqI; use d in \<open>auto simp: bit_simps\<close>)+
qed

lemma adjust_saflags_ok [simp, intro]: "flags_ok (monitor_adjust_saflags f)"
  unfolding flags_ok_def monitor_adjust_saflags_def
  using bit_split [OF required_forbidden, of f] by simp

lemma required_ok [simp, intro]: "flags_ok SAFLAGS_REQUIRED"
  by (simp add: flags_ok_def required_forbidden)

section \<open>The kernel keeps the monitor's handler\<close>

definition kern_good :: "sigsys \<Rightarrow> nat \<Rightarrow> sigst \<Rightarrow> bool" where
  "kern_good sys sig s \<longleftrightarrow> (valid_sig sig s \<longrightarrow>
     \<not> sys_refuses sys sig \<and> sa_handler (mse_kern_act (mse sig s)) = MonitorHandler \<and>
     kern_table s sig = mse_kern_act (mse sig s) \<and> flags_ok (sa_flags (mse_kern_act (mse sig s))))"

definition kern_inv :: "sigsys \<Rightarrow> sigst \<Rightarrow> bool" where
  "kern_inv sys s \<longleftrightarrow> (\<forall>sig. 1 \<le> sig \<longrightarrow> sig < MONITOR_NSIG \<longrightarrow> kern_good sys sig s)"

text \<open>A step that leaves the kernel side of every entry alone keeps the invariant.\<close>

lemma kern_inv_frame [inv_intros]:
  assumes "kern_inv sys s" "kern_table s' = kern_table s"
    and "\<And>x. mse_avoid (mse x s') = mse_avoid (mse x s)"
      "\<And>x. mse_invalid (mse x s') = mse_invalid (mse x s)"
      "\<And>x. mse_kern_act (mse x s') = mse_kern_act (mse x s)"
  shows "kern_inv sys s'"
  using assms by (simp add: kern_inv_def kern_good_def)

lemma set_kern_act_eqs:
  defines "kmask sig act s \<equiv> fst (monitor_remove_client_signals (sa_mask act)
     (upd_mse sig (\<lambda>e. e\<lparr>mse_kern_act := (mse_kern_act e)
        \<lparr>sa_flags := monitor_adjust_saflags (sa_flags act), sa_mask := sa_mask act\<rparr>\<rparr>) s))"
  shows "mse_kern_act (mse x (set_kern_act sys sig act s)) =
      (if x = sig then (mse_kern_act (mse sig s))
         \<lparr>sa_flags := monitor_adjust_saflags (sa_flags act), sa_mask := kmask sig act s\<rparr>
       else mse_kern_act (mse x s))"
    and "mse_avoid (mse x (set_kern_act sys sig act s)) = mse_avoid (mse x s)"
    and "mse_invalid (mse x (set_kern_act sys sig act s)) = mse_invalid (mse x s)"
    and "mse_appl_act (mse x (set_kern_act sys sig act s)) = mse_appl_act (mse x s)"
    and "signal_init_done (set_kern_act sys sig act s) = signal_init_done s"
    and "proc_mask (set_kern_act sys sig act s) = proc_mask s"
    and "kern_table (set_kern_act sys sig act s) =
      (if sys_refuses sys sig then kern_table s
       else (kern_table s)(sig := mse_kern_act (mse sig (set_kern_act sys sig act s))))"
  by (auto simp: set_kern_act_def Let_def kmask_def real_sigaction_def case_prod_beta)

lemma kern_inv_set_kern_act [inv_intros]:
  "kern_inv sys s \<Longrightarrow> kern_inv sys (set_kern_act sys sig act s)"
  by (auto simp: kern_inv_def kern_good_def set_kern_act_eqs)

lemma kern_inv_upd:
  assumes "kern_inv sys s"
    and "\<And>e. mse_avoid (f e) = mse_avoid e" "\<And>e. mse_invalid (f e) = mse_invalid e"
      "\<And>e. mse_kern_act (f e) = mse_kern_act e"
  shows "kern_inv sys (upd_mse sig f s)"
  by (rule kern_inv_frame [OF assms(1)]) (auto simp: assms)

lemma kern_inv_remove [inv_intros]:
  "kern_inv sys s \<Longrightarrow> kern_inv sys (snd (monitor_remove_client_signals m s))"
  by (erule kern_inv_frame) simp_all

section \<open>What monitor_signal_init leaves in the table\<close>

lemma fold_mark:
  assumes "\<And>e. f (f e) = f e"
  shows "mse x (fold (\<lambda>sig. upd_mse sig f) L s) = (if x \<in> set L then f (mse x s) else mse x s)"
  by (induction L arbitrary: s) (auto simp: assms)

lemma mark_simps [op_simps]:
  "mse x (mark_avoid s) = (if x \<in> set monitor_signal_avoid_list
     then (mse x s)\<lparr>mse_avoid := True\<rparr> else mse x s)"
  "mse x (mark_noterm s) = (if x \<in> set monitor_signal_noterm_list
     then (mse x s)\<lparr>mse_noterm := True\<rparr> else mse x s)"
  "mse x (mark_noraise s) = (if x \<in> set monitor_signal_noraise_list
     then (mse x s)\<lparr>mse_noraise := True\<rparr> else mse x s)"
  "mse x (mark_stop s) = (if x \<in> set monitor_signal_stop_list
     then (mse x s)\<lparr>mse_stop := True\<rparr> else mse x s)"
  unfolding mark_avoid_def mark_noterm_def mark_noraise_def mark_stop_def
  by (simp_all add: fold_mark)

lemma mark_frame [simp]:
  "shootdown_signal (mark_avoid s) = shootdown_signal s"
  "signal_init_done (mark_avoid s) = signal_init_done s"
  "sig_trace (mark_avoid s) = sig_trace s"
  "proc_mask (mark_avoid s) = proc_mask s"
  "shootdown_signal (mark_noterm s) = shootdown_signal s"
  "signal_init_done (mark_noterm s) = signal_init_done s"
  "sig_trace (mark_noterm s) = sig_trace s"
  "proc_mask (mark_noterm s) = proc_mask s"
  "shootdown_signal (mark_noraise s) = shootdown_signal s"
  "signal_init_done (mark_noraise s) = signal_init_done s"
  "sig_trace (mark_noraise s) = sig_trace s"
  "proc_mask (mark_noraise s) = proc_mask s"
  "shootdown_signal (mark_stop s) = shootdown_signal s"
  "signal_init_done (mark_stop s) = signal_init_done s"
  "sig_trace (mark_stop s) = sig_trace s"
  "proc_mask (mark_stop s) = proc_mask s"
  by (simp_all add: mark_avoid_def mark_noterm_def mark_noraise_def mark_stop_def
      monitor_signal_avoid_list_def monitor_signal_noterm_list_def
      monitor_signal_noraise_list_def monitor_signal_stop_list_def)

lemma mark_open_state [simp]:
  "shootdown_signal (mark_open sys s) = shootdown_signal s"
  "signal_init_done (mark_open sys s) = signal_init_done s"
  "sig_trace (mark_open sys s) = sig_trace s"
  "proc_mask (mark_open sys s) = proc_mask s"
  unfolding mark_open_def by (rule fold_frame, simp)+

lemma mark_open_frame [simp]:
  "mse_avoid (mse x (mark_open sys s)) = mse_avoid (mse x s)"
  "mse_invalid (mse x (mark_open sys s)) = mse_invalid (mse x s)"
  "mse_noterm (mse x (mark_open sys s)) = mse_noterm (mse x s)"
  "mse_noraise (mse x (mark_open sys s)) = mse_noraise (mse x s)"
  "mse_stop (mse x (mark_open sys s)) = mse_stop (mse x s)"
  "mse_blocked (mse x (mark_open sys s)) = mse_blocked (mse x s)"
  "mse_appl_hand (mse x (mark_open sys s)) = mse_appl_hand (mse x s)"
  "mse_client_handler (mse x (mark_open sys s)) = mse_client_handler (mse x s)"
  unfolding mark_open_def by (rule fold_frame, simp)+

lemma install_handler_frame:
  "mse_avoid (mse x (install_handler sys sig s)) = mse_avoid (mse x s)"
  "mse_noterm (mse x (install_handler sys sig s)) = mse_noterm (mse x s)"
  "mse_noraise (mse x (install_handler sys sig s)) = mse_noraise (mse x s)"
  "mse_stop (mse x (install_handler sys sig s)) = mse_stop (mse x s)"
  "mse_blocked (mse x (install_handler sys sig s)) = mse_blocked (mse x s)"
  "mse_appl_hand (mse x (install_handler sys sig s)) = mse_appl_hand (mse x s)"
  "mse_client_handler (mse x (install_handler sys sig s)) = mse_client_handler (mse x s)"
  "mse_keep_open (mse x (install_handler sys sig s)) = mse_keep_open (mse x s)"
  "shootdown_signal (install_handler sys sig s) = shootdown_signal s"
  "signal_init_done (install_handler sys sig s) = signal_init_done s"
  "sig_trace (install_handler sys sig s) = sig_trace s"
  "proc_mask (install_handler sys sig s) = proc_mask s"
  by (simp_all add: install_handler_def Let_def real_sigaction_def)

lemma install_all_frame [simp]:
  "mse_avoid (mse x (install_all sys s)) = mse_avoid (mse x s)"
  "mse_noterm (mse x (install_all sys s)) = mse_noterm (mse x s)"
  "mse_noraise (mse x (install_all sys s)) = mse_noraise (mse x s)"
  "mse_stop (mse x (install_all sys s)) = mse_stop (mse x s)"
  "mse_blocked (mse x (install_all sys s)) = mse_blocked (mse x s)"
  "mse_appl_hand (mse x (install_all sys s)) = mse_appl_hand (mse x s)"
  "mse_client_handler (mse x (install_all sys s)) = mse_client_handler (mse x s)"
  "mse_keep_open (mse x (install_all sys s)) = mse_keep_open (mse x s)"
  "shootdown_signal (install_all sys s) = shootdown_signal s"
  "signal_init_done (install_all sys s) = signal_init_done s"
  "sig_trace (install_all sys s) = sig_trace s"
  "proc_mask (install_all sys s) = proc_mask s"
  unfolding install_all_def by (rule fold_frame, simp add: install_handler_frame)+

lemma install_handler_good: "kern_good sys sig (install_handler sys sig s)"
  by (auto simp: kern_good_def install_handler_def Let_def real_sigaction_def)

lemma install_handler_neq:
  assumes "x \<noteq> sig"
  shows "mse x (install_handler sys sig s) = mse x s"
    and "kern_table (install_handler sys sig s) x = kern_table s x"
  using assms by (simp_all add: install_handler_def Let_def real_sigaction_def)

lemma install_handler_other:
  assumes "kern_good sys x s"
  shows "kern_good sys x (install_handler sys sig s)"
proof (cases "x = sig")
  case True
  then show ?thesis by (simp add: install_handler_good)
next
  case False
  then show ?thesis using assms by (simp add: kern_good_def install_handler_neq)
qed

lemma kern_inv_good:
  "kern_inv sys s \<longleftrightarrow> (\<forall>sig \<in> set [1..<MONITOR_NSIG]. kern_good sys sig s)"
  by (auto simp: kern_inv_def)

lemma kern_inv_install_all: "kern_inv sys (install_all sys s)"
  unfolding kern_inv_good install_all_def
proof
  fix x
  assume "x \<in> set [1..<MONITOR_NSIG]"
  then show "kern_good sys x (fold (install_handler sys) [1..<MONITOR_NSIG] s)"
    by (rule fold_each [where P = "kern_good sys", OF _ install_handler_good install_handler_other])
qed

lemma install_handler_invalid:
  "mse_invalid (mse x (install_handler sys sig s)) \<longleftrightarrow>
     mse_invalid (mse x s) \<or> (x = sig \<and> \<not> mse_avoid (mse x s) \<and> sys_refuses sys x)"
  by (auto simp: install_handler_def Let_def real_sigaction_def)

lemma install_all_invalid:
  "mse_invalid (mse x (install_all sys s)) \<longleftrightarrow>
     mse_invalid (mse x s) \<or>
     (1 \<le> x \<and> x < MONITOR_NSIG \<and> \<not> mse_avoid (mse x s) \<and> sys_refuses sys x)"
proof -
  have "mse_invalid (mse x (fold (install_handler sys) sigs s)) \<longleftrightarrow>
     mse_invalid (mse x s) \<or> (x \<in> set sigs \<and> \<not> mse_avoid (mse x s) \<and> sys_refuses sys x)" for sigs
    by (induction sigs arbitrary: s) (auto simp: install_handler_invalid install_handler_frame)
  then show ?thesis by (auto simp: install_all_def)
qed

text \<open>The last two steps of the initialisation touch no kernel action.\<close>

lemma env_frame [simp]:
  "mse_avoid (mse x (shootdown_from_env sys s)) = mse_avoid (mse x s)"
  "mse_invalid (mse x (shootdown_from_env sys s)) = mse_invalid (mse x s)"
  "mse_kern_act (mse x (shootdown_from_env sys s)) = mse_kern_act (mse x s)"
  "mse_noterm (mse x (shootdown_from_env sys s)) = mse_noterm (mse x s)"
  "mse_noraise (mse x (shootdown_from_env sys s)) = mse_noraise (mse x s)"
  "mse_stop (mse x (shootdown_from_env sys s)) = mse_stop (mse x s)"
  "mse_blocked (mse x (shootdown_from_env sys s)) = mse_blocked (mse x s)"
  "mse_client_handler (mse x (shootdown_from_env sys s)) = mse_client_handler (mse x s)"
  "kern_table (shootdown_from_env sys s) = kern_table s"
  "monitor_shootdown_list (shootdown_from_env sys s) = monitor_shootdown_list s"
  "signal_init_done (shootdown_from_env sys s) = signal_init_done s"
  "sig_trace (shootdown_from_env sys s) = sig_trace s"
  by (simp_all add: shootdown_from_env_def Let_def split: option.splits)

lemma build_frame [simp]:
  "monitor_signal_array (build_shootdown_list sys s) = monitor_signal_array s"
  "kern_table (build_shootdown_list sys s) = kern_table s"
  "shootdown_signal (build_shootdown_list sys s) = shootdown_signal s"
  "signal_init_done (build_shootdown_list sys s) = signal_init_done s"
  "sig_trace (build_shootdown_list sys s) = sig_trace s"
  by (simp_all add: build_shootdown_list_def)

lemma init_done [simp]: "signal_init_done (monitor_signal_init sys s)"
  by (simp add: monitor_signal_init_def Let_def)

lemma init_idem [simp]: "monitor_signal_init sys (monitor_signal_init sys s) = monitor_signal_init sys s"
  by (subst monitor_signal_init_def) simp

lemma init_again: "signal_init_done s \<Longrightarrow> monitor_signal_init sys s = s"
  by (simp add: monitor_signal_init_def)

lemma kern_inv_init:
  "\<not> signal_init_done s \<Longrightarrow> kern_inv sys (monitor_signal_init sys s)"
  unfolding monitor_signal_init_def Let_def
  by (simp, rule kern_inv_frame [OF kern_inv_install_all]) simp_all

lemma init_entry:
  fixes sys s
  assumes "\<not> signal_init_done s"
  defines "t \<equiv> monitor_signal_init sys s"
  shows "mse_avoid (mse x t) \<longleftrightarrow> x \<in> set monitor_signal_avoid_list"
    and "mse_noterm (mse x t) \<longleftrightarrow> x \<in> set monitor_signal_noterm_list"
    and "mse_noraise (mse x t) \<longleftrightarrow> x \<in> set monitor_signal_noraise_list"
    and "mse_stop (mse x t) \<longleftrightarrow> x \<in> set monitor_signal_stop_list"
    and "mse_blocked (mse x t) = False"
    and "mse_client_handler (mse x t) = None"
    and "mse_invalid (mse x t) \<longleftrightarrow>
      1 \<le> x \<and> x < MONITOR_NSIG \<and> x \<notin> set monitor_signal_avoid_list \<and> sys_refuses sys x"
    and "sig_trace t = sig_trace s"
  using assms
  by (simp_all add: t_def monitor_signal_init_def Let_def mark_simps zero_entry_def install_all_invalid)

section \<open>A signal stays open for thread shootdown\<close>

abbreviation real_sig :: "nat \<Rightarrow> sigst \<Rightarrow> bool" where
  "real_sig sig s \<equiv> 1 \<le> sig \<and> sig < MONITOR_NSIG \<and> valid_sig sig s"

definition list_ok :: "sigst \<Rightarrow> bool" where
  "list_ok s \<longleftrightarrow> (\<forall>sig \<in> set (monitor_shootdown_list s). real_sig sig s)"

definition open_inv :: "sigst \<Rightarrow> bool" where
  "open_inv s \<longleftrightarrow> list_ok s \<and>
     ((shootdown_signal s < 0 \<and> (\<exists>sig \<in> set (monitor_shootdown_list s). \<not> mse_blocked (mse sig s))) \<or>
      (\<exists>sig. shootdown_signal s = int sig \<and> real_sig sig s \<and>
         mse_keep_open (mse sig s) \<and> \<not> mse_blocked (mse sig s)))"

lemma find_avail_none:
  "find_avail s m L old = (o1, n1) \<Longrightarrow> n1 < 0 \<Longrightarrow> sig \<in> set L \<Longrightarrow>
   \<not> mse_blocked (mse sig s) \<Longrightarrow> sig \<in> m"
  by (induction L arbitrary: old) (auto simp: Let_def split: if_splits)

lemma find_avail_old:
  "find_avail s m L old = (o1, n1) \<Longrightarrow> n1 < 0 \<Longrightarrow> old \<ge> 0 \<Longrightarrow> o1 = old"
  by (induction L arbitrary: old) (auto simp: Let_def split: if_splits)

lemma find_avail_first:
  "find_avail s m L old = (o1, n1) \<Longrightarrow> n1 < 0 \<Longrightarrow> old < 0 \<Longrightarrow> sig \<in> set L \<Longrightarrow>
   \<not> mse_blocked (mse sig s) \<Longrightarrow> \<exists>x \<in> set L. \<not> mse_blocked (mse x s) \<and> o1 = int x"
proof (induction L arbitrary: old)
  case (Cons y L)
  show ?case
  proof (cases "mse_blocked (mse y s)")
    case True
    then show ?thesis using Cons by auto
  next
    case False
    then have "find_avail s m L (int y) = (o1, n1)"
      using Cons.prems by (auto simp: Let_def split: if_splits)
    then have "o1 = int y" using Cons.prems(2) by (auto dest: find_avail_old)
    then show ?thesis using False by simp
  qed
qed simp

lemma find_avail_new:
  "find_avail s m L old = (o1, n1) \<Longrightarrow> n1 \<ge> 0 \<Longrightarrow>
   \<exists>x \<in> set L. \<not> mse_blocked (mse x s) \<and> x \<notin> m"
proof (induction L arbitrary: old)
  case (Cons y L)
  show ?case
  proof (cases "\<not> mse_blocked (mse y s) \<and> y \<notin> m")
    case False
    then obtain old' where "find_avail s m L old' = (o1, n1)"
      using Cons.prems by (auto simp: Let_def split: if_splits)
    then show ?thesis using Cons by fastforce
  qed simp
qed simp

lemma choose_open_keeps:
  fixes m s
  assumes "open_inv s"
  defines "t \<equiv> choose_open_signal m s"
  shows "open_inv t"
    and "shootdown_signal t < 0 \<Longrightarrow>
           \<exists>sig \<in> set (monitor_shootdown_list s). \<not> mse_blocked (mse sig s) \<and> sig \<notin> m"
proof -
  note lst = assms(1) [unfolded open_inv_def list_ok_def]
  obtain o1 n1 where f: "find_avail s m (monitor_shootdown_list s) (-1) = (o1, n1)" by fastforce
  have pos: "\<forall>sig \<in> set (monitor_shootdown_list s). 1 \<le> sig" using lst by blast
  have lt: "list_ok t" using lst by (simp add: t_def list_ok_def)
  have both: "open_inv t \<and> (shootdown_signal t < 0 \<longrightarrow>
      (\<exists>sig \<in> set (monitor_shootdown_list s). \<not> mse_blocked (mse sig s) \<and> sig \<notin> m))"
  proof (cases "shootdown_signal s < 0")
    case False
    then have "t = s" by (simp add: t_def choose_open_signal_def)
    then show ?thesis using assms(1) False by simp
  next
    case True
    then have ex: "\<exists>sig \<in> set (monitor_shootdown_list s). \<not> mse_blocked (mse sig s)"
      using lst by auto
    show ?thesis
    proof (cases "n1 < 0")
      case neg: True
      then obtain sig where sig: "sig \<in> set (monitor_shootdown_list s)"
        "\<not> mse_blocked (mse sig s)" "o1 = int sig" using find_avail_first [OF f] ex by auto
      then have sp: "1 \<le> sig" using pos by blast
      have t: "t = upd_mse sig (\<lambda>e. e\<lparr>mse_keep_open := True\<rparr>) (s\<lparr>shootdown_signal := int sig\<rparr>)"
        using True neg sig(3) sp f by (simp add: t_def choose_open_signal_def)
      have "real_sig sig s" using sig(1) lst by blast
      then have "open_inv t" using lt sig(2) unfolding open_inv_def t by auto
      then show ?thesis using t by simp
    next
      case nn: False
      then have t: "t = s" using f True by (simp add: t_def choose_open_signal_def)
      then show ?thesis using assms(1) find_avail_new [OF f] nn by simp
    qed
  qed
  show "open_inv t" using both by blast
  show "shootdown_signal t < 0 \<Longrightarrow>
      \<exists>sig \<in> set (monitor_shootdown_list s). \<not> mse_blocked (mse sig s) \<and> sig \<notin> m"
    using both by blast
qed

lemma remove_client_open:
  assumes "open_inv s" "monitor_remove_client_signals m s = (m', s')"
  shows "open_inv s'"
    and "\<exists>sig. real_sig sig s' \<and> \<not> mse_blocked (mse sig s') \<and> sig \<notin> m'"
proof -
  let ?t = "choose_open_signal m s"
  note inv = choose_open_keeps(1) [OF assms(1), of m]
  have m': "m' = m - {x. 1 \<le> x \<and> x < MONITOR_NSIG \<and> valid_sig x ?t \<and> mse_keep_open (mse x ?t)}"
    and s': "s' = ?t\<lparr>monitor_signal_array := strip_entry m {1..<MONITOR_NSIG} ?t\<rparr>"
    using assms(2) by (simp_all add: remove_client_signals_eq Let_def)
  have lst: "list_ok s'" using inv by (simp add: s' open_inv_def list_ok_def)
  have "open_inv s' \<and> (\<exists>sig. real_sig sig s' \<and> \<not> mse_blocked (mse sig s') \<and> sig \<notin> m')"
  proof (cases "shootdown_signal ?t < 0")
    case True
    then obtain sig where sig: "sig \<in> set (monitor_shootdown_list s)"
      "\<not> mse_blocked (mse sig s)" "sig \<notin> m" using choose_open_keeps(2) [OF assms(1), of m] by blast
    have r: "real_sig sig s'" using lst sig(1) by (simp add: list_ok_def s')
    have b: "\<not> mse_blocked (mse sig s')" using sig by (simp add: s')
    have "open_inv s'" unfolding open_inv_def using lst True sig b by (auto simp: s')
    then show ?thesis using r b sig(3) m' by blast
  next
    case False
    then obtain sig where sig: "shootdown_signal ?t = int sig" "real_sig sig ?t"
      "mse_keep_open (mse sig ?t)" "\<not> mse_blocked (mse sig ?t)" using inv by (auto simp: open_inv_def)
    have "real_sig sig s' \<and> mse_keep_open (mse sig s') \<and> \<not> mse_blocked (mse sig s')"
      using sig unfolding s' by simp
    moreover have "sig \<notin> m'" using sig m' by blast
    moreover have "shootdown_signal s' = int sig" using sig(1) by (simp add: s')
    ultimately show ?thesis using lst unfolding open_inv_def by blast
  qed
  then show "open_inv s'"
    and "\<exists>sig. real_sig sig s' \<and> \<not> mse_blocked (mse sig s') \<and> sig \<notin> m'" by blast+
qed

section \<open>Calls of the client and the application, in any order\<close>

definition sigst_start :: "(nat \<Rightarrow> sigact) \<Rightarrow> sigst" where
  "sigst_start table = \<lparr>signal_init_done = False, monitor_signal_array = (\<lambda>_. zero_entry),
     monitor_shootdown_list = [], shootdown_signal = -1, kern_table = table,
     proc_mask = {}, sig_trace = []\<rparr>"

inductive sig_reach :: "sigsys \<Rightarrow> sigst \<Rightarrow> bool" for sys where
  init: "sig_reach sys (monitor_signal_init sys (sigst_start table))"
| client: "sig_reach sys s \<Longrightarrow> sig_reach sys (snd (monitor_sigaction sys sig h flags act s))"
| appl: "sig_reach sys s \<Longrightarrow> sig_reach sys (snd (sigaction sys sig act s))"
| bsd: "sig_reach sys s \<Longrightarrow> sig_reach sys (snd (signal sys sig d s))"
| mask: "sig_reach sys s \<Longrightarrow> sig_reach sys (snd (sigprocmask sys how sset s))"
| strip: "sig_reach sys s \<Longrightarrow> sig_reach sys (snd (monitor_remove_client_signals m s))"
| wait: "sig_reach sys s \<Longrightarrow> sig_reach sys (snd (monitor_sigwait_handler sys ret sig s))"

lemma upd_mse_twice: "upd_mse sig g (upd_mse sig f s) = upd_mse sig (\<lambda>e. g (f e)) s"
  by (simp add: upd_mse_def)

text \<open>A predicate that survives the few ways the calls change the state holds in all of them.
  The client's handler changes only together with the mark that keeps the signal open.\<close>

lemma sig_reach_inv:
  assumes reach: "sig_reach sys s"
    and init: "\<And>table. P (monitor_signal_init sys (sigst_start table))"
    and upd: "\<And>s sig f. P s \<Longrightarrow> (\<And>e. mse_avoid (f e) = mse_avoid e) \<Longrightarrow>
       (\<And>e. mse_invalid (f e) = mse_invalid e) \<Longrightarrow> (\<And>e. mse_kern_act (f e) = mse_kern_act e) \<Longrightarrow>
       (\<And>e. mse_blocked (f e) = mse_blocked e) \<Longrightarrow> (\<And>e. mse_keep_open e \<Longrightarrow> mse_keep_open (f e)) \<Longrightarrow>
       (\<And>e. mse_client_handler (f e) = mse_client_handler e \<or> mse_keep_open (f e)) \<Longrightarrow>
       P (upd_mse sig f s)"
    and kern: "\<And>s sig a. P s \<Longrightarrow> P (set_kern_act sys sig a s)"
    and strip: "\<And>s m. P s \<Longrightarrow> P (snd (monitor_remove_client_signals m s))"
    and pmask: "\<And>s how m. P s \<Longrightarrow> P (snd (real_sigprocmask how m s))"
    and avoid: "\<And>s sig act. P s \<Longrightarrow> mse_avoid (mse sig s) \<Longrightarrow> P (snd (real_sigaction sys sig act s))"
    and emit: "\<And>s e. P s \<Longrightarrow> P (sig_emit e s)"
  shows "P s \<and> signal_init_done s"
  using reach
proof (induction rule: sig_reach.induct)
  case (client s sig h flags act)
  then show ?case
    by (auto simp: monitor_sigaction_def init_again Let_def set_kern_act_eqs upd_mse_twice
        split: option.splits intro!: upd kern)
next
  case (appl s sig act)
  then show ?case
    by (auto simp: sigaction_def monitor_appl_sigaction_def init_again Let_def set_kern_act_eqs
        case_prod_beta split: option.splits intro!: upd kern avoid)
next
  case (bsd s sig d)
  then show ?case
    by (auto simp: signal_def monitor_appl_sigaction_def init_again Let_def set_kern_act_eqs
        case_prod_beta split: option.splits intro!: upd kern avoid)
next
  case (mask s how sset)
  then show ?case
    by (auto simp: sigprocmask_def init_again Let_def case_prod_beta
        split: option.splits intro!: pmask strip)
next
  case (wait s ret sig)
  then show ?case
    by (auto simp: monitor_sigwait_handler_def init_again Let_def offer_client_def
        case_prod_beta split: option.splits intro!: emit)
qed (use init strip in auto)

lemma kern_inv_reach: "sig_reach sys s \<Longrightarrow> kern_inv sys s"
proof (drule sig_reach_inv [where P = "kern_inv sys"])
  fix s sig act
  assume "kern_inv sys s" "mse_avoid (mse sig s)"
  then show "kern_inv sys (snd (real_sigaction sys sig act s))"
    by (auto simp: kern_inv_def kern_good_def real_sigaction_def split: option.splits)
qed (auto intro: inv_intros kern_inv_upd simp: kern_inv_init sigst_start_def kern_inv_frame)

lemma open_inv_frame:
  assumes "open_inv s" "monitor_shootdown_list s' = monitor_shootdown_list s"
    "shootdown_signal s' = shootdown_signal s"
    and "\<And>x. mse_avoid (mse x s') = mse_avoid (mse x s)"
      "\<And>x. mse_invalid (mse x s') = mse_invalid (mse x s)"
      "\<And>x. mse_blocked (mse x s') = mse_blocked (mse x s)"
      "\<And>x. mse_keep_open (mse x s) \<Longrightarrow> mse_keep_open (mse x s')"
  shows "open_inv s'"
proof -
  have "list_ok s'" using assms by (simp add: open_inv_def list_ok_def)
  then show ?thesis using assms unfolding open_inv_def by auto
qed

lemma open_inv_upd:
  assumes "open_inv s"
    and "\<And>e. mse_avoid (f e) = mse_avoid e" "\<And>e. mse_invalid (f e) = mse_invalid e"
      "\<And>e. mse_blocked (f e) = mse_blocked e" "\<And>e. mse_keep_open e \<Longrightarrow> mse_keep_open (f e)"
  shows "open_inv (upd_mse sig f s)"
  by (rule open_inv_frame [OF assms(1)]) (auto simp: assms)

lemma open_inv_remove [inv_intros]:
  "open_inv s \<Longrightarrow> open_inv (snd (monitor_remove_client_signals m s))"
  by (rule remove_client_open(1) [OF _ prod.collapse [symmetric]])

lemma open_inv_sigaction [inv_intros]:
  "open_inv s \<Longrightarrow> open_inv (snd (real_sigaction sys sig act s))"
  by (erule open_inv_frame) simp_all

lemma open_inv_set_kern_act [inv_intros]:
  "open_inv s \<Longrightarrow> open_inv (set_kern_act sys sig a s)"
  unfolding set_kern_act_def Let_def case_prod_beta
  by (intro open_inv_sigaction open_inv_upd open_inv_remove) auto

lemma init_list_ok:
  assumes "\<not> signal_init_done s" "\<not> sys_refuses sys SIGWINCH"
  shows "list_ok (monitor_signal_init sys s)"
proof -
  let ?t = "monitor_signal_init sys s"
  obtain s2 where s2: "?t = shootdown_from_env sys (build_shootdown_list sys s2)"
    using assms(1) by (auto simp: monitor_signal_init_def Let_def)
  have valid: "valid_sig x s2 = valid_sig x ?t" for x by (simp add: s2)
  let ?L = "filter (\<lambda>sig. sig < MONITOR_NSIG \<and> shootdown_ok s2 sig)
             (map (\<lambda>i. sigrtmin sys + i) [6..<14])"
  have lst: "monitor_shootdown_list ?t = ?L @ filter (shootdown_ok s2) monitor_extra_list @ [SIGWINCH]"
    unfolding s2 env_frame build_shootdown_list_def last_resort_signal_def by simp
  have rt: "real_sig x ?t" if "x \<in> set ?L" for x
    using that valid [of x] by (simp only: set_filter set_map set_upt) (auto simp: shootdown_ok_def)
  have num: "1 \<le> x \<and> x < MONITOR_NSIG" if "x \<in> set monitor_extra_list" for x
    using that by (auto simp: monitor_extra_list_def signum_defs)
  have extra: "real_sig x ?t" if "x \<in> set (filter (shootdown_ok s2) monitor_extra_list)" for x
    using that valid [of x] num [of x] by (simp add: shootdown_ok_def)
  have last: "real_sig SIGWINCH ?t"
    using assms init_entry(1,7) [OF assms(1), of sys SIGWINCH]
    by (simp add: signum_defs monitor_signal_avoid_list_def)
  show ?thesis
    unfolding list_ok_def lst set_append using rt extra last
    by (simp only: ball_Un list.set ball_simps) blast
qed

lemma last_resort_listed:
  "\<not> signal_init_done s \<Longrightarrow> SIGWINCH \<in> set (monitor_shootdown_list (monitor_signal_init sys s))"
  by (simp add: monitor_signal_init_def Let_def build_shootdown_list_def last_resort_signal_def)

lemma env_shootdown:
  fixes sys s
  assumes "shootdown_signal s < 0"
  defines "t \<equiv> shootdown_from_env sys s"
  shows "shootdown_signal t < 0 \<or>
    (\<exists>sig. shootdown_signal t = int sig \<and> real_sig sig t \<and> mse_keep_open (mse sig t))"
proof (cases "shootdown_signal t < 0")
  case False
  then obtain str sig where "shootdown_env sys = Some str" "scan_int str = Some sig"
    "sig > 0" "sig < int MONITOR_NSIG" "valid_sig (nat sig) s"
    "t = upd_mse (nat sig) (\<lambda>e. e\<lparr>mse_keep_open := True\<rparr>) (s\<lparr>shootdown_signal := sig\<rparr>)"
    using assms(1) by (auto simp: t_def shootdown_from_env_def Let_def split: option.splits if_splits)
  then show ?thesis by (intro disjI2 exI [of _ "nat sig"]) auto
qed simp

lemma open_inv_init:
  assumes "\<not> sys_refuses sys SIGWINCH"
  shows "open_inv (monitor_signal_init sys (sigst_start table))"
proof -
  let ?t = "monitor_signal_init sys (sigst_start table)"
  have nd: "\<not> signal_init_done (sigst_start table)" by (simp add: sigst_start_def)
  obtain s2 where s2: "?t = shootdown_from_env sys s2" "shootdown_signal s2 < 0"
    using nd by (auto simp: monitor_signal_init_def Let_def sigst_start_def)
  have unb: "\<not> mse_blocked (mse x ?t)" for x using init_entry(5) [OF nd] by simp
  show ?thesis
    unfolding open_inv_def
    using init_list_ok [OF nd assms] last_resort_listed [OF nd, of sys] unb
      env_shootdown [OF s2(2), of sys] unfolding s2(1) by blast
qed

lemma open_inv_reach:
  assumes "\<not> sys_refuses sys SIGWINCH" "sig_reach sys s"
  shows "open_inv s"
proof -
  have "open_inv s \<and> signal_init_done s"
  proof (rule sig_reach_inv [OF assms(2), where P = open_inv])
    fix s how m
    assume "open_inv s"
    then show "open_inv (snd (real_sigprocmask how m s))" by (rule open_inv_frame) simp_all
  next
    fix s e
    assume "open_inv s"
    then show "open_inv (sig_emit e s)" by (rule open_inv_frame) simp_all
  qed (use assms(1) in \<open>auto intro: inv_intros open_inv_upd open_inv_init\<close>)
  then show ?thesis ..
qed

section \<open>The choice of the shootdown signal\<close>

definition unblocked :: "sigst \<Rightarrow> nat \<Rightarrow> bool" where
  "unblocked s sig = (\<not> mse_blocked (mse sig s))"

definition no_client :: "sigst \<Rightarrow> nat \<Rightarrow> bool" where
  "no_client s sig \<longleftrightarrow> unblocked s sig \<and> mse_client_handler (mse sig s) = None"

definition unused :: "sigst \<Rightarrow> nat \<Rightarrow> bool" where
  "unused s sig \<longleftrightarrow> no_client s sig \<and> \<not> mse_appl_hand (mse sig s)"

definition first_of :: "(nat \<Rightarrow> bool) \<Rightarrow> nat list \<Rightarrow> int \<Rightarrow> int" where
  "first_of P L d = (case filter P L of [] \<Rightarrow> d | sig # _ \<Rightarrow> int sig)"

text \<open>The order of preference of the C comment.\<close>

definition preferred_signal :: "sigst \<Rightarrow> int" where
  "preferred_signal s =
    (let L = monitor_shootdown_list s in
     first_of (unused s) L (first_of (no_client s) L
       (first_of (unblocked s) L (int last_resort_signal))))"

lemma first_of_simps [simp]:
  "first_of P [] d = d"
  "first_of P (x # xs) d = (if P x then int x else first_of P xs d)"
  by (simp_all add: first_of_def)

lemma first_of_absorb: "\<forall>sig \<in> set L. 1 \<le> sig \<Longrightarrow>
   (if first_of P L (-1) > 0 then first_of P L (-1) else d) = first_of P L d"
  by (induction L) auto

lemma find_unused_spec:
  assumes "find_unused s L (-1, a2, a3) = (b1, b2, b3)" "\<forall>sig \<in> set L. 1 \<le> sig"
  shows "b1 = first_of (unused s) L (-1)"
    and "b1 = -1 \<Longrightarrow> b2 = (if a2 < 0 then first_of (no_client s) L a2 else a2)"
    and "b1 = -1 \<Longrightarrow> b3 = (if a3 < 0 then first_of (unblocked s) L a3 else a3)"
proof -
  have "b1 = first_of (unused s) L (-1) \<and>
    (b1 = -1 \<longrightarrow> b2 = (if a2 < 0 then first_of (no_client s) L a2 else a2) \<and>
      b3 = (if a3 < 0 then first_of (unblocked s) L a3 else a3))"
    using assms
  proof (induction L arbitrary: a2 a3)
    case (Cons x L)
    consider "mse_blocked (mse x s)"
      | "\<not> mse_blocked (mse x s)" "mse_client_handler (mse x s) \<noteq> None"
      | "\<not> mse_blocked (mse x s)" "mse_client_handler (mse x s) = None" "mse_appl_hand (mse x s)"
      | "\<not> mse_blocked (mse x s)" "mse_client_handler (mse x s) = None" "\<not> mse_appl_hand (mse x s)"
      by blast
    then show ?case
    proof cases
      case 1
      then have "\<not> unused s x" "\<not> no_client s x" "\<not> unblocked s x"
        by (simp_all add: unused_def no_client_def unblocked_def)
      then show ?thesis using 1 Cons.IH [of a2 a3] Cons.prems by simp
    next
      case 2
      then have "\<not> unused s x" "\<not> no_client s x" "unblocked s x"
        by (simp_all add: unused_def no_client_def unblocked_def)
      then show ?thesis
        using 2 Cons.IH [of a2 "if a3 < 0 then int x else a3"] Cons.prems by auto
    next
      case 3
      then have "\<not> unused s x" "no_client s x" "unblocked s x"
        by (simp_all add: unused_def no_client_def unblocked_def)
      then show ?thesis
        using 3 Cons.IH [of "if a2 < 0 then int x else a2" "if a3 < 0 then int x else a3"] Cons.prems
        by (auto simp: Let_def)
    next
      case 4
      then have "unused s x" by (simp add: unused_def no_client_def unblocked_def)
      then show ?thesis using 4 Cons.prems by (auto simp: Let_def)
    qed
  qed simp
  then show "b1 = first_of (unused s) L (-1)"
    and "b1 = -1 \<Longrightarrow> b2 = (if a2 < 0 then first_of (no_client s) L a2 else a2)"
    and "b1 = -1 \<Longrightarrow> b3 = (if a3 < 0 then first_of (unblocked s) L a3 else a3)" by auto
qed

lemma first_of_pos: "\<forall>sig \<in> set L. 1 \<le> sig \<Longrightarrow> first_of P L (-1) > 0 \<or> first_of P L (-1) = -1"
  by (induction L) auto

lemma first_of_default_pos: "\<forall>sig \<in> set L. 1 \<le> sig \<Longrightarrow> 0 < d \<Longrightarrow> first_of P L d > 0"
  by (induction L) auto

lemma shootdown_signal_eq:
  assumes "list_ok s" "shootdown_signal s \<le> 0"
  shows "monitor_shootdown_signal s =
     (preferred_signal s, s\<lparr>shootdown_signal := preferred_signal s\<rparr>)"
proof -
  let ?L = "monitor_shootdown_list s"
  have pos: "\<forall>sig \<in> set ?L. 1 \<le> sig" using assms(1) by (auto simp: list_ok_def)
  obtain a1 a2 a3 where f: "find_unused s ?L (-1, -1, -1) = (a1, a2, a3)" by (metis prod_cases3)
  note sp = find_unused_spec [OF f pos]
  have "(if a1 > 0 then a1 else if a2 > 0 then a2 else if a3 > 0 then a3 else int last_resort_signal)
      = preferred_signal s"
  proof (cases "a1 > 0")
    case True
    then show ?thesis
      using sp(1) first_of_absorb [OF pos, of "unused s"] by (simp add: preferred_signal_def Let_def)
  next
    case False
    then have a1: "a1 = -1" using sp(1) first_of_pos [OF pos, of "unused s"] by auto
    have eqs: "a2 = first_of (no_client s) ?L (-1)" "a3 = first_of (unblocked s) ?L (-1)"
      using sp(2,3) a1 by auto
    have "first_of (unused s) ?L d = d" for d
      using first_of_absorb [OF pos, of "unused s" d] a1 sp(1) by simp
    then have "preferred_signal s =
       first_of (no_client s) ?L (first_of (unblocked s) ?L (int last_resort_signal))"
      by (simp add: preferred_signal_def Let_def)
    then show ?thesis
      unfolding if_not_P [OF False] eqs first_of_absorb [OF pos] by simp
  qed
  then show ?thesis using assms(2) f by (simp add: monitor_shootdown_signal_def Let_def)
qed

section \<open>The initial dispositions and the application's view\<close>

lemma install_appl_act:
  assumes "distinct sigs" "x \<in> set sigs" "\<not> mse_avoid (mse x s)" "\<not> sys_refuses sys x"
  shows "mse_appl_act (mse x (fold (install_handler sys) sigs s)) = kern_table s x"
  using assms
proof (induction sigs arbitrary: s)
  case (Cons y ys)
  show ?case
  proof (cases "x = y")
    case True
    then have out: "x \<notin> set ys" using Cons.prems by simp
    have keep: "mse_appl_act (mse x (fold (install_handler sys) ys t)) = mse_appl_act (mse x t)"
      if "x \<notin> set ys" for ys t
      using that by (induction ys arbitrary: t) (auto simp: install_handler_neq)
    have "mse_appl_act (mse x (install_handler sys x s)) = kern_table s x"
      using Cons.prems by (simp add: install_handler_def Let_def real_sigaction_def)
    then show ?thesis using True keep [OF out] by simp
  next
    case False
    then show ?thesis
      using Cons.IH [of "install_handler sys y s"] Cons.prems
      by (simp add: install_handler_neq install_handler_frame)
  qed
qed simp

lemma init_appl_act:
  assumes "\<not> signal_init_done s" "1 \<le> x" "x < MONITOR_NSIG"
    "x \<notin> set monitor_signal_avoid_list" "\<not> sys_refuses sys x"
  shows "mse_appl_act (mse x (monitor_signal_init sys s)) = kern_table s x"
proof -
  have env: "mse_appl_act (mse x (shootdown_from_env sys t)) = mse_appl_act (mse x t)" for t
    by (simp add: shootdown_from_env_def Let_def split: option.splits)
  have opn: "kern_table (mark_open sys t) = kern_table t" for t
    unfolding mark_open_def by (rule fold_frame) simp
  have mrk: "kern_table (mark_stop (mark_noraise (mark_noterm (mark_avoid t)))) = kern_table t" for t
    by (simp add: mark_avoid_def mark_noterm_def mark_noraise_def mark_stop_def
        monitor_signal_avoid_list_def monitor_signal_noterm_list_def
        monitor_signal_noraise_list_def monitor_signal_stop_list_def)
  show ?thesis
    using assms
    by (simp add: monitor_signal_init_def Let_def env install_all_def install_appl_act
        mark_simps zero_entry_def opn mrk)
qed

lemma set_kern_act_client [simp]:
  "mse_client_handler (mse x (set_kern_act sys sig act s)) = mse_client_handler (mse x s)"
  by (auto simp: set_kern_act_def Let_def case_prod_beta remove_client_signals_eq)

lemma appl_sigaction_valid:
  assumes "signal_init_done s" "real_sig sig s"
  shows "monitor_appl_sigaction sys (int sig) (Some a) s =
     ((0, Some (mse_appl_act (mse sig s))),
      set_kern_act sys sig a (upd_mse sig (\<lambda>e. e\<lparr>mse_appl_act := a\<rparr>)
        (if sa_handler a \<noteq> SIG_DFL \<and> sa_handler a \<noteq> SIG_IGN
         then upd_mse sig (\<lambda>e. e\<lparr>mse_appl_hand := True\<rparr>) s else s)))"
  using assms by (simp add: monitor_appl_sigaction_def init_again Let_def)

section \<open>Properties\<close>

text \<open>A host for the witnesses: glibc keeps signals 32 and 33, SIGRTMIN is 34, and all
  dispositions are the default.\<close>

definition linux_sys :: sigsys where
  "linux_sys = \<lparr>monitor_signal_open_list = [], sigrtmin = 34,
     sys_refuses = (\<lambda>sig. sig = 32 \<or> sig = 33), shootdown_env = None\<rparr>"

definition linux_start :: sigst where
  "linux_start = monitor_signal_init linux_sys (sigst_start (\<lambda>_. zero_sigact))"

lemma linux_reach: "sig_reach linux_sys linux_start"
  unfolding linux_start_def by (rule sig_reach.init)

lemma linux_winch: "\<not> sys_refuses linux_sys SIGWINCH"
  by (simp add: linux_sys_def SIGWINCH_def)

lemma linux_list_ok: "list_ok linux_start"
  unfolding linux_start_def by (rule init_list_ok) (simp_all add: sigst_start_def linux_winch)

lemma linux_shootdown: "shootdown_signal linux_start = -1"
  by (simp add: linux_start_def monitor_signal_init_def Let_def shootdown_from_env_def
      linux_sys_def sigst_start_def)

lemma linux_entry:
  "mse_avoid (mse x linux_start) \<longleftrightarrow> x = 9 \<or> x = 19"
  "mse_noterm (mse x linux_start) \<longleftrightarrow> x = 17 \<or> x = 18 \<or> x = 23 \<or> x = 28"
  "mse_noraise (mse x linux_start) \<longleftrightarrow> x = 11 \<or> x = 7 \<or> x = 4"
  "mse_stop (mse x linux_start) \<longleftrightarrow> x = 20 \<or> x = 21 \<or> x = 22"
  "mse_invalid (mse x linux_start) \<longleftrightarrow> x = 32 \<or> x = 33"
  "mse_client_handler (mse x linux_start) = None"
  unfolding linux_start_def
  by (subst init_entry; simp add: sigst_start_def signum_defs monitor_signal_avoid_list_def
      monitor_signal_noterm_list_def monitor_signal_noraise_list_def
      monitor_signal_stop_list_def linux_sys_def; fail | auto simp: init_entry sigst_start_def
      signum_defs monitor_signal_avoid_list_def linux_sys_def)+

text \<open>C3: a signal is always left open for thread shootdown.  After any sequence of
  sigaction, signal, sigprocmask, client sigaction and sigwait calls, and one
  more sigprocmask that sets the mask to anything at all, some valid signal is
  outside the mask and was never recorded as blocked.\<close>
theorem shootdown_signal_left_open:
  assumes "\<not> sys_refuses sys SIGWINCH" "sig_reach sys s"
    and "sigprocmask sys SIG_SETMASK (Some m) s = (old, s')"
  shows "\<exists>sig. 1 \<le> sig \<and> sig < MONITOR_NSIG \<and> valid_sig sig s' \<and>
           \<not> mse_blocked (mse sig s') \<and> sig \<notin> proc_mask s'"
proof -
  have d: "signal_init_done s"
    using sig_reach_inv [OF assms(2), where P = "\<lambda>_. True"] by simp
  obtain m1 s1 where r: "monitor_remove_client_signals m s = (m1, s1)" by fastforce
  have s': "s' = s1\<lparr>proc_mask := m1\<rparr>"
    using assms(3) r d by (simp add: sigprocmask_def init_again Let_def real_sigprocmask_def)
  show ?thesis
    using remove_client_open(2) [OF open_inv_reach [OF assms(1,2)] r] by (auto simp: s')
qed

theorem shootdown_signal_left_open_witness:
  "\<exists>sig. 1 \<le> sig \<and> sig < MONITOR_NSIG \<and>
     valid_sig sig (snd (sigprocmask linux_sys SIG_SETMASK (Some {1..64}) linux_start)) \<and>
     \<not> mse_blocked (mse sig (snd (sigprocmask linux_sys SIG_SETMASK (Some {1..64}) linux_start))) \<and>
     sig \<notin> proc_mask (snd (sigprocmask linux_sys SIG_SETMASK (Some {1..64}) linux_start))"
  by (rule shootdown_signal_left_open [OF linux_winch linux_reach prod.collapse [symmetric]])

text \<open>C13: the application cannot displace the monitor.  In every state these calls reach,
  the kernel's action for each signal the monitor manages is the monitor's own
  handler, with SA_SIGINFO and SA_RESTART set and SA_RESETHAND and SA_ONSTACK clear.\<close>
theorem kernel_runs_monitor_handler:
  assumes "sig_reach sys s" "1 \<le> sig" "sig < MONITOR_NSIG" "valid_sig sig s"
  shows "sa_handler (kern_table s sig) = MonitorHandler \<and>
    sa_flags (kern_table s sig) AND SAFLAGS_REQUIRED = SAFLAGS_REQUIRED \<and>
    sa_flags (kern_table s sig) AND SAFLAGS_FORBIDDEN = 0"
  using kern_inv_reach [OF assms(1)] assms(2-4)
  by (simp add: kern_inv_def kern_good_def flags_ok_def)

theorem kernel_runs_monitor_handler_witness:
  "let s = snd (sigaction linux_sys 15
       (Some \<lparr>sa_handler = SIG_IGN, sa_flags = SA_RESETHAND, sa_mask = {2}\<rparr>) linux_start)
   in sa_handler (kern_table s 15) = MonitorHandler \<and>
      sa_flags (kern_table s 15) AND SAFLAGS_FORBIDDEN = 0"
proof -
  let ?a = "\<lparr>sa_handler = SIG_IGN, sa_flags = SA_RESETHAND, sa_mask = {2}\<rparr>"
  let ?s = "snd (sigaction linux_sys 15 (Some ?a) linux_start)"
  have "valid_sig 15 ?s"
    using linux_entry(1,5) [of 15] init_done
    by (simp add: sigaction_def monitor_appl_sigaction_def Let_def init_again linux_start_def
        set_kern_act_eqs MONITOR_NSIG_def)
  then show ?thesis
    unfolding Let_def
    using kernel_runs_monitor_handler [OF sig_reach.appl [OF linux_reach], of 15 15 "Some ?a"]
    by (simp add: MONITOR_NSIG_def)
qed

text \<open>A signal the client has a handler for is kept open.\<close>

definition client_inv :: "sigst \<Rightarrow> bool" where
  "client_inv s \<longleftrightarrow> (\<forall>sig. mse_client_handler (mse sig s) \<noteq> None \<longrightarrow> mse_keep_open (mse sig s))"

lemma client_inv_frame:
  "client_inv s \<Longrightarrow> (\<And>x. mse_client_handler (mse x s') = mse_client_handler (mse x s)) \<Longrightarrow>
   (\<And>x. mse_keep_open (mse x s) \<Longrightarrow> mse_keep_open (mse x s')) \<Longrightarrow> client_inv s'"
  by (simp add: client_inv_def)

lemma client_inv_remove: "client_inv s \<Longrightarrow> client_inv (snd (monitor_remove_client_signals m s))"
  by (erule client_inv_frame)
    (auto simp: remove_client_signals_eq Let_def strip_entry_def choose_open_signal_def split: prod.splits)

lemma client_inv_sigaction: "client_inv s \<Longrightarrow> client_inv (snd (real_sigaction sys sig act s))"
  by (erule client_inv_frame) simp_all

lemma client_inv_upd:
  "client_inv s \<Longrightarrow> (\<And>e. mse_keep_open e \<Longrightarrow> mse_keep_open (f e)) \<Longrightarrow>
   (\<And>e. mse_client_handler (f e) = mse_client_handler e \<or> mse_keep_open (f e)) \<Longrightarrow> client_inv (upd_mse sig f s)"
  unfolding client_inv_def by (simp add: upd_mse_def) metis

lemma client_inv_reach:
  assumes "sig_reach sys s"
  shows "client_inv s"
proof -
  have "client_inv s \<and> signal_init_done s"
  proof (rule sig_reach_inv [OF assms, where P = client_inv])
    fix table
    show "client_inv (monitor_signal_init sys (sigst_start table))"
      using init_entry(6) [of "sigst_start table" sys] by (simp add: client_inv_def sigst_start_def)
  next
    fix s how m
    assume "client_inv s"
    then show "client_inv (snd (real_sigprocmask how m s))" by (rule client_inv_frame) simp_all
  next
    fix s sig act
    assume "client_inv s"
    then show "client_inv (snd (real_sigaction sys sig act s))" by (rule client_inv_sigaction)
  next
    fix s sig a
    assume "client_inv s"
    then show "client_inv (set_kern_act sys sig a s)"
      unfolding set_kern_act_def Let_def case_prod_beta
      by (intro client_inv_sigaction client_inv_upd client_inv_remove) auto
  next
    fix s e
    assume "client_inv s"
    then show "client_inv (sig_emit e s)" by (rule client_inv_frame) simp_all
  qed (rule client_inv_upd client_inv_remove; assumption)+
  then show ?thesis ..
qed

text \<open>C18: the application cannot block what the client catches.  After any calls of the
  client and the application, sigprocmask with SIG_BLOCK or SIG_SETMASK never newly blocks a
  signal for which the client has set a handler with monitor_sigaction, nor any other signal
  that is kept open; it blocks every other signal the application asked for, apart from the
  one it may have to choose now to keep open, and returns the mask there was.\<close>
theorem sigprocmask_spares_client_signals:
  assumes "sig_reach sys s" "how \<noteq> SIG_UNBLOCK" "sigprocmask sys how (Some m) s = (old, s')"
    and "1 \<le> sig" "sig < MONITOR_NSIG" "valid_sig sig s"
  shows "(if mse_client_handler (mse sig s) \<noteq> None \<or> mse_keep_open (mse sig s')
          then sig \<in> proc_mask s' \<longleftrightarrow> how = SIG_BLOCK \<and> sig \<in> proc_mask s
          else sig \<in> proc_mask s' \<longleftrightarrow> sig \<in> m \<or> how = SIG_BLOCK \<and> sig \<in> proc_mask s) \<and>
         mse_client_handler (mse sig s') = mse_client_handler (mse sig s) \<and>
         old = proc_mask s \<and>
         (mse_keep_open (mse sig s') \<longrightarrow> \<not> mse_keep_open (mse sig s) \<longrightarrow>
            shootdown_signal s < 0 \<and> shootdown_signal s' = int sig)"
proof -
  have d: "signal_init_done s"
    using sig_reach_inv [OF assms(1), where P = "\<lambda>_. True"] by simp
  let ?t = "choose_open_signal m s"
  have s': "s' = (?t\<lparr>monitor_signal_array := strip_entry m {1..<MONITOR_NSIG} ?t\<rparr>)
      \<lparr>proc_mask := (if how = SIG_BLOCK then proc_mask s else {}) \<union>
        (m - {x. 1 \<le> x \<and> x < MONITOR_NSIG \<and> valid_sig x ?t \<and> mse_keep_open (mse x ?t)})\<rparr>"
    and old: "old = proc_mask s"
    using assms(2,3) d
    by (cases how; simp add: sigprocmask_def init_again Let_def real_sigprocmask_def
        remove_client_signals_eq)+
  have kept: "mse_keep_open (mse sig s')" if "mse_client_handler (mse sig s) \<noteq> None"
  proof -
    have "mse_keep_open (mse sig s)" using client_inv_reach [OF assms(1)] that by (simp add: client_inv_def)
    then show ?thesis by (cases rule: choose_open_cases [of m s]) (auto simp: s')
  qed
  have "if mse_keep_open (mse sig s') then sig \<in> proc_mask s' \<longleftrightarrow> how = SIG_BLOCK \<and> sig \<in> proc_mask s
         else sig \<in> proc_mask s' \<longleftrightarrow> sig \<in> m \<or> how = SIG_BLOCK \<and> sig \<in> proc_mask s"
    using assms(4-6) by (auto simp: s')
  moreover have "mse_client_handler (mse sig s') = mse_client_handler (mse sig s)"
    by (cases rule: choose_open_cases [of m s]) (auto simp: s')
  moreover have "old = proc_mask s \<and> (mse_keep_open (mse sig s') \<longrightarrow> \<not> mse_keep_open (mse sig s) \<longrightarrow>
           shootdown_signal s < 0 \<and> shootdown_signal s' = int sig)"
    using old by (cases rule: choose_open_cases [of m s]) (auto simp: s')
  ultimately show ?thesis using kept by auto
qed

theorem sigprocmask_spares_client_signals_witness:
  "let s = snd (monitor_sigaction linux_sys 10 (Some 7) 0 None linux_start);
       s' = snd (sigprocmask linux_sys SIG_SETMASK (Some {10, 12}) s)
   in mse_client_handler (mse 10 s) = Some 7 \<and> 10 \<notin> proc_mask s'"
proof -
  let ?s = "snd (monitor_sigaction linux_sys 10 (Some 7) 0 None linux_start)"
  let ?s' = "snd (sigprocmask linux_sys SIG_SETMASK (Some {10, 12}) ?s)"
  have r: "sig_reach linux_sys ?s" by (rule sig_reach.client [OF linux_reach])
  have v: "valid_sig 10 ?s" "mse_client_handler (mse 10 ?s) = Some 7"
    using linux_entry(1,5) [of 10]
    by (simp_all add: monitor_sigaction_def Let_def init_again linux_start_def invalid_signal_def
        MONITOR_NSIG_def)
  have "10 \<notin> proc_mask ?s'"
    using sigprocmask_spares_client_signals [OF r _ prod.collapse [symmetric], of SIG_SETMASK 10 "{10, 12}"]
      v by (simp add: MONITOR_NSIG_def)
  then show ?thesis unfolding Let_def using v(2) by blast
qed

text \<open>The default action.  Right after the initialisation, a signal whose disposition
  was the default and that no client catches: the four ignored by default do
  nothing, the three stop signals raise SIGSTOP, and any other one first ends
  the process and the library, then puts the default action and an empty mask in
  the kernel and raises the signal again, except SEGV, BUS and ILL, which return.\<close>
lemma default_signal_dispatch:
  fixes sys ret s0 sig
  assumes "\<not> signal_init_done s0" "1 \<le> sig" "sig < MONITOR_NSIG"
    and "sig \<notin> {SIGKILL, SIGSTOP}" "\<not> sys_refuses sys sig" "sa_handler (kern_table s0 sig) = SIG_DFL"
  defines "s \<equiv> monitor_signal_init sys s0"
  defines "t \<equiv> monitor_signal_handler sys ret (int sig) s"
  shows "sig_trace t = sig_trace s0 @
           (if sig \<in> {SIGCHLD, SIGCONT, SIGURG, SIGWINCH} then []
            else if sig \<in> {SIGTSTP, SIGTTIN, SIGTTOU} then [Raise SIGSTOP]
            else if sig \<in> {SIGSEGV, SIGBUS, SIGILL} then [EndProcess, EndLibrary]
            else [EndProcess, EndLibrary, Raise sig]) \<and>
         (EndProcess \<in> set (drop (length (sig_trace s0)) (sig_trace t)) \<longleftrightarrow>
            sa_handler (kern_table t sig) = SIG_DFL) \<and>
         (sa_handler (kern_table t sig) = SIG_DFL \<longrightarrow> proc_mask t = {})"
proof -
  note e = init_entry(1-7) [OF assms(1), of sys sig, folded s_def]
    and tr = init_entry(8) [OF assms(1), of sys, folded s_def]
  have av: "sig \<notin> set monitor_signal_avoid_list"
    using assms(4) by (simp add: monitor_signal_avoid_list_def)
  have appl: "mse_appl_act (mse sig s) = kern_table s0 sig"
    unfolding s_def using assms av by (intro init_appl_act)
  have kern: "sa_handler (kern_table s sig) = MonitorHandler"
    using kern_inv_init [OF assms(1), of sys] assms(2,3,5) av e(1,7)
    by (simp add: s_def kern_inv_def kern_good_def)
  have "offer_client ret sig s = (False, s)" using e(6) by (simp add: offer_client_def)
  then have t: "t = default_action sys sig s"
    using assms(2,3,5,6) av e(1,7) appl by (simp add: t_def monitor_signal_handler_def invalid_signal_def Let_def)
  show ?thesis
    using assms(5) kern e tr
    by (simp add: t default_action_def Let_def real_sigprocmask_def monitor_signal_noterm_list_def
        monitor_signal_noraise_list_def monitor_signal_stop_list_def real_sigaction_def)
qed

text \<open>The choice of the shootdown signal follows the documented order: the first
  unblocked signal of the list without client and application handler, else the
  first unblocked one without client handler, else the first unblocked one, else
  the last resort.  Once chosen, the answer stays the same.\<close>
lemma shootdown_signal_preference:
  assumes "list_ok s" "shootdown_signal s \<le> 0"
  shows "fst (monitor_shootdown_signal s) = preferred_signal s \<and>
    fst (monitor_shootdown_signal (snd (monitor_shootdown_signal s))) = preferred_signal s"
proof -
  have "\<forall>sig \<in> set (monitor_shootdown_list s). 1 \<le> sig" using assms(1) by (auto simp: list_ok_def)
  then have "first_of P (monitor_shootdown_list s) d > 0" if "d > 0" for P d
    using that by (simp add: first_of_default_pos)
  then have "preferred_signal s > 0"
    by (simp add: preferred_signal_def Let_def last_resort_signal_def SIGWINCH_def)
  then show ?thesis
    using shootdown_signal_eq [OF assms] by (simp add: monitor_shootdown_signal_def)
qed

text \<open>Sigaction round trip.  For a signal the monitor manages, the application reads
  back through oldact the very action it set before, flags and mask unadjusted,
  although the kernel was given another one.\<close>
lemma sigaction_returns_previous:
  assumes "sig_reach sys s" "1 \<le> sig" "sig < MONITOR_NSIG" "valid_sig sig s"
  shows "fst (sigaction sys (int sig) (Some b) (snd (sigaction sys (int sig) (Some a) s))) = (0, Some a)"
proof -
  have d: "signal_init_done s"
    using sig_reach_inv [OF assms(1), where P = "\<lambda>_. True"] by simp
  let ?s1 = "snd (sigaction sys (int sig) (Some a) s)"
  have one: "?s1 = set_kern_act sys sig a (upd_mse sig (\<lambda>e. e\<lparr>mse_appl_act := a\<rparr>)
        (if sa_handler a \<noteq> SIG_DFL \<and> sa_handler a \<noteq> SIG_IGN
         then upd_mse sig (\<lambda>e. e\<lparr>mse_appl_hand := True\<rparr>) s else s))"
    using appl_sigaction_valid [OF d, of sig sys a] assms(2-4) by (simp add: sigaction_def)
  have "signal_init_done ?s1" "real_sig sig ?s1" "mse_appl_act (mse sig ?s1) = a"
    using d assms(2-4) by (simp_all add: one set_kern_act_eqs)
  then show ?thesis using appl_sigaction_valid [of ?s1 sig sys b] by (simp add: sigaction_def)
qed

text \<open>Monitor_shootdown_signal does not keep its choice open.  A signal it chooses
  that was not on the keep open list goes into the mask of the next sigprocmask
  that asks for it, although a shootdown with that signal may be under way.\<close>
lemma chosen_shootdown_signal_maskable:
  fixes sys s sig
  assumes "sig_reach sys s" "shootdown_signal s < 0" "preferred_signal s = int sig"
    and "list_ok s" "1 \<le> sig" "\<not> mse_keep_open (mse sig s)"
  defines "s1 \<equiv> snd (monitor_shootdown_signal s)"
  shows "shootdown_signal s1 = int sig \<and>
    sig \<in> proc_mask (snd (sigprocmask sys SIG_SETMASK (Some {sig}) s1))"
proof -
  have d: "signal_init_done s"
    using sig_reach_inv [OF assms(1), where P = "\<lambda>_. True"] by simp
  have s1: "s1 = s\<lparr>shootdown_signal := int sig\<rparr>"
    using shootdown_signal_eq [OF assms(4)] assms(2,3) by (simp add: s1_def)
  have "choose_open_signal {sig} s1 = s1" using assms(5) by (simp add: choose_open_signal_def s1)
  then show ?thesis
    using d assms(6)
    by (simp add: s1 sigprocmask_def init_again remove_client_signals_eq real_sigprocmask_def Let_def)
qed

end
