(* ===== verification/Client.thy ===== *)
theory Client
  imports Prelude
begin

text \<open>
  The client tool's callbacks (monitor/src/monitor.h) whose results libmonitor
  uses, as a record of functions, and the default weak callbacks of
  monitor/src/callback.c.  A callback that returns nothing shows up as an event
  of the component that makes the call.
\<close>

record client =
  cl_pre_fork :: cptr
  cl_init_process :: "cptr \<Rightarrow> cptr"
  cl_thread_pre_create :: cptr
  cl_init_thread :: "int \<Rightarrow> cptr \<Rightarrow> cptr"
  cl_reset_stacksize :: "nat \<Rightarrow> nat"
  cl_wrap_main :: int

definition default_pre_fork :: cptr where
  "default_pre_fork = NULL"

definition default_init_process :: "cptr \<Rightarrow> cptr" where
  "default_init_process data = data"

definition default_thread_pre_create :: cptr where
  "default_thread_pre_create = NULL"

definition default_init_thread :: "int \<Rightarrow> cptr \<Rightarrow> cptr" where
  "default_init_thread tid data = data"

definition default_reset_stacksize :: "nat \<Rightarrow> nat" where
  "default_reset_stacksize old_size = old_size"

definition default_wrap_main :: int where
  "default_wrap_main = 0"

definition default_client :: client where
  "default_client = \<lparr>cl_pre_fork = default_pre_fork, cl_init_process = default_init_process,
     cl_thread_pre_create = default_thread_pre_create, cl_init_thread = default_init_thread,
     cl_reset_stacksize = default_reset_stacksize, cl_wrap_main = default_wrap_main\<rparr>"

end
