(* ===== verification/Dlopen.thy ===== *)
theory Dlopen
  imports Prelude
begin

text \<open>
  monitor/src/dlopen.c: the overrides of dlopen and dlclose put one callback
  before and one after the real call; the client's own access bypasses them.
\<close>

datatype dl_event =
    PreDlopen string int
  | DlopenDone string int cptr
  | DlcloseStart cptr
  | PostDlclose cptr int
  | RealDlopen string int
  | RealDlclose cptr

record dlst =
  dlopen_init_done :: bool
  dl_trace :: "dl_event list"

definition dl_emit :: "dl_event \<Rightarrow> dlst \<Rightarrow> dlst" where
  "dl_emit e s = s\<lparr>dl_trace := dl_trace s @ [e]\<rparr>"

definition monitor_dlopen_init :: "dlst \<Rightarrow> dlst" where
  "monitor_dlopen_init s = (if dlopen_init_done s then s else s\<lparr>dlopen_init_done := True\<rparr>)"

text \<open>The real functions are parameters; each call is recorded.\<close>

definition monitor_real_dlopen :: "(string \<Rightarrow> int \<Rightarrow> cptr) \<Rightarrow> string \<Rightarrow> int \<Rightarrow> dlst \<Rightarrow> cptr \<times> dlst" where
  "monitor_real_dlopen real path flags s =
    (real path flags, dl_emit (RealDlopen path flags) (monitor_dlopen_init s))"

definition monitor_real_dlclose :: "(cptr \<Rightarrow> int) \<Rightarrow> cptr \<Rightarrow> dlst \<Rightarrow> int \<times> dlst" where
  "monitor_real_dlclose real h s = (real h, dl_emit (RealDlclose h) (monitor_dlopen_init s))"

definition dlopen :: "(string \<Rightarrow> int \<Rightarrow> cptr) \<Rightarrow> string \<Rightarrow> int \<Rightarrow> dlst \<Rightarrow> cptr \<times> dlst" where
  "dlopen real path flags s =
    (let s1 = dl_emit (PreDlopen path flags) (monitor_dlopen_init s);
         h = real path flags;
         s2 = dl_emit (RealDlopen path flags) s1
     in (h, dl_emit (DlopenDone path flags h) s2))"

definition dlclose :: "(cptr \<Rightarrow> int) \<Rightarrow> cptr \<Rightarrow> dlst \<Rightarrow> int \<times> dlst" where
  "dlclose real h s =
    (let s1 = dl_emit (DlcloseStart h) (monitor_dlopen_init s);
         ret = real h;
         s2 = dl_emit (RealDlclose h) s1
     in (ret, dl_emit (PostDlclose h ret) s2))"

lemma dlopen_bracket:
  "dl_trace (snd (dlopen real path flags s)) = dl_trace s @
     [PreDlopen path flags, RealDlopen path flags, DlopenDone path flags (real path flags)]"
  by (simp add: dlopen_def dl_emit_def monitor_dlopen_init_def Let_def)

lemma dlclose_bracket:
  "dl_trace (snd (dlclose real h s)) = dl_trace s @
     [DlcloseStart h, RealDlclose h, PostDlclose h (real h)]"
  by (simp add: dlclose_def dl_emit_def monitor_dlopen_init_def Let_def)

end
