(* ===== verification/Mpi.thy ===== *)
theory Mpi
  imports Prelude
begin

text \<open>
  monitor/src/mpi.c, pmpi.c and the override files mpi_init_*.c,
  mpi_init_thread_*.c, mpi_final_*.c and mpi_comm_*.c.  A Fortran entry point of
  the MPI library may call the C one, which is overridden too, so the overrides
  nest; the counters make each client callback run once per call of the
  application.  The real MPI function is a parameter that runs on the monitor's
  state, because it may call further overrides; a tree of calls says which.
\<close>

section \<open>State of mpi.c\<close>

datatype mpi_args = CallerArgs | MainArgs

datatype mpi_event =
    MpiPreInit
  | InitMpi mpi_args
  | FiniMpi int int
  | MpiPostFini
  | RealMpi

record mpist =
  mpi_init_count :: int
  mpi_fini_count :: int
  max_init_count :: int
  mpi_size :: int
  mpi_rank :: int
  set_size_rank_first :: bool
  set_mpi_size_rank_first :: bool
  mpi_trace :: "mpi_event list"

definition mpist_start :: mpist where
  "mpist_start = \<lparr>mpi_init_count = 0, mpi_fini_count = 0, max_init_count = 0,
     mpi_size = -1, mpi_rank = -1, set_size_rank_first = True,
     set_mpi_size_rank_first = True, mpi_trace = []\<rparr>"

definition mpi_emit :: "mpi_event \<Rightarrow> mpist \<Rightarrow> mpist" where
  "mpi_emit e s = s\<lparr>mpi_trace := mpi_trace s @ [e]\<rparr>"

definition monitor_mpi_init_count :: "int \<Rightarrow> mpist \<Rightarrow> int \<times> mpist" where
  "monitor_mpi_init_count inc s =
    (let c = mpi_init_count s + inc;
         s1 = s\<lparr>mpi_init_count := c\<rparr>;
         s2 = (if c > max_init_count s1 then s1\<lparr>max_init_count := c\<rparr> else s1)
     in (c, s2))"

definition monitor_mpi_fini_count :: "int \<Rightarrow> mpist \<Rightarrow> int \<times> mpist" where
  "monitor_mpi_fini_count inc s =
    (let c = mpi_fini_count s + inc in (c, s\<lparr>mpi_fini_count := c\<rparr>))"

definition monitor_set_size_rank :: "int \<Rightarrow> int \<Rightarrow> mpist \<Rightarrow> mpist" where
  "monitor_set_size_rank sz rank s =
    (if set_size_rank_first s
     then s\<lparr>mpi_size := sz, mpi_rank := rank, set_size_rank_first := False\<rparr> else s)"

definition monitor_set_mpi_size_rank :: "int \<Rightarrow> int \<Rightarrow> mpist \<Rightarrow> mpist" where
  "monitor_set_mpi_size_rank sz rank s =
    (if set_mpi_size_rank_first s \<and> mpi_init_count s = 0 \<and> max_init_count s > 0
     then (monitor_set_size_rank sz rank s)\<lparr>set_mpi_size_rank_first := False\<rparr> else s)"

definition monitor_mpi_comm_size :: "mpist \<Rightarrow> int" where
  "monitor_mpi_comm_size s = mpi_size s"

definition monitor_mpi_comm_rank :: "mpist \<Rightarrow> int" where
  "monitor_mpi_comm_rank s = mpi_rank s"

section \<open>The override bodies\<close>

text \<open>A C override returns the code of the real function; a Fortran one stores it itself.\<close>

type_synonym c_mpi = "mpist \<Rightarrow> int \<times> mpist"
type_synonym f_mpi = "mpist \<Rightarrow> mpist"

definition C_INIT_BODY :: "c_mpi \<Rightarrow> c_mpi" where
  "C_INIT_BODY real s =
    (let (count, s1) = monitor_mpi_init_count 1 s;
         s2 = (if count = 1 then mpi_emit MpiPreInit s1 else s1);
         (ret, s3) = real s2;
         s4 = (if count = 1 then mpi_emit (InitMpi CallerArgs) s3 else s3)
     in (ret, snd (monitor_mpi_init_count (-1) s4)))"

definition FORTRAN_INIT_BODY :: "f_mpi \<Rightarrow> f_mpi" where
  "FORTRAN_INIT_BODY real s =
    (let (count, s1) = monitor_mpi_init_count 1 s;
         s2 = (if count = 1 then mpi_emit MpiPreInit s1 else s1);
         s3 = real s2;
         s4 = (if count = 1 then mpi_emit (InitMpi MainArgs) s3 else s3)
     in snd (monitor_mpi_init_count (-1) s4))"

definition C_FINALIZE_BODY :: "c_mpi \<Rightarrow> c_mpi" where
  "C_FINALIZE_BODY real s =
    (let (count, s1) = monitor_mpi_fini_count 1 s;
         s2 = (if count = 1
               then mpi_emit (FiniMpi (monitor_mpi_comm_size s1) (monitor_mpi_comm_rank s1)) s1 else s1);
         (ret, s3) = real s2;
         s4 = (if count = 1 then mpi_emit MpiPostFini s3 else s3)
     in (ret, snd (monitor_mpi_fini_count (-1) s4)))"

definition FORTRAN_FINALIZE_BODY :: "f_mpi \<Rightarrow> f_mpi" where
  "FORTRAN_FINALIZE_BODY real s =
    (let (count, s1) = monitor_mpi_fini_count 1 s;
         s2 = (if count = 1
               then mpi_emit (FiniMpi (monitor_mpi_comm_size s1) (monitor_mpi_comm_rank s1)) s1 else s1);
         s3 = real s2;
         s4 = (if count = 1 then mpi_emit MpiPostFini s3 else s3)
     in snd (monitor_mpi_fini_count (-1) s4))"

text \<open>The real MPI_Comm_size and MPI_Comm_rank: the size starts at -1 and the two calls
  store size and rank; the second return code is the result.\<close>

definition C_COMM_RANK_BODY ::
  "(int \<Rightarrow> mpist \<Rightarrow> (int \<times> int) \<times> mpist) \<Rightarrow> (mpist \<Rightarrow> (int \<times> int) \<times> mpist) \<Rightarrow>
   mpist \<Rightarrow> (int \<times> int) \<times> mpist" where
  "C_COMM_RANK_BODY real_size real_rank s =
    (let ((ret1, sz), s1) = real_size (-1) s;
         ((ret2, rank), s2) = real_rank s1
     in ((ret2, rank), monitor_set_mpi_size_rank sz rank s2))"

definition FORTRAN_COMM_RANK_BODY ::
  "(int \<Rightarrow> mpist \<Rightarrow> int \<times> mpist) \<Rightarrow> (mpist \<Rightarrow> int \<times> mpist) \<Rightarrow> mpist \<Rightarrow> int \<times> mpist" where
  "FORTRAN_COMM_RANK_BODY real_size real_rank s =
    (let (sz, s1) = real_size (-1) s;
         (rank, s2) = real_rank s1
     in (rank, monitor_set_mpi_size_rank sz rank s2))"

section \<open>The overrides\<close>

definition MPI_Init :: "c_mpi \<Rightarrow> c_mpi" where "MPI_Init real s = C_INIT_BODY real s"
definition mpi_init_f0 :: "f_mpi \<Rightarrow> f_mpi" where "mpi_init_f0 real s = FORTRAN_INIT_BODY real s"
definition mpi_init_f1 :: "f_mpi \<Rightarrow> f_mpi" where "mpi_init_f1 real s = FORTRAN_INIT_BODY real s"
definition mpi_init_f2 :: "f_mpi \<Rightarrow> f_mpi" where "mpi_init_f2 real s = FORTRAN_INIT_BODY real s"

definition MPI_Init_thread :: "c_mpi \<Rightarrow> c_mpi" where "MPI_Init_thread real s = C_INIT_BODY real s"
definition mpi_init_thread_f0 :: "f_mpi \<Rightarrow> f_mpi" where
  "mpi_init_thread_f0 real s = FORTRAN_INIT_BODY real s"
definition mpi_init_thread_f1 :: "f_mpi \<Rightarrow> f_mpi" where
  "mpi_init_thread_f1 real s = FORTRAN_INIT_BODY real s"
definition mpi_init_thread_f2 :: "f_mpi \<Rightarrow> f_mpi" where
  "mpi_init_thread_f2 real s = FORTRAN_INIT_BODY real s"

definition MPI_Finalize :: "c_mpi \<Rightarrow> c_mpi" where "MPI_Finalize real s = C_FINALIZE_BODY real s"
definition mpi_finalize_f0 :: "f_mpi \<Rightarrow> f_mpi" where
  "mpi_finalize_f0 real s = FORTRAN_FINALIZE_BODY real s"
definition mpi_finalize_f1 :: "f_mpi \<Rightarrow> f_mpi" where
  "mpi_finalize_f1 real s = FORTRAN_FINALIZE_BODY real s"
definition mpi_finalize_f2 :: "f_mpi \<Rightarrow> f_mpi" where
  "mpi_finalize_f2 real s = FORTRAN_FINALIZE_BODY real s"

definition MPI_Comm_rank ::
  "(int \<Rightarrow> mpist \<Rightarrow> (int \<times> int) \<times> mpist) \<Rightarrow> (mpist \<Rightarrow> (int \<times> int) \<times> mpist) \<Rightarrow>
   mpist \<Rightarrow> (int \<times> int) \<times> mpist" where
  "MPI_Comm_rank real_size real_rank s = C_COMM_RANK_BODY real_size real_rank s"
definition mpi_comm_rank_f0 ::
  "(int \<Rightarrow> mpist \<Rightarrow> int \<times> mpist) \<Rightarrow> (mpist \<Rightarrow> int \<times> mpist) \<Rightarrow> mpist \<Rightarrow> int \<times> mpist" where
  "mpi_comm_rank_f0 real_size real_rank s = FORTRAN_COMM_RANK_BODY real_size real_rank s"
definition mpi_comm_rank_f1 ::
  "(int \<Rightarrow> mpist \<Rightarrow> int \<times> mpist) \<Rightarrow> (mpist \<Rightarrow> int \<times> mpist) \<Rightarrow> mpist \<Rightarrow> int \<times> mpist" where
  "mpi_comm_rank_f1 real_size real_rank s = FORTRAN_COMM_RANK_BODY real_size real_rank s"
definition mpi_comm_rank_f2 ::
  "(int \<Rightarrow> mpist \<Rightarrow> int \<times> mpist) \<Rightarrow> (mpist \<Rightarrow> int \<times> mpist) \<Rightarrow> mpist \<Rightarrow> int \<times> mpist" where
  "mpi_comm_rank_f2 real_size real_rank s = FORTRAN_COMM_RANK_BODY real_size real_rank s"

text \<open>pmpi.c: the same overrides for the profiling names.\<close>

definition PMPI_Init :: "c_mpi \<Rightarrow> c_mpi" where "PMPI_Init real s = C_INIT_BODY real s"
definition pmpi_init_f :: "f_mpi \<Rightarrow> f_mpi" where "pmpi_init_f real s = FORTRAN_INIT_BODY real s"
definition PMPI_Init_thread :: "c_mpi \<Rightarrow> c_mpi" where "PMPI_Init_thread real s = C_INIT_BODY real s"
definition pmpi_init_thread_f :: "f_mpi \<Rightarrow> f_mpi" where
  "pmpi_init_thread_f real s = FORTRAN_INIT_BODY real s"
definition PMPI_Finalize :: "c_mpi \<Rightarrow> c_mpi" where "PMPI_Finalize real s = C_FINALIZE_BODY real s"
definition pmpi_finalize_f :: "f_mpi \<Rightarrow> f_mpi" where
  "pmpi_finalize_f real s = FORTRAN_FINALIZE_BODY real s"
definition PMPI_Comm_rank ::
  "(int \<Rightarrow> mpist \<Rightarrow> (int \<times> int) \<times> mpist) \<Rightarrow> (mpist \<Rightarrow> (int \<times> int) \<times> mpist) \<Rightarrow>
   mpist \<Rightarrow> (int \<times> int) \<times> mpist" where
  "PMPI_Comm_rank real_size real_rank s = C_COMM_RANK_BODY real_size real_rank s"
definition pmpi_comm_rank_f ::
  "(int \<Rightarrow> mpist \<Rightarrow> int \<times> mpist) \<Rightarrow> (mpist \<Rightarrow> int \<times> mpist) \<Rightarrow> mpist \<Rightarrow> int \<times> mpist" where
  "pmpi_comm_rank_f real_size real_rank s = FORTRAN_COMM_RANK_BODY real_size real_rank s"

lemmas mpi_entry_defs = MPI_Init_def mpi_init_f0_def mpi_init_f1_def mpi_init_f2_def
  MPI_Init_thread_def mpi_init_thread_f0_def mpi_init_thread_f1_def mpi_init_thread_f2_def
  MPI_Finalize_def mpi_finalize_f0_def mpi_finalize_f1_def mpi_finalize_f2_def
  MPI_Comm_rank_def mpi_comm_rank_f0_def mpi_comm_rank_f1_def mpi_comm_rank_f2_def
  PMPI_Init_def pmpi_init_f_def PMPI_Init_thread_def pmpi_init_thread_f_def
  PMPI_Finalize_def pmpi_finalize_f_def PMPI_Comm_rank_def pmpi_comm_rank_f_def

section \<open>Trees of calls\<close>

datatype binding = BindC | BindF0 | BindF1 | BindF2
datatype layer = LayerMPI | LayerPMPI

text \<open>A call of the application or of the MPI library, with the overridden calls the real
  function makes, and for MPI_Comm_rank the size and the rank it reports.\<close>

datatype mpi_call =
    CallInit layer binding bool "mpi_call list"
  | CallFinalize layer binding "mpi_call list"
  | CallCommRank layer binding int int "mpi_call list"

definition c_of :: "f_mpi \<Rightarrow> c_mpi" where "c_of real s = (0, real s)"

definition override_init :: "layer \<Rightarrow> binding \<Rightarrow> bool \<Rightarrow> f_mpi \<Rightarrow> f_mpi" where
  "override_init l b threaded real s =
    (case (l, threaded, b) of
       (LayerMPI, False, BindC) \<Rightarrow> snd (MPI_Init (c_of real) s)
     | (LayerMPI, False, BindF0) \<Rightarrow> mpi_init_f0 real s
     | (LayerMPI, False, BindF1) \<Rightarrow> mpi_init_f1 real s
     | (LayerMPI, False, BindF2) \<Rightarrow> mpi_init_f2 real s
     | (LayerMPI, True, BindC) \<Rightarrow> snd (MPI_Init_thread (c_of real) s)
     | (LayerMPI, True, BindF0) \<Rightarrow> mpi_init_thread_f0 real s
     | (LayerMPI, True, BindF1) \<Rightarrow> mpi_init_thread_f1 real s
     | (LayerMPI, True, BindF2) \<Rightarrow> mpi_init_thread_f2 real s
     | (LayerPMPI, False, BindC) \<Rightarrow> snd (PMPI_Init (c_of real) s)
     | (LayerPMPI, False, _) \<Rightarrow> pmpi_init_f real s
     | (LayerPMPI, True, BindC) \<Rightarrow> snd (PMPI_Init_thread (c_of real) s)
     | (LayerPMPI, True, _) \<Rightarrow> pmpi_init_thread_f real s)"

definition override_finalize :: "layer \<Rightarrow> binding \<Rightarrow> f_mpi \<Rightarrow> f_mpi" where
  "override_finalize l b real s =
    (case (l, b) of
       (LayerMPI, BindC) \<Rightarrow> snd (MPI_Finalize (c_of real) s)
     | (LayerMPI, BindF0) \<Rightarrow> mpi_finalize_f0 real s
     | (LayerMPI, BindF1) \<Rightarrow> mpi_finalize_f1 real s
     | (LayerMPI, BindF2) \<Rightarrow> mpi_finalize_f2 real s
     | (LayerPMPI, BindC) \<Rightarrow> snd (PMPI_Finalize (c_of real) s)
     | (LayerPMPI, _) \<Rightarrow> pmpi_finalize_f real s)"

definition override_comm_rank ::
  "layer \<Rightarrow> binding \<Rightarrow> int \<Rightarrow> int \<Rightarrow> f_mpi \<Rightarrow> f_mpi" where
  "override_comm_rank l b sz rank real s =
    (case (l, b) of
       (LayerMPI, BindC) \<Rightarrow> snd (MPI_Comm_rank (\<lambda>_ t. ((0, sz), t)) (\<lambda>t. ((0, rank), real t)) s)
     | (LayerMPI, BindF0) \<Rightarrow> snd (mpi_comm_rank_f0 (\<lambda>_ t. (sz, t)) (\<lambda>t. (rank, real t)) s)
     | (LayerMPI, BindF1) \<Rightarrow> snd (mpi_comm_rank_f1 (\<lambda>_ t. (sz, t)) (\<lambda>t. (rank, real t)) s)
     | (LayerMPI, BindF2) \<Rightarrow> snd (mpi_comm_rank_f2 (\<lambda>_ t. (sz, t)) (\<lambda>t. (rank, real t)) s)
     | (LayerPMPI, BindC) \<Rightarrow> snd (PMPI_Comm_rank (\<lambda>_ t. ((0, sz), t)) (\<lambda>t. ((0, rank), real t)) s)
     | (LayerPMPI, _) \<Rightarrow> snd (pmpi_comm_rank_f (\<lambda>_ t. (sz, t)) (\<lambda>t. (rank, real t)) s))"

fun run_call :: "mpi_call \<Rightarrow> f_mpi" and run_calls :: "mpi_call list \<Rightarrow> f_mpi" where
  "run_call (CallInit l b threaded body) s =
     override_init l b threaded (\<lambda>t. run_calls body (mpi_emit RealMpi t)) s"
| "run_call (CallFinalize l b body) s =
     override_finalize l b (\<lambda>t. run_calls body (mpi_emit RealMpi t)) s"
| "run_call (CallCommRank l b sz rank body) s =
     override_comm_rank l b sz rank (\<lambda>t. run_calls body (mpi_emit RealMpi t)) s"
| "run_calls [] s = s"
| "run_calls (c # cs) s = run_calls cs (run_call c s)"

section \<open>Facts\<close>

lemma mpi_emit_simps [simp]:
  "mpi_init_count (mpi_emit e s) = mpi_init_count s" "mpi_fini_count (mpi_emit e s) = mpi_fini_count s"
  "max_init_count (mpi_emit e s) = max_init_count s" "mpi_size (mpi_emit e s) = mpi_size s"
  "mpi_rank (mpi_emit e s) = mpi_rank s" "set_size_rank_first (mpi_emit e s) = set_size_rank_first s"
  "set_mpi_size_rank_first (mpi_emit e s) = set_mpi_size_rank_first s"
  "mpi_trace (mpi_emit e s) = mpi_trace s @ [e]"
  by (simp_all add: mpi_emit_def)

text \<open>All init overrides do the same, apart from whose arguments the callback gets.\<close>

definition init_args :: "binding \<Rightarrow> mpi_args" where
  "init_args b = (if b = BindC then CallerArgs else MainArgs)"

definition init_step :: "mpi_args \<Rightarrow> f_mpi \<Rightarrow> f_mpi" where
  "init_step args real s =
    (let (count, s1) = monitor_mpi_init_count 1 s;
         s3 = real (if count = 1 then mpi_emit MpiPreInit s1 else s1)
     in snd (monitor_mpi_init_count (-1) (if count = 1 then mpi_emit (InitMpi args) s3 else s3)))"

lemma override_init_eq: "override_init l b threaded real s = init_step (init_args b) real s"
  by (cases l; cases threaded; cases b)
    (simp_all add: override_init_def mpi_entry_defs C_INIT_BODY_def FORTRAN_INIT_BODY_def
      init_step_def c_of_def init_args_def monitor_mpi_init_count_def Let_def)

lemma override_finalize_eq: "override_finalize l b real s = FORTRAN_FINALIZE_BODY real s"
  by (cases l; cases b)
    (simp_all add: override_finalize_def mpi_entry_defs C_FINALIZE_BODY_def
      FORTRAN_FINALIZE_BODY_def c_of_def monitor_mpi_fini_count_def Let_def)

lemma override_comm_rank_eq:
  "override_comm_rank l b sz rank real s = monitor_set_mpi_size_rank sz rank (real s)"
  by (cases l; cases b)
    (simp_all add: override_comm_rank_def mpi_entry_defs C_COMM_RANK_BODY_def FORTRAN_COMM_RANK_BODY_def)

text \<open>What the client must see: the callbacks of the calls that are outermost of their kind.\<close>

fun expected :: "bool \<Rightarrow> bool \<Rightarrow> mpi_call \<Rightarrow> mpi_event list"
  and expected_list :: "bool \<Rightarrow> bool \<Rightarrow> mpi_call list \<Rightarrow> mpi_event list" where
  "expected i f (CallInit l b threaded body) =
     (if i then [] else [MpiPreInit]) @ expected_list True f body
     @ (if i then [] else [InitMpi (init_args b)])"
| "expected i f (CallFinalize l b body) =
     (if f then [] else [FiniMpi 0 0]) @ expected_list i True body @ (if f then [] else [MpiPostFini])"
| "expected i f (CallCommRank l b sz rank body) = expected_list i f body"
| "expected_list i f [] = []"
| "expected_list i f (c # cs) = expected i f c @ expected_list i f cs"

fun erase_event :: "mpi_event \<Rightarrow> mpi_event" where
  "erase_event (FiniMpi sz rank) = FiniMpi 0 0"
| "erase_event e = e"

definition callbacks :: "mpist \<Rightarrow> mpi_event list" where
  "callbacks s = map erase_event (filter (\<lambda>e. e \<noteq> RealMpi) (mpi_trace s))"

lemma callbacks_emit [simp]:
  "callbacks (mpi_emit e s) = callbacks s @ (if e = RealMpi then [] else [erase_event e])"
  by (simp add: callbacks_def)

lemma count_simps [simp]:
  "fst (monitor_mpi_init_count k s) = mpi_init_count s + k"
  "mpi_init_count (snd (monitor_mpi_init_count k s)) = mpi_init_count s + k"
  "mpi_fini_count (snd (monitor_mpi_init_count k s)) = mpi_fini_count s"
  "callbacks (snd (monitor_mpi_init_count k s)) = callbacks s"
  "max_init_count (snd (monitor_mpi_init_count k s)) = max (max_init_count s) (mpi_init_count s + k)"
  "fst (monitor_mpi_fini_count k s) = mpi_fini_count s + k"
  "mpi_fini_count (snd (monitor_mpi_fini_count k s)) = mpi_fini_count s + k"
  "mpi_init_count (snd (monitor_mpi_fini_count k s)) = mpi_init_count s"
  "max_init_count (snd (monitor_mpi_fini_count k s)) = max_init_count s"
  "callbacks (snd (monitor_mpi_fini_count k s)) = callbacks s"
  by (auto simp: monitor_mpi_init_count_def monitor_mpi_fini_count_def callbacks_def Let_def)

lemma set_rank_frame [simp]:
  "mpi_init_count (monitor_set_mpi_size_rank sz rank s) = mpi_init_count s"
  "mpi_fini_count (monitor_set_mpi_size_rank sz rank s) = mpi_fini_count s"
  "max_init_count (monitor_set_mpi_size_rank sz rank s) = max_init_count s"
  "callbacks (monitor_set_mpi_size_rank sz rank s) = callbacks s"
  by (auto simp: monitor_set_mpi_size_rank_def monitor_set_size_rank_def callbacks_def)

definition same_counts :: "mpist \<Rightarrow> mpist \<Rightarrow> bool" where
  "same_counts s t \<longleftrightarrow> mpi_init_count t = mpi_init_count s \<and> mpi_fini_count t = mpi_fini_count s"

lemma nested_callbacks:
  shows "mpi_init_count s \<ge> 0 \<Longrightarrow> mpi_fini_count s \<ge> 0 \<Longrightarrow>
      same_counts s (run_call c s) \<and>
      callbacks (run_call c s) = callbacks s @ expected (mpi_init_count s > 0) (mpi_fini_count s > 0) c"
    and "mpi_init_count s \<ge> 0 \<Longrightarrow> mpi_fini_count s \<ge> 0 \<Longrightarrow>
      same_counts s (run_calls cs s) \<and>
      callbacks (run_calls cs s) =
        callbacks s @ expected_list (mpi_init_count s > 0) (mpi_fini_count s > 0) cs"
proof (induction c s and cs s rule: run_call_run_calls.induct)
  case (1 l b threaded body s)
  let ?s1 = "snd (monitor_mpi_init_count 1 s)"
  let ?s2 = "if mpi_init_count s + 1 = 1 then mpi_emit MpiPreInit ?s1 else ?s1"
  show ?case
    using "1.IH" [of ?s2] "1.prems"
    by (auto simp: override_init_eq init_step_def Let_def case_prod_beta same_counts_def)
next
  case (2 l b body s)
  let ?s1 = "snd (monitor_mpi_fini_count 1 s)"
  let ?s2 = "if mpi_fini_count s + 1 = 1
    then mpi_emit (FiniMpi (monitor_mpi_comm_size ?s1) (monitor_mpi_comm_rank ?s1)) ?s1 else ?s1"
  show ?case
    using "2.IH" [of ?s2] "2.prems"
    by (auto simp: override_finalize_eq FORTRAN_FINALIZE_BODY_def Let_def case_prod_beta same_counts_def)
next
  case (3 l b sz rank body s)
  then show ?case
    by (auto simp: override_comm_rank_eq same_counts_def)
qed (auto simp: same_counts_def)

section \<open>Size and rank\<close>

text \<open>The sizes and ranks reported outside any initialisation and after one began.\<close>

fun reports :: "bool \<Rightarrow> mpi_call \<Rightarrow> (int \<times> int) list \<times> bool"
  and reports_list :: "bool \<Rightarrow> mpi_call list \<Rightarrow> (int \<times> int) list \<times> bool" where
  "reports st (CallInit l b threaded body) = ([], True)"
| "reports st (CallFinalize l b body) = reports_list st body"
| "reports st (CallCommRank l b sz rank body) =
     (let (rs, st') = reports_list st body in (rs @ (if st' then [(sz, rank)] else []), st'))"
| "reports_list st [] = ([], st)"
| "reports_list st (c # cs) =
     (let (rs, st') = reports st c; (rs', st'') = reports_list st' cs in (rs @ rs', st''))"

definition rank_view :: "mpist \<Rightarrow> (int \<times> int) \<times> bool \<times> bool" where
  "rank_view s = ((mpi_size s, mpi_rank s), set_size_rank_first s, set_mpi_size_rank_first s)"

lemma rank_view_simps [simp]:
  "rank_view (mpi_emit e s) = rank_view s"
  "rank_view (snd (monitor_mpi_init_count k s)) = rank_view s"
  "rank_view (snd (monitor_mpi_fini_count k s)) = rank_view s"
  by (simp_all add: rank_view_def monitor_mpi_init_count_def monitor_mpi_fini_count_def Let_def)

lemma set_rank_inside:
  "mpi_init_count s > 0 \<Longrightarrow> monitor_set_mpi_size_rank sz rank s = s"
  by (simp add: monitor_set_mpi_size_rank_def)

text \<open>Nothing an initialisation does inside can set the rank.\<close>

lemma rank_inside_init:
  shows "mpi_init_count s > 0 \<Longrightarrow> rank_view (run_call c s) = rank_view s \<and>
           mpi_init_count (run_call c s) = mpi_init_count s \<and> max_init_count (run_call c s) \<ge> max_init_count s"
    and "mpi_init_count s > 0 \<Longrightarrow> rank_view (run_calls cs s) = rank_view s \<and>
           mpi_init_count (run_calls cs s) = mpi_init_count s \<and> max_init_count (run_calls cs s) \<ge> max_init_count s"
proof (induction c s and cs s rule: run_call_run_calls.induct)
  case (1 l b threaded body s)
  let ?s1 = "snd (monitor_mpi_init_count 1 s)"
  let ?s2 = "if mpi_init_count s + 1 = 1 then mpi_emit MpiPreInit ?s1 else ?s1"
  show ?case
    using "1.IH" [of ?s2] "1.prems"
    by (auto simp: override_init_eq init_step_def Let_def case_prod_beta)
next
  case (2 l b body s)
  let ?s1 = "snd (monitor_mpi_fini_count 1 s)"
  let ?s2 = "if mpi_fini_count s + 1 = 1
    then mpi_emit (FiniMpi (monitor_mpi_comm_size ?s1) (monitor_mpi_comm_rank ?s1)) ?s1 else ?s1"
  show ?case
    using "2.IH" [of ?s2] "2.prems"
    by (auto simp: override_finalize_eq FORTRAN_FINALIZE_BODY_def Let_def case_prod_beta)
qed (auto simp: override_comm_rank_eq set_rank_inside)

text \<open>The state between calls: outside any initialisation, both first flags agree.\<close>

definition rank_inv :: "bool \<Rightarrow> (int \<times> int) list \<Rightarrow> mpist \<Rightarrow> bool" where
  "rank_inv st rs s \<longleftrightarrow> mpi_init_count s = 0 \<and> (max_init_count s > 0 \<longleftrightarrow> st) \<and> max_init_count s \<ge> 0 \<and>
     rank_view s = (case rs of [] \<Rightarrow> ((-1, -1), True, True) | r # _ \<Rightarrow> (r, False, False))"

lemma rank_inv_frame:
  "rank_inv st rs s \<Longrightarrow> rank_view t = rank_view s \<Longrightarrow> mpi_init_count t = mpi_init_count s \<Longrightarrow>
   max_init_count t = max_init_count s \<Longrightarrow> rank_inv st rs t"
  by (simp add: rank_inv_def)

lemma rank_inv_report:
  "rank_inv st rs s \<Longrightarrow>
   rank_inv st (rs @ (if st then [(sz, rank)] else [])) (monitor_set_mpi_size_rank sz rank s)"
  by (cases rs)
    (auto simp: rank_inv_def rank_view_def monitor_set_mpi_size_rank_def monitor_set_size_rank_def)

lemma rank_outside:
  shows "rank_inv st rs s \<Longrightarrow> rank_inv (snd (reports st c)) (rs @ fst (reports st c)) (run_call c s)"
    and "rank_inv st rs s \<Longrightarrow>
      rank_inv (snd (reports_list st cs)) (rs @ fst (reports_list st cs)) (run_calls cs s)"
proof (induction c s and cs s arbitrary: st rs and st rs rule: run_call_run_calls.induct)
  case (1 l b threaded body s)
  let ?s1 = "snd (monitor_mpi_init_count 1 s)"
  let ?s2 = "mpi_emit RealMpi (mpi_emit MpiPreInit ?s1)"
  have c: "mpi_init_count s = 0" using "1.prems" by (simp add: rank_inv_def)
  note inside = rank_inside_init(2) [of ?s2 body]
  show ?case
    using inside "1.prems" c
    by (auto simp: override_init_eq init_step_def Let_def case_prod_beta rank_inv_def)
next
  case (2 l b body s)
  let ?s1 = "snd (monitor_mpi_fini_count 1 s)"
  let ?s2 = "if mpi_fini_count s + 1 = 1
    then mpi_emit (FiniMpi (monitor_mpi_comm_size ?s1) (monitor_mpi_comm_rank ?s1)) ?s1 else ?s1"
  have "rank_inv st rs ?s2" by (rule rank_inv_frame [OF "2.prems"]) auto
  then have "rank_inv st rs (mpi_emit RealMpi ?s2)" by (rule rank_inv_frame) auto
  from "2.IH" [OF this]
  show ?case
    by (auto simp: override_finalize_eq FORTRAN_FINALIZE_BODY_def Let_def case_prod_beta
        elim!: rank_inv_frame)
next
  case (3 l b sz rank body s)
  have "rank_inv st rs (mpi_emit RealMpi s)" by (rule rank_inv_frame [OF "3.prems"]) auto
  from rank_inv_report [OF "3.IH" [OF this], of sz rank]
  show ?case by (simp add: override_comm_rank_eq case_prod_beta Let_def)
next
  case (5 c cs s)
  from "5.IH"(2) [OF "5.IH"(1) [OF "5.prems"]]
  show ?case by (simp add: case_prod_beta Let_def)
qed simp

section \<open>Properties\<close>

text \<open>C15: every client callback runs exactly once per outermost MPI call.  For any trees
  of calls of the 24 overrides, C or Fortran, MPI or PMPI, the callbacks the client
  sees are those of the calls that are outermost of their kind, before and after the
  real call, and the nesting counters end where they began.\<close>
theorem mpi_callbacks_once:
  "callbacks (run_calls cs mpist_start) = expected_list False False cs \<and>
   mpi_init_count (run_calls cs mpist_start) = 0 \<and> mpi_fini_count (run_calls cs mpist_start) = 0"
  using nested_callbacks(2) [of mpist_start cs]
  by (simp add: mpist_start_def same_counts_def callbacks_def)

text \<open>Size and rank.  The published size and rank are those of the first
  MPI_Comm_rank call outside any initialisation and after one began, whatever the
  MPI library calls inside MPI_Init and whatever is reported later; -1 before.\<close>
lemma mpi_rank_is_first_report:
  "(monitor_mpi_comm_size (run_calls cs mpist_start), monitor_mpi_comm_rank (run_calls cs mpist_start)) =
     (case fst (reports_list False cs) of [] \<Rightarrow> (-1, -1) | r # _ \<Rightarrow> r)"
proof -
  have "rank_inv False [] mpist_start" by (simp add: rank_inv_def mpist_start_def rank_view_def)
  from rank_outside(2) [OF this, of cs]
  show ?thesis
    by (auto simp: rank_inv_def rank_view_def monitor_mpi_comm_size_def monitor_mpi_comm_rank_def
        split: list.splits)
qed

end
