(* ===== verification/Thread.thy ===== *)
theory Thread
  imports Prelude ListQueue Client Signal
begin

text \<open>
  monitor/src/pthread.c and pthread_h.h: the thread nodes, where they come from
  (free list, array, malloc), the thread list, the overrides of pthread_create
  and pthread_exit's node handling, the thread shootdown at process exit, and
  the client's support functions.  A node is the main node of main.c or an
  element of a node array.  Operations take the calling thread's pthread id.
\<close>

section \<open>State\<close>

datatype nid = MainTn | Slot nat nat
datatype lid = ThreadList | FreeList

definition MONITOR_TN_MAGIC :: int where "MONITOR_TN_MAGIC = 0x6d746e00"
definition MONITOR_TN_ARRAY_SIZE :: nat where "MONITOR_TN_ARRAY_SIZE = 150"
definition MONITOR_SHOOTDOWN_TIMEOUT :: int where "MONITOR_SHOOTDOWN_TIMEOUT = 10"

record tnode =
  tn_self :: nat
  tn_start_routine :: cptr
  tn_magic :: int
  tn_tid :: int
  tn_arg :: cptr
  tn_user_data :: cptr
  tn_stack_bottom :: cptr
  tn_is_main :: bool
  tn_ignore_threads :: bool
  tn_appl_started :: bool
  tn_fini_started :: bool
  tn_fini_done :: bool
  tn_exit_win :: bool
  tn_block_shootdown :: bool

definition zero_node :: tnode where
  "zero_node = \<lparr>tn_self = 0, tn_start_routine = NULL, tn_magic = 0, tn_tid = 0, tn_arg = NULL,
     tn_user_data = NULL, tn_stack_bottom = NULL, tn_is_main = False, tn_ignore_threads = False,
     tn_appl_started = False, tn_fini_started = False, tn_fini_done = False,
     tn_exit_win = False, tn_block_shootdown = False\<rparr>"

datatype thread_event =
    InitThreadSupport
  | ThreadSupportTwice
  | ThreadPreCreate cptr
  | ThreadPostCreate cptr
  | RealPthreadCreate nid cptr
  | RealPthreadCreateIgnored cptr cptr
  | InitThread int cptr
  | StartRoutine cptr cptr
  | FiniThread int cptr
  | FiniThreadTooLate int
  | Kill nat int
  | CancelState bool
  | ShootdownTimeout int
  | ShootdownHandlerInstalled int
  | RestoreStackSize nat
  | DestroyAttr

datatype thread_error =
    KeyCreateFailed int
  | MainTnFailed
  | SetSpecificFailed int
  | MallocFailed
  | SigactionFailed
  | BadLinks

record thst =
  early_init_done :: bool
  links :: "(lid, nid) lheap"
  nodes :: "nid \<Rightarrow> tnode"
  tn_arrays :: nat
  monitor_tn_array_pos :: nat
  monitor_thread_num :: int
  monitor_in_exit_cleanup :: bool
  monitor_has_used_threads :: bool
  thr_has_reached_main :: bool
  monitor_thread_support_done :: bool
  monitor_fini_thread_done :: bool
  thr_shootdown_signal :: int
  specific :: "nat \<Rightarrow> nid option"
  thr_trace :: "thread_event list"

text \<open>What the host's pthread library and malloc answer.\<close>

record thsys =
  key_create_ret :: int
  setspecific_ret :: int
  malloc_ok :: bool
  attr_init_ret :: int
  attr_getstacksize_ret :: int
  attr_setstacksize_ret :: "nat \<Rightarrow> int"
  default_stacksize :: nat
  pthread_create_ret :: int

definition thr_emit :: "thread_event \<Rightarrow> thst \<Rightarrow> thst" where
  "thr_emit e s = s\<lparr>thr_trace := thr_trace s @ [e]\<rparr>"

definition upd_node :: "nid \<Rightarrow> (tnode \<Rightarrow> tnode) \<Rightarrow> thst \<Rightarrow> thst" where
  "upd_node n f s = s\<lparr>nodes := (nodes s)(n := f (nodes s n))\<rparr>"

text \<open>memset of a node: its links are NULL as well.\<close>

definition zero_links :: "nid \<Rightarrow> (lid, nid) lheap \<Rightarrow> (lid, nid) lheap" where
  "zero_links n h = set_prev n None (store (NextOf n) None h)"

definition memset_node :: "nid \<Rightarrow> thst \<Rightarrow> thst" where
  "memset_node n s = upd_node n (\<lambda>_. zero_node) (s\<lparr>links := zero_links n (links s)\<rparr>)"

section \<open>Init\<close>

text \<open>monitor_early_init of main.c: the main thread's node.\<close>

definition monitor_early_init :: "thst \<Rightarrow> thst" where
  "monitor_early_init s =
    (if early_init_done s then s
     else upd_node MainTn (\<lambda>e. e\<lparr>tn_magic := MONITOR_TN_MAGIC, tn_tid := 0, tn_is_main := True\<rparr>)
            (memset_node MainTn (s\<lparr>early_init_done := True\<rparr>)))"

definition monitor_get_tn :: "nat \<Rightarrow> thst \<Rightarrow> nid option" where
  "monitor_get_tn self s =
    (if monitor_has_used_threads s then
       (case specific s self of
          None \<Rightarrow> None
        | Some n \<Rightarrow> if tn_magic (nodes s n) \<noteq> MONITOR_TN_MAGIC then None else Some n)
     else Some MainTn)"

definition monitor_thread_list_init :: "thsys \<Rightarrow> nat \<Rightarrow> thst \<Rightarrow> thread_error + thst" where
  "monitor_thread_list_init sys self s0 =
    (let s1 = monitor_early_init s0;
         s2 = s1\<lparr>links := LIST_INIT FreeList (LIST_INIT ThreadList (links s1)),
                 monitor_tn_array_pos := 0\<rparr>
     in if key_create_ret sys \<noteq> 0 then Inl (KeyCreateFailed (key_create_ret sys))
        else if tn_magic (nodes s2 MainTn) \<noteq> MONITOR_TN_MAGIC then Inl MainTnFailed
        else let s3 = upd_node MainTn (\<lambda>e. e\<lparr>tn_self := self\<rparr>) s2
             in if setspecific_ret sys \<noteq> 0 then Inl (SetSpecificFailed (setspecific_ret sys))
                else Inr (s3\<lparr>specific := (\<lambda>_. None)(self := Some MainTn)\<rparr>))"

definition monitor_reset_thread_list :: "nat \<Rightarrow> thst \<Rightarrow> thst" where
  "monitor_reset_thread_list self s =
    (if \<not> monitor_has_used_threads s then s
     else let s1 = (case monitor_get_tn self s of
                      None \<Rightarrow> s
                    | Some n \<Rightarrow>
                        if n \<noteq> MainTn
                        then upd_node MainTn
                               (\<lambda>e. e\<lparr>tn_magic := MONITOR_TN_MAGIC, tn_tid := 0,
                                      tn_user_data := tn_user_data (nodes s n),
                                      tn_stack_bottom := tn_stack_bottom (nodes s n),
                                      tn_is_main := True\<rparr>) (memset_node MainTn s)
                        else s)
          in s1\<lparr>links := LIST_INIT FreeList (LIST_INIT ThreadList (links s1)),
                monitor_tn_array_pos := 0, specific := (\<lambda>_. None),
                monitor_has_used_threads := False\<rparr>)"

section \<open>Nodes\<close>

text \<open>The current array is the last of tn_arrays + 1 arrays; malloc adds one.\<close>

definition take_node :: "thsys \<Rightarrow> thst \<Rightarrow> thread_error + (nid \<times> thst)" where
  "take_node sys s =
    (case load (links s) (Head FreeList) of
       Some n \<Rightarrow>
         (case LIST_REMOVE n (links s) of
            None \<Rightarrow> Inl BadLinks
          | Some h \<Rightarrow> Inr (n, s\<lparr>links := h\<rparr>))
     | None \<Rightarrow>
         if monitor_tn_array_pos s < MONITOR_TN_ARRAY_SIZE
         then Inr (Slot (tn_arrays s) (monitor_tn_array_pos s),
                   s\<lparr>monitor_tn_array_pos := monitor_tn_array_pos s + 1\<rparr>)
         else if \<not> malloc_ok sys then Inl MallocFailed
         else Inr (Slot (tn_arrays s + 1) 0, s\<lparr>tn_arrays := tn_arrays s + 1, monitor_tn_array_pos := 1\<rparr>))"

definition monitor_make_thread_node :: "thsys \<Rightarrow> thst \<Rightarrow> thread_error + (nid \<times> thst)" where
  "monitor_make_thread_node sys s =
     rbind (take_node sys s) (\<lambda>(n, s1).
       Inr (n, upd_node n (\<lambda>e. e\<lparr>tn_magic := MONITOR_TN_MAGIC, tn_tid := -1\<rparr>) (memset_node n s1)))"

definition monitor_link_thread_node :: "nid \<Rightarrow> thst \<Rightarrow> int \<times> thst" where
  "monitor_link_thread_node n s =
    (if monitor_in_exit_cleanup s then (1, s)
     else let num = monitor_thread_num s + 1;
              s1 = upd_node n (\<lambda>e. e\<lparr>tn_tid := num\<rparr>) (s\<lparr>monitor_thread_num := num\<rparr>)
          in (0, s1\<lparr>links := LIST_INSERT_HEAD ThreadList n (links s1)\<rparr>))"

definition monitor_unlink_thread_node :: "nid \<Rightarrow> thst \<Rightarrow> thread_error + thst" where
  "monitor_unlink_thread_node n s =
    (if monitor_in_exit_cleanup s
     then Inr (upd_node n (\<lambda>e. e\<lparr>tn_fini_started := True, tn_fini_done := True\<rparr>) s)
     else case LIST_REMOVE n (links s) of
            None \<Rightarrow> Inl BadLinks
          | Some h \<Rightarrow>
              (let s1 = memset_node n (s\<lparr>links := h\<rparr>)
               in Inr (s1\<lparr>links := LIST_INSERT_HEAD FreeList n (links s1)\<rparr>)))"

section \<open>Delivering the fini-thread callback\<close>

definition fini_begin :: "nid \<Rightarrow> thst \<Rightarrow> thst" where
  "fini_begin n s =
    (let s1 = upd_node n (\<lambda>e. e\<lparr>tn_fini_started := True\<rparr>) s
     in thr_emit (FiniThread (tn_tid (nodes s1 n)) (tn_user_data (nodes s1 n))) s1)"

definition fini_end :: "nid \<Rightarrow> thst \<Rightarrow> thst" where
  "fini_end n s = upd_node n (\<lambda>e. e\<lparr>tn_fini_done := True\<rparr>) s"

definition fini_thread :: "nid \<Rightarrow> thst \<Rightarrow> thst" where
  "fini_thread n s = fini_end n (fini_begin n s)"

definition fini_wanted :: "nid \<Rightarrow> thst \<Rightarrow> bool" where
  "fini_wanted n s \<longleftrightarrow> tn_appl_started (nodes s n) \<and> \<not> tn_fini_started (nodes s n)
     \<and> \<not> tn_block_shootdown (nodes s n)"

definition monitor_shootdown_handler :: "nat \<Rightarrow> thst \<Rightarrow> thst" where
  "monitor_shootdown_handler self s =
    (case specific s self of
       None \<Rightarrow> s
     | Some n \<Rightarrow>
         if tn_magic (nodes s n) \<noteq> MONITOR_TN_MAGIC then s
         else if \<not> fini_wanted n s then s
         else if monitor_fini_thread_done s then thr_emit (FiniThreadTooLate (tn_tid (nodes s n))) s
         else thr_emit (CancelState True) (fini_thread n (thr_emit (CancelState False) s)))"

definition monitor_call_thread_support :: "thst \<Rightarrow> thst" where
  "monitor_call_thread_support s =
    (if monitor_thread_support_done s then thr_emit ThreadSupportTwice s
     else (thr_emit InitThreadSupport s)\<lparr>monitor_thread_support_done := True\<rparr>)"

definition monitor_thread_release :: "thst \<Rightarrow> thst" where
  "monitor_thread_release s =
    (let s1 = (if monitor_has_used_threads s then monitor_call_thread_support s else s)
     in s1\<lparr>thr_has_reached_main := True\<rparr>)"

text \<open>monitor_pthread_cleanup_routine: None is a missing argument.\<close>

definition monitor_pthread_cleanup_routine :: "nid option \<Rightarrow> thst \<Rightarrow> thread_error + thst" where
  "monitor_pthread_cleanup_routine arg s =
    (case arg of
       None \<Rightarrow> Inr s
     | Some n \<Rightarrow>
         if tn_magic (nodes s n) \<noteq> MONITOR_TN_MAGIC then Inr s
         else if \<not> fini_wanted n s then Inr s
         else if monitor_fini_thread_done s then Inr (thr_emit (FiniThreadTooLate (tn_tid (nodes s n))) s)
         else monitor_unlink_thread_node n (fini_thread n s))"

section \<open>Thread shootdown\<close>

text \<open>The nodes a walk of the thread list visits; None is a walk that does not end.  There
  are at most tn_arrays + 1 arrays of nodes, so the fuel covers every list.\<close>

definition walk_threads :: "thst \<Rightarrow> nid list option" where
  "walk_threads s = LIST_FOREACH (Suc ((tn_arrays s + 1) * MONITOR_TN_ARRAY_SIZE)) (links s)
     (load (links s) (Head ThreadList))"

record tally =
  my_tn :: "nid option"
  num_started :: int
  num_unstarted :: int
  num_finished :: int
  num_unfinished :: int

definition zero_tally :: tally where
  "zero_tally = \<lparr>my_tn = None, num_started = 0, num_unstarted = 0, num_finished = 0, num_unfinished = 0\<rparr>"

definition scan_node :: "nat \<Rightarrow> nid \<Rightarrow> tally \<times> thst \<Rightarrow> tally \<times> thst" where
  "scan_node self n ts =
    (let (t, s) = ts; tn = nodes s n in
     if self = tn_self tn then (t\<lparr>my_tn := Some n\<rparr>, s)
     else if tn_appl_started tn then
       let (t1, s1) =
             (if tn_fini_started tn then (t\<lparr>num_started := num_started t + 1\<rparr>, s)
              else (t\<lparr>num_unstarted := num_unstarted t + 1\<rparr>,
                    thr_emit (Kill (tn_self tn) (thr_shootdown_signal s)) s));
           t2 = (if tn_fini_done tn then t1\<lparr>num_finished := num_finished t1 + 1\<rparr>
                 else t1\<lparr>num_unfinished := num_unfinished t1 + 1\<rparr>)
       in (t2, s1)
     else (t, s))"

definition shootdown_scan :: "nat \<Rightarrow> thst \<Rightarrow> (tally \<times> thst) option" where
  "shootdown_scan self s =
     map_option (\<lambda>ns. fold (scan_node self) ns (zero_tally, s)) (walk_threads s)"

text \<open>The polling loop.  Each round has the time gettimeofday returns and what the other
  threads do until the next scan; None when the rounds run out before the loop ends.\<close>

fun shootdown_loop ::
  "nat \<Rightarrow> int \<Rightarrow> int \<Rightarrow> (int \<times> (thst \<Rightarrow> thst)) list \<Rightarrow> thst \<Rightarrow> (nid option \<times> thst) option" where
  "shootdown_loop self progress last_started [] s = None"
| "shootdown_loop self progress last_started ((now, env) # rounds) s =
    (case shootdown_scan self s of
       None \<Rightarrow> None
     | Some (t, s1) \<Rightarrow>
         if num_unfinished t = 0 then Some (my_tn t, s1)
         else if num_started t > last_started
         then shootdown_loop self now (num_started t) rounds (env s1)
         else if now > progress + MONITOR_SHOOTDOWN_TIMEOUT \<and> num_unstarted t > 0
         then Some (my_tn t, thr_emit (ShootdownTimeout (num_unstarted t)) s1)
         else shootdown_loop self progress last_started rounds (env s1))"

definition shootdown_begin :: "int \<Rightarrow> bool \<Rightarrow> thst \<Rightarrow> thread_error + thst" where
  "shootdown_begin sig sigaction_ok s =
    (let s1 = (thr_emit (CancelState False) s)\<lparr>monitor_in_exit_cleanup := True\<rparr>;
         s2 = s1\<lparr>thr_shootdown_signal := sig\<rparr>
     in if \<not> sigaction_ok then Inl SigactionFailed
        else Inr (thr_emit (ShootdownHandlerInstalled sig) s2))"

definition shootdown_finish :: "nid option \<Rightarrow> thst \<Rightarrow> thst" where
  "shootdown_finish my s =
    (let s1 = s\<lparr>monitor_fini_thread_done := True\<rparr>;
         s2 = (case my of
                 None \<Rightarrow> s1
               | Some n \<Rightarrow> if \<not> tn_fini_started (nodes s1 n) then fini_thread n s1 else s1)
     in thr_emit (CancelState True) s2)"

definition monitor_thread_shootdown ::
  "int \<Rightarrow> bool \<Rightarrow> nat \<Rightarrow> int \<Rightarrow> (int \<times> (thst \<Rightarrow> thst)) list \<Rightarrow> thst \<Rightarrow>
   (thread_error + thst) option" where
  "monitor_thread_shootdown sig sigaction_ok self start rounds s =
    (if \<not> monitor_has_used_threads s then Some (Inr s)
     else case shootdown_begin sig sigaction_ok s of
            Inl e \<Rightarrow> Some (Inl e)
          | Inr s1 \<Rightarrow>
              map_option (\<lambda>(my, s2). Inr (shootdown_finish my s2))
                (shootdown_loop self start 0 rounds s1))"

section \<open>Client support\<close>

definition monitor_is_threaded :: "thst \<Rightarrow> int" where
  "monitor_is_threaded s = cbool (monitor_has_used_threads s)"

definition monitor_get_user_data :: "nat \<Rightarrow> thst \<Rightarrow> cptr" where
  "monitor_get_user_data self s =
    (case monitor_get_tn self s of None \<Rightarrow> NULL | Some n \<Rightarrow> tn_user_data (nodes s n))"

definition monitor_get_thread_num :: "nat \<Rightarrow> thst \<Rightarrow> int" where
  "monitor_get_thread_num self s =
    (case monitor_get_tn self s of None \<Rightarrow> -1 | Some n \<Rightarrow> tn_tid (nodes s n))"

definition monitor_get_addr_thread_start :: "nat \<Rightarrow> thst \<Rightarrow> cptr" where
  "monitor_get_addr_thread_start self s =
    (case monitor_get_tn self s of None \<Rightarrow> NULL | Some n \<Rightarrow> tn_start_routine (nodes s n))"

definition monitor_stack_bottom :: "nat \<Rightarrow> thst \<Rightarrow> cptr" where
  "monitor_stack_bottom self s =
    (case monitor_get_tn self s of None \<Rightarrow> NULL | Some n \<Rightarrow> tn_stack_bottom (nodes s n))"

text \<open>The addresses of the labels in monitor_begin_thread and monitor_main.\<close>

record fences =
  thread_fence1 :: nat
  thread_fence2 :: nat
  thread_fence3 :: nat
  thread_fence4 :: nat
  main_fence1 :: nat
  main_fence2 :: nat
  main_fence3 :: nat
  main_fence4 :: nat

definition monitor_unwind_thread_bottom_frame :: "fences \<Rightarrow> nat \<Rightarrow> bool" where
  "monitor_unwind_thread_bottom_frame fs addr \<longleftrightarrow> thread_fence1 fs \<le> addr \<and> addr \<le> thread_fence4 fs"

definition monitor_unwind_process_bottom_frame :: "fences \<Rightarrow> nat \<Rightarrow> bool" where
  "monitor_unwind_process_bottom_frame fs addr \<longleftrightarrow> main_fence1 fs \<le> addr \<and> addr \<le> main_fence4 fs"

definition monitor_in_main_start_func_wide :: "fences \<Rightarrow> nat \<Rightarrow> bool" where
  "monitor_in_main_start_func_wide fs addr \<longleftrightarrow> main_fence1 fs \<le> addr \<and> addr \<le> main_fence4 fs"

definition monitor_in_main_start_func_narrow :: "fences \<Rightarrow> nat \<Rightarrow> bool" where
  "monitor_in_main_start_func_narrow fs addr \<longleftrightarrow> main_fence2 fs \<le> addr \<and> addr \<le> main_fence3 fs"

definition monitor_in_start_func_wide :: "fences \<Rightarrow> nat \<Rightarrow> bool" where
  "monitor_in_start_func_wide fs addr \<longleftrightarrow> monitor_in_main_start_func_wide fs addr \<or>
     (thread_fence1 fs \<le> addr \<and> addr \<le> thread_fence4 fs)"

definition monitor_in_start_func_narrow :: "fences \<Rightarrow> nat \<Rightarrow> bool" where
  "monitor_in_start_func_narrow fs addr \<longleftrightarrow> monitor_in_main_start_func_narrow fs addr \<or>
     (thread_fence2 fs \<le> addr \<and> addr \<le> thread_fence3 fs)"

text \<open>monitor_broadcast_signal: the lock is tried, never waited for.\<close>

definition broadcast_node :: "nat \<Rightarrow> int \<Rightarrow> nid \<Rightarrow> thst \<Rightarrow> thst" where
  "broadcast_node self sig n s =
    (let tn = nodes s n in
     if self \<noteq> tn_self tn \<and> tn_appl_started tn \<and> \<not> tn_fini_started tn
     then thr_emit (Kill (tn_self tn) sig) s else s)"

definition monitor_broadcast_signal :: "nat \<Rightarrow> int \<Rightarrow> bool \<Rightarrow> thst \<Rightarrow> (int \<times> thst) option" where
  "monitor_broadcast_signal self sig trylock_ok s =
    (if \<not> monitor_has_used_threads s then Some (0, s)
     else if \<not> trylock_ok then Some (-1, s)
     else map_option (\<lambda>ns.
            let s1 = fold (broadcast_node self sig) ns s;
                s2 = (if self \<noteq> tn_self (nodes s1 MainTn)
                      then thr_emit (Kill (tn_self (nodes s1 MainTn)) sig) s1 else s1)
            in (0, s2)) (walk_threads s))"

definition monitor_block_shootdown :: "nat \<Rightarrow> thst \<Rightarrow> int \<times> thst" where
  "monitor_block_shootdown self s =
    (case monitor_get_tn self s of
       None \<Rightarrow> (0, s)
     | Some n \<Rightarrow> (cbool (monitor_in_exit_cleanup s), upd_node n (\<lambda>e. e\<lparr>tn_block_shootdown := True\<rparr>) s))"

definition monitor_unblock_shootdown :: "nat \<Rightarrow> thst \<Rightarrow> thst" where
  "monitor_unblock_shootdown self s =
    (case monitor_get_tn self s of
       None \<Rightarrow> s | Some n \<Rightarrow> upd_node n (\<lambda>e. e\<lparr>tn_block_shootdown := False\<rparr>) s)"

definition monitor_disable_new_threads :: "nat \<Rightarrow> thst \<Rightarrow> thst" where
  "monitor_disable_new_threads self s =
    (case monitor_get_tn self s of
       None \<Rightarrow> s | Some n \<Rightarrow> upd_node n (\<lambda>e. e\<lparr>tn_ignore_threads := True\<rparr>) s)"

definition monitor_enable_new_threads :: "nat \<Rightarrow> thst \<Rightarrow> thst" where
  "monitor_enable_new_threads self s =
    (case monitor_get_tn self s of
       None \<Rightarrow> s | Some n \<Rightarrow> upd_node n (\<lambda>e. e\<lparr>tn_ignore_threads := False\<rparr>) s)"

section \<open>pthread_create\<close>

text \<open>
  monitor_begin_thread in the new thread, in three parts: up to the thread list, the
  init-thread callback, the start of the application's routine.  The first loop waits for
  thread support, so None means the thread is still waiting.  The second result says
  whether the application's routine runs.
\<close>

definition begin_enter ::
  "thsys \<Rightarrow> nat \<Rightarrow> cptr \<Rightarrow> nid \<Rightarrow> thst \<Rightarrow> (thread_error + (int \<times> thst)) option" where
  "begin_enter sys self bottom n s =
    (if \<not> monitor_thread_support_done s then None
     else let s1 = upd_node n (\<lambda>e. e\<lparr>tn_self := self, tn_stack_bottom := bottom\<rparr>) s in
     if setspecific_ret sys \<noteq> 0 then Some (Inl (SetSpecificFailed (setspecific_ret sys)))
     else Some (Inr (monitor_link_thread_node n (s1\<lparr>specific := (specific s1)(self := Some n)\<rparr>))))"

definition begin_init :: "client \<Rightarrow> nid \<Rightarrow> thst \<Rightarrow> thst" where
  "begin_init cl n s =
    (let tid = tn_tid (nodes s n); data = tn_user_data (nodes s n)
     in upd_node n (\<lambda>e. e\<lparr>tn_user_data := cl_init_thread cl tid data\<rparr>) (thr_emit (InitThread tid data) s))"

definition begin_start :: "nid \<Rightarrow> thst \<Rightarrow> thst" where
  "begin_start n s =
    (let s1 = upd_node n (\<lambda>e. e\<lparr>tn_appl_started := True\<rparr>) s
     in thr_emit (StartRoutine (tn_start_routine (nodes s1 n)) (tn_arg (nodes s1 n))) s1)"

definition monitor_begin_thread ::
  "client \<Rightarrow> thsys \<Rightarrow> nat \<Rightarrow> cptr \<Rightarrow> nid \<Rightarrow> thst \<Rightarrow> (thread_error + (bool \<times> thst)) option" where
  "monitor_begin_thread cl sys self bottom n s =
     map_option (\<lambda>r. rbind r (\<lambda>(ret, s1).
       if ret \<noteq> 0 then Inr (False, s1) else Inr (True, begin_start n (begin_init cl n s1))))
       (begin_enter sys self bottom n s)"

text \<open>Return, pthread_exit or cancellation: the cleanup routine, then the thread is gone.\<close>

definition thread_ends :: "nat \<Rightarrow> nid \<Rightarrow> thst \<Rightarrow> thread_error + thst" where
  "thread_ends self n s =
     rbind (monitor_pthread_cleanup_routine (Some n) s)
       (\<lambda>s1. Inr (s1\<lparr>specific := (specific s1)(self := None)\<rparr>))"

text \<open>
  An attribute object of the application is its stack size; the result tells the
  size pthread_create uses (None for the null attribute), whether to restore the
  size or destroy the default object, and the old size.
\<close>

record adjusted =
  use_attr :: "nat option"
  restore :: bool
  destroy :: bool
  old_size :: nat

definition monitor_adjust_stack_size :: "client \<Rightarrow> thsys \<Rightarrow> nat option \<Rightarrow> adjusted" where
  "monitor_adjust_stack_size cl sys orig =
    (if orig = None \<and> attr_init_ret sys \<noteq> 0
     then \<lparr>use_attr = orig, restore = False, destroy = False, old_size = 0\<rparr>
     else let des = (orig = None);
              current = (case orig of None \<Rightarrow> default_stacksize sys | Some sz \<Rightarrow> sz)
          in if attr_getstacksize_ret sys \<noteq> 0
             then \<lparr>use_attr = orig, restore = False, destroy = des, old_size = 0\<rparr>
             else let new = cl_reset_stacksize cl current in
               if new = current
               then \<lparr>use_attr = orig, restore = False, destroy = des, old_size = current\<rparr>
               else if attr_setstacksize_ret sys new \<noteq> 0
               then \<lparr>use_attr = orig, restore = False, destroy = des, old_size = current\<rparr>
               else \<lparr>use_attr = Some new, restore = (orig \<noteq> None), destroy = des, old_size = current\<rparr>)"

text \<open>The application's attribute object after the call.\<close>

definition attr_after :: "thsys \<Rightarrow> nat option \<Rightarrow> adjusted \<Rightarrow> nat option" where
  "attr_after sys orig adj =
    (case orig of
       None \<Rightarrow> None
     | Some sz \<Rightarrow>
         if restore adj
         then (if attr_setstacksize_ret sys (old_size adj) = 0 then Some (old_size adj) else use_attr adj)
         else Some sz)"

definition create_prepare :: "client \<Rightarrow> thsys \<Rightarrow> cptr \<Rightarrow> cptr \<Rightarrow> thst \<Rightarrow> thread_error + (nid \<times> thst)" where
  "create_prepare cl sys start_routine arg s =
    (let s1 = (if \<not> monitor_thread_support_done s \<and> thr_has_reached_main s
               then monitor_call_thread_support s else s)
     in rbind (monitor_make_thread_node sys s1) (\<lambda>(n, s2).
          let s3 = upd_node n (\<lambda>e. e\<lparr>tn_start_routine := start_routine, tn_arg := arg\<rparr>) s2;
              s4 = thr_emit (ThreadPreCreate start_routine) s3
          in Inr (n, upd_node n (\<lambda>e. e\<lparr>tn_user_data := cl_thread_pre_create cl\<rparr>) s4)))"

text \<open>The real call, the attribute put back, and the post-create callback.\<close>

definition create_launch ::
  "client \<Rightarrow> thsys \<Rightarrow> nat option \<Rightarrow> cptr \<Rightarrow> nid \<Rightarrow> thst \<Rightarrow> (int \<times> nid option \<times> nat option) \<times> thst" where
  "create_launch cl sys attr start_routine n s1 =
    (let adj = monitor_adjust_stack_size cl sys attr;
         s2 = thr_emit (RealPthreadCreate n start_routine) s1;
         s3 = (if restore adj then thr_emit (RestoreStackSize (old_size adj)) s2 else s2);
         s4 = (if destroy adj then thr_emit DestroyAttr s3 else s3)
     in ((pthread_create_ret sys, Some n, attr_after sys attr adj),
         thr_emit (ThreadPostCreate (tn_user_data (nodes s4 n))) s4))"

text \<open>The result: return code, the node handed to the new thread, the attribute afterwards.\<close>

definition pthread_create ::
  "client \<Rightarrow> thsys \<Rightarrow> nat \<Rightarrow> nat option \<Rightarrow> cptr \<Rightarrow> cptr \<Rightarrow> thst \<Rightarrow>
   thread_error + ((int \<times> nid option \<times> nat option) \<times> thst)" where
  "pthread_create cl sys self attr start_routine arg s0 =
     rbind (if \<not> monitor_has_used_threads s0
            then rbind (monitor_thread_list_init sys self s0)
                   (\<lambda>s. Inr (s\<lparr>monitor_has_used_threads := True\<rparr>))
            else Inr s0) (\<lambda>s.
       if (case monitor_get_tn self s of None \<Rightarrow> False | Some n \<Rightarrow> tn_ignore_threads (nodes s n))
       then Inr ((pthread_create_ret sys, None, attr),
                 thr_emit (RealPthreadCreateIgnored start_routine arg) s)
       else rbind (create_prepare cl sys start_routine arg s) (\<lambda>(n, s1).
              Inr (create_launch cl sys attr start_routine n s1)))"

section \<open>Masks and sigwait\<close>

text \<open>The mask of the calling thread is proc_mask of the signal state.\<close>

definition pthread_sigmask ::
  "sigsys \<Rightarrow> sighow \<Rightarrow> sigset option \<Rightarrow> sigst \<Rightarrow> sigset \<times> sigst" where
  "pthread_sigmask sys how sset s0 =
    (let s = monitor_signal_init sys s0 in
     case sset of
       Some m \<Rightarrow>
         if how = SIG_BLOCK \<or> how = SIG_SETMASK
         then (let (my_set, s1) = monitor_remove_client_signals m s
               in real_sigprocmask how (Some my_set) s1)
         else real_sigprocmask how sset s
     | None \<Rightarrow> real_sigprocmask how sset s)"

text \<open>The client's call of the real function.\<close>

definition monitor_real_pthread_sigmask ::
  "sighow \<Rightarrow> sigset option \<Rightarrow> sigst \<Rightarrow> sigset \<times> sigst" where
  "monitor_real_pthread_sigmask how sset s = real_sigprocmask how sset s"

definition EINTR :: int where "EINTR = 4"

definition monitor_sigwait_helper ::
  "sigsys \<Rightarrow> (nat \<Rightarrow> nat \<Rightarrow> int) \<Rightarrow> nat \<Rightarrow> sigset \<Rightarrow> int \<Rightarrow> int \<Rightarrow> thst \<times> sigst \<Rightarrow>
   bool \<times> thst \<times> sigst" where
  "monitor_sigwait_helper sys ret self sset sig err ts =
    (let (s, g) = ts in
     if sig < 0 then (err = EINTR, s, g)
     else
       let tn = monitor_get_tn self s;
           hit = (sig = thr_shootdown_signal s \<and> monitor_in_exit_cleanup s \<and>
                  \<not> monitor_fini_thread_done s \<and>
                  (case tn of None \<Rightarrow> False | Some n \<Rightarrow> fini_wanted n s))
       in if hit
          then (True, thr_emit (CancelState True) (fini_thread (the tn) (thr_emit (CancelState False) s)), g)
          else let (r, g1) = monitor_sigwait_handler sys ret sig g in
               if r = 0 then (True, s, g1)
               else if nat sig \<notin> sset then (True, s, g1)
               else (False, s, g1))"

text \<open>The do-while loop over the answers (return value and errno) of the real call.\<close>

fun sigwait_loop ::
  "sigsys \<Rightarrow> (nat \<Rightarrow> nat \<Rightarrow> int) \<Rightarrow> nat \<Rightarrow> sigset \<Rightarrow> (int \<times> int) list \<Rightarrow> thst \<times> sigst \<Rightarrow>
   ((int \<times> int) \<times> thst \<times> sigst) option" where
  "sigwait_loop sys ret self sset [] ts = None"
| "sigwait_loop sys ret self sset ((sig, err) # answers) ts =
    (let (again, ts1) = monitor_sigwait_helper sys ret self sset sig err ts in
     if again then sigwait_loop sys ret self sset answers ts1 else Some ((sig, err), ts1))"

text \<open>sigwait returns a code and stores the signal; the other two return the signal or -1
  and leave errno.\<close>

definition sigwait ::
  "sigsys \<Rightarrow> (nat \<Rightarrow> nat \<Rightarrow> int) \<Rightarrow> nat \<Rightarrow> sigset \<Rightarrow> (int \<times> int) list \<Rightarrow> thst \<times> sigst \<Rightarrow>
   ((int \<times> int option) \<times> thst \<times> sigst) option" where
  "sigwait sys ret self sset answers ts =
     map_option (\<lambda>((sig, err), ts1).
       if sig < 0 then ((err, None), ts1) else ((0, Some sig), ts1))
       (sigwait_loop sys ret self sset answers ts)"

definition sigwaitinfo ::
  "sigsys \<Rightarrow> (nat \<Rightarrow> nat \<Rightarrow> int) \<Rightarrow> nat \<Rightarrow> sigset \<Rightarrow> (int \<times> int) list \<Rightarrow> thst \<times> sigst \<Rightarrow>
   ((int \<times> int) \<times> thst \<times> sigst) option" where
  "sigwaitinfo sys ret self sset answers ts = sigwait_loop sys ret self sset answers ts"

definition sigtimedwait ::
  "sigsys \<Rightarrow> (nat \<Rightarrow> nat \<Rightarrow> int) \<Rightarrow> nat \<Rightarrow> sigset \<Rightarrow> (int \<times> int) list \<Rightarrow> thst \<times> sigst \<Rightarrow>
   ((int \<times> int) \<times> thst \<times> sigst) option" where
  "sigtimedwait sys ret self sset answers ts = sigwait_loop sys ret self sset answers ts"

end
