(* ===== verification/ThreadFacts.thy ===== *)
theory ThreadFacts
  imports Thread SignalFacts
begin

text \<open>
  Facts on Thread.  The pool of nodes is an interface (\<open>node_pool\<close>) over the
  lists of queue.h: nodes are wiped when they change hands.  The step relation
  \<open>th_run\<close> interleaves the threads between a test of tn_fini_started and the assignment
  it guards, between thread start, init-thread and tn_appl_started, and between the callback
  and the unlinking; its invariants give that list operations never follow a bad link,
  thread numbers are unique, and a thread gets its fini-thread callback at most once unless a
  routine that had tested tn_fini_started was overtaken.
\<close>

section \<open>The pool\<close>

locale node_pool = node_lists rep first ins rem
  for rep :: "'s \<Rightarrow> ('q \<Rightarrow> 'a list) \<Rightarrow> bool" and first ins rem +
  fixes wipe :: "'a \<Rightarrow> 's \<Rightarrow> 's"
  assumes wipe_rep: "rep s Q \<Longrightarrow> (\<And>q. x \<notin> set (Q q)) \<Longrightarrow> rep (wipe x s) Q"
begin

lemma take_first:
  assumes "rep s Q" "Q q = x # xs"
  shows "\<exists>s1. rem x s = Some s1 \<and> rep (wipe x s1) (Q(q := xs))"
proof -
  obtain s1 where s1: "rem x s = Some s1" "rep s1 (Q(q := xs))" using rem_first [OF assms] by blast
  have "x \<notin> set ((Q(q := xs)) q')" for q'
    using removed_everywhere [OF assms(1), of x q q'] assms(2) by simp
  then show ?thesis using s1 wipe_rep [OF s1(2)] by blast
qed

lemma recycle:
  assumes "rep s Q" "x \<in> set (Q q)" "q \<noteq> q'"
  shows "\<exists>s1. rem x s = Some s1 \<and> rep (ins q' x (wipe x s1)) (Q(q := remove1 x (Q q), q' := x # Q q'))"
proof -
  obtain s1 where s1: "rem x s = Some s1" "rep s1 (Q(q := remove1 x (Q q)))"
    using rem_rep [OF assms(1,2)] by blast
  note out = removed_everywhere [OF assms(1,2)]
  have "rep (ins q' x (wipe x s1)) (Q(q := remove1 x (Q q), q' := x # Q q'))"
    using ins_rep [OF wipe_rep [OF s1(2) out] out, of q']
    by (simp only: fun_upd_other [OF assms(3) [symmetric]])
  then show ?thesis using s1(1) by blast
qed

end

lemma zero_links_rep:
  assumes "lists_rep h Q" "\<And>q. x \<notin> set (Q q)"
  shows "lists_rep (zero_links x h) Q"
proof (rule lists_repI)
  fix q
  show "chain (zero_links x h) (Head q) (Q q)"
    by (rule chain_frame [OF lists_repD(1) [OF assms(1)]])
      (use assms(2) [of q] in \<open>auto simp: zero_links_def queue_simps\<close>)
qed (use assms(1) in \<open>auto simp: lists_rep_def\<close>)

interpretation np: node_pool lists_rep "\<lambda>q h. load h (Head q)" LIST_INSERT_HEAD LIST_REMOVE zero_links
  by unfold_locales (rule zero_links_rep; assumption)

section \<open>Updates\<close>

lemma upd_node_simps [simp, op_simps]:
  "nodes (upd_node n f s) x = (if x = n then f (nodes s n) else nodes s x)"
  "links (upd_node n f s) = links s"
  "tn_arrays (upd_node n f s) = tn_arrays s"
  "monitor_tn_array_pos (upd_node n f s) = monitor_tn_array_pos s"
  "monitor_thread_num (upd_node n f s) = monitor_thread_num s"
  "monitor_in_exit_cleanup (upd_node n f s) = monitor_in_exit_cleanup s"
  "monitor_has_used_threads (upd_node n f s) = monitor_has_used_threads s"
  "thr_has_reached_main (upd_node n f s) = thr_has_reached_main s"
  "monitor_thread_support_done (upd_node n f s) = monitor_thread_support_done s"
  "monitor_fini_thread_done (upd_node n f s) = monitor_fini_thread_done s"
  "thr_shootdown_signal (upd_node n f s) = thr_shootdown_signal s"
  "specific (upd_node n f s) = specific s"
  "thr_trace (upd_node n f s) = thr_trace s"
  "early_init_done (upd_node n f s) = early_init_done s"
  by (simp_all add: upd_node_def)

lemma thr_emit_simps [simp, op_simps]:
  "nodes (thr_emit e s) = nodes s" "links (thr_emit e s) = links s"
  "tn_arrays (thr_emit e s) = tn_arrays s"
  "monitor_tn_array_pos (thr_emit e s) = monitor_tn_array_pos s"
  "monitor_thread_num (thr_emit e s) = monitor_thread_num s"
  "monitor_in_exit_cleanup (thr_emit e s) = monitor_in_exit_cleanup s"
  "monitor_has_used_threads (thr_emit e s) = monitor_has_used_threads s"
  "thr_has_reached_main (thr_emit e s) = thr_has_reached_main s"
  "monitor_thread_support_done (thr_emit e s) = monitor_thread_support_done s"
  "monitor_fini_thread_done (thr_emit e s) = monitor_fini_thread_done s"
  "thr_shootdown_signal (thr_emit e s) = thr_shootdown_signal s"
  "specific (thr_emit e s) = specific s"
  "thr_trace (thr_emit e s) = thr_trace s @ [e]"
  "early_init_done (thr_emit e s) = early_init_done s"
  by (simp_all add: thr_emit_def)

lemma memset_node_simps [simp, op_simps]:
  "nodes (memset_node n s) x = (if x = n then zero_node else nodes s x)"
  "links (memset_node n s) = zero_links n (links s)"
  "tn_arrays (memset_node n s) = tn_arrays s"
  "monitor_tn_array_pos (memset_node n s) = monitor_tn_array_pos s"
  "monitor_thread_num (memset_node n s) = monitor_thread_num s"
  "monitor_in_exit_cleanup (memset_node n s) = monitor_in_exit_cleanup s"
  "specific (memset_node n s) = specific s"
  "thr_trace (memset_node n s) = thr_trace s"
  by (simp_all add: memset_node_def)

section \<open>Invariants\<close>

definition in_arrays :: "thst \<Rightarrow> nid \<Rightarrow> bool" where
  "in_arrays s n = (case n of
     MainTn \<Rightarrow> False
   | Slot k p \<Rightarrow> p < MONITOR_TN_ARRAY_SIZE \<and>
       (k < tn_arrays s \<or> (k = tn_arrays s \<and> p < monitor_tn_array_pos s)))"

text \<open>P is the set of nodes taken but not linked yet.\<close>

definition pool_inv :: "thst \<Rightarrow> (lid \<Rightarrow> nid list) \<Rightarrow> nid set \<Rightarrow> bool" where
  "pool_inv s Q P \<longleftrightarrow> lists_rep (links s) Q \<and> (\<forall>q. \<forall>n \<in> set (Q q). in_arrays s n) \<and>
     (\<forall>n \<in> P. in_arrays s n \<and> (\<forall>q. n \<notin> set (Q q)))"

definition node_inv :: "thst \<Rightarrow> nid set \<Rightarrow> bool" where
  "node_inv s L \<longleftrightarrow> 0 \<le> monitor_thread_num s \<and>
     (\<forall>n \<in> L. tn_magic (nodes s n) = MONITOR_TN_MAGIC \<and> 1 \<le> tn_tid (nodes s n) \<and>
        tn_tid (nodes s n) \<le> monitor_thread_num s) \<and>
     (\<forall>n \<in> L. \<forall>m \<in> L. tn_tid (nodes s n) = tn_tid (nodes s m) \<longrightarrow> n = m) \<and>
     (\<forall>n. tn_appl_started (nodes s n) \<longrightarrow> n \<in> L)"

fun is_fini :: "int \<Rightarrow> thread_event \<Rightarrow> bool" where
  "is_fini t (FiniThread t' d) = (t = t')"
| "is_fini t e = False"

definition fini_count :: "int \<Rightarrow> thst \<Rightarrow> nat" where
  "fini_count t s = length (filter (is_fini t) (thr_trace s))"

definition fini_inv :: "thst \<Rightarrow> nid set \<Rightarrow> bool" where
  "fini_inv s L \<longleftrightarrow> (\<forall>t. 0 < fini_count t s \<longrightarrow> 1 \<le> t \<and> t \<le> monitor_thread_num s \<and>
     (\<forall>n \<in> L. tn_tid (nodes s n) = t \<longrightarrow> tn_fini_started (nodes s n)))"

definition th_inv :: "thst \<Rightarrow> (lid \<Rightarrow> nid list) \<Rightarrow> nid set \<Rightarrow> bool" where
  "th_inv s Q P \<longleftrightarrow> pool_inv s Q P \<and> node_inv s (set (Q ThreadList)) \<and> fini_inv s (set (Q ThreadList))"

lemma fini_count_emit [simp]:
  "fini_count t (thr_emit e s) = fini_count t s + (if is_fini t e then 1 else 0)"
  by (simp add: fini_count_def)

lemma fini_count_frame [simp]:
  "fini_count t (upd_node n f s) = fini_count t s"
  "fini_count t (memset_node n s) = fini_count t s"
  "fini_count t (links_update g s) = fini_count t s"
  by (simp_all add: fini_count_def)

text \<open>Steps that only set flags.\<close>

lemma th_inv_frame:
  assumes "th_inv s Q P" "links s' = links s" "tn_arrays s' = tn_arrays s"
    "monitor_tn_array_pos s' = monitor_tn_array_pos s" "monitor_thread_num s' = monitor_thread_num s"
    "\<And>t. fini_count t s' = fini_count t s"
    and "\<And>x. tn_magic (nodes s' x) = tn_magic (nodes s x)" "\<And>x. tn_tid (nodes s' x) = tn_tid (nodes s x)"
      "\<And>x. tn_appl_started (nodes s' x) = tn_appl_started (nodes s x)"
      "\<And>x. tn_fini_started (nodes s x) \<Longrightarrow> tn_fini_started (nodes s' x)"
  shows "th_inv s' Q P"
proof -
  have "in_arrays s' = in_arrays s" using assms by (simp add: in_arrays_def fun_eq_iff split: nid.splits)
  then show ?thesis
    using assms by (auto simp: th_inv_def pool_inv_def node_inv_def fini_inv_def)
qed

lemmas fini_thread_defs = fini_thread_def fini_begin_def fini_end_def

lemma fini_begin_simps [simp]:
  "nodes (fini_begin n s) x = (if x = n then (nodes s n)\<lparr>tn_fini_started := True\<rparr> else nodes s x)"
  "links (fini_begin n s) = links s" "tn_arrays (fini_begin n s) = tn_arrays s"
  "monitor_tn_array_pos (fini_begin n s) = monitor_tn_array_pos s"
  "monitor_thread_num (fini_begin n s) = monitor_thread_num s"
  "fini_count t (fini_begin n s) = fini_count t s + (if t = tn_tid (nodes s n) then 1 else 0)"
  by (simp_all add: fini_begin_def Let_def)

lemma th_inv_fini_begin:
  assumes inv: "th_inv s Q P" and n: "n \<in> set (Q ThreadList)"
  shows "th_inv (fini_begin n s) Q P"
proof -
  let ?t = "tn_tid (nodes s n)" and ?s = "fini_begin n s"
  have arr: "in_arrays ?s = in_arrays s" by (simp add: in_arrays_def fun_eq_iff split: nid.splits)
  have pool: "pool_inv ?s Q P" using inv by (simp add: th_inv_def pool_inv_def arr)
  have eqs: "tn_magic (nodes ?s x) = tn_magic (nodes s x)" "tn_tid (nodes ?s x) = tn_tid (nodes s x)"
    "tn_appl_started (nodes ?s x) = tn_appl_started (nodes s x)"
    "monitor_thread_num ?s = monitor_thread_num s" for x
    by simp_all
  have node: "node_inv ?s (set (Q ThreadList))" using inv unfolding th_inv_def node_inv_def eqs by blast
  have uniq: "m = n" if "m \<in> set (Q ThreadList)" "tn_tid (nodes s m) = ?t" for m
    using inv n that by (auto simp: th_inv_def node_inv_def)
  have tid: "1 \<le> ?t" "?t \<le> monitor_thread_num s" using inv n by (auto simp: th_inv_def node_inv_def)
  have "fini_inv ?s (set (Q ThreadList))"
    unfolding fini_inv_def
  proof (intro allI impI)
    fix t assume "0 < fini_count t ?s"
    then have "t = ?t \<or> 0 < fini_count t s" by (auto split: if_splits)
    then show "1 \<le> t \<and> t \<le> monitor_thread_num ?s \<and>
        (\<forall>m \<in> set (Q ThreadList). tn_tid (nodes ?s m) = t \<longrightarrow> tn_fini_started (nodes ?s m))"
    proof
      assume "t = ?t"
      then show ?thesis using tid uniq by auto
    next
      assume "0 < fini_count t s"
      then have "1 \<le> t \<and> t \<le> monitor_thread_num s \<and>
          (\<forall>m \<in> set (Q ThreadList). tn_tid (nodes s m) = t \<longrightarrow> tn_fini_started (nodes s m))"
        using inv unfolding th_inv_def fini_inv_def by blast
      then show ?thesis by simp
    qed
  qed
  then show ?thesis using pool node by (simp add: th_inv_def)
qed

lemma th_inv_fini_end: "th_inv s Q P \<Longrightarrow> th_inv (fini_end n s) Q P"
  by (rule th_inv_frame) (auto simp: fini_end_def)

text \<open>Taking a node.\<close>

lemma make_node_inv:
  assumes inv: "th_inv s Q P" and ok: "monitor_make_thread_node sys s = Inr (n, s')"
  shows "\<exists>Q'. Q' ThreadList = Q ThreadList \<and> th_inv s' Q' (insert n P) \<and> n \<notin> P \<and>
     nodes s' = (nodes s)(n := zero_node\<lparr>tn_magic := MONITOR_TN_MAGIC, tn_tid := -1\<rparr>) \<and>
     specific s' = specific s \<and> thr_trace s' = thr_trace s"
proof -
  have rep: "lists_rep (links s) Q" using inv by (simp add: th_inv_def pool_inv_def)
  obtain s1 where t: "take_node sys s = Inr (n, s1)"
    "s' = upd_node n (\<lambda>e. e\<lparr>tn_magic := MONITOR_TN_MAGIC, tn_tid := -1\<rparr>) (memset_node n s1)"
    using ok by (auto simp: monitor_make_thread_node_def)
  have "\<exists>Q'. Q' ThreadList = Q ThreadList \<and> (\<forall>q. set (Q' q) \<subseteq> set (Q q)) \<and>
      lists_rep (zero_links n (links s1)) Q' \<and> (\<forall>q. n \<notin> set (Q' q)) \<and> n \<notin> P \<and>
      in_arrays s1 n \<and> (\<forall>m. in_arrays s m \<longrightarrow> in_arrays s1 m) \<and> n \<notin> set (Q ThreadList) \<and>
      nodes s1 = nodes s \<and> specific s1 = specific s \<and> thr_trace s1 = thr_trace s \<and>
      monitor_thread_num s1 = monitor_thread_num s"
  proof (cases "Q FreeList")
    case (Cons m ms)
    then have first: "load (links s) (Head FreeList) = Some m" using rep_first [OF rep, of FreeList] by simp
    obtain h where h: "LIST_REMOVE m (links s) = Some h" "lists_rep (zero_links m h) (Q(FreeList := ms))"
      using np.take_first [OF rep Cons] by blast
    have nm: "n = m" "s1 = s\<lparr>links := h\<rparr>" using t(1) first h(1) by (auto simp: take_node_def)
    have out: "m \<notin> set ((Q(FreeList := ms)) q)" for q
      using qh.removed_everywhere [OF rep, of m FreeList q] Cons by simp
    have arr: "in_arrays s1 = in_arrays s" by (simp add: nm in_arrays_def fun_eq_iff split: nid.splits)
    have "m \<in> set (Q FreeList)" using Cons by simp
    then have "in_arrays s m" "m \<notin> P" using inv by (auto simp: th_inv_def pool_inv_def)
    then show ?thesis
      using h(2) out out [of ThreadList] Cons nm arr
      by (intro exI [of _ "Q(FreeList := ms)"]) auto
  next
    case Nil
    then have first: "load (links s) (Head FreeList) = None" using rep_first [OF rep, of FreeList] by simp
    have fresh: "\<not> in_arrays s n" "in_arrays s1 n" "\<forall>m. in_arrays s m \<longrightarrow> in_arrays s1 m"
      "links s1 = links s" "nodes s1 = nodes s" "specific s1 = specific s" "thr_trace s1 = thr_trace s"
      "monitor_thread_num s1 = monitor_thread_num s"
      using t(1) first
      by (auto simp: take_node_def in_arrays_def MONITOR_TN_ARRAY_SIZE_def split: if_splits nid.splits)
    have out: "n \<notin> set (Q q)" for q using fresh(1) inv by (auto simp: th_inv_def pool_inv_def)
    have "n \<notin> P" using fresh(1) inv by (auto simp: th_inv_def pool_inv_def)
    then show ?thesis using fresh out zero_links_rep [OF rep out] by (intro exI [of _ Q]) auto
  qed
  then obtain Q' where Q': "Q' ThreadList = Q ThreadList" "\<forall>q. set (Q' q) \<subseteq> set (Q q)"
      "lists_rep (zero_links n (links s1)) Q'" "\<forall>q. n \<notin> set (Q' q)" "n \<notin> P"
      "in_arrays s1 n" "\<forall>m. in_arrays s m \<longrightarrow> in_arrays s1 m" "n \<notin> set (Q ThreadList)"
      "nodes s1 = nodes s" "specific s1 = specific s" "thr_trace s1 = thr_trace s"
      "monitor_thread_num s1 = monitor_thread_num s" by blast
  have arr: "in_arrays s' = in_arrays s1" by (simp add: t(2) in_arrays_def fun_eq_iff split: nid.splits)
  have old: "pool_inv s Q P" using inv by (simp add: th_inv_def)
  have "in_arrays s1 m" if "m \<in> set (Q' q)" for m q
    using that Q'(2,7) old unfolding pool_inv_def by blast
  moreover have "in_arrays s1 m \<and> (\<forall>q. m \<notin> set (Q' q))" if "m \<in> insert n P" for m
    using that Q'(2,4,6,7) old unfolding pool_inv_def by blast
  ultimately have pool: "pool_inv s' Q' (insert n P)"
    unfolding pool_inv_def arr using Q'(3) by (simp add: t(2))
  have node: "node_inv s' (set (Q ThreadList))"
    using inv Q'(8,9,12) unfolding th_inv_def node_inv_def t(2) by (auto simp: zero_node_def)
  have "fini_count t s' = fini_count t s" for t by (simp add: fini_count_def t(2) Q'(11))
  then have "fini_inv s' (set (Q ThreadList))"
    using inv Q'(8,9,12) unfolding th_inv_def fini_inv_def t(2) by auto
  then show ?thesis
    using Q' pool node by (intro exI [of _ Q']) (auto simp: th_inv_def t(2) fun_eq_iff)
qed

text \<open>A new thread links its node.\<close>

lemma th_inv_pending: "th_inv s Q P \<Longrightarrow> P' \<subseteq> P \<Longrightarrow> th_inv s Q P'"
  by (auto simp: th_inv_def pool_inv_def)

lemma link_inv:
  assumes inv: "th_inv s Q P" and n: "n \<in> P" "tn_magic (nodes s n) = MONITOR_TN_MAGIC"
    and ok: "monitor_link_thread_node n s = (0, s')"
  shows "th_inv s' (Q(ThreadList := n # Q ThreadList)) (P - {n})"
    and "tn_tid (nodes s' n) = monitor_thread_num s + 1"
proof -
  have exit: "\<not> monitor_in_exit_cleanup s" using ok by (auto simp: monitor_link_thread_node_def split: if_splits)
  have s': "s' = (upd_node n (\<lambda>e. e\<lparr>tn_tid := monitor_thread_num s + 1\<rparr>)
        (s\<lparr>monitor_thread_num := monitor_thread_num s + 1\<rparr>))
        \<lparr>links := LIST_INSERT_HEAD ThreadList n (links s)\<rparr>"
    using ok exit by (simp add: monitor_link_thread_node_def Let_def)
  have arr: "in_arrays s' = in_arrays s" by (simp add: s' in_arrays_def fun_eq_iff split: nid.splits)
  have out: "n \<notin> set (Q q)" "in_arrays s n" for q using inv n by (auto simp: th_inv_def pool_inv_def)
  have rep: "lists_rep (LIST_INSERT_HEAD ThreadList n (links s)) (Q(ThreadList := n # Q ThreadList))"
    by (rule rep_insert_head) (use inv out in \<open>auto simp: th_inv_def pool_inv_def\<close>)
  have pool: "pool_inv s' (Q(ThreadList := n # Q ThreadList)) (P - {n})"
    using inv out rep unfolding pool_inv_def arr by (auto simp: th_inv_def pool_inv_def s')
  let ?L = "set (Q ThreadList)" and ?num = "monitor_thread_num s"
  have ni: "node_inv s ?L" and fi: "fini_inv s ?L" using inv by (simp_all add: th_inv_def)
  have ne: "m \<noteq> n" if "m \<in> ?L" for m using that out(1) [of ThreadList] by auto
  have eqs: "nodes s' m = (if m = n then (nodes s n)\<lparr>tn_tid := ?num + 1\<rparr> else nodes s m)"
    "monitor_thread_num s' = ?num + 1" for m by (simp_all add: s')
  have bnd: "1 \<le> tn_tid (nodes s m) \<and> tn_tid (nodes s m) \<le> ?num" if "m \<in> ?L" for m
    using ni that by (simp add: node_inv_def)
  have cnt: "fini_count t s' = fini_count t s" for t by (simp add: fini_count_def s')
  have node: "node_inv s' (insert n ?L)"
    unfolding node_inv_def
  proof (intro conjI ballI allI impI)
    show "0 \<le> monitor_thread_num s'" using ni by (simp add: eqs node_inv_def)
    fix m assume m: "m \<in> insert n ?L"
    show "tn_magic (nodes s' m) = MONITOR_TN_MAGIC" using ni m n(2) by (auto simp: eqs node_inv_def)
    show "1 \<le> tn_tid (nodes s' m)" "tn_tid (nodes s' m) \<le> monitor_thread_num s'"
      using ni m bnd [of m] by (auto simp: eqs node_inv_def)
    fix m' assume m': "m' \<in> insert n ?L" "tn_tid (nodes s' m) = tn_tid (nodes s' m')"
    show "m = m'"
      using ni m m' bnd [of m] bnd [of m'] by (auto simp: eqs node_inv_def split: if_splits)
  next
    fix m assume "tn_appl_started (nodes s' m)"
    then show "m \<in> insert n ?L" using ni by (auto simp: eqs node_inv_def split: if_splits)
  qed
  have fini: "fini_inv s' (insert n ?L)"
    unfolding fini_inv_def cnt
  proof (intro allI conjI impI ballI)
    fix t
    assume c: "0 < fini_count t s"
    then have t: "1 \<le> t" "t \<le> ?num" using fi by (auto simp: fini_inv_def)
    then show "1 \<le> t" "t \<le> monitor_thread_num s'" by (simp_all add: eqs)
    fix m assume m: "m \<in> insert n ?L" "tn_tid (nodes s' m) = t"
    then have "m \<noteq> n" using t by (auto simp: eqs)
    then show "tn_fini_started (nodes s' m)" using m c fi by (auto simp: eqs fini_inv_def)
  qed
  show "th_inv s' (Q(ThreadList := n # Q ThreadList)) (P - {n})"
    using pool node fini by (simp add: th_inv_def)
  show "tn_tid (nodes s' n) = monitor_thread_num s + 1" by (simp add: s')
qed

lemma th_inv_started:
  assumes inv: "th_inv s Q P" and n: "n \<in> set (Q ThreadList)"
  shows "th_inv (upd_node n (\<lambda>e. e\<lparr>tn_appl_started := True\<rparr>) s) Q P"
proof -
  let ?s = "upd_node n (\<lambda>e. e\<lparr>tn_appl_started := True\<rparr>) s"
  have arr: "in_arrays ?s = in_arrays s" by (simp add: in_arrays_def fun_eq_iff split: nid.splits)
  have eqs: "tn_magic (nodes ?s x) = tn_magic (nodes s x)" "tn_tid (nodes ?s x) = tn_tid (nodes s x)"
    "tn_fini_started (nodes ?s x) = tn_fini_started (nodes s x)"
    "tn_appl_started (nodes ?s x) \<longleftrightarrow> x = n \<or> tn_appl_started (nodes s x)"
    "monitor_thread_num ?s = monitor_thread_num s" "fini_count t ?s = fini_count t s"
    "links ?s = links s" for x t
    by simp_all
  show ?thesis
    using inv n unfolding th_inv_def pool_inv_def node_inv_def fini_inv_def eqs arr by blast
qed

text \<open>A thread that ends: the node goes back, unless the process is already exiting.\<close>

lemma unlink_inv:
  assumes inv: "th_inv s Q P" and n: "n \<in> set (Q ThreadList)"
  shows "\<exists>s' Q'. monitor_unlink_thread_node n s = Inr s' \<and> th_inv s' Q' P \<and>
           set (Q ThreadList) - {n} \<subseteq> set (Q' ThreadList) \<and>
           (\<forall>m. m \<noteq> n \<longrightarrow> nodes s' m = nodes s m) \<and> (\<forall>t. fini_count t s' = fini_count t s)"
proof (cases "monitor_in_exit_cleanup s")
  case True
  have "th_inv (upd_node n (\<lambda>e. e\<lparr>tn_fini_started := True, tn_fini_done := True\<rparr>) s) Q P"
    by (rule th_inv_frame [OF inv]) auto
  then show ?thesis using True by (auto simp: monitor_unlink_thread_node_def)
next
  case False
  let ?Q = "Q(ThreadList := remove1 n (Q ThreadList), FreeList := n # Q FreeList)"
  have rep0: "lists_rep (links s) Q" using inv by (simp add: th_inv_def pool_inv_def)
  obtain h where h: "LIST_REMOVE n (links s) = Some h"
    "lists_rep (LIST_INSERT_HEAD FreeList n (zero_links n h)) ?Q"
    using np.recycle [OF rep0 n, of FreeList] by blast
  let ?s1 = "memset_node n (s\<lparr>links := h\<rparr>)"
  let ?s' = "?s1\<lparr>links := LIST_INSERT_HEAD FreeList n (links ?s1)\<rparr>"
  have s': "monitor_unlink_thread_node n s = Inr ?s'"
    using False h(1) by (simp add: monitor_unlink_thread_node_def Let_def)
  have dis: "distinct (Q ThreadList)" using rep0 by (rule lists_repD(2))
  have sub: "set (?Q ThreadList) = set (Q ThreadList) - {n}" using dis by simp
  have arr: "in_arrays ?s' = in_arrays s" by (simp add: in_arrays_def fun_eq_iff split: nid.splits)
  have rep: "lists_rep (links ?s') ?Q" using h(2) by simp
  have mem: "set (?Q q) \<subseteq> set (Q ThreadList) \<union> set (Q FreeList)" for q
    using set_remove1_subset [of n "Q ThreadList"] n by (cases q) auto
  have old: "pool_inv s Q P" using inv by (simp add: th_inv_def)
  have pool: "pool_inv ?s' ?Q P"
    unfolding pool_inv_def arr using rep mem old unfolding pool_inv_def by blast
  have node: "node_inv ?s' (set (Q ThreadList) - {n})"
    using inv unfolding th_inv_def node_inv_def by (auto simp: zero_node_def)
  have cnt: "fini_count t ?s' = fini_count t s" for t by (simp add: fini_count_def)
  have fini: "fini_inv ?s' (set (Q ThreadList) - {n})"
    using inv unfolding th_inv_def fini_inv_def cnt by auto
  have "th_inv ?s' ?Q P" unfolding th_inv_def sub using pool node fini by blast
  then show ?thesis using s' sub cnt by (intro exI [of _ ?s'] exI [of _ ?Q]) simp
qed

section \<open>Walks\<close>

text \<open>Every list of nodes fits the fuel of the walk.\<close>

lemma in_arrays_finite:
  assumes "\<forall>n \<in> set ns. in_arrays s n" "distinct ns"
  shows "length ns \<le> (tn_arrays s + 1) * MONITOR_TN_ARRAY_SIZE"
proof -
  let ?A = "(\<lambda>(k, p). Slot k p) ` ({..<tn_arrays s + 1} \<times> {..<MONITOR_TN_ARRAY_SIZE})"
  have "set ns \<subseteq> ?A"
  proof
    fix n assume "n \<in> set ns"
    then have "in_arrays s n" using assms(1) by blast
    then show "n \<in> ?A" by (cases n) (auto simp: in_arrays_def image_iff)
  qed
  then have "card (set ns) \<le> card ?A" by (intro card_mono) auto
  also have "\<dots> \<le> (tn_arrays s + 1) * MONITOR_TN_ARRAY_SIZE"
    by (rule order_trans [OF card_image_le]) auto
  finally show ?thesis using assms(2) by (simp add: distinct_card)
qed

lemma walk_ok:
  assumes "th_inv s Q P"
  shows "walk_threads s = Some (Q ThreadList)"
proof -
  have rep: "lists_rep (links s) Q" and arr: "\<forall>n \<in> set (Q ThreadList). in_arrays s n"
    using assms by (auto simp: th_inv_def pool_inv_def)
  have "length (Q ThreadList) \<le> (tn_arrays s + 1) * MONITOR_TN_ARRAY_SIZE"
    by (rule in_arrays_finite [OF arr lists_repD(2) [OF rep]])
  then show ?thesis unfolding walk_threads_def by (intro rep_foreach [OF rep]) simp
qed

lemma walk_threads_subset:
  assumes "th_inv s Q P" "walk_threads s = Some ns"
  shows "ns = Q ThreadList"
proof -
  have prefix: "LIST_FOREACH k h (load h l) = Some ns \<Longrightarrow> chain h l xs \<Longrightarrow> ns = xs"
    for k and h :: "(lid, nid) lheap" and l xs ns
  proof (induction k arbitrary: l xs ns)
    case (Suc k)
    show ?case
    proof (cases xs)
      case (Cons x ys)
      then obtain ms where "LIST_FOREACH k h (load h (NextOf x)) = Some ms" "ns = x # ms"
        using Suc.prems by auto
      then show ?thesis using Suc.IH [of "NextOf x" ms ys] Suc.prems Cons by simp
    qed (use Suc.prems in auto)
  qed simp
  have "chain (links s) (Head ThreadList) (Q ThreadList)"
    using assms(1) by (auto simp: th_inv_def pool_inv_def intro: lists_repD(1))
  then show ?thesis using prefix assms(2) unfolding walk_threads_def by blast
qed

lemma scan_node_frame:
  fixes self n t s
  defines "r \<equiv> scan_node self n (t, s)"
  shows "nodes (snd r) = nodes s" "links (snd r) = links s" "tn_arrays (snd r) = tn_arrays s"
    "monitor_tn_array_pos (snd r) = monitor_tn_array_pos s"
    "monitor_thread_num (snd r) = monitor_thread_num s" "fini_count k (snd r) = fini_count k s"
    "my_tn (fst r) = (if self = tn_self (nodes s n) then Some n else my_tn t)"
    "num_unfinished (fst r) = num_unfinished t +
       (if self \<noteq> tn_self (nodes s n) \<and> tn_appl_started (nodes s n) \<and> \<not> tn_fini_done (nodes s n)
        then 1 else 0)"
  by (simp_all add: r_def scan_node_def Let_def)

lemma scan_fold:
  assumes "fold (scan_node self) ns (t, s) = (t', s')"
  shows "nodes s' = nodes s \<and> links s' = links s \<and> tn_arrays s' = tn_arrays s \<and>
    monitor_tn_array_pos s' = monitor_tn_array_pos s \<and> monitor_thread_num s' = monitor_thread_num s \<and>
    (\<forall>k. fini_count k s' = fini_count k s) \<and> (my_tn t' = my_tn t \<or> my_tn t' \<in> Some ` set ns)"
  using assms
proof (induction ns arbitrary: t s)
  case (Cons n ns)
  obtain t1 s1 where one: "scan_node self n (t, s) = (t1, s1)" by fastforce
  have "nodes s1 = nodes s \<and> links s1 = links s \<and> tn_arrays s1 = tn_arrays s \<and>
    monitor_tn_array_pos s1 = monitor_tn_array_pos s \<and> monitor_thread_num s1 = monitor_thread_num s \<and>
    (\<forall>k. fini_count k s1 = fini_count k s) \<and> (my_tn t1 = my_tn t \<or> my_tn t1 = Some n)"
    using scan_node_frame [where self = self and n = n and t = t and s = s] unfolding one by simp
  moreover have "fold (scan_node self) ns (t1, s1) = (t', s')" using Cons.prems one by simp
  ultimately show ?case using Cons.IH [of t1 s1] by auto
qed simp

section \<open>Interleavings\<close>

definition thst_start :: thst where
  "thst_start = \<lparr>early_init_done = False,
     links = \<lparr>lh_first = (\<lambda>_. None), le_next = (\<lambda>_. None), le_prev = (\<lambda>_. None)\<rparr>,
     nodes = (\<lambda>_. zero_node), tn_arrays = 0, monitor_tn_array_pos = 0, monitor_thread_num = 0,
     monitor_in_exit_cleanup = False, monitor_has_used_threads = False,
     thr_has_reached_main = False, monitor_thread_support_done = False,
     monitor_fini_thread_done = False, thr_shootdown_signal = 0, specific = (\<lambda>_. None),
     thr_trace = []\<rparr>"

text \<open>A process that has created no thread, its early init and its main begun or not.\<close>

definition no_threads_yet :: "thst \<Rightarrow> bool" where
  "no_threads_yet s \<longleftrightarrow> \<not> monitor_has_used_threads s \<and> \<not> monitor_thread_support_done s \<and>
     monitor_thread_num s = 0 \<and> thr_trace s = [] \<and> (\<forall>n. \<not> tn_appl_started (nodes s n))"

text \<open>The events at which the client is called for threads.\<close>

fun is_thread_callback :: "thread_event \<Rightarrow> bool" where
  "is_thread_callback InitThreadSupport = True"
| "is_thread_callback (InitThread t d) = True"
| "is_thread_callback (FiniThread t d) = True"
| "is_thread_callback e = False"

text \<open>
  Where a thread stands: on the list before its init-thread (Linked), in or after it with
  tn_appl_started not yet set (Inited), past the tests of a routine that delivers fini-thread
  (Tested), in the callback with tn_fini_started set (Called), between the callback and the
  unlinking of the cleanup routine (Unlinking).  A thread is in several stages when the
  shootdown signal, or another signal whose handler calls libmonitor, interrupts it.
\<close>

datatype fini_site = InCleanup | InHandler | InSigwait

datatype stage = Linked | Inited | Tested fini_site | Called fini_site | Unlinking

text \<open>The tests that the three routines make before they deliver.\<close>

definition fini_due :: "nid \<Rightarrow> thst \<Rightarrow> bool" where
  "fini_due n s \<longleftrightarrow> tn_magic (nodes s n) = MONITOR_TN_MAGIC \<and> fini_wanted n s \<and> \<not> monitor_fini_thread_done s"

text \<open>The handler interrupts the thread: what it interrupted goes on after it.\<close>

definition handler_busy :: "(nid \<times> stage) set \<Rightarrow> nid \<Rightarrow> bool" where
  "handler_busy W n \<longleftrightarrow> (n, Tested InHandler) \<in> W \<or> (n, Called InHandler) \<in> W"

text \<open>The number of a thread whose callback begins while another routine of the same thread
  is past its tests.\<close>

definition overtaken :: "nid \<Rightarrow> (nid \<times> stage) set \<Rightarrow> thst \<Rightarrow> int set" where
  "overtaken n W s = (if \<exists>k. (n, Tested k) \<in> W then {tn_tid (nodes s n)} else {})"

text \<open>
  P holds the nodes given to a real thread that has not begun yet, W the stages of the
  threads, H the numbers of threads with an overtaken routine.  Every rule may have its own
  host answers.  Events that are no callbacks of threads (warnings, cancel states, the rest of
  pthread_create) may come at any time; a scan is one pass of the shootdown loop, set_done and own
  are the steps of the thread that ends the process after its loop, which is not one before
  its init-thread.  A thread that ends leaves all its stages.
\<close>

inductive th_run :: "client \<Rightarrow> thst \<Rightarrow> nid set \<Rightarrow> (nid \<times> stage) set \<Rightarrow> int set \<Rightarrow> bool" for cl where
  first: "no_threads_yet s0 \<Longrightarrow> monitor_thread_list_init sys self s0 = Inr s \<Longrightarrow>
     th_run cl (s\<lparr>monitor_has_used_threads := True\<rparr>) {} {} {}"
| create: "th_run cl s P W H \<Longrightarrow> create_prepare cl sys r a s = Inr (n, s') \<Longrightarrow>
     th_run cl (thr_emit (RealPthreadCreate n r) s') (insert n P) W H"
| event: "th_run cl s P W H \<Longrightarrow> \<not> is_thread_callback e \<Longrightarrow> th_run cl (thr_emit e s) P W H"
| enter: "th_run cl s P W H \<Longrightarrow> n \<in> P \<Longrightarrow> begin_enter sys self b n s = Some (Inr (ret, s')) \<Longrightarrow>
     th_run cl s' (P - {n}) (if ret = 0 then insert (n, Linked) W else W) H"
| init: "th_run cl s P W H \<Longrightarrow> (n, Linked) \<in> W \<Longrightarrow>
     th_run cl (begin_init cl n s) P (insert (n, Inited) (W - {(n, Linked)})) H"
| start: "th_run cl s P W H \<Longrightarrow> (n, Inited) \<in> W \<Longrightarrow> th_run cl (begin_start n s) P (W - {(n, Inited)}) H"
| test: "th_run cl s P W H \<Longrightarrow> specific s self = Some n \<Longrightarrow> fini_due n s \<Longrightarrow>
     k = InSigwait \<longrightarrow> monitor_in_exit_cleanup s \<Longrightarrow> \<not> handler_busy W n \<Longrightarrow>
     th_run cl s P (insert (n, Tested k) W) H"
| late: "th_run cl s P W H \<Longrightarrow> (n, Tested k) \<in> W \<Longrightarrow> monitor_fini_thread_done s \<Longrightarrow>
     th_run cl s P (W - {(n, Tested k)}) H"
| fini: "th_run cl s P W H \<Longrightarrow> (n, Tested k) \<in> W \<Longrightarrow> k = InHandler \<or> \<not> handler_busy W n \<Longrightarrow>
     th_run cl (fini_begin n s) P (insert (n, Called k) (W - {(n, Tested k)}))
       (H \<union> overtaken n (W - {(n, Tested k)}) s)"
| over: "th_run cl s P W H \<Longrightarrow> (n, Called k) \<in> W \<Longrightarrow> k = InHandler \<or> \<not> handler_busy W n \<Longrightarrow>
     th_run cl (fini_end n s) P
       (if k = InCleanup then insert (n, Unlinking) (W - {(n, Called k)}) else W - {(n, Called k)}) H"
| unlink: "th_run cl s P W H \<Longrightarrow> (n, Unlinking) \<in> W \<Longrightarrow> \<not> handler_busy W n \<Longrightarrow> specific s self = Some n \<Longrightarrow>
     monitor_unlink_thread_node n s = Inr s' \<Longrightarrow>
     th_run cl (s'\<lparr>specific := (specific s')(self := None)\<rparr>) P {w \<in> W. fst w \<noteq> n} H"
| ends: "th_run cl s P W H \<Longrightarrow> specific s self = Some n \<Longrightarrow> tn_appl_started (nodes s n) \<Longrightarrow> \<not> fini_due n s \<Longrightarrow>
     th_run cl (s\<lparr>specific := (specific s)(self := None)\<rparr>) P {w \<in> W. fst w \<noteq> n} H"
| block: "th_run cl s P W H \<Longrightarrow> th_run cl (snd (monitor_block_shootdown self s)) P W H"
| unblock: "th_run cl s P W H \<Longrightarrow> th_run cl (monitor_unblock_shootdown self s) P W H"
| disable: "th_run cl s P W H \<Longrightarrow> th_run cl (monitor_disable_new_threads self s) P W H"
| enable: "th_run cl s P W H \<Longrightarrow> th_run cl (monitor_enable_new_threads self s) P W H"
| exit_win: "th_run cl s P W H \<Longrightarrow> th_run cl (upd_node n (\<lambda>e. e\<lparr>tn_exit_win := True\<rparr>) s) P W H"
| release: "th_run cl s P W H \<Longrightarrow> th_run cl (monitor_thread_release s) P W H"
| shoot: "th_run cl s P W H \<Longrightarrow> shootdown_begin sig ok s = Inr s' \<Longrightarrow> th_run cl s' P W H"
| scan: "th_run cl s P W H \<Longrightarrow> shootdown_scan self s = Some (t, s') \<Longrightarrow> th_run cl s' P W H"
| set_done: "th_run cl s P W H \<Longrightarrow> th_run cl (s\<lparr>monitor_fini_thread_done := True\<rparr>) P W H"
| own: "th_run cl s P W H \<Longrightarrow> monitor_fini_thread_done s \<Longrightarrow> walk_threads s = Some ns \<Longrightarrow> n \<in> set ns \<Longrightarrow>
     \<not> tn_fini_started (nodes s n) \<Longrightarrow> (n, Linked) \<notin> W \<Longrightarrow>
     th_run cl (fini_thread n s) P W (H \<union> overtaken n W s)"

text \<open>The states where no thread is between two such steps and no routine was overtaken: the
  operations of pthread.c, each done as a whole, lead from one to another.\<close>

definition th_reach :: "client \<Rightarrow> thst \<Rightarrow> nid set \<Rightarrow> bool" where
  "th_reach cl s P \<longleftrightarrow> th_run cl s P {} {}"

subsection \<open>The invariant of the run\<close>

definition win_inv :: "thst \<Rightarrow> nid set \<Rightarrow> (nid \<times> stage) set \<Rightarrow> int set \<Rightarrow> bool" where
  "win_inv s L W H \<longleftrightarrow> (\<forall>n k. (n, k) \<in> W \<longrightarrow> n \<in> L) \<and>
     (\<forall>n. (n, Linked) \<in> W \<longrightarrow> \<not> tn_appl_started (nodes s n) \<and> \<not> tn_fini_started (nodes s n) \<and>
        (\<forall>k. (n, k) \<in> W \<longrightarrow> k = Linked)) \<and>
     (\<forall>n k. (n, Tested k) \<in> W \<longrightarrow> tn_fini_started (nodes s n) \<longrightarrow> tn_tid (nodes s n) \<in> H) \<and>
     (\<forall>t. fini_count t s \<le> 1 \<or> t \<in> H)"

definition pend_inv :: "thst \<Rightarrow> nid set \<Rightarrow> bool" where
  "pend_inv s P \<longleftrightarrow> (\<forall>n \<in> P. tn_magic (nodes s n) = MONITOR_TN_MAGIC \<and> \<not> tn_fini_started (nodes s n))"

definition run_inv :: "thst \<Rightarrow> nid set \<Rightarrow> (nid \<times> stage) set \<Rightarrow> int set \<Rightarrow> bool" where
  "run_inv s P W H \<longleftrightarrow> (\<exists>Q. th_inv s Q P \<and> pend_inv s P \<and> win_inv s (set (Q ThreadList)) W H)"

lemma win_inv_frame:
  assumes "win_inv s L W H" "W' \<subseteq> W" "\<And>n k. (n, k) \<in> W' \<Longrightarrow> n \<in> L'"
    and "\<And>t. fini_count t s' = fini_count t s"
    and "\<And>n k. (n, k) \<in> W' \<Longrightarrow> tn_appl_started (nodes s' n) = tn_appl_started (nodes s n)"
      "\<And>n k. (n, k) \<in> W' \<Longrightarrow> tn_fini_started (nodes s' n) = tn_fini_started (nodes s n)"
      "\<And>n k. (n, k) \<in> W' \<Longrightarrow> tn_tid (nodes s' n) = tn_tid (nodes s n)"
  shows "win_inv s' L' W' H"
  unfolding win_inv_def
proof (intro conjI allI impI)
  show "n \<in> L'" if "(n, k) \<in> W'" for n k using assms(3) [OF that] .
  show "\<not> tn_appl_started (nodes s' n)" "\<not> tn_fini_started (nodes s' n)" if "(n, Linked) \<in> W'" for n
    using assms(1,2) assms(5,6) [OF that] that unfolding win_inv_def by blast+
  show "k = Linked" if "(n, Linked) \<in> W'" "(n, k) \<in> W'" for n k
    using assms(1,2) that unfolding win_inv_def by blast
  show "tn_tid (nodes s' n) \<in> H" if "(n, Tested k) \<in> W'" "tn_fini_started (nodes s' n)" for n k
  proof -
    have "(n, Tested k) \<in> W" "tn_fini_started (nodes s n)" using assms(2) assms(6) [OF that(1)] that by auto
    then have "tn_tid (nodes s n) \<in> H" using assms(1) unfolding win_inv_def by blast
    then show ?thesis using assms(7) [OF that(1)] by simp
  qed
  show "fini_count t s' \<le> 1 \<or> t \<in> H" for t using assms(1,4) unfolding win_inv_def by simp
qed

text \<open>A stage after the start, or of a thread that has not started its callback, is added.\<close>

lemma win_inv_add:
  assumes "win_inv s L W H" "n \<in> L" "k \<noteq> Linked" "(n, Linked) \<notin> W"
    and "(\<exists>k'. k = Tested k') \<Longrightarrow> \<not> tn_fini_started (nodes s n)"
  shows "win_inv s L (insert (n, k) W) H"
  using assms unfolding win_inv_def by auto

lemma win_listed: "win_inv s L W H \<Longrightarrow> (n, k) \<in> W \<Longrightarrow> n \<in> L"
  unfolding win_inv_def by blast

lemma win_not_linked: "win_inv s L W H \<Longrightarrow> (n, k) \<in> W \<Longrightarrow> k \<noteq> Linked \<Longrightarrow> (n, Linked) \<notin> W"
  unfolding win_inv_def by blast

lemma win_mono:
  assumes "win_inv s L W H" "W' \<subseteq> W"
  shows "win_inv s L W' H"
  by (rule win_inv_frame [OF assms win_listed [OF assms(1)]]) (use assms(2) in auto)

lemma win_inv_fini_begin:
  assumes th: "th_inv s Q P" and w: "win_inv s (set (Q ThreadList)) W H"
    and n: "n \<in> set (Q ThreadList)" "(n, Linked) \<notin> W"
      "\<not> tn_fini_started (nodes s n) \<or> tn_tid (nodes s n) \<in> H"
  shows "win_inv (fini_begin n s) (set (Q ThreadList)) W (H \<union> overtaken n W s)"
  unfolding win_inv_def
proof (intro conjI allI impI)
  let ?t = "tn_tid (nodes s n)"
  show "m \<in> set (Q ThreadList)" if "(m, k) \<in> W" for m k using win_listed [OF w that] .
  show "\<not> tn_appl_started (nodes (fini_begin n s) m)" "\<not> tn_fini_started (nodes (fini_begin n s) m)"
    if "(m, Linked) \<in> W" for m
    using w n(2) that unfolding win_inv_def by auto
  show "k = Linked" if "(m, Linked) \<in> W" "(m, k) \<in> W" for m k
    using w that unfolding win_inv_def by blast
  show "tn_tid (nodes (fini_begin n s) m) \<in> H \<union> overtaken n W s"
    if "(m, Tested k) \<in> W" "tn_fini_started (nodes (fini_begin n s) m)" for m k
    using w that unfolding win_inv_def overtaken_def by auto
  show "fini_count t (fini_begin n s) \<le> 1 \<or> t \<in> H \<union> overtaken n W s" for t
  proof (cases "t = ?t \<and> ?t \<notin> H")
    case True
    then have "\<not> tn_fini_started (nodes s n)" using n(3) by blast
    then have "fini_count ?t s = 0" using th n(1) by (auto simp: th_inv_def fini_inv_def)
    then show ?thesis using True by simp
  next
    case False
    then show ?thesis using w unfolding win_inv_def by auto
  qed
qed

lemma win_inv_fini_end:
  assumes "win_inv s L W H"
  shows "win_inv (fini_end n s) L W H"
  by (rule win_inv_frame [OF assms order_refl win_listed [OF assms]]) (auto simp: fini_end_def)

lemma run_inv_frame:
  assumes "run_inv s P W H" "W' \<subseteq> W" "links s' = links s" "tn_arrays s' = tn_arrays s"
    "monitor_tn_array_pos s' = monitor_tn_array_pos s" "monitor_thread_num s' = monitor_thread_num s"
    "\<And>t. fini_count t s' = fini_count t s"
    and "\<And>x. tn_magic (nodes s' x) = tn_magic (nodes s x)" "\<And>x. tn_tid (nodes s' x) = tn_tid (nodes s x)"
      "\<And>x. tn_appl_started (nodes s' x) = tn_appl_started (nodes s x)"
      "\<And>x. tn_fini_started (nodes s' x) = tn_fini_started (nodes s x)"
  shows "run_inv s' P W' H"
proof -
  obtain Q where Q: "th_inv s Q P" "pend_inv s P" "win_inv s (set (Q ThreadList)) W H"
    using assms(1) by (auto simp: run_inv_def)
  have "th_inv s' Q P" by (rule th_inv_frame [OF Q(1)]) (use assms in auto)
  moreover have "pend_inv s' P" using Q(2) assms by (simp add: pend_inv_def)
  moreover have "win_inv s' (set (Q ThreadList)) W' H"
    by (rule win_inv_frame [OF Q(3) assms(2)]) (use assms win_listed [OF Q(3)] in auto)
  ultimately show ?thesis unfolding run_inv_def by blast
qed

lemma run_inv_event: "run_inv s P W H \<Longrightarrow> \<not> is_thread_callback e \<Longrightarrow> run_inv (thr_emit e s) P W H"
  by (erule run_inv_frame) (cases e; auto)+

lemma run_inv_upd:
  assumes "run_inv s P W H" "\<And>e. tn_magic (f e) = tn_magic e" "\<And>e. tn_tid (f e) = tn_tid e"
    "\<And>e. tn_appl_started (f e) = tn_appl_started e" "\<And>e. tn_fini_started (f e) = tn_fini_started e"
  shows "run_inv (upd_node n f s) P W H"
  by (rule run_inv_frame [OF assms(1)]) (use assms in auto)

subsection \<open>The steps keep it\<close>

lemma started_listed:
  "th_inv s Q P \<Longrightarrow> tn_appl_started (nodes s n) \<Longrightarrow> n \<in> set (Q ThreadList)"
  by (auto simp: th_inv_def node_inv_def)

lemma pending_fresh: "th_inv s Q P \<Longrightarrow> n \<in> P \<Longrightarrow> n \<notin> set (Q ThreadList) \<and> \<not> tn_appl_started (nodes s n)"
  by (auto simp: th_inv_def pool_inv_def node_inv_def)


lemma early_init_facts [simp]:
  "monitor_thread_num (monitor_early_init s) = monitor_thread_num s"
  "thr_trace (monitor_early_init s) = thr_trace s"
  "monitor_thread_support_done (monitor_early_init s) = monitor_thread_support_done s"
  "tn_appl_started (nodes (monitor_early_init s) n) \<Longrightarrow> tn_appl_started (nodes s n)"
  by (simp_all add: monitor_early_init_def memset_node_def upd_node_def zero_node_def split: if_splits)

lemma list_init_facts:
  assumes "monitor_thread_list_init sys self s0 = Inr s"
  shows "load (links s) (Head q) = None" "monitor_thread_num s = monitor_thread_num s0"
    "thr_trace s = thr_trace s0" "monitor_thread_support_done s = monitor_thread_support_done s0"
    and "tn_appl_started (nodes s n) \<Longrightarrow> tn_appl_started (nodes s0 n)"
proof -
  define s1 where "s1 = (monitor_early_init s0)\<lparr>links := LIST_INIT FreeList (LIST_INIT ThreadList (links (monitor_early_init s0))),
    monitor_tn_array_pos := 0\<rparr>"
  have s: "s = (upd_node MainTn (\<lambda>e. e\<lparr>tn_self := self\<rparr>) s1)\<lparr>specific := (\<lambda>_. None)(self := Some MainTn)\<rparr>"
    using assms by (simp add: monitor_thread_list_init_def Let_def s1_def split: if_splits)
  show "load (links s) (Head q) = None" by (cases q) (simp_all add: s s1_def LIST_INIT_def load.simps store.simps)
  show "monitor_thread_num s = monitor_thread_num s0" "thr_trace s = thr_trace s0"
    "monitor_thread_support_done s = monitor_thread_support_done s0"
    by (simp_all add: s s1_def)
  show "tn_appl_started (nodes s n) \<Longrightarrow> tn_appl_started (nodes s0 n)"
    using early_init_facts(4) [of s0 n] by (auto simp: s s1_def split: if_splits)
qed


lemma run_inv_first:
  assumes "no_threads_yet s0" "monitor_thread_list_init sys self s0 = Inr s"
  shows "run_inv (s\<lparr>monitor_has_used_threads := True\<rparr>) {} {} {}"
proof -
  have "th_inv (s\<lparr>monitor_has_used_threads := True\<rparr>) (\<lambda>_. []) {}"
    "win_inv (s\<lparr>monitor_has_used_threads := True\<rparr>) {} {} {}"
    using list_init_facts [OF assms(2)] assms(1)
    by (auto simp: no_threads_yet_def th_inv_def pool_inv_def node_inv_def fini_inv_def fini_count_def
        lists_rep_def win_inv_def)
  then show ?thesis unfolding run_inv_def by (intro exI [of _ "\<lambda>_. []"]) (simp add: pend_inv_def)
qed


lemma create_launch_frame:
  fixes cl sys attr r n s
  defines "u \<equiv> create_launch cl sys attr r n s"
  shows "nodes (snd u) = nodes s" "links (snd u) = links s" "tn_arrays (snd u) = tn_arrays s"
    "monitor_tn_array_pos (snd u) = monitor_tn_array_pos s"
    "monitor_thread_num (snd u) = monitor_thread_num s" "fini_count k (snd u) = fini_count k s"
    "fst (snd (fst u)) = Some n"
  by (simp_all add: u_def create_launch_def Let_def)

lemma create_launch_some:
  "create_launch cl sys attr r n s = ((ret, no, at), s') \<Longrightarrow> no = Some n"
  using create_launch_frame(7) [of cl sys attr r n s] by simp


lemma run_inv_create:
  assumes ok: "run_inv s P W H" and p: "create_prepare cl sys r a s = Inr (n, s')"
  shows "run_inv (thr_emit (RealPthreadCreate n r) s') (insert n P) W H"
proof -
  define s0 where "s0 = (if \<not> monitor_thread_support_done s \<and> thr_has_reached_main s
     then monitor_call_thread_support s else s)"
  have ok0: "run_inv s0 P W H"
    by (rule run_inv_frame [OF ok order_refl]) (auto simp: s0_def monitor_call_thread_support_def fini_count_def)
  then obtain Q where Q: "th_inv s0 Q P" "pend_inv s0 P" "win_inv s0 (set (Q ThreadList)) W H"
    by (auto simp: run_inv_def)
  obtain s1 where m: "monitor_make_thread_node sys s0 = Inr (n, s1)"
    and s2: "s' = upd_node n (\<lambda>e. e\<lparr>tn_user_data := cl_thread_pre_create cl\<rparr>) (thr_emit (ThreadPreCreate r)
      (upd_node n (\<lambda>e. e\<lparr>tn_start_routine := r, tn_arg := a\<rparr>) s1))"
    using p by (auto simp: create_prepare_def s0_def Let_def)
  obtain Q' where Q': "Q' ThreadList = Q ThreadList" "th_inv s1 Q' (insert n P)"
      "nodes s1 = (nodes s0)(n := zero_node\<lparr>tn_magic := MONITOR_TN_MAGIC, tn_tid := -1\<rparr>)"
      "thr_trace s1 = thr_trace s0"
    using make_node_inv [OF Q(1) m] by blast
  have n: "n \<notin> set (Q ThreadList)" using pending_fresh [OF Q'(2)] Q'(1) by simp
  have "win_inv s1 (set (Q' ThreadList)) W H"
    by (rule win_inv_frame [OF Q(3) order_refl])
      (use win_listed [OF Q(3)] n Q' in \<open>auto simp: fini_count_def\<close>)
  moreover have "pend_inv s1 (insert n P)" using Q(2) Q'(3) by (auto simp: pend_inv_def zero_node_def)
  ultimately have "run_inv s1 (insert n P) W H" using Q'(2) by (auto simp: run_inv_def)
  then show ?thesis by (rule run_inv_frame) (auto simp: s2)
qed

lemma create_keeps_nodes:
  assumes ok: "run_inv s P W H" and p: "create_prepare cl sys r a s = Inr (n, s')" and m: "(m, k) \<in> W"
  shows "nodes s' m = nodes s m"
proof -
  define s0 where "s0 = (if \<not> monitor_thread_support_done s \<and> thr_has_reached_main s
     then monitor_call_thread_support s else s)"
  obtain s1 where mk: "monitor_make_thread_node sys s0 = Inr (n, s1)"
    and s': "\<And>x. x \<noteq> n \<Longrightarrow> nodes s' x = nodes s1 x"
    using p by (auto simp: create_prepare_def s0_def Let_def)
  have "run_inv s0 P W H"
    by (rule run_inv_frame [OF ok order_refl]) (auto simp: s0_def monitor_call_thread_support_def fini_count_def)
  then obtain Q where Q: "th_inv s0 Q P" "win_inv s0 (set (Q ThreadList)) W H" by (auto simp: run_inv_def)
  obtain Q' where Q': "Q' ThreadList = Q ThreadList" "th_inv s1 Q' (insert n P)"
      "nodes s1 = (nodes s0)(n := zero_node\<lparr>tn_magic := MONITOR_TN_MAGIC, tn_tid := -1\<rparr>)"
    using make_node_inv [OF Q(1) mk] by blast
  have "m \<noteq> n" using pending_fresh [OF Q'(2), of n] Q'(1) win_listed [OF Q(2) m] by auto
  then have "m \<noteq> n" "nodes s1 m = nodes s0 m" using Q'(3) by auto
  then show ?thesis using s' by (simp add: s0_def monitor_call_thread_support_def)
qed

lemma enter_cases:
  assumes "begin_enter sys self b n s = Some (Inr (ret, s'))"
  obtains u where "u = (upd_node n (\<lambda>e. e\<lparr>tn_self := self, tn_stack_bottom := b\<rparr>) s)
       \<lparr>specific := (specific s)(self := Some n)\<rparr>"
    and "monitor_link_thread_node n u = (ret, s')" and "ret \<noteq> 0 \<Longrightarrow> s' = u" and "monitor_thread_support_done s"
  using assms
  by (auto simp: begin_enter_def monitor_link_thread_node_def Let_def split: if_splits)

lemma run_inv_enter:
  assumes ok: "run_inv s P W H" and n: "n \<in> P" and b: "begin_enter sys self bt n s = Some (Inr (ret, s'))"
  shows "run_inv s' (P - {n}) (if ret = 0 then insert (n, Linked) W else W) H"
proof -
  obtain u where u: "u = (upd_node n (\<lambda>e. e\<lparr>tn_self := self, tn_stack_bottom := bt\<rparr>) s)
       \<lparr>specific := (specific s)(self := Some n)\<rparr>"
    and l: "monitor_link_thread_node n u = (ret, s')" and no: "ret \<noteq> 0 \<Longrightarrow> s' = u"
    using b by (rule enter_cases) blast
  have "run_inv u P W H" by (rule run_inv_frame [OF ok order_refl]) (auto simp: u fini_count_def)
  then obtain Q where Q: "th_inv u Q P" "pend_inv u P" "win_inv u (set (Q ThreadList)) W H"
    by (auto simp: run_inv_def)
  show ?thesis
  proof (cases "ret = 0")
    case False
    then show ?thesis
      using Q no th_inv_pending [OF Q(1), of "P - {n}"] by (auto simp: run_inv_def pend_inv_def)
  next
    case True
    let ?Q = "Q(ThreadList := n # Q ThreadList)"
    have magic: "tn_magic (nodes u n) = MONITOR_TN_MAGIC" and nf: "\<not> tn_fini_started (nodes u n)"
      using Q(2) n by (auto simp: pend_inv_def)
    have l0: "monitor_link_thread_node n u = (0, s')" using l True by simp
    have th: "th_inv s' ?Q (P - {n})" by (rule link_inv(1) [OF Q(1) n magic l0])
    have nd: "nodes s' m = (if m = n then (nodes u n)\<lparr>tn_tid := monitor_thread_num u + 1\<rparr> else nodes u m)"
      "thr_trace s' = thr_trace u" for m
      using l0 by (auto simp: monitor_link_thread_node_def Let_def split: if_splits)
    have out: "n \<notin> set (Q ThreadList)" "\<not> tn_appl_started (nodes u n)" using pending_fresh [OF Q(1) n] by auto
    have only: "(n, k) \<notin> W" for k using out(1) win_listed [OF Q(3)] by blast
    have "win_inv s' (set (?Q ThreadList)) W H"
      by (rule win_inv_frame [OF Q(3) order_refl])
        (use win_listed [OF Q(3)] only nd in \<open>auto simp: fini_count_def\<close>)
    then have "win_inv s' (set (?Q ThreadList)) (insert (n, Linked) W) H"
      using only nf out(2) nd by (simp add: win_inv_def)
    moreover have "pend_inv s' (P - {n})" using Q(2) nd by (simp add: pend_inv_def)
    ultimately show ?thesis using th True by (auto simp: run_inv_def)
  qed
qed

text \<open>A window moves on, the state changed only where no invariant looks.\<close>

lemma run_inv_move:
  assumes "run_inv s P W H" "(n, j) \<in> W" "k \<noteq> Linked" "\<forall>l. k \<noteq> Tested l"
  shows "run_inv s P (insert (n, k) (W - {(n, j)})) H"
proof -
  obtain Q where Q: "th_inv s Q P" "pend_inv s P" "win_inv s (set (Q ThreadList)) W H"
    using assms(1) by (auto simp: run_inv_def)
  have "(n, Linked) \<notin> W - {(n, j)}" using assms(2) Q(3) unfolding win_inv_def by blast
  then have "win_inv s (set (Q ThreadList)) (insert (n, k) (W - {(n, j)})) H"
    using assms(3,4) win_listed [OF Q(3) assms(2)]
    by (intro win_inv_add [OF win_mono [OF Q(3)]]) auto
  then show ?thesis using Q by (auto simp: run_inv_def)
qed

lemma run_inv_drop: "run_inv s P W H \<Longrightarrow> W' \<subseteq> W \<Longrightarrow> run_inv s P W' H"
  by (erule run_inv_frame) auto

lemma run_inv_init:
  assumes "run_inv s P W H" "(n, Linked) \<in> W"
  shows "run_inv (begin_init cl n s) P (insert (n, Inited) (W - {(n, Linked)})) H"
  using run_inv_move [OF assms, of Inited]
  by (rule run_inv_frame [OF _ order_refl]) (auto simp: begin_init_def Let_def)

lemma run_inv_start:
  assumes ok: "run_inv s P W H" and n: "(n, Inited) \<in> W"
  shows "run_inv (begin_start n s) P (W - {(n, Inited)}) H"
proof -
  obtain Q where Q: "th_inv s Q P" "pend_inv s P" "win_inv s (set (Q ThreadList)) W H"
    using ok by (auto simp: run_inv_def)
  let ?s = "upd_node n (\<lambda>e. e\<lparr>tn_appl_started := True\<rparr>) s"
  have "th_inv ?s Q P" by (rule th_inv_started [OF Q(1) win_listed [OF Q(3) n]])
  moreover have "(n, Linked) \<notin> W" by (rule win_not_linked [OF Q(3) n]) simp
  then have "win_inv ?s (set (Q ThreadList)) (W - {(n, Inited)}) H"
    using Q(3) unfolding win_inv_def by auto
  moreover have "pend_inv ?s P" using Q(2) by (simp add: pend_inv_def)
  ultimately have "run_inv ?s P (W - {(n, Inited)}) H" by (auto simp: run_inv_def)
  then show ?thesis by (rule run_inv_frame [OF _ order_refl]) (auto simp: begin_start_def Let_def)
qed

lemma run_inv_test:
  assumes ok: "run_inv s P W H" and due: "fini_due n s"
  shows "run_inv s P (insert (n, Tested k) W) H"
proof -
  obtain Q where Q: "th_inv s Q P" "pend_inv s P" "win_inv s (set (Q ThreadList)) W H"
    using ok by (auto simp: run_inv_def)
  have st: "tn_appl_started (nodes s n)" "\<not> tn_fini_started (nodes s n)"
    using due by (simp_all add: fini_due_def fini_wanted_def)
  then have "(n, Linked) \<notin> W" using Q(3) unfolding win_inv_def by blast
  then have "win_inv s (set (Q ThreadList)) (insert (n, Tested k) W) H"
    using st(2) started_listed [OF Q(1) st(1)] by (intro win_inv_add [OF Q(3)]) auto
  then show ?thesis using Q by (auto simp: run_inv_def)
qed

lemma run_inv_deliver:
  assumes ok: "run_inv s P W H" and n: "\<And>Q. th_inv s Q P \<Longrightarrow> win_inv s (set (Q ThreadList)) W H \<Longrightarrow>
      n \<in> set (Q ThreadList) \<and> (\<not> tn_fini_started (nodes s n) \<or> tn_tid (nodes s n) \<in> H)"
    and W: "W' \<subseteq> W" "(n, Linked) \<notin> W'"
  shows "run_inv (fini_begin n s) P W' (H \<union> overtaken n W' s)"
    and "run_inv (fini_begin n s) P (insert (n, Called k) W') (H \<union> overtaken n W' s)"
proof -
  obtain Q where Q: "th_inv s Q P" "pend_inv s P" "win_inv s (set (Q ThreadList)) W H"
    using ok by (auto simp: run_inv_def)
  note nQ = n [OF Q(1,3)]
  then have "n \<notin> P" using Q(1) pending_fresh by blast
  then have "pend_inv (fini_begin n s) P" using Q(2) by (auto simp: pend_inv_def)
  moreover have w: "win_inv (fini_begin n s) (set (Q ThreadList)) W' (H \<union> overtaken n W' s)"
    using nQ W by (intro win_inv_fini_begin [OF Q(1) win_mono [OF Q(3)]]) auto
  moreover have "win_inv (fini_begin n s) (set (Q ThreadList)) (insert (n, Called k) W') (H \<union> overtaken n W' s)"
    using nQ W(2) by (intro win_inv_add [OF w]) auto
  ultimately show "run_inv (fini_begin n s) P W' (H \<union> overtaken n W' s)"
    and "run_inv (fini_begin n s) P (insert (n, Called k) W') (H \<union> overtaken n W' s)"
    using th_inv_fini_begin [OF Q(1)] nQ by (auto simp: run_inv_def)
qed

lemma run_inv_fini:
  assumes ok: "run_inv s P W H" and w: "(n, Tested k) \<in> W"
  shows "run_inv (fini_begin n s) P (insert (n, Called k) (W - {(n, Tested k)}))
     (H \<union> overtaken n (W - {(n, Tested k)}) s)"
proof -
  let ?W = "W - {(n, Tested k)}"
  have l: "n \<in> set (Q ThreadList)" "(n, Linked) \<notin> W" "\<not> tn_fini_started (nodes s n) \<or> tn_tid (nodes s n) \<in> H"
    if "win_inv s (set (Q ThreadList)) W H" for Q :: "lid \<Rightarrow> nid list"
    using that w unfolding win_inv_def by blast+
  then have nl: "(n, Linked) \<notin> ?W" using ok by (auto simp: run_inv_def)
  show ?thesis by (rule run_inv_deliver(2) [OF ok]) (use l nl in auto)
qed

lemma run_inv_fini_end: "run_inv s P W H \<Longrightarrow> run_inv (fini_end n s) P W H"
  by (erule run_inv_frame [OF _ order_refl]) (auto simp: fini_end_def)

lemma run_inv_over:
  assumes "run_inv s P W H" "(n, Called k) \<in> W"
  shows "run_inv (fini_end n s) P
     (if k = InCleanup then insert (n, Unlinking) (W - {(n, Called k)}) else W - {(n, Called k)}) H"
  using run_inv_move [OF assms, of Unlinking] run_inv_drop [OF assms(1), of "W - {(n, Called k)}"]
  by (auto intro: run_inv_fini_end)

lemma run_inv_unlink:
  assumes ok: "run_inv s P W H" and n: "(n, Unlinking) \<in> W" and u: "monitor_unlink_thread_node n s = Inr s'"
  shows "run_inv (s'\<lparr>specific := g\<rparr>) P {w \<in> W. fst w \<noteq> n} H"
proof -
  obtain Q where Q: "th_inv s Q P" "pend_inv s P" "win_inv s (set (Q ThreadList)) W H"
    using ok by (auto simp: run_inv_def)
  note nQ = win_listed [OF Q(3) n]
  obtain Q' where Q': "th_inv s' Q' P" "set (Q ThreadList) - {n} \<subseteq> set (Q' ThreadList)"
      "\<forall>m. m \<noteq> n \<longrightarrow> nodes s' m = nodes s m" "\<forall>t. fini_count t s' = fini_count t s"
    using unlink_inv [OF Q(1) nQ] u by auto
  have "n \<notin> P" using pending_fresh [OF Q(1)] nQ by blast
  then have "pend_inv s' P" using Q(2) Q'(3) unfolding pend_inv_def by metis
  moreover have "win_inv s' (set (Q' ThreadList)) {w \<in> W. fst w \<noteq> n} H"
    by (rule win_inv_frame [OF Q(3)]) (use Q' win_listed [OF Q(3)] in auto)
  ultimately have "run_inv s' P {w \<in> W. fst w \<noteq> n} H" using Q'(1) by (auto simp: run_inv_def)
  then show ?thesis by (rule run_inv_frame) (auto simp: fini_count_def)
qed

lemma run_inv_scan:
  assumes "run_inv s P W H" "shootdown_scan self s = Some (t, s')"
  shows "run_inv s' P W H"
proof -
  obtain ns where "walk_threads s = Some ns" "fold (scan_node self) ns (zero_tally, s) = (t, s')"
    using assms(2) by (auto simp: shootdown_scan_def)
  note f = scan_fold [OF this(2)]
  show ?thesis by (rule run_inv_frame [OF assms(1) order_refl]) (use f in auto)
qed

lemma run_inv_own:
  assumes ok: "run_inv s P W H" and n: "walk_threads s = Some ns" "n \<in> set ns" "\<not> tn_fini_started (nodes s n)"
    "(n, Linked) \<notin> W"
  shows "run_inv (fini_thread n s) P W (H \<union> overtaken n W s)"
proof -
  have "run_inv (fini_begin n s) P W (H \<union> overtaken n W s)"
    by (rule run_inv_deliver(1) [OF ok]) (use n walk_threads_subset in auto)
  then show ?thesis unfolding fini_thread_def by (rule run_inv_fini_end)
qed

lemma run_inv_run: "th_run cl s P W H \<Longrightarrow> run_inv s P W H"
proof (induction rule: th_run.induct)
  case (release s P W H)
  show ?case
    by (rule run_inv_frame [OF release.IH])
      (auto simp: monitor_thread_release_def monitor_call_thread_support_def fini_count_def Let_def)
next
  case (shoot s P W H sig ok s')
  show ?case
    by (rule run_inv_frame [OF shoot.IH])
      (use shoot.hyps(2) in \<open>auto simp: shootdown_begin_def Let_def fini_count_def split: if_splits\<close>)
next
  case (set_done s P W H)
  show ?case by (rule run_inv_frame [OF set_done.IH]) (auto simp: fini_count_def)
next
  case (ends s P W H self n)
  show ?case by (rule run_inv_frame [OF ends.IH]) (auto simp: fini_count_def)
next
  case (block s P W H self)
  then show ?case by (auto simp: monitor_block_shootdown_def split: option.splits intro!: run_inv_upd)
next
  case (unblock s P W H self)
  then show ?case by (auto simp: monitor_unblock_shootdown_def split: option.splits intro!: run_inv_upd)
next
  case (disable s P W H self)
  then show ?case by (auto simp: monitor_disable_new_threads_def split: option.splits intro!: run_inv_upd)
next
  case (enable s P W H self)
  then show ?case by (auto simp: monitor_enable_new_threads_def split: option.splits intro!: run_inv_upd)
next
  case (exit_win s P W H n)
  then show ?case by (auto intro!: run_inv_upd)
next
  case (enter s P W H n sys self b ret s')
  then show ?case by (intro run_inv_enter)
next
  case (over s P W H n k)
  then show ?case by (intro run_inv_over)
qed (auto intro: run_inv_first run_inv_create run_inv_event run_inv_init run_inv_start run_inv_test
      run_inv_drop run_inv_fini run_inv_unlink run_inv_scan run_inv_own)

subsection \<open>Whole operations\<close>

lemma th_reach_first:
  "no_threads_yet s0 \<Longrightarrow> monitor_thread_list_init sys self s0 = Inr s \<Longrightarrow>
   th_reach cl (s\<lparr>monitor_has_used_threads := True\<rparr>) {}"
  unfolding th_reach_def by (rule th_run.first)

lemma th_reach_event: "th_reach cl s P \<Longrightarrow> \<not> is_thread_callback e \<Longrightarrow> th_reach cl (thr_emit e s) P"
  unfolding th_reach_def by (rule th_run.event)

lemma th_reach_create:
  assumes r: "th_reach cl s P" and used: "monitor_has_used_threads s"
    and c: "pthread_create cl sys self attr r a s = Inr ((ret, no, at), s')"
  shows "th_reach cl s' (case no of None \<Rightarrow> P | Some n \<Rightarrow> insert n P)"
proof (cases no)
  case None
  then have "s' = thr_emit (RealPthreadCreateIgnored r a) s"
    using c used by (auto simp: pthread_create_def dest: create_launch_some split: if_splits)
  then show ?thesis using None th_reach_event [OF r] by simp
next
  case (Some n)
  then obtain m s1 where m: "create_prepare cl sys r a s = Inr (m, s1)"
    "create_launch cl sys attr r m s1 = ((ret, no, at), s')"
    using c used by (auto simp: pthread_create_def split: if_splits)
  then have "m = n" using create_launch_some Some by fastforce
  then have "th_reach cl (thr_emit (RealPthreadCreate n r) s1) (insert n P)"
    using m(1) r th_run.create unfolding th_reach_def by blast
  then show ?thesis
    using m(2) \<open>m = n\<close> Some by (auto simp: create_launch_def Let_def intro!: th_reach_event)
qed

lemma th_reach_begin:
  assumes r: "th_reach cl s P" and n: "n \<in> P"
    and b: "monitor_begin_thread cl sys self b n s = Some (Inr (runs, s'))"
  shows "th_reach cl s' (P - {n})"
proof -
  obtain ret s1 where e: "begin_enter sys self b n s = Some (Inr (ret, s1))"
    and s': "(runs, s') = (if ret \<noteq> 0 then (False, s1) else (True, begin_start n (begin_init cl n s1)))"
    using b by (auto simp: monitor_begin_thread_def split: if_splits)
  note i = th_run.enter [OF r [unfolded th_reach_def] n e]
  show ?thesis
  proof (cases "ret = 0")
    case True
    then have "th_run cl s1 (P - {n}) {(n, Linked)} {}" using i by simp
    from th_run.init [OF this, of n] have "th_run cl (begin_init cl n s1) (P - {n}) {(n, Inited)} {}" by simp
    from th_run.start [OF this, of n] show ?thesis using True s' by (simp add: th_reach_def)
  qed (use i s' in \<open>simp add: th_reach_def\<close>)
qed

text \<open>A delivery by a routine with no interruption.\<close>

lemma th_reach_deliver:
  assumes r: "th_reach cl s P" and n: "specific s self = Some n" "fini_due n s"
    "k = InSigwait \<longrightarrow> monitor_in_exit_cleanup s"
  shows "th_run cl (fini_thread n s) P (if k = InCleanup then {(n, Unlinking)} else {}) {}"
proof -
  have "th_run cl s P {(n, Tested k)} {}"
    by (rule th_run.test [OF r [unfolded th_reach_def] n]) (simp add: handler_busy_def)
  from th_run.fini [OF this, of n k] have "th_run cl (fini_begin n s) P {(n, Called k)} {}"
    by (auto simp: handler_busy_def overtaken_def)
  from th_run.over [OF this, of n k] show ?thesis
    by (cases k) (auto simp: fini_thread_def handler_busy_def)
qed

lemma fini_due_event [simp]: "fini_due n (thr_emit e s) = fini_due n s"
  by (simp add: fini_due_def fini_wanted_def)

lemma th_reach_wanted:
  assumes "th_reach cl s P" "specific s self = Some n" "fini_due n s"
  shows "th_reach cl (thr_emit (CancelState True) (fini_thread n (thr_emit (CancelState False) s))) P"
proof -
  have "th_reach cl (fini_thread n (thr_emit (CancelState False) s)) P"
    using th_reach_deliver [OF th_reach_event [OF assms(1), of "CancelState False"], of self n InHandler] assms(2,3)
    by (simp add: th_reach_def)
  then show ?thesis by (rule th_reach_event) simp
qed

lemma th_reach_handler:
  assumes "th_reach cl s P"
  shows "th_reach cl (monitor_shootdown_handler self s) P"
  using assms th_reach_wanted [OF assms]
  by (auto simp: monitor_shootdown_handler_def fini_due_def intro!: th_reach_event split: option.splits)

lemma th_reach_wait:
  assumes r: "th_reach cl s P" and u: "monitor_has_used_threads s"
  shows "th_reach cl (fst (snd (monitor_sigwait_helper ssys ret self sset sig err (s, g)))) P"
proof -
  have "monitor_get_tn self s = Some n \<Longrightarrow> specific s self = Some n \<and> tn_magic (nodes s n) = MONITOR_TN_MAGIC" for n
    using u by (auto simp: monitor_get_tn_def split: option.splits if_splits)
  then show ?thesis
    using r th_reach_wanted [OF r]
    by (auto simp: monitor_sigwait_helper_def Let_def case_prod_beta fini_due_def split: option.splits)
qed

lemma th_reach_ends:
  assumes r: "th_reach cl s P" and n: "specific s self = Some n" "tn_appl_started (nodes s n)"
    and e: "thread_ends self n s = Inr s'"
  shows "th_reach cl s' P"
proof (cases "fini_due n s")
  case True
  then obtain s1 where s1: "monitor_unlink_thread_node n (fini_thread n s) = Inr s1"
    and s': "s' = s1\<lparr>specific := (specific s1)(self := None)\<rparr>"
    using e by (auto simp: thread_ends_def monitor_pthread_cleanup_routine_def fini_due_def)
  have "th_run cl (fini_thread n s) P {(n, Unlinking)} {}"
    using th_reach_deliver [OF r n(1) True, of InCleanup] by simp
  from th_run.unlink [OF this _ _ _ s1, of self] n(1)
  have "th_run cl s' P {w \<in> {(n, Unlinking)}. fst w \<noteq> n} {}"
    by (simp add: s' handler_busy_def fini_thread_defs Let_def)
  moreover have "{w \<in> {(n, Unlinking)}. fst w \<noteq> n} = {}" by auto
  ultimately show ?thesis by (simp only: th_reach_def)
next
  case False
  obtain s1 where c: "monitor_pthread_cleanup_routine (Some n) s = Inr s1"
    and s': "s' = s1\<lparr>specific := (specific s1)(self := None)\<rparr>"
    using e by (auto simp: thread_ends_def)
  have s1: "s1 = s \<or> s1 = thr_emit (FiniThreadTooLate (tn_tid (nodes s n))) s"
    using c False by (auto simp: monitor_pthread_cleanup_routine_def fini_due_def split: if_splits)
  have "th_reach cl s1 P" using s1 r th_reach_event by auto
  moreover have "specific s1 = specific s" "nodes s1 = nodes s" "\<not> fini_due n s1" using s1 False by auto
  ultimately have "th_run cl s' P {w \<in> {}. fst w \<noteq> n} {}"
    using th_run.ends [of cl s1 P "{}" "{}" self n] n unfolding s' th_reach_def by simp
  then show ?thesis by (simp add: th_reach_def)
qed

lemma th_reach_frames:
  assumes "th_reach cl s P"
  shows "th_reach cl (upd_node n (\<lambda>e. e\<lparr>tn_exit_win := True\<rparr>) s) P"
    and "th_reach cl (monitor_thread_release s) P"
    and "shootdown_begin sig ok s = Inr s' \<Longrightarrow> th_reach cl s' P"
    and "shootdown_scan self s = Some (t, s') \<Longrightarrow> th_reach cl s' P"
  by (simp_all only: th_reach_def th_run.exit_win [OF assms [unfolded th_reach_def]]
      th_run.release [OF assms [unfolded th_reach_def]] th_run.shoot [OF assms [unfolded th_reach_def]]
      th_run.scan [OF assms [unfolded th_reach_def]])

lemma th_reach_finish:
  assumes r: "th_reach cl s P" and sc: "shootdown_scan self s = Some (t, s')"
  shows "th_reach cl (shootdown_finish (my_tn t) s') P"
proof -
  obtain ns where ns: "walk_threads s = Some ns" "fold (scan_node self) ns (zero_tally, s) = (t, s')"
    using sc by (auto simp: shootdown_scan_def)
  note f = scan_fold [OF ns(2)]
  let ?s1 = "s'\<lparr>monitor_fini_thread_done := True\<rparr>"
  have r1: "th_run cl ?s1 P {} {}"
    using th_run.set_done th_reach_frames(4) [OF r sc] unfolding th_reach_def by blast
  have w: "walk_threads ?s1 = Some ns" using ns(1) f by (simp add: walk_threads_def)
  have "th_run cl (fini_thread n ?s1) P {} {}" if "my_tn t = Some n" "\<not> tn_fini_started (nodes s' n)" for n
    using th_run.own [OF r1 _ w, of n] that f by (auto simp: zero_tally_def overtaken_def)
  then show ?thesis
    using r1 unfolding shootdown_finish_def Let_def
    by (intro th_reach_event) (auto simp: th_reach_def split: option.split)
qed

section \<open>A run for the witnesses\<close>

definition host_ok :: thsys where
  "host_ok = \<lparr>key_create_ret = 0, setspecific_ret = 0, malloc_ok = True, attr_init_ret = 0,
     attr_getstacksize_ret = 0, attr_setstacksize_ret = (\<lambda>_. 0), default_stacksize = 8192,
     pthread_create_ret = 0\<rparr>"

definition demo_first :: thst where
  "demo_first = (case monitor_thread_list_init host_ok 1 thst_start of
     Inr s \<Rightarrow> s\<lparr>monitor_has_used_threads := True\<rparr> | Inl _ \<Rightarrow> thst_start)"

definition demo_created :: thst where
  "demo_created = (case pthread_create default_client host_ok 1 None 77 5 demo_first of
     Inr (_, s) \<Rightarrow> s | Inl _ \<Rightarrow> demo_first)"

definition demo_running :: thst where
  "demo_running = (case monitor_begin_thread default_client host_ok 2 99 (Slot 0 0)
       (monitor_thread_release demo_created) of
     Some (Inr (_, s)) \<Rightarrow> s | _ \<Rightarrow> demo_first)"

lemma demo_first_init: "\<exists>s. monitor_thread_list_init host_ok 1 thst_start = Inr s"
  by (simp add: monitor_thread_list_init_def Let_def host_ok_def monitor_early_init_def thst_start_def
      memset_node_def upd_node_def)

lemma load_empty [simp]:
  "load \<lparr>lh_first = (\<lambda>_. None), le_next = (\<lambda>_. None), le_prev = (\<lambda>_. None)\<rparr> l = None"
  by (cases l) (simp_all add: load.simps)

lemma demo_first_facts:
  "monitor_has_used_threads demo_first" "load (links demo_first) (Head q) = None"
  "monitor_tn_array_pos demo_first = 0" "tn_arrays demo_first = 0"
  "monitor_thread_support_done demo_first = False" "thr_has_reached_main demo_first = False"
  "specific demo_first = (\<lambda>_. None)(1 := Some MainTn)" "\<not> tn_ignore_threads (nodes demo_first MainTn)"
  "tn_magic (nodes demo_first MainTn) = MONITOR_TN_MAGIC"
  "monitor_in_exit_cleanup demo_first = False" "monitor_fini_thread_done demo_first = False"
  "monitor_thread_num demo_first = 0"
  by (simp_all add: demo_first_def monitor_thread_list_init_def Let_def host_ok_def
      monitor_early_init_def thst_start_def memset_node_def upd_node_def LIST_INIT_def queue_simps zero_node_def zero_links_def load_empty)

lemma demo_created_facts:
  "pthread_create default_client host_ok 1 None 77 5 demo_first = Inr ((0, Some (Slot 0 0), None), demo_created)"
  "tn_magic (nodes demo_created (Slot 0 0)) = MONITOR_TN_MAGIC"
  "\<not> tn_fini_started (nodes demo_created (Slot 0 0))" "\<not> tn_block_shootdown (nodes demo_created (Slot 0 0))"
  "monitor_thread_support_done demo_created = False" "monitor_has_used_threads demo_created"
  "monitor_in_exit_cleanup demo_created = False" "monitor_fini_thread_done demo_created = False"
  "monitor_thread_num demo_created = 0"
  "load (links demo_created) (Head ThreadList) = None" "tn_arrays demo_created = 0"
  by (simp_all add: demo_created_def pthread_create_def Let_def monitor_get_tn_def demo_first_facts
      create_prepare_def create_launch_def monitor_make_thread_node_def take_node_def host_ok_def attr_after_def
      monitor_adjust_stack_size_def default_client_def default_reset_stacksize_def
      MONITOR_TN_ARRAY_SIZE_def zero_node_def memset_node_def upd_node_def thr_emit_def
      zero_links_def queue_simps)

lemma demo_running_facts:
  "monitor_begin_thread default_client host_ok 2 99 (Slot 0 0) (monitor_thread_release demo_created)
     = Some (Inr (True, demo_running))"
  "specific demo_running 2 = Some (Slot 0 0)"
  "tn_appl_started (nodes demo_running (Slot 0 0))"
  "fini_wanted (Slot 0 0) demo_running"
  "\<not> monitor_fini_thread_done demo_running"
  "\<not> monitor_in_exit_cleanup demo_running"
  "tn_magic (nodes demo_running (Slot 0 0)) = MONITOR_TN_MAGIC"
  "tn_tid (nodes demo_running (Slot 0 0)) = 1"
  by (simp_all add: demo_running_def monitor_begin_thread_def begin_enter_def begin_init_def begin_start_def monitor_thread_release_def Let_def
      monitor_call_thread_support_def demo_created_facts host_ok_def monitor_link_thread_node_def
      fini_wanted_def default_client_def default_init_thread_def)

lemma demo_reach: "th_reach default_client demo_running {}"
proof -
  obtain s where s: "monitor_thread_list_init host_ok 1 thst_start = Inr s" using demo_first_init by blast
  have r1: "th_reach default_client demo_first {}"
    using th_reach_first [OF _ s, of default_client] s
    by (simp add: demo_first_def no_threads_yet_def thst_start_def zero_node_def)
  from th_reach_create [OF r1 demo_first_facts(1) demo_created_facts(1)]
  have "th_reach default_client (monitor_thread_release demo_created) {Slot 0 0}"
    using th_reach_frames(2) by fastforce
  from th_reach_begin [OF this _ demo_running_facts(1)] show ?thesis by simp
qed

lemmas demo_run = demo_reach [unfolded th_reach_def]

section \<open>The shootdown loop\<close>

text \<open>What the loop has seen when it ends: no other started thread is unfinished, or the
  timeout hit with a thread that has not even started.\<close>

definition others_done :: "nat \<Rightarrow> thst \<Rightarrow> nid list \<Rightarrow> bool" where
  "others_done self s ns \<longleftrightarrow> (\<forall>n \<in> set ns. tn_self (nodes s n) \<noteq> self \<longrightarrow>
     tn_appl_started (nodes s n) \<longrightarrow> tn_fini_done (nodes s n))"

lemma scan_unfinished:
  assumes "fold (scan_node self) ns (t, s) = (t', s')"
  shows "num_unfinished t' \<ge> num_unfinished t"
    and "num_unfinished t' = num_unfinished t \<Longrightarrow> others_done self s ns"
proof -
  have "num_unfinished t' \<ge> num_unfinished t \<and>
    (num_unfinished t' = num_unfinished t \<longrightarrow> others_done self s ns)"
    using assms
  proof (induction ns arbitrary: t s)
    case (Cons n ns)
    obtain t1 s1 where one: "scan_node self n (t, s) = (t1, s1)" by fastforce
    have nd: "nodes s1 = nodes s" and b: "num_unfinished t1 = num_unfinished t +
       (if self \<noteq> tn_self (nodes s n) \<and> tn_appl_started (nodes s n) \<and> \<not> tn_fini_done (nodes s n) then 1 else 0)"
      using scan_node_frame [where self = self and n = n and t = t and s = s] unfolding one by simp_all
    have "fold (scan_node self) ns (t1, s1) = (t', s')" using Cons.prems one by simp
    from Cons.IH [OF this]
    have ih: "num_unfinished t' \<ge> num_unfinished t1"
      "num_unfinished t' = num_unfinished t1 \<Longrightarrow> others_done self s ns"
      using nd by (simp_all add: others_done_def)
    have split: "others_done self s (n # ns) \<longleftrightarrow> others_done self s ns \<and>
       \<not> (self \<noteq> tn_self (nodes s n) \<and> tn_appl_started (nodes s n) \<and> \<not> tn_fini_done (nodes s n))"
      by (auto simp: others_done_def)
    show ?case
    proof (cases "self \<noteq> tn_self (nodes s n) \<and> tn_appl_started (nodes s n) \<and> \<not> tn_fini_done (nodes s n)")
      case True
      then have "num_unfinished t1 = num_unfinished t + 1" using b by simp
      then show ?thesis using ih(1) by linarith
    next
      case False
      have eq: "num_unfinished t1 = num_unfinished t" unfolding b if_not_P [OF False] by simp
      show ?thesis unfolding split using ih False unfolding eq by blast
    qed
  qed (simp add: others_done_def)
  then show "num_unfinished t' \<ge> num_unfinished t"
    and "num_unfinished t' = num_unfinished t \<Longrightarrow> others_done self s ns" by auto
qed

lemma shootdown_loop_end:
  "shootdown_loop self prog n0 rounds s = Some (my, s') \<Longrightarrow>
   (\<exists>ns. walk_threads s' = Some ns \<and> others_done self s' ns) \<or>
   (\<exists>k > 0. last (thr_trace s') = ShootdownTimeout k \<and> thr_trace s' \<noteq> [])"
proof (induction self prog n0 rounds s rule: shootdown_loop.induct)
  case (2 self prog n0 now env rounds s)
  then obtain t s1 where sc: "shootdown_scan self s = Some (t, s1)" by (auto split: option.splits)
  then obtain ns where ns: "walk_threads s = Some ns" "fold (scan_node self) ns (zero_tally, s) = (t, s1)"
    by (auto simp: shootdown_scan_def)
  note f = scan_fold [OF ns(2)]
  have w: "walk_threads s1 = Some ns" using f ns(1) by (simp add: walk_threads_def)
  show ?case
  proof (cases "num_unfinished t = 0")
    case True
    then have "others_done self s ns" using scan_unfinished(2) [OF ns(2)] by (simp add: zero_tally_def)
    then have "others_done self s1 ns" using f by (simp add: others_done_def)
    then show ?thesis using "2.prems" sc True w by auto
  next
    case False
    then show ?thesis using "2.prems" "2.IH" sc by (auto split: if_splits)
  qed
qed simp

section \<open>Properties\<close>

text \<open>At most one fini-thread callback.  In every interleaving of thread creation,
  thread end, shootdown signals, sigwait, blocking and the exit of the process, each
  thread number gets monitor_fini_thread at most once, unless a routine of the thread was
  overtaken between its tests and tn_fini_started.\<close>
lemma fini_thread_at_most_once:
  assumes "th_run cl s P W H" "t \<notin> H"
  shows "length (filter (is_fini t) (thr_trace s)) \<le> 1"
  using run_inv_run [OF assms(1)] assms(2) by (auto simp: run_inv_def win_inv_def fini_count_def)

text \<open>C12: the thread list.  In every reachable state the walk of the thread list ends
  within the fuel, visits no node twice, and the listed nodes have good magic and
  distinct thread numbers between 1 and monitor_thread_num.\<close>
theorem thread_list_well_formed:
  assumes "th_run cl s P W H"
  shows "\<exists>ns. walk_threads s = Some ns \<and> distinct ns \<and> distinct (map (\<lambda>n. tn_tid (nodes s n)) ns) \<and>
    list_all (\<lambda>n. tn_magic (nodes s n) = MONITOR_TN_MAGIC \<and> 1 \<le> tn_tid (nodes s n) \<and>
      tn_tid (nodes s n) \<le> monitor_thread_num s) ns"
proof -
  obtain Q where Q: "th_inv s Q P" using run_inv_run [OF assms] by (auto simp: run_inv_def)
  have "lists_rep (links s) Q" using Q by (simp add: th_inv_def pool_inv_def)
  then have "distinct (Q ThreadList)" by (rule lists_repD(2))
  then show ?thesis
    using walk_ok [OF Q] Q
    by (intro exI [of _ "Q ThreadList"])
      (auto simp: th_inv_def node_inv_def distinct_map inj_on_def list_all_iff)
qed

theorem thread_list_well_formed_witness:
  "\<exists>ns. walk_threads demo_running = Some ns \<and> distinct ns"
  using thread_list_well_formed [OF demo_run] by blast

lemma thread_ends_returns:
  assumes Q: "th_inv s Q P" and st: "tn_appl_started (nodes s n)"
  shows "\<exists>s'. thread_ends self n s = Inr s'"
proof -
  have n: "n \<in> set (Q ThreadList)" by (rule started_listed [OF Q st])
  have "th_inv (fini_thread n s) Q P"
    unfolding fini_thread_def by (intro th_inv_fini_end th_inv_fini_begin Q n)
  then obtain s1 where "monitor_unlink_thread_node n (fini_thread n s) = Inr s1" using unlink_inv n by blast
  then show ?thesis by (auto simp: thread_ends_def monitor_pthread_cleanup_routine_def)
qed

text \<open>C7: no bad links.  In every reachable state, ending a started thread and taking a
  node for a new one never follow an unset le_prev: the first always returns, the
  second can only fail in malloc.\<close>
theorem thread_lists_never_corrupt:
  assumes "th_run cl s P W H" "tn_appl_started (nodes s n)"
  shows "(\<exists>s'. thread_ends self n s = Inr s') \<and>
    (case monitor_make_thread_node sys s of Inl e \<Rightarrow> e = MallocFailed \<and> \<not> malloc_ok sys | Inr _ \<Rightarrow> True)"
proof -
  obtain Q where Q: "th_inv s Q P" using run_inv_run [OF assms(1)] by (auto simp: run_inv_def)
  then have rep: "lists_rep (links s) Q" by (simp add: th_inv_def pool_inv_def)
  have "take_node sys s \<noteq> Inl BadLinks"
  proof (cases "Q FreeList")
    case (Cons m ms)
    then obtain h where "LIST_REMOVE m (links s) = Some h" using np.take_first [OF rep Cons] by blast
    then show ?thesis using rep_first [OF rep, of FreeList] Cons by (simp add: take_node_def)
  next
    case Nil
    then show ?thesis using rep_first [OF rep, of FreeList] by (simp add: take_node_def)
  qed
  moreover have "take_node sys s = Inl e \<Longrightarrow> e = BadLinks \<or> (e = MallocFailed \<and> \<not> malloc_ok sys)" for e
    by (auto simp: take_node_def split: option.splits if_splits)
  ultimately show ?thesis
    using thread_ends_returns [OF Q assms(2), of self]
    by (auto simp: monitor_make_thread_node_def rbind_Inl_iff split: sum.splits)
qed

theorem thread_lists_never_corrupt_witness:
  "\<exists>s'. thread_ends 2 (Slot 0 0) demo_running = Inr s'"
  using thread_lists_never_corrupt [OF demo_run demo_running_facts(3), of 2 host_ok] by blast

text \<open>C14: a thread that ends gets its callback.  A started thread whose callback is due
  gets exactly one fini-thread call with its own number and data, and before process
  exit its node is wiped and becomes the next one taken from the free list.\<close>
theorem thread_end_delivers_fini:
  assumes "th_run cl s P W H" "fini_wanted n s" "\<not> monitor_fini_thread_done s"
  shows "\<exists>s'. thread_ends self n s = Inr s' \<and>
    thr_trace s' = thr_trace s @ [FiniThread (tn_tid (nodes s n)) (tn_user_data (nodes s n))] \<and>
    specific s' self = None \<and>
    (if monitor_in_exit_cleanup s then tn_fini_done (nodes s' n)
     else nodes s' n = zero_node \<and> load (links s') (Head FreeList) = Some n)"
proof -
  obtain Q where Q: "th_inv s Q P" using run_inv_run [OF assms(1)] by (auto simp: run_inv_def)
  have st: "tn_appl_started (nodes s n)" "\<not> tn_fini_started (nodes s n)"
    using assms(2) by (simp_all add: fini_wanted_def)
  have n: "n \<in> set (Q ThreadList)" by (rule started_listed [OF Q st(1)])
  have magic: "tn_magic (nodes s n) = MONITOR_TN_MAGIC" using Q n by (auto simp: th_inv_def node_inv_def)
  have "lists_rep (links s) Q" using Q by (simp add: th_inv_def pool_inv_def)
  then obtain h where h: "LIST_REMOVE n (links s) = Some h" using rep_remove [of "links s" Q n] n by blast
  have exit: "monitor_in_exit_cleanup (fini_thread n s) = monitor_in_exit_cleanup s"
    and lnk: "links (fini_thread n s) = links s"
    and trc: "thr_trace (fini_thread n s) = thr_trace s @ [FiniThread (tn_tid (nodes s n)) (tn_user_data (nodes s n))]"
    by (simp_all add: fini_thread_defs Let_def)
  show ?thesis
    using assms(2,3) magic h
    by (auto simp: thread_ends_def monitor_pthread_cleanup_routine_def monitor_unlink_thread_node_def
        exit lnk trc Let_def queue_simps)
qed

theorem thread_end_delivers_fini_witness:
  "\<exists>s'. thread_ends 2 (Slot 0 0) demo_running = Inr s' \<and>
    thr_trace s' = thr_trace demo_running @ [FiniThread 1 (tn_user_data (nodes demo_running (Slot 0 0)))] \<and>
    load (links s') (Head FreeList) = Some (Slot 0 0)"
  using thread_end_delivers_fini [OF demo_run demo_running_facts(4,5), of 2] demo_running_facts(6,8)
  by auto

text \<open>C17: what a finished shootdown guarantees.  When monitor_thread_shootdown returns, its
  last scan saw every other started thread finished, or it reported a timeout with at
  least one thread that never started its callback; the flag that stops later
  callbacks is set.\<close>
theorem shootdown_waits_or_times_out:
  assumes "monitor_has_used_threads s"
    and "monitor_thread_shootdown sig ok self start rounds s = Some (Inr s')"
  shows "\<exists>my s2. s' = shootdown_finish my s2 \<and> monitor_fini_thread_done s' \<and>
    ((\<exists>ns. walk_threads s2 = Some ns \<and> others_done self s2 ns) \<or>
     (\<exists>k > 0. last (thr_trace s2) = ShootdownTimeout k))"
proof -
  obtain s1 my s2 where s1: "shootdown_begin sig ok s = Inr s1"
    "shootdown_loop self start 0 rounds s1 = Some (my, s2)" "s' = shootdown_finish my s2"
    using assms by (auto simp: monitor_thread_shootdown_def split: sum.splits)
  have "monitor_fini_thread_done s'"
    by (simp add: s1(3) shootdown_finish_def Let_def fini_thread_defs split: option.splits)
  then show ?thesis using shootdown_loop_end [OF s1(2)] s1(3) by blast
qed

lemma demo_lists:
  "monitor_has_used_threads demo_running"
  "load (links demo_running) (Head ThreadList) = Some (Slot 0 0)"
  "load (links demo_running) (NextOf (Slot 0 0)) = None" "tn_arrays demo_running = 0"
  "tn_self (nodes demo_running (Slot 0 0)) = 2"
  by (simp_all add: demo_running_def monitor_begin_thread_def begin_enter_def begin_init_def begin_start_def monitor_thread_release_def Let_def
      monitor_call_thread_support_def demo_created_facts host_ok_def monitor_link_thread_node_def queue_simps)

lemma demo_walk:
  "links s = links demo_running \<Longrightarrow> tn_arrays s = 0 \<Longrightarrow> walk_threads s = Some [Slot 0 0]"
  by (simp add: walk_threads_def demo_lists MONITOR_TN_ARRAY_SIZE_def numeral_eq_Suc)

theorem shootdown_waits_or_times_out_witness:
  "\<exists>s'. monitor_thread_shootdown 40 True 2 0 [(0, id)] demo_running = Some (Inr s') \<and>
     monitor_fini_thread_done s'"
proof -
  obtain s' where "monitor_thread_shootdown 40 True 2 0 [(0, id)] demo_running = Some (Inr s')"
    by (simp add: monitor_thread_shootdown_def demo_lists shootdown_begin_def Let_def
        shootdown_scan_def demo_walk scan_node_def zero_tally_def)
  then show ?thesis using shootdown_waits_or_times_out [OF demo_lists(1)] by blast
qed

text \<open>A callback can be delivered twice.  The cleanup routine tests tn_fini_started and
  sets it in two steps; when the shootdown of another thread sends its signal between them,
  the handler runs the callback and the cleanup routine then runs it again.\<close>
lemma fini_race_delivers_twice:
  "\<exists>s. th_run default_client s {} {(Slot 0 0, Called InCleanup)} {1} \<and>
     length (filter (is_fini 1) (thr_trace s)) = 2"
proof -
  let ?n = "Slot 0 0"
  obtain Q where Q: "th_inv demo_running Q {}" using run_inv_run [OF demo_run] by (auto simp: run_inv_def)
  have none: "fini_count 1 demo_running = 0"
  proof (rule ccontr)
    assume "fini_count 1 demo_running \<noteq> 0"
    then have "tn_fini_started (nodes demo_running ?n)"
      using Q started_listed [OF Q demo_running_facts(3)] demo_running_facts(8)
      unfolding th_inv_def fini_inv_def by blast
    then show False using demo_running_facts(4) by (simp add: fini_wanted_def)
  qed
  obtain s1 where s1: "shootdown_begin 40 True demo_running = Inr s1"
    "nodes s1 = nodes demo_running" "specific s1 = specific demo_running"
    "\<not> monitor_fini_thread_done s1" "fini_count 1 s1 = 0"
    using demo_running_facts(5) none by (simp add: shootdown_begin_def Let_def fini_count_def)
  have due: "fini_due ?n demo_running" "fini_due ?n s1"
    using s1 demo_running_facts by (simp_all add: fini_due_def fini_wanted_def)
  have "th_run default_client demo_running {} {(?n, Tested InCleanup)} {}"
    by (rule th_run.test [OF demo_run demo_running_facts(2) due(1)]) (simp_all add: handler_busy_def)
  from th_run.shoot [OF this s1(1)] have "th_run default_client s1 {} {(?n, Tested InCleanup)} {}" .
  from th_run.test [OF this _ due(2), of 2 InHandler] s1(3) demo_running_facts(2)
  have "th_run default_client s1 {} {(?n, Tested InHandler), (?n, Tested InCleanup)} {}"
    by (simp add: handler_busy_def)
  from th_run.fini [OF this, of ?n InHandler] s1(2) demo_running_facts(8)
  have "th_run default_client (fini_begin ?n s1) {} {(?n, Called InHandler), (?n, Tested InCleanup)} {1}"
    by (auto simp: overtaken_def insert_Diff_if)
  from th_run.over [OF this, of ?n InHandler]
  have "th_run default_client (fini_thread ?n s1) {} {(?n, Tested InCleanup)} {1}"
    by (simp add: fini_thread_def)
  from th_run.fini [OF this, of ?n InCleanup]
  have "th_run default_client (fini_begin ?n (fini_thread ?n s1)) {} {(?n, Called InCleanup)} {1}"
    by (simp add: overtaken_def handler_busy_def)
  moreover have "fini_count 1 (fini_begin ?n (fini_thread ?n s1)) = 2"
    using s1(2,5) demo_running_facts(8) by (simp add: fini_thread_def fini_end_def)
  ultimately show ?thesis by (auto simp: fini_count_def)
qed

text \<open>The application's attribute object.  Whatever stack size the client asks for, the
  size in the application's object after pthread_create is the one it had before,
  provided the system accepts that size again.\<close>
lemma stack_size_restored:
  assumes "orig = None \<or> attr_setstacksize_ret sys (the orig) = 0"
  shows "attr_after sys orig (monitor_adjust_stack_size cl sys orig) = orig"
  using assms by (cases orig) (auto simp: attr_after_def monitor_adjust_stack_size_def Let_def)

end
