(* ===== verification/Process.thy ===== *)
theory Process
  imports Prelude Client Spinlock SignalFacts ThreadFacts
begin

text \<open>
  monitor/src/main.c: library and process begin and end, the exit overrides and
  the faux main.  The state holds the thread state and the signal state.  A
  call takes the calling thread's pthread id; what other threads do during the
  shootdown is a parameter (\<open>exit_env\<close>), and a wait that is not over is None.
\<close>

section \<open>State\<close>

datatype process_event =
    InitLibrary
  | FiniLibrary
  | InitProcess cptr
  | BeginProcessExit int
  | ShootdownDone
  | FiniProcess int cptr
  | WrapMain
  | RealMain
  | RealExit int
  | RealUExit int
  | RealFork
  | PreFork
  | PostFork int cptr
  | RealExec string "string list" "string list option"
  | ExecWarning
  | ShellError

definition MONITOR_EXIT_NORMAL :: int where "MONITOR_EXIT_NORMAL = 1"
definition MONITOR_EXIT_SIGNAL :: int where "MONITOR_EXIT_SIGNAL = 2"
definition MONITOR_EXIT_EXEC :: int where "MONITOR_EXIT_EXEC = 3"

record main_args =
  ma_argc :: int
  ma_argv :: "string list"
  ma_envp :: "string list"

record procst =
  thr :: thst
  sgn :: sigst
  main_args :: main_args
  normal_init_done :: bool
  begin_library_done :: bool
  monitor_init_library_called :: bool
  monitor_fini_library_called :: bool
  monitor_fini_process_done :: bool
  main_has_reached_main :: bool
  monitor_end_process_cookie :: clong
  proc_trace :: "process_event list"

definition procst_start :: "thst \<Rightarrow> sigst \<Rightarrow> procst" where
  "procst_start t g = \<lparr>thr = t, sgn = g, main_args = \<lparr>ma_argc = 0, ma_argv = [], ma_envp = []\<rparr>,
     normal_init_done = False, begin_library_done = False, monitor_init_library_called = False,
     monitor_fini_library_called = False, monitor_fini_process_done = False,
     main_has_reached_main = False, monitor_end_process_cookie = 0, proc_trace = []\<rparr>"

definition proc_emit :: "process_event \<Rightarrow> procst \<Rightarrow> procst" where
  "proc_emit e s = s\<lparr>proc_trace := proc_trace s @ [e]\<rparr>"

definition upd_thr :: "(thst \<Rightarrow> thst) \<Rightarrow> procst \<Rightarrow> procst" where
  "upd_thr f s = s\<lparr>thr := f (thr s)\<rparr>"

section \<open>Init\<close>

definition monitor_normal_init :: "sigsys \<Rightarrow> procst \<Rightarrow> procst" where
  "monitor_normal_init ssys s =
    (if normal_init_done s then s
     else let s1 = upd_thr monitor_early_init (s\<lparr>normal_init_done := True\<rparr>)
          in s1\<lparr>sgn := monitor_signal_init ssys (sgn s1)\<rparr>)"

definition monitor_begin_library_fcn :: "sigsys \<Rightarrow> procst \<Rightarrow> procst" where
  "monitor_begin_library_fcn ssys s =
    (if begin_library_done s then s
     else let s1 = monitor_normal_init ssys (s\<lparr>begin_library_done := True\<rparr>)
          in (proc_emit InitLibrary s1)\<lparr>monitor_init_library_called := True\<rparr>)"

definition monitor_end_library_fcn :: "procst \<Rightarrow> procst" where
  "monitor_end_library_fcn s =
    (if monitor_fini_library_called s then s
     else (proc_emit FiniLibrary s)\<lparr>monitor_fini_library_called := True\<rparr>)"

definition set_main_data :: "cptr \<Rightarrow> procst \<Rightarrow> procst" where
  "set_main_data d s = upd_thr (upd_node MainTn (\<lambda>e. e\<lparr>tn_user_data := d\<rparr>)) s"

definition main_data :: "procst \<Rightarrow> cptr" where
  "main_data s = tn_user_data (nodes (thr s) MainTn)"

definition monitor_begin_process_fcn ::
  "client \<Rightarrow> sigsys \<Rightarrow> nat \<Rightarrow> cptr \<Rightarrow> bool \<Rightarrow> procst \<Rightarrow> procst" where
  "monitor_begin_process_fcn cl ssys self user_data is_fork s =
    (let s1 = monitor_normal_init ssys s;
         s2 = (if is_fork then set_main_data user_data (upd_thr (monitor_reset_thread_list self) s1) else s1);
         s3 = s2\<lparr>monitor_fini_library_called := False, monitor_fini_process_done := False\<rparr>
     in if main_has_reached_main s3
        then upd_thr monitor_thread_release
               (set_main_data (cl_init_process cl user_data) (proc_emit (InitProcess user_data) s3))
        else s3)"

section \<open>monitor_end_process_fcn\<close>

text \<open>The pieces of the function, in its order: the race for the cookie, the winner's
  callbacks around the thread shootdown, and the end all threads share.\<close>

datatype exit_role = Winner | Repeat | Loser

definition end_race :: "nat \<Rightarrow> procst \<Rightarrow> exit_role \<times> procst" where
  "end_race self s =
    (let tn = monitor_get_tn self (thr s);
         (prev, cookie) = compare_and_swap (monitor_end_process_cookie s) 0 1;
         s1 = s\<lparr>monitor_end_process_cookie := cookie\<rparr>
     in if prev = 0 then
          (Winner, case tn of
             None \<Rightarrow> s1
           | Some n \<Rightarrow> upd_thr (upd_node n (\<lambda>e. e\<lparr>tn_exit_win := True\<rparr>)) s1)
        else if (case tn of None \<Rightarrow> False | Some n \<Rightarrow> tn_exit_win (nodes (thr s1) n)) then (Repeat, s1)
        else (Loser, s1))"

definition end_begin_exit :: "int \<Rightarrow> procst \<Rightarrow> procst" where
  "end_begin_exit how s = proc_emit (BeginProcessExit how) s"

text \<open>The shootdown asks the signal table for the signal.\<close>

record exit_env =
  ee_sigaction_ok :: bool
  ee_start :: int
  ee_rounds :: "(int \<times> (thst \<Rightarrow> thst)) list"

definition end_shootdown :: "exit_env \<Rightarrow> nat \<Rightarrow> procst \<Rightarrow> (thread_error + procst) option" where
  "end_shootdown ee self s =
    (let (sig, g) = (if monitor_has_used_threads (thr s) then Signal.monitor_shootdown_signal (sgn s)
                     else (0, sgn s))
     in map_option (\<lambda>r. rbind r (\<lambda>t. Inr (proc_emit ShootdownDone (s\<lparr>thr := t, sgn := g\<rparr>))))
          (monitor_thread_shootdown sig (ee_sigaction_ok ee) self (ee_start ee) (ee_rounds ee) (thr s)))"

definition end_fini_process :: "int \<Rightarrow> procst \<Rightarrow> procst" where
  "end_fini_process how s = proc_emit (FiniProcess how (main_data s)) s"

definition end_resume :: "procst \<Rightarrow> procst" where
  "end_resume s = s\<lparr>monitor_fini_process_done := True\<rparr>"

definition monitor_end_process_fcn ::
  "exit_env \<Rightarrow> nat \<Rightarrow> int \<Rightarrow> procst \<Rightarrow> (thread_error + procst) option" where
  "monitor_end_process_fcn ee self how s =
    (case end_race self s of
       (Winner, s1) \<Rightarrow>
         map_option (\<lambda>r. rbind r (\<lambda>s2. Inr (end_resume (end_fini_process how s2))))
           (end_shootdown ee self (end_begin_exit how s1))
     | (Repeat, s1) \<Rightarrow> Some (Inr (end_resume s1))
     | (Loser, s1) \<Rightarrow> if monitor_fini_process_done s1 then Some (Inr (end_resume s1)) else None)"

section \<open>Support functions\<close>

definition monitor_get_main_args :: "procst \<Rightarrow> int \<times> string list \<times> string list" where
  "monitor_get_main_args s =
     (ma_argc (main_args s), ma_argv (main_args s), ma_envp (main_args s))"

definition monitor_get_main_tn :: "nid" where "monitor_get_main_tn = MainTn"

definition monitor_real_exit :: "sigsys \<Rightarrow> int \<Rightarrow> procst \<Rightarrow> procst" where
  "monitor_real_exit ssys status s = proc_emit (RealUExit status) (monitor_normal_init ssys s)"

definition monitor_real_sigprocmask ::
  "sigsys \<Rightarrow> sighow \<Rightarrow> sigset option \<Rightarrow> procst \<Rightarrow> sigset \<times> procst" where
  "monitor_real_sigprocmask ssys how sset s =
    (let s1 = monitor_normal_init ssys s; (old, g) = real_sigprocmask how sset (sgn s1)
     in (old, s1\<lparr>sgn := g\<rparr>))"

text \<open>The answer of the real fork is a parameter: 0 in the child.\<close>

definition monitor_real_fork :: "int \<Rightarrow> nat \<Rightarrow> procst \<Rightarrow> int \<times> procst" where
  "monitor_real_fork ret self s =
    (let s1 = proc_emit RealFork s
     in (ret, if ret = 0 then upd_thr (monitor_reset_thread_list self) s1 else s1))"

section \<open>The faux main and the exit overrides\<close>

text \<open>real_main is a parameter; None is a main that does not return.\<close>

definition main_enter :: "client \<Rightarrow> sigsys \<Rightarrow> nat \<Rightarrow> main_args \<Rightarrow> cptr \<Rightarrow> procst \<Rightarrow> procst" where
  "main_enter cl ssys self args bottom s =
    (let s1 = (monitor_normal_init ssys s)\<lparr>main_args := args\<rparr>;
         s2 = upd_thr (upd_node MainTn (\<lambda>e. e\<lparr>tn_stack_bottom := bottom\<rparr>)) s1
     in monitor_begin_process_fcn cl ssys self NULL False (s2\<lparr>main_has_reached_main := True\<rparr>))"

definition monitor_main ::
  "client \<Rightarrow> sigsys \<Rightarrow> exit_env \<Rightarrow> nat \<Rightarrow> main_args \<Rightarrow> cptr \<Rightarrow>
   (procst \<Rightarrow> (int \<times> procst) option) \<Rightarrow> procst \<Rightarrow> (thread_error + (int \<times> procst)) option" where
  "monitor_main cl ssys ee self args bottom real_main s =
    (case real_main (proc_emit RealMain (main_enter cl ssys self args bottom s)) of
       None \<Rightarrow> None
     | Some (ret, s1) \<Rightarrow>
         map_option (\<lambda>r. rbind r (\<lambda>s2. Inr (ret, s2)))
           (monitor_end_process_fcn ee self MONITOR_EXIT_NORMAL s1))"

text \<open>The dynamic entry: the C library calls the faux main in place of main.\<close>

definition libc_start_main ::
  "client \<Rightarrow> sigsys \<Rightarrow> exit_env \<Rightarrow> nat \<Rightarrow> main_args \<Rightarrow> cptr \<Rightarrow>
   (procst \<Rightarrow> (int \<times> procst) option) \<Rightarrow> procst \<Rightarrow> (thread_error + (int \<times> procst)) option" where
  "libc_start_main cl ssys ee self args bottom main s = monitor_main cl ssys ee self args bottom main s"

definition exit_override ::
  "sigsys \<Rightarrow> exit_env \<Rightarrow> nat \<Rightarrow> int \<Rightarrow> procst \<Rightarrow> (thread_error + procst) option" where
  "exit_override ssys ee self status s =
     map_option (\<lambda>r. rbind r (\<lambda>s1. Inr (proc_emit (RealExit status) s1)))
       (monitor_end_process_fcn ee self MONITOR_EXIT_NORMAL (monitor_normal_init ssys s))"

definition u_exit_override ::
  "sigsys \<Rightarrow> exit_env \<Rightarrow> nat \<Rightarrow> int \<Rightarrow> procst \<Rightarrow> (thread_error + procst) option" where
  "u_exit_override ssys ee self status s =
     map_option (\<lambda>r. rbind r (\<lambda>s1. Inr (proc_emit (RealUExit status) (monitor_end_library_fcn s1))))
       (monitor_end_process_fcn ee self MONITOR_EXIT_NORMAL (monitor_normal_init ssys s))"

definition U_Exit_override ::
  "sigsys \<Rightarrow> exit_env \<Rightarrow> nat \<Rightarrow> int \<Rightarrow> procst \<Rightarrow> (thread_error + procst) option" where
  "U_Exit_override ssys ee self status s =
     map_option (\<lambda>r. rbind r (\<lambda>s1. Inr (proc_emit (RealUExit status) (monitor_end_library_fcn s1))))
       (monitor_end_process_fcn ee self MONITOR_EXIT_NORMAL (monitor_normal_init ssys s))"

text \<open>pthread_exit of pthread.c: from the main thread it ends the process.\<close>

definition pthread_exit :: "exit_env \<Rightarrow> nat \<Rightarrow> procst \<Rightarrow> (thread_error + procst) option" where
  "pthread_exit ee self s =
    (if (case monitor_get_tn self (thr s) of None \<Rightarrow> True | Some n \<Rightarrow> tn_is_main (nodes (thr s) n))
     then monitor_end_process_fcn ee self MONITOR_EXIT_NORMAL s else Some (Inr s))"

definition monitor_library_init_constructor :: "sigsys \<Rightarrow> procst \<Rightarrow> procst" where
  "monitor_library_init_constructor ssys s = monitor_begin_library_fcn ssys s"

definition monitor_library_fini_destructor :: "procst \<Rightarrow> procst" where
  "monitor_library_fini_destructor s = monitor_end_library_fcn s"

section \<open>Facts\<close>

lemma proc_emit_simps [simp, op_simps]:
  "thr (proc_emit e s) = thr s" "sgn (proc_emit e s) = sgn s"
  "monitor_end_process_cookie (proc_emit e s) = monitor_end_process_cookie s"
  "monitor_fini_process_done (proc_emit e s) = monitor_fini_process_done s"
  "monitor_fini_library_called (proc_emit e s) = monitor_fini_library_called s"
  "main_has_reached_main (proc_emit e s) = main_has_reached_main s"
  "normal_init_done (proc_emit e s) = normal_init_done s"
  "proc_trace (proc_emit e s) = proc_trace s @ [e]"
  by (simp_all add: proc_emit_def)

lemma upd_thr_simps [simp, op_simps]:
  "thr (upd_thr f s) = f (thr s)" "sgn (upd_thr f s) = sgn s"
  "monitor_end_process_cookie (upd_thr f s) = monitor_end_process_cookie s"
  "monitor_fini_process_done (upd_thr f s) = monitor_fini_process_done s"
  "monitor_fini_library_called (upd_thr f s) = monitor_fini_library_called s"
  "main_has_reached_main (upd_thr f s) = main_has_reached_main s"
  "normal_init_done (upd_thr f s) = normal_init_done s"
  "proc_trace (upd_thr f s) = proc_trace s"
  by (simp_all add: upd_thr_def)

lemma normal_init_frame [simp]:
  "monitor_end_process_cookie (monitor_normal_init ssys s) = monitor_end_process_cookie s"
  "monitor_fini_process_done (monitor_normal_init ssys s) = monitor_fini_process_done s"
  "monitor_fini_library_called (monitor_normal_init ssys s) = monitor_fini_library_called s"
  "main_has_reached_main (monitor_normal_init ssys s) = main_has_reached_main s"
  "proc_trace (monitor_normal_init ssys s) = proc_trace s"
  "normal_init_done (monitor_normal_init ssys s)"
  "monitor_has_used_threads (thr (monitor_normal_init ssys s)) = monitor_has_used_threads (thr s)"
  by (simp_all add: monitor_normal_init_def Let_def monitor_early_init_def memset_node_def upd_node_def)

text \<open>The events of process exit.\<close>

fun is_exit_event :: "process_event \<Rightarrow> bool" where
  "is_exit_event (BeginProcessExit how) = True"
| "is_exit_event ShootdownDone = True"
| "is_exit_event (FiniProcess how d) = True"
| "is_exit_event e = False"

definition exit_events :: "procst \<Rightarrow> process_event list" where
  "exit_events s = filter is_exit_event (proc_trace s)"

lemma exit_events_emit [simp]:
  "exit_events (proc_emit e s) = exit_events s @ (if is_exit_event e then [e] else [])"
  by (simp add: exit_events_def)

lemma exit_events_frame [simp]:
  "exit_events (upd_thr f s) = exit_events s"
  "exit_events (end_resume s) = exit_events s"
  "exit_events (monitor_end_process_cookie_update g s) = exit_events s"
  by (simp_all add: exit_events_def end_resume_def)

lemma end_shootdown_frame:
  assumes "end_shootdown ee self s = Some (Inr s')"
  shows "exit_events s' = exit_events s @ [ShootdownDone]"
    and "monitor_end_process_cookie s' = monitor_end_process_cookie s"
    and "monitor_fini_library_called s' = monitor_fini_library_called s"
  using assms by (auto simp: end_shootdown_def exit_events_def split: prod.splits)

lemma end_race_frame:
  assumes "end_race self s = (r, s')"
  shows "exit_events s' = exit_events s"
    and "monitor_fini_library_called s' = monitor_fini_library_called s"
    and "r = Winner \<longleftrightarrow> monitor_end_process_cookie s = 0"
    and "monitor_end_process_cookie s' = (if r = Winner then 1 else monitor_end_process_cookie s)"
  using assms
  by (auto simp: end_race_def Let_def compare_and_swap_def exit_events_def split: if_splits option.splits)

section \<open>Threads racing through process exit\<close>

datatype exit_pc = Outside | InShootdown int | InFini int | Waiting | Past

inductive exit_step :: "procst \<times> (nat \<Rightarrow> exit_pc) \<Rightarrow> procst \<times> (nat \<Rightarrow> exit_pc) \<Rightarrow> bool" where
  win: "pc t = Outside \<or> pc t = Past \<Longrightarrow> end_race t s = (Winner, s') \<Longrightarrow>
    exit_step (s, pc) (end_begin_exit how s', pc(t := InShootdown how))"
| again: "pc t = Outside \<or> pc t = Past \<Longrightarrow> end_race t s = (Repeat, s') \<Longrightarrow>
    exit_step (s, pc) (end_resume s', pc(t := Past))"
| lose: "pc t = Outside \<or> pc t = Past \<Longrightarrow> end_race t s = (Loser, s') \<Longrightarrow>
    exit_step (s, pc) (s', pc(t := Waiting))"
| shoot: "pc t = InShootdown how \<Longrightarrow> end_shootdown ee t s = Some (Inr s') \<Longrightarrow>
    exit_step (s, pc) (s', pc(t := InFini how))"
| fini: "pc t = InFini how \<Longrightarrow>
    exit_step (s, pc) (end_resume (end_fini_process how s), pc(t := Past))"
| wait_over: "pc t = Waiting \<Longrightarrow> monitor_fini_process_done s \<Longrightarrow>
    exit_step (s, pc) (end_resume s, pc(t := Past))"
| other: "exit_step (s, pc) (upd_thr f s, pc)"

inductive exit_reach :: "procst \<times> (nat \<Rightarrow> exit_pc) \<Rightarrow> bool" where
  start: "monitor_end_process_cookie s = 0 \<Longrightarrow> exit_events s = [] \<Longrightarrow> exit_reach (s, \<lambda>_. Outside)"
| more: "exit_reach c \<Longrightarrow> exit_step c c' \<Longrightarrow> exit_reach c'"

fun pc_active :: "exit_pc \<Rightarrow> bool" where
  "pc_active (InShootdown how) = True"
| "pc_active (InFini how) = True"
| "pc_active p = False"

definition idle_but :: "(nat \<Rightarrow> exit_pc) \<Rightarrow> nat set \<Rightarrow> bool" where
  "idle_but pc A \<longleftrightarrow> (\<forall>u. u \<notin> A \<longrightarrow> \<not> pc_active (pc u))"

definition exit_inv :: "procst \<Rightarrow> (nat \<Rightarrow> exit_pc) \<Rightarrow> bool" where
  "exit_inv s pc \<longleftrightarrow>
     (monitor_end_process_cookie s = 0 \<and> exit_events s = [] \<and> idle_but pc {}) \<or>
     (monitor_end_process_cookie s = 1 \<and>
       ((\<exists>t how. pc t = InShootdown how \<and> exit_events s = [BeginProcessExit how] \<and> idle_but pc {t}) \<or>
        (\<exists>t how. pc t = InFini how \<and> exit_events s = [BeginProcessExit how, ShootdownDone] \<and> idle_but pc {t}) \<or>
        (\<exists>how d. exit_events s = [BeginProcessExit how, ShootdownDone, FiniProcess how d] \<and> idle_but pc {})))"

lemma idle_butD: "idle_but pc A \<Longrightarrow> pc_active (pc t) \<Longrightarrow> t \<in> A"
  by (auto simp: idle_but_def)

lemma exit_inv_active:
  assumes "exit_inv s pc" "pc_active (pc t)"
  shows "monitor_end_process_cookie s = 1 \<and> idle_but pc {t} \<and>
    ((\<exists>how. pc t = InShootdown how \<and> exit_events s = [BeginProcessExit how]) \<or>
     (\<exists>how. pc t = InFini how \<and> exit_events s = [BeginProcessExit how, ShootdownDone]))"
  using assms unfolding exit_inv_def by (elim disjE conjE exE) (auto dest: idle_butD [of pc _ t])

text \<open>A step of a thread that is in none of the callbacks and does not win changes nothing
  the invariant sees.\<close>

lemma exit_inv_idle:
  assumes "exit_inv s pc" "\<not> pc_active (pc t)" "\<not> pc_active p"
    and "monitor_end_process_cookie s' = monitor_end_process_cookie s" "exit_events s' = exit_events s"
  shows "exit_inv s' (pc(t := p))"
proof -
  have 1: "idle_but (pc(t := p)) A = idle_but pc A" for A
    using assms(2,3) by (auto simp: idle_but_def)
  have 2: "(pc(t := p)) u = q \<longleftrightarrow> pc u = q" if "pc_active q" for u q
    using that assms(2,3) by auto
  show ?thesis using assms(1,4,5) unfolding exit_inv_def 1 by (simp add: 2 del: fun_upd_apply)
qed

lemma exit_inv_step:
  "exit_step c c' \<Longrightarrow> exit_inv (fst c) (snd c) \<Longrightarrow> exit_inv (fst c') (snd c')"
proof (induction rule: exit_step.induct)
  case (win pc t s s' how)
  note r = end_race_frame [OF win(2)]
  have "exit_events s = []" "idle_but pc {}" using win(3) r(3) by (auto simp: exit_inv_def)
  then show ?case
    unfolding exit_inv_def using r by (auto simp: end_begin_exit_def idle_but_def)
next
  case (again pc t s s')
  note r = end_race_frame [OF again(2)]
  show ?case unfolding fst_conv snd_conv
    by (rule exit_inv_idle [OF again(3) [unfolded fst_conv snd_conv]])
      (use again(1) r in \<open>auto simp: end_resume_def exit_events_def\<close>)
next
  case (lose pc t s s')
  note r = end_race_frame [OF lose(2)]
  show ?case unfolding fst_conv snd_conv
    by (rule exit_inv_idle [OF lose(3) [unfolded fst_conv snd_conv]]) (use lose(1) r in auto)
next
  case (shoot pc t how ee s s')
  note r = end_shootdown_frame [OF shoot(2)]
  have "exit_events s = [BeginProcessExit how]" "idle_but pc {t}" "monitor_end_process_cookie s = 1"
    using exit_inv_active [of s pc t] shoot(1,3) by auto
  then show ?case unfolding exit_inv_def using r by (auto simp: idle_but_def)
next
  case (fini pc t how s)
  have "exit_events s = [BeginProcessExit how, ShootdownDone]" "idle_but pc {t}"
    "monitor_end_process_cookie s = 1"
    using exit_inv_active [of s pc t] fini(1,2) by auto
  then show ?case
    unfolding exit_inv_def
    by (auto simp: idle_but_def end_fini_process_def end_resume_def exit_events_def)
next
  case (wait_over pc t s)
  show ?case unfolding fst_conv snd_conv
    by (rule exit_inv_idle [OF wait_over(3) [unfolded fst_conv snd_conv]])
      (use wait_over(1) in \<open>auto simp: end_resume_def exit_events_def\<close>)
next
  case (other s pc f)
  then show ?case by (simp add: exit_inv_def)
qed

lemma exit_inv_reach: "exit_reach c \<Longrightarrow> exit_inv (fst c) (snd c)"
proof (induction rule: exit_reach.induct)
  case (start s)
  then show ?case by (simp add: exit_inv_def idle_but_def)
qed (rule exit_inv_step)

text \<open>With no threads the end of the process is the winner's straight line.\<close>

lemma end_process_unthreaded:
  assumes "monitor_end_process_cookie s = 0" "\<not> monitor_has_used_threads (thr s)"
  shows "\<exists>s'. monitor_end_process_fcn ee self how s = Some (Inr s') \<and>
    proc_trace s' = proc_trace s @ [BeginProcessExit how, ShootdownDone, FiniProcess how (main_data s)] \<and>
    monitor_end_process_cookie s' = 1 \<and> monitor_fini_process_done s' \<and>
    monitor_fini_library_called s' = monitor_fini_library_called s \<and>
    \<not> monitor_has_used_threads (thr s') \<and> tn_exit_win (nodes (thr s') MainTn) \<and>
    normal_init_done s' = normal_init_done s"
  using assms
  by (simp add: monitor_end_process_fcn_def end_race_def compare_and_swap_def monitor_get_tn_def Let_def
      end_begin_exit_def end_shootdown_def monitor_thread_shootdown_def end_fini_process_def
      end_resume_def main_data_def upd_thr_def)

lemma main_enter_facts:
  assumes "\<not> monitor_has_used_threads (thr s)" "monitor_end_process_cookie s = 0"
  shows "proc_trace (main_enter cl ssys self args bottom s) = proc_trace s @ [InitProcess NULL]"
    and "main_data (main_enter cl ssys self args bottom s) = cl_init_process cl NULL"
    and "\<not> monitor_has_used_threads (thr (main_enter cl ssys self args bottom s))"
    and "monitor_end_process_cookie (main_enter cl ssys self args bottom s) = 0"
    and "monitor_get_main_args (main_enter cl ssys self args bottom s) =
      (ma_argc args, ma_argv args, ma_envp args)"
  using assms
  by (simp_all add: main_enter_def monitor_begin_process_fcn_def Let_def set_main_data_def upd_thr_def
      monitor_thread_release_def main_data_def monitor_get_main_args_def monitor_normal_init_def
      monitor_early_init_def memset_node_def upd_node_def proc_emit_def)

section \<open>Properties\<close>

text \<open>C1: the process callbacks at exit.  However many threads race through exit and
  however often, the client sees at most one begin-exit, then the end of the thread
  shootdown, then at most one fini-process with the same reason, in this order.\<close>
theorem process_exit_callbacks_once:
  assumes "exit_reach (s, pc)"
  shows "\<exists>how d. exit_events s \<in> {[], [BeginProcessExit how], [BeginProcessExit how, ShootdownDone],
    [BeginProcessExit how, ShootdownDone, FiniProcess how d]}"
  using exit_inv_reach [OF assms] unfolding exit_inv_def fst_conv snd_conv
  by (elim disjE conjE exE) auto

theorem process_exit_callbacks_once_witness:
  "let s0 = procst_start thst_start (sigst_start (\<lambda>_. zero_sigact));
       s1 = end_begin_exit 1 (snd (end_race 1 s0));
       s2 = snd (end_race 2 s1)
   in fst (end_race 1 s0) = Winner \<and> fst (end_race 2 s1) \<noteq> Winner \<and>
      (\<exists>how d. exit_events s2 \<in> {[], [BeginProcessExit how], [BeginProcessExit how, ShootdownDone],
        [BeginProcessExit how, ShootdownDone, FiniProcess how d]})"
proof -
  let ?s0 = "procst_start thst_start (sigst_start (\<lambda>_. zero_sigact))"
  let ?s1 = "end_begin_exit 1 (snd (end_race 1 ?s0))"
  have w: "end_race 1 ?s0 = (Winner, snd (end_race 1 ?s0))"
    by (simp add: end_race_def compare_and_swap_def procst_start_def Let_def)
  have c1: "monitor_end_process_cookie ?s1 = 1"
    using end_race_frame(4) [OF w] by (simp add: end_begin_exit_def)
  have l: "fst (end_race 2 ?s1) \<noteq> Winner"
    using end_race_frame(3) [OF prod.collapse [symmetric], of 2 ?s1] c1 by simp
  have r0: "exit_reach (?s0, \<lambda>_. Outside)"
    by (rule exit_reach.start) (simp_all add: procst_start_def exit_events_def)
  have r1: "exit_reach (?s1, (\<lambda>_. Outside)(1 := InShootdown 1))"
    by (rule exit_reach.more [OF r0 exit_step.win [OF _ w]]) simp
  have "\<exists>pc. exit_reach (snd (end_race 2 ?s1), pc) \<or> exit_reach (end_resume (snd (end_race 2 ?s1)), pc)"
    using l exit_reach.more [OF r1 exit_step.lose [of _ 2]] exit_reach.more [OF r1 exit_step.again [of _ 2]]
    by (cases "end_race 2 ?s1"; cases "fst (end_race 2 ?s1)") fastforce+
  then have "\<exists>how d. exit_events (snd (end_race 2 ?s1)) \<in> {[], [BeginProcessExit how],
      [BeginProcessExit how, ShootdownDone], [BeginProcessExit how, ShootdownDone, FiniProcess how d]}"
    using process_exit_callbacks_once [of "snd (end_race 2 ?s1)"]
      process_exit_callbacks_once [of "end_resume (snd (end_race 2 ?s1))"]
    unfolding exit_events_frame by blast
  then show ?thesis using w l unfolding Let_def by (metis fst_conv)
qed

text \<open>The life of an unthreaded process.  The faux main calls init-process before the
  application's main and, when main returns, begin-exit and fini-process with the
  data init-process returned; main's result is the result.\<close>
lemma monitor_main_brackets_main:
  assumes "\<not> monitor_has_used_threads (thr s)" "monitor_end_process_cookie s = 0"
    and "real_main = (\<lambda>u. Some (ret, f u))" "\<And>u. thr (f u) = thr u"
    and "\<And>u. monitor_end_process_cookie (f u) = monitor_end_process_cookie u"
    and "\<And>u. proc_trace (f u) = proc_trace u"
  shows "\<exists>s'. libc_start_main cl ssys ee self args bottom real_main s = Some (Inr (ret, s')) \<and>
    proc_trace s' = proc_trace s @ [InitProcess NULL, RealMain, BeginProcessExit MONITOR_EXIT_NORMAL,
      ShootdownDone, FiniProcess MONITOR_EXIT_NORMAL (cl_init_process cl NULL)]"
proof -
  let ?m = "f (proc_emit RealMain (main_enter cl ssys self args bottom s))"
  note e = main_enter_facts [OF assms(1,2), of cl ssys self args bottom]
  have "monitor_end_process_cookie ?m = 0" "\<not> monitor_has_used_threads (thr ?m)"
    "main_data ?m = cl_init_process cl NULL" "proc_trace ?m = proc_trace s @ [InitProcess NULL, RealMain]"
    using e(1-4) assms(4-6) by (simp_all add: main_data_def)
  then show ?thesis
    using end_process_unthreaded [of ?m ee self MONITOR_EXIT_NORMAL] assms(3)
    by (auto simp: libc_start_main_def monitor_main_def)
qed

end
