(* ===== verification/Fork.thy ===== *)
theory Fork
  imports Prelude CString Process
begin

text \<open>
  monitor/src/fork.c: fork and the exec family, and system(3) done over again
  with callbacks.  First the pure helpers (the environment without LD_PRELOAD,
  the argument vector of execl, the search of PATH), then the overrides over the
  process state.  What the system answers (fork, access, exec, waitpid) is a
  parameter.
\<close>

definition MONITOR_INIT_ARGV_SIZE :: nat where "MONITOR_INIT_ARGV_SIZE = 64"
definition MONITOR_INIT_ENVIRON_SIZE :: nat where "MONITOR_INIT_ENVIRON_SIZE = 250"

datatype fork_error =
    MmapFailed
  | ArgMallocFailed
  | UnterminatedArgs
  | NullPathVariable
  | PathBufferOverflow

section \<open>monitor_copy_environ\<close>

definition LD_PRELOAD :: string where "LD_PRELOAD = ''LD_PRELOAD''"

text \<open>The number of pointers the new array holds; pointers have eight bytes.\<close>

definition environ_capacity :: "nat \<Rightarrow> nat \<Rightarrow> nat" where
  "environ_capacity pagesize n =
    (if n > MONITOR_INIT_ENVIRON_SIZE
     then ((n * 8 + pagesize - 1) div pagesize * pagesize) div 8
     else MONITOR_INIT_ENVIRON_SIZE)"

text \<open>The new environment with the capacity of its array.  The terminating NULL is the
  entry after the last.\<close>

definition monitor_copy_environ :: "nat \<Rightarrow> bool \<Rightarrow> string list \<Rightarrow> fork_error + (string list \<times> nat)" where
  "monitor_copy_environ pagesize mmap_ok oldenv =
    (let n = length oldenv + 2 in
     if n > MONITOR_INIT_ENVIRON_SIZE \<and> \<not> mmap_ok then Inl MmapFailed
     else Inr (fold (\<lambda>e acc. if \<not> strstr e LD_PRELOAD then acc @ [e] else acc) oldenv [],
               environ_capacity pagesize n))"

section \<open>monitor_copy_va_args\<close>

text \<open>The do-while loop: argv so far, the size of its array, the arguments left.  An
  argument None is the terminating NULL; mallocs is what the successive mallocs
  answer.\<close>

fun va_loop :: "string option list \<Rightarrow> nat \<Rightarrow> bool list \<Rightarrow> string option list \<Rightarrow>
    fork_error + (string option list \<times> nat \<times> string option list)" where
  "va_loop argv sz mallocs [] = Inl UnterminatedArgs"
| "va_loop argv sz mallocs (arg # rest) =
    (if length argv \<ge> sz \<and> (mallocs = [] \<or> \<not> hd mallocs) then Inl ArgMallocFailed
     else let sz' = (if length argv \<ge> sz then sz * 2 else sz);
              mallocs' = (if length argv \<ge> sz then tl mallocs else mallocs)
          in if arg = None then Inr (argv @ [arg], sz', rest)
             else va_loop (argv @ [arg]) sz' mallocs' rest)"

definition monitor_copy_va_args ::
  "bool list \<Rightarrow> string option \<Rightarrow> string option list \<Rightarrow>
   fork_error + (string option list \<times> nat \<times> string option list)" where
  "monitor_copy_va_args mallocs first_arg arglist =
     va_loop [first_arg] MONITOR_INIT_ARGV_SIZE mallocs arglist"

section \<open>monitor_is_executable\<close>

definition COLON :: char where "COLON = CHR '':''"
definition SLASH :: char where "SLASH = CHR ''/''"

lemma skip_component_less:
  assumes "dropWhile P xs \<noteq> []"
  shows "length (dropWhile (\<lambda>x. \<not> P x) (dropWhile P xs)) < length xs"
proof -
  obtain y ys where y: "dropWhile P xs = y # ys" using assms by (cases "dropWhile P xs") auto
  have "length (dropWhile (\<lambda>x. \<not> P x) (y # ys)) \<le> length ys"
    using dropWhile_hd_not [OF y] by (simp add: length_dropWhile_le)
  also have "length ys < length xs" using y length_dropWhile_le [of P xs] by simp
  finally show ?thesis using y by simp
qed

text \<open>Skip colons, take a component up to the next colon, try it, go on behind it.\<close>

function (sequential) path_search :: "(string \<Rightarrow> bool) \<Rightarrow> string \<Rightarrow> string \<Rightarrow> fork_error + bool" where
  "path_search access fname path =
    (let p = dropWhile (\<lambda>c. c = COLON) path in
     if p = [] then Inr False
     else let comp = takeWhile (\<lambda>c. c \<noteq> COLON) p;
              buf = comp @ [SLASH] @ fname
          in if length comp + length fname + 2 > PATH_MAX then Inl PathBufferOverflow
             else if access buf then Inr True
             else path_search access fname (dropWhile (\<lambda>c. c \<noteq> COLON) p))"
  by pat_completeness auto

termination path_search
  by (relation "measure (\<lambda>(access, fname, path). length path)")
    (simp_all add: skip_component_less)

declare path_search.simps [simp del]

definition monitor_is_executable ::
  "(string \<Rightarrow> bool) \<Rightarrow> string option \<Rightarrow> string option \<Rightarrow> fork_error + bool" where
  "monitor_is_executable access path fname =
    (case fname of
       None \<Rightarrow> Inr False
     | Some f \<Rightarrow>
         if SLASH \<in> set f then Inr (access f)
         else case path of
                None \<Rightarrow> Inl NullPathVariable
              | Some p \<Rightarrow> path_search access f p)"

section \<open>fork\<close>

text \<open>ret is the answer of the real fork: negative, 0 in the child, the child's pid.\<close>

definition monitor_fork :: "client \<Rightarrow> sigsys \<Rightarrow> nat \<Rightarrow> int \<Rightarrow> procst \<Rightarrow> int \<times> procst" where
  "monitor_fork cl ssys self ret s0 =
    (let s1 = upd_thr monitor_early_init s0;
         user_data = cl_pre_fork cl;
         s2 = proc_emit RealFork (proc_emit PreFork s1)
     in if ret \<noteq> 0 then (ret, proc_emit (PostFork ret user_data) s2)
        else (ret, monitor_begin_process_fcn cl ssys self user_data True s2))"

definition fork_override :: "client \<Rightarrow> sigsys \<Rightarrow> nat \<Rightarrow> int \<Rightarrow> procst \<Rightarrow> int \<times> procst" where
  "fork_override cl ssys self ret s = monitor_fork cl ssys self ret s"

definition vfork_override :: "client \<Rightarrow> sigsys \<Rightarrow> nat \<Rightarrow> int \<Rightarrow> procst \<Rightarrow> int \<times> procst" where
  "vfork_override cl ssys self ret s = monitor_fork cl ssys self ret s"

section \<open>exec\<close>

text \<open>The common part after the test: the end callbacks when success is expected, then
  the real exec.  Its answer is None when it succeeds, else the return code.  The
  result is Inl for a program replaced.\<close>

definition exec_tail ::
  "exit_env \<Rightarrow> nat \<Rightarrow> bool \<Rightarrow> process_event \<Rightarrow> int option \<Rightarrow> procst \<Rightarrow>
   (thread_error + (int option \<times> procst)) option" where
  "exec_tail ee self is_exec ev real s =
     map_option (\<lambda>r. rbind r (\<lambda>s1.
       let s2 = proc_emit ev s1 in
       Inr (real, if real \<noteq> None \<and> is_exec then proc_emit ExecWarning s2 else s2)))
     (if is_exec
      then map_option (\<lambda>r. rbind r (\<lambda>s1. Inr (monitor_end_library_fcn s1)))
             (monitor_end_process_fcn ee self MONITOR_EXIT_EXEC s)
      else Some (Inr s))"

definition monitor_execv ::
  "exit_env \<Rightarrow> nat \<Rightarrow> (string \<Rightarrow> bool) \<Rightarrow> int option \<Rightarrow> string \<Rightarrow> string list \<Rightarrow> procst \<Rightarrow>
   (thread_error + (int option \<times> procst)) option" where
  "monitor_execv ee self access real path argv s =
     exec_tail ee self (access path) (RealExec path argv None) real (upd_thr monitor_early_init s)"

definition monitor_execvp ::
  "exit_env \<Rightarrow> nat \<Rightarrow> (string \<Rightarrow> bool) \<Rightarrow> string option \<Rightarrow> int option \<Rightarrow> string \<Rightarrow> string list \<Rightarrow> procst \<Rightarrow>
   fork_error + (thread_error + (int option \<times> procst)) option" where
  "monitor_execvp ee self access path_var real fname argv s =
     rbind (monitor_is_executable access path_var (Some fname)) (\<lambda>is_exec.
       Inr (exec_tail ee self is_exec (RealExec fname argv None) real (upd_thr monitor_early_init s)))"

definition monitor_execve ::
  "exit_env \<Rightarrow> nat \<Rightarrow> (string \<Rightarrow> bool) \<Rightarrow> int option \<Rightarrow> string \<Rightarrow> string list \<Rightarrow> string list \<Rightarrow> procst \<Rightarrow>
   (thread_error + (int option \<times> procst)) option" where
  "monitor_execve ee self access real path argv envp s =
     exec_tail ee self (access path) (RealExec path argv (Some envp)) real (upd_thr monitor_early_init s)"

text \<open>The strings of an argument vector before its NULL.\<close>

fun argv_strings :: "string option list \<Rightarrow> string list" where
  "argv_strings [] = []"
| "argv_strings (None # xs) = []"
| "argv_strings (Some x # xs) = x # argv_strings xs"

definition execl ::
  "exit_env \<Rightarrow> nat \<Rightarrow> (string \<Rightarrow> bool) \<Rightarrow> bool list \<Rightarrow> int option \<Rightarrow> string \<Rightarrow> string option \<Rightarrow>
   string option list \<Rightarrow> procst \<Rightarrow> fork_error + (thread_error + (int option \<times> procst)) option" where
  "execl ee self access mallocs real path arg arglist s =
     rbind (monitor_copy_va_args mallocs arg arglist) (\<lambda>(argv, _).
       Inr (monitor_execv ee self access real path (argv_strings argv) s))"

definition execlp ::
  "exit_env \<Rightarrow> nat \<Rightarrow> (string \<Rightarrow> bool) \<Rightarrow> string option \<Rightarrow> bool list \<Rightarrow> int option \<Rightarrow> string \<Rightarrow>
   string option \<Rightarrow> string option list \<Rightarrow> procst \<Rightarrow>
   fork_error + (thread_error + (int option \<times> procst)) option" where
  "execlp ee self access path_var mallocs real fname arg arglist s =
     rbind (monitor_copy_va_args mallocs arg arglist) (\<lambda>(argv, _).
       monitor_execvp ee self access path_var real fname (argv_strings argv) s)"

text \<open>execle: the argument after the NULL is the environment.\<close>

definition execle ::
  "exit_env \<Rightarrow> nat \<Rightarrow> (string \<Rightarrow> bool) \<Rightarrow> bool list \<Rightarrow> int option \<Rightarrow> string \<Rightarrow> string option \<Rightarrow>
   string option list \<Rightarrow> string list \<Rightarrow> procst \<Rightarrow>
   fork_error + (thread_error + (int option \<times> procst)) option" where
  "execle ee self access mallocs real path arg arglist envp s =
     rbind (monitor_copy_va_args mallocs arg arglist) (\<lambda>(argv, _).
       Inr (monitor_execve ee self access real path (argv_strings argv) envp s))"

definition execv where "execv ee self access real path argv s = monitor_execv ee self access real path argv s"

definition execvp where
  "execvp ee self access path_var real path argv s = monitor_execvp ee self access path_var real path argv s"

definition execve where
  "execve ee self access real path argv envp s = monitor_execve ee self access real path argv envp s"

section \<open>system\<close>

definition SIGINT :: nat where "SIGINT = 2"
definition SIGQUIT :: nat where "SIGQUIT = 3"
definition ECHILD :: int where "ECHILD = 10"
definition EACCES :: int where "EACCES = 13"
definition SHELL :: string where "SHELL = ''/bin/sh''"

definition ign_act :: sigact where "ign_act = zero_sigact\<lparr>sa_handler := SIG_IGN\<rparr>"
definition dfl_act :: sigact where "dfl_act = zero_sigact\<lparr>sa_handler := SIG_DFL\<rparr>"

text \<open>The real sigaction: the old action and the state with the new one.\<close>

definition sys_sigaction :: "nat \<Rightarrow> sigact \<Rightarrow> procst \<Rightarrow> sigact \<times> procst" where
  "sys_sigaction sig act s =
    (kern_table (sgn s) sig, s\<lparr>sgn := (sgn s)\<lparr>kern_table := (kern_table (sgn s))(sig := act)\<rparr>\<rparr>)"

text \<open>One answer of waitpid: the child's status, or an error number.\<close>

datatype wait_answer = WaitStatus int | WaitError int

text \<open>The wait loop over the answers of waitpid; None when they end before the loop does.\<close>

fun wait_loop :: "wait_answer list \<Rightarrow> int option" where
  "wait_loop [] = None"
| "wait_loop (WaitStatus st # ws) = Some st"
| "wait_loop (WaitError e # ws) =
    (if e = EINTR then wait_loop ws else if e = ECHILD then Some 0 else Some (- 1))"

text \<open>How a call of system ends: it returns to the caller, or, in the child, the
  process is the shell or has died of the error report.\<close>

datatype system_end = Returned int | IsShell | Died

record system_env =
  se_shell_ok :: bool
  se_fork :: int
  se_exec_ok :: bool
  se_waits :: "wait_answer list"
  se_environ :: "string list"
  se_pagesize :: nat
  se_mmap_ok :: bool

definition system_ignore :: "procst \<Rightarrow> (sigact \<times> sigact \<times> sigact) \<times> procst" where
  "system_ignore s =
    (let (old_int, s1) = sys_sigaction SIGINT ign_act s;
         (old_quit, s2) = sys_sigaction SIGQUIT ign_act s1;
         (old_chld, s3) = sys_sigaction SIGCHLD dfl_act s2
     in ((old_int, old_quit, old_chld), s3))"

definition system_restore :: "sigact \<times> sigact \<times> sigact \<Rightarrow> procst \<Rightarrow> procst" where
  "system_restore old s =
    (let (old_int, old_quit, old_chld) = old;
         s1 = snd (sys_sigaction SIGINT old_int s);
         s2 = snd (sys_sigaction SIGQUIT old_quit s1)
     in snd (sys_sigaction SIGCHLD old_chld s2))"

text \<open>The child: the report of a failed exec ends the process, before the call of
  monitor_real_exit behind it.\<close>

definition system_child :: "system_env \<Rightarrow> bool \<Rightarrow> string \<Rightarrow> sigact \<times> sigact \<times> sigact \<Rightarrow> procst \<Rightarrow>
    fork_error + (system_end \<times> procst)" where
  "system_child se callback command old s =
    (let s1 = system_restore old s
     in rbind (if callback then Inr (se_environ se)
               else rbind (monitor_copy_environ (se_pagesize se) (se_mmap_ok se) (se_environ se))
                      (\<lambda>(env, _). Inr env))
          (\<lambda>env. let s2 = proc_emit (RealExec SHELL [SHELL, ''-c'', command] (Some env)) s1
                 in if se_exec_ok se then Inr (IsShell, s2)
                    else Inr (Died, proc_emit ShellError s2)))"

definition monitor_system :: "client \<Rightarrow> system_env \<Rightarrow> string option \<Rightarrow> bool \<Rightarrow> procst \<Rightarrow>
    (fork_error + (system_end \<times> procst)) option" where
  "monitor_system cl se command callback s0 =
    (let s1 = upd_thr monitor_early_init s0 in
     case command of
       None \<Rightarrow> Some (Inr (Returned (cbool (se_shell_ok se)), s1))
     | Some cmd \<Rightarrow>
         (let user_data = (if callback then cl_pre_fork cl else NULL);
              s2 = (if callback then proc_emit PreFork s1 else s1);
              (old, s3) = system_ignore s2;
              pid = se_fork se;
              s4 = proc_emit RealFork s3
          in if pid = 0 then Some (system_child se callback cmd old s4)
             else map_option (\<lambda>status.
                    let s5 = system_restore old s4
                    in Inr (Returned status,
                            if callback then proc_emit (PostFork pid user_data) s5 else s5))
                  (if pid < 0 then Some (- 1) else wait_loop (se_waits se))))"

definition system_override :: "client \<Rightarrow> system_env \<Rightarrow> string option \<Rightarrow> procst \<Rightarrow>
    (fork_error + (system_end \<times> procst)) option" where
  "system_override cl se command s = monitor_system cl se command True s"

definition monitor_real_system :: "client \<Rightarrow> system_env \<Rightarrow> string option \<Rightarrow> procst \<Rightarrow>
    (fork_error + (system_end \<times> procst)) option" where
  "monitor_real_system cl se command s = monitor_system cl se command False s"

text \<open>None is a null pointer; the result is the return value with errno.\<close>

definition monitor_real_execve :: "nat \<Rightarrow> bool \<Rightarrow> int \<times> int \<Rightarrow> string option \<Rightarrow> string list option \<Rightarrow>
    string list option \<Rightarrow> procst \<Rightarrow> fork_error + ((int \<times> int) \<times> procst)" where
  "monitor_real_execve pagesize mmap_ok real path argv envp s0 =
    (let s = upd_thr monitor_early_init s0 in
     case (path, argv, envp) of
       (Some p, Some a, Some e) \<Rightarrow>
         rbind (monitor_copy_environ pagesize mmap_ok e)
           (\<lambda>(env, _). Inr (real, proc_emit (RealExec p a (Some env)) s))
     | _ \<Rightarrow> Inr ((- 1, EACCES), s))"

end
