(* ===== verification/ForkFacts.thy ===== *)
theory ForkFacts
  imports Fork
begin

text \<open>
  Facts and properties of monitor/src/fork.c: the copied environment, the argument
  vector of the execl family, the search of PATH, the child of fork, a failed exec, and
  the signal dispositions around system.
\<close>

section \<open>The environment\<close>

lemma fold_filter: "fold (\<lambda>e acc. if P e then acc @ [e] else acc) xs acc = acc @ filter P xs"
  by (induction xs arbitrary: acc) auto

lemma round_up_ge: "0 < (p::nat) \<Longrightarrow> x \<le> (x + p - 1) div p * p"
proof -
  assume p: "0 < p"
  have "x + p - 1 = (x + p - 1) div p * p + (x + p - 1) mod p" by simp
  moreover have "(x + p - 1) mod p < p" using p by simp
  ultimately show ?thesis by linarith
qed

lemma environ_capacity_ge: "0 < pagesize \<Longrightarrow> n \<le> environ_capacity pagesize n"
  using div_le_mono [OF round_up_ge [of pagesize "n * 8"], of 8] by (simp add: environ_capacity_def)

section \<open>The argument vector\<close>

lemma va_loop_copies:
  assumes "length argv \<le> sz" "0 < sz" "\<forall>b\<in>set mallocs. b"
    and "length argv + length xs + 1 \<le> sz * 2 ^ length mallocs"
  shows "\<exists>k\<le>length mallocs. va_loop argv sz mallocs (map Some xs @ None # rest) =
      Inr (argv @ map Some xs @ [None], sz * 2 ^ k, rest) \<and>
    length argv + length xs + 1 \<le> sz * 2 ^ k \<and>
    (k = 0 \<or> sz * 2 ^ (k - 1) < length argv + length xs + 1)"
  using assms
proof (induction xs arbitrary: argv sz mallocs)
  case Nil
  show ?case
  proof (cases "length argv \<ge> sz")
    case True
    then obtain m ms where m: "mallocs = m # ms" using Nil by (cases mallocs) auto
    have "sz = length argv" "m" using True Nil.prems m by simp_all
    then show ?thesis using m Nil.prems(2) by (intro exI [of _ 1]) (simp add: Suc_le_eq)
  next
    case False
    then show ?thesis by (intro exI [of _ 0]) simp
  qed
next
  case (Cons x xs)
  show ?case
  proof (cases "length argv \<ge> sz")
    case True
    then obtain m ms where m: "mallocs = m # ms" using Cons.prems by (cases mallocs) auto
    have sz: "sz = length argv" "m" using True Cons.prems m by simp_all
    obtain k where k: "k \<le> length ms"
      "va_loop (argv @ [Some x]) (sz * 2) ms (map Some xs @ None # rest) =
        Inr ((argv @ [Some x]) @ map Some xs @ [None], sz * 2 * 2 ^ k, rest)"
      "length (argv @ [Some x]) + length xs + 1 \<le> sz * 2 * 2 ^ k"
      "k = 0 \<or> sz * 2 * 2 ^ (k - 1) < length (argv @ [Some x]) + length xs + 1"
      using Cons.IH [of "argv @ [Some x]" "sz * 2" ms] Cons.prems m by auto
    have "sz * 2 ^ k < length argv + length (x # xs) + 1"
    proof (cases k)
      case 0
      then show ?thesis using sz by simp
    next
      case (Suc j)
      then have "sz * 2 ^ k = sz * 2 * 2 ^ (k - 1)" by simp
      then show ?thesis using k(4) Suc by simp
    qed
    then show ?thesis using k m sz by (intro exI [of _ "Suc k"]) (simp add: mult.assoc)
  next
    case False
    then have "va_loop argv sz mallocs (map Some (x # xs) @ None # rest) =
        va_loop (argv @ [Some x]) sz mallocs (map Some xs @ None # rest)" by simp
    then show ?thesis using Cons.IH [of "argv @ [Some x]" sz mallocs] Cons.prems False by simp
  qed
qed

section \<open>The search of PATH\<close>

text \<open>The components of a PATH: the pieces between colons that are not empty.\<close>

fun split_at :: "'a \<Rightarrow> 'a list \<Rightarrow> 'a list list" where
  "split_at c [] = [[]]"
| "split_at c (x # xs) = (if x = c then [] # split_at c xs
     else (x # hd (split_at c xs)) # tl (split_at c xs))"

definition path_components :: "string \<Rightarrow> string list" where
  "path_components p = filter (\<lambda>c. c \<noteq> []) (split_at COLON p)"

lemma split_at_ne [simp]: "split_at c xs \<noteq> []"
  by (cases xs) auto

lemma split_at_component:
  "split_at c xs = takeWhile (\<lambda>x. x \<noteq> c) xs #
     (case dropWhile (\<lambda>x. x \<noteq> c) xs of [] \<Rightarrow> [] | y # ys \<Rightarrow> split_at c ys)"
  by (induction xs) auto

lemma components_skip: "path_components (dropWhile (\<lambda>c. c = COLON) p) = path_components p"
  by (induction p) (auto simp: path_components_def)

lemma components_first:
  assumes "p = c # cs" "c \<noteq> COLON"
  shows "path_components p =
    takeWhile (\<lambda>x. x \<noteq> COLON) p # path_components (dropWhile (\<lambda>x. x \<noteq> COLON) p)"
proof -
  let ?d = "dropWhile (\<lambda>x. x \<noteq> COLON) p"
  have d: "path_components ?d = filter (\<lambda>c. c \<noteq> []) (case ?d of [] \<Rightarrow> [] | y # ys \<Rightarrow> split_at COLON ys)"
  proof (cases ?d)
    case (Cons y ys)
    then have "y = COLON" using dropWhile_hd_not [OF Cons] by simp
    then show ?thesis by (simp add: path_components_def Cons)
  next
    case Nil
    then show ?thesis unfolding path_components_def Nil by simp
  qed
  have "path_components p = filter (\<lambda>c. c \<noteq> []) (takeWhile (\<lambda>x. x \<noteq> COLON) p #
      (case ?d of [] \<Rightarrow> [] | y # ys \<Rightarrow> split_at COLON ys))"
    unfolding path_components_def using split_at_component [of COLON p] by (simp only:)
  also have "\<dots> = takeWhile (\<lambda>x. x \<noteq> COLON) p # path_components ?d"
    using assms unfolding d by simp
  finally show ?thesis .
qed

lemma path_search_iff:
  "\<forall>c\<in>set (path_components p). length c + length f + 2 \<le> PATH_MAX \<Longrightarrow>
   path_search access f p = Inr (\<exists>c\<in>set (path_components p). access (c @ SLASH # f))"
proof (induction access f p rule: path_search.induct)
  case (1 access f path)
  let ?p = "dropWhile (\<lambda>c. c = COLON) path"
  show ?case
  proof (cases ?p)
    case Nil
    then have "path_components path = []"
      using components_skip [of path] unfolding Nil by (simp add: path_components_def)
    then show ?thesis by (subst path_search.simps) (simp add: Nil)
  next
    case (Cons c cs)
    let ?rest = "dropWhile (\<lambda>c. c \<noteq> COLON) ?p"
    have pc: "path_components path = takeWhile (\<lambda>c. c \<noteq> COLON) ?p # path_components ?rest"
      using components_first [OF Cons] dropWhile_hd_not [OF Cons] components_skip [of path] by simp
    have IH: "path_search access f ?rest = Inr (\<exists>c\<in>set (path_components ?rest). access (c @ SLASH # f))"
      if "\<not> access (takeWhile (\<lambda>c. c \<noteq> COLON) ?p @ SLASH # f)"
      using 1 Cons that pc by simp
    have "length (takeWhile (\<lambda>c. c \<noteq> COLON) ?p) + length f + 2 \<le> PATH_MAX"
      using 1(2) pc by simp
    then show ?thesis
      using IH pc Cons by (subst path_search.simps) (auto simp: Let_def)
  qed
qed

section \<open>Dispositions and waiting\<close>

lemma sys_sigaction_simps [simp]:
  "fst (sys_sigaction sig act s) = kern_table (sgn s) sig"
  "kern_table (sgn (snd (sys_sigaction sig act s))) = (kern_table (sgn s))(sig := act)"
  "proc_trace (snd (sys_sigaction sig act s)) = proc_trace s"
  "thr (snd (sys_sigaction sig act s)) = thr s"
  by (simp_all add: sys_sigaction_def)

lemma system_ignore_facts:
  assumes "system_ignore s = (old, s')"
  shows "old = (kern_table (sgn s) SIGINT, kern_table (sgn s) SIGQUIT, kern_table (sgn s) SIGCHLD)"
    and "kern_table (sgn s') = (kern_table (sgn s))(SIGINT := ign_act, SIGQUIT := ign_act, SIGCHLD := dfl_act)"
    and "proc_trace s' = proc_trace s"
  using assms
  by (auto simp: system_ignore_def Let_def case_prod_beta SIGINT_def SIGQUIT_def SIGCHLD_def)

lemma system_restore_facts:
  "kern_table (sgn (system_restore (a, b, c) s)) =
     (kern_table (sgn s))(SIGINT := a, SIGQUIT := b, SIGCHLD := c)"
  "proc_trace (system_restore old s) = proc_trace s"
  by (simp_all add: system_restore_def Let_def case_prod_beta)

lemma wait_loop_eintr: "wait_loop (replicate k (WaitError EINTR) @ ws) = wait_loop ws"
  by (induction k) auto

lemma disposition_roundtrip:
  assumes "system_ignore s = (old, s')" "kern_table (sgn u) = kern_table (sgn s')"
  shows "kern_table (sgn (system_restore old u)) = kern_table (sgn s)"
  using system_ignore_facts [OF assms(1)] assms(2)
  by (auto simp: system_restore_facts SIGINT_def SIGQUIT_def SIGCHLD_def)

section \<open>Properties\<close>

text \<open>C23: the environment of an unmonitored program.  The copy keeps, in order, exactly the
  entries in which LD_PRELOAD does not occur, and the array has room for them and the
  terminating NULL; only a failed mmap of a large environment stops it.\<close>
theorem copied_environment:
  assumes "0 < pagesize"
  shows "(monitor_copy_environ pagesize mmap_ok env =
      (if length env + 2 > 250 \<and> \<not> mmap_ok then Inl MmapFailed
       else Inr (filter (\<lambda>e. \<nexists>a b. e = a @ ''LD_PRELOAD'' @ b) env,
                 environ_capacity pagesize (length env + 2)))) \<and>
    length (filter (\<lambda>e. \<nexists>a b. e = a @ ''LD_PRELOAD'' @ b) env) + 1
      \<le> environ_capacity pagesize (length env + 2)"
proof
  have "length (filter (\<lambda>e. \<nexists>a b. e = a @ ''LD_PRELOAD'' @ b) env) \<le> length env"
    by (rule length_filter_le)
  then show "length (filter (\<lambda>e. \<nexists>a b. e = a @ ''LD_PRELOAD'' @ b) env) + 1
      \<le> environ_capacity pagesize (length env + 2)"
    using environ_capacity_ge [OF assms, of "length env + 2"] by linarith
  show "monitor_copy_environ pagesize mmap_ok env =
      (if length env + 2 > 250 \<and> \<not> mmap_ok then Inl MmapFailed
       else Inr (filter (\<lambda>e. \<nexists>a b. e = a @ ''LD_PRELOAD'' @ b) env,
                 environ_capacity pagesize (length env + 2)))"
    unfolding monitor_copy_environ_def Let_def fold_filter strstr_iff LD_PRELOAD_def
      MONITOR_INIT_ENVIRON_SIZE_def by simp
qed

theorem copied_environment_witness:
  "(0::nat) < 4096 \<and> monitor_copy_environ 4096 False [''A=1'', ''LD_PRELOAD=x'', ''B=2''] =
    Inr (filter (\<lambda>e. \<nexists>a b. e = a @ ''LD_PRELOAD'' @ b) [''A=1'', ''LD_PRELOAD=x'', ''B=2''], 250)"
  using copied_environment [of 4096 False "[''A=1'', ''LD_PRELOAD=x'', ''B=2'']"]
  by (simp only: list.size) (simp add: environ_capacity_def MONITOR_INIT_ENVIRON_SIZE_def)

text \<open>The argument vector of execl, execlp and execle.  While the mallocs succeed, the
  loop copies the first argument, every argument up to the NULL and the NULL itself,
  leaves what follows (the environment of execle) unread, and ends with an array
  doubled no more often than needed.\<close>
lemma copied_arguments:
  assumes "\<forall>b\<in>set mallocs. b" "length args + 2 \<le> 64 * 2 ^ length mallocs"
  shows "\<exists>k\<le>length mallocs.
    monitor_copy_va_args mallocs arg0 (map Some args @ None # rest) =
      Inr (arg0 # map Some args @ [None], 64 * 2 ^ k, rest) \<and>
    length args + 2 \<le> 64 * 2 ^ k \<and> (k = 0 \<or> 64 * 2 ^ (k - 1) < length args + 2)"
  using va_loop_copies [of "[arg0]" 64 mallocs args rest] assms
  by (simp add: monitor_copy_va_args_def MONITOR_INIT_ARGV_SIZE_def)

text \<open>C22: the approximation of an exec's success.  For a name without a slash and a PATH
  whose components leave room in the buffer, the answer is whether some nonempty
  component of PATH, a slash and the name is executable; a name with a slash is
  tried as it is.\<close>
theorem executable_iff_on_path:
  assumes "SLASH \<notin> set f \<Longrightarrow> \<forall>c\<in>set (path_components p). length c + length f + 2 \<le> PATH_MAX"
  shows "monitor_is_executable access (Some p) (Some f) =
    Inr (if SLASH \<in> set f then access f
         else \<exists>c\<in>set (path_components p). access (c @ SLASH # f))"
  using assms by (simp add: monitor_is_executable_def path_search_iff)

theorem executable_iff_on_path_witness:
  "monitor_is_executable (\<lambda>x. x = ''/bin/ls'') (Some '':/usr/bin::/bin'') (Some ''ls'') =
    Inr (\<exists>c\<in>set (path_components '':/usr/bin::/bin''). c @ SLASH # ''ls'' = ''/bin/ls'')"
  using executable_iff_on_path [of "''ls''" "'':/usr/bin::/bin''" "\<lambda>x. x = ''/bin/ls''"]
  by (simp add: path_components_def COLON_def SLASH_def PATH_MAX_def)

text \<open>What a fork leaves of the thread list of its parent.\<close>

lemma reset_thread_list:
  assumes "monitor_has_used_threads s"
  shows "\<not> monitor_has_used_threads (monitor_reset_thread_list self s)"
    and "load (links (monitor_reset_thread_list self s)) (Head q) = None"
    and "specific (monitor_reset_thread_list self s) = (\<lambda>_. None)"
    and "monitor_tn_array_pos (monitor_reset_thread_list self s) = 0"
    and "monitor_get_tn self s = Some n \<Longrightarrow> n \<noteq> MainTn \<Longrightarrow> nodes (monitor_reset_thread_list self s) MainTn =
      zero_node\<lparr>tn_magic := MONITOR_TN_MAGIC, tn_tid := 0, tn_user_data := tn_user_data (nodes s n),
        tn_stack_bottom := tn_stack_bottom (nodes s n), tn_is_main := True\<rparr>"
  using assms
  by (cases q; simp add: monitor_reset_thread_list_def Let_def LIST_INIT_def load.simps store.simps split: option.split)+

lemma reset_unthreaded: "\<not> monitor_has_used_threads (monitor_reset_thread_list self s)"
  by (simp add: monitor_reset_thread_list_def Let_def)

lemma release_unthreaded:
  "\<not> monitor_has_used_threads s \<Longrightarrow> monitor_thread_release s = s\<lparr>thr_has_reached_main := True\<rparr>"
  by (simp add: monitor_thread_release_def)

lemma early_init_twice: "monitor_early_init (monitor_early_init s) = monitor_early_init s"
  by (simp add: monitor_early_init_def upd_node_def memset_node_def)

lemma early_init_others:
  "monitor_has_used_threads (monitor_early_init s) = monitor_has_used_threads s"
  "specific (monitor_early_init s) = specific s"
  "n \<noteq> MainTn \<Longrightarrow> nodes (monitor_early_init s) n = nodes s n"
proof -
  have "monitor_has_used_threads (memset_node m u) = monitor_has_used_threads u" for m u
    by (simp add: memset_node_def)
  then show "monitor_has_used_threads (monitor_early_init s) = monitor_has_used_threads s"
    "specific (monitor_early_init s) = specific s"
    "n \<noteq> MainTn \<Longrightarrow> nodes (monitor_early_init s) n = nodes s n"
    unfolding monitor_early_init_def by (cases "early_init_done s"; simp; fail)+
qed

lemma begin_in_child:
  fixes cl ssys self d s
  assumes "main_has_reached_main s"
  defines "s' \<equiv> monitor_begin_process_fcn cl ssys self d True s"
  defines "t \<equiv> monitor_reset_thread_list self (thr (monitor_normal_init ssys s))"
  shows "links (thr s') = links t" "specific (thr s') = specific t"
    "monitor_tn_array_pos (thr s') = monitor_tn_array_pos t"
    "nodes (thr s') MainTn = (nodes t MainTn)\<lparr>tn_user_data := cl_init_process cl d\<rparr>"
    "\<not> monitor_has_used_threads (thr s')"
  using assms(1) reset_unthreaded
  by (simp_all add: s'_def t_def monitor_begin_process_fcn_def Let_def set_main_data_def release_unthreaded)

text \<open>C20: the child of a fork begins as a new process.  In the child the process is unthreaded
  again; when the parent had threads, the thread list and the free list are empty, no thread
  has a node and the array of nodes is used from its start, and when a thread other than the
  main one forked, the main thread's node is a new one with its stack.  The fini flags are
  clear again, and init-process has been called with the data of pre-fork, its result now the
  process's data.\<close>
theorem fork_child_begins_again:
  assumes "main_has_reached_main s"
  shows "let (r, s') = monitor_fork cl ssys self 0 s; t = thr s' in
    r = 0 \<and> \<not> monitor_has_used_threads t \<and>
    (monitor_has_used_threads (thr s) \<longrightarrow>
       walk_threads t = Some [] \<and> load (links t) (Head FreeList) = None \<and>
       specific t = (\<lambda>_. None) \<and> monitor_tn_array_pos t = 0 \<and>
       (\<forall>n. monitor_get_tn self (thr s) = Some n \<longrightarrow> n \<noteq> MainTn \<longrightarrow>
          nodes t MainTn = zero_node\<lparr>tn_magic := MONITOR_TN_MAGIC, tn_tid := 0, tn_is_main := True,
            tn_stack_bottom := tn_stack_bottom (nodes (thr s) n),
            tn_user_data := cl_init_process cl (cl_pre_fork cl)\<rparr>)) \<and>
    \<not> monitor_fini_process_done s' \<and> \<not> monitor_fini_library_called s' \<and>
    main_data s' = cl_init_process cl (cl_pre_fork cl) \<and>
    proc_trace s' = proc_trace s @ [PreFork, RealFork, InitProcess (cl_pre_fork cl)]"
proof -
  let ?s1 = "proc_emit RealFork (proc_emit PreFork (upd_thr monitor_early_init s))"
  let ?s' = "monitor_begin_process_fcn cl ssys self (cl_pre_fork cl) True ?s1"
  let ?u = "thr (monitor_normal_init ssys ?s1)"
  note b = begin_in_child [of ?s1 cl ssys self "cl_pre_fork cl"]
  have m: "main_has_reached_main ?s1" using assms by simp
  have rest: "\<not> monitor_fini_process_done ?s' \<and> \<not> monitor_fini_library_called ?s' \<and>
    main_data ?s' = cl_init_process cl (cl_pre_fork cl) \<and>
    proc_trace ?s' = proc_trace s @ [PreFork, RealFork, InitProcess (cl_pre_fork cl)]"
    using assms reset_unthreaded
    by (simp add: monitor_begin_process_fcn_def Let_def set_main_data_def main_data_def release_unthreaded)
  have u: "?u = monitor_early_init (thr s)" by (simp add: monitor_normal_init_def early_init_twice)
  have early: "monitor_has_used_threads ?u = monitor_has_used_threads (thr s)"
    "monitor_get_tn self (thr s) = Some n \<Longrightarrow> n \<noteq> MainTn \<Longrightarrow> monitor_get_tn self ?u = Some n \<and> nodes ?u n = nodes (thr s) n" for n
    unfolding u using early_init_others [where s = "thr s"]
    by (auto simp: monitor_get_tn_def split: if_splits option.splits)
  have "walk_threads (thr ?s') = Some [] \<and> load (links (thr ?s')) (Head FreeList) = None \<and>
       specific (thr ?s') = (\<lambda>_. None) \<and> monitor_tn_array_pos (thr ?s') = 0 \<and>
       (\<forall>n. monitor_get_tn self (thr s) = Some n \<longrightarrow> n \<noteq> MainTn \<longrightarrow>
          nodes (thr ?s') MainTn = zero_node\<lparr>tn_magic := MONITOR_TN_MAGIC, tn_tid := 0, tn_is_main := True,
            tn_stack_bottom := tn_stack_bottom (nodes (thr s) n),
            tn_user_data := cl_init_process cl (cl_pre_fork cl)\<rparr>)" if "monitor_has_used_threads (thr s)"
  proof -
    note r = reset_thread_list [of ?u self, unfolded early(1), OF that]
    show ?thesis
      using early(2) that r by (auto simp: walk_threads_def b [OF m])
  qed
  then show ?thesis using b(5) [OF m] rest by (simp add: monitor_fork_def)
qed

theorem fork_child_begins_again_witness:
  "let (r, s') = monitor_fork default_client linux_sys 2 0
      ((procst_start demo_running (sigst_start (\<lambda>_. zero_sigact)))\<lparr>main_has_reached_main := True\<rparr>) in
    r = 0 \<and> walk_threads (thr s') = Some [] \<and> walk_threads demo_running = Some [Slot 0 0] \<and>
    tn_is_main (nodes (thr s') MainTn) \<and> \<not> monitor_has_used_threads (thr s')"
proof -
  let ?s = "(procst_start demo_running (sigst_start (\<lambda>_. zero_sigact)))\<lparr>main_has_reached_main := True\<rparr>"
  have s: "main_has_reached_main ?s" "thr ?s = demo_running" by (simp_all add: procst_start_def)
  have "monitor_get_tn 2 demo_running = Some (Slot 0 0)"
    by (simp add: monitor_get_tn_def demo_lists demo_running_facts)
  moreover have "walk_threads demo_running = Some [Slot 0 0]" by (rule demo_walk) (simp_all add: demo_lists)
  ultimately show ?thesis
    using fork_child_begins_again [OF s(1), of default_client linux_sys 2] by (auto simp: s(2) demo_lists Let_def)
qed

text \<open>An exec that was expected to succeed and fails.  The end callbacks are delivered
  before the exec; when it fails and the program later exits, no second fini-process
  is delivered, so the client's last report is the one before the exec.\<close>
lemma failed_exec_then_exit:
  assumes "access path" "\<not> monitor_has_used_threads (thr s)" "monitor_end_process_cookie s = 0"
    and "normal_init_done s" "early_init_done (thr s)" "exit_events s = []"
  shows "\<exists>s1 s2. monitor_execv ee self access (Some err) path argv s = Some (Inr (Some err, s1)) \<and>
    exit_override ssys ee self status s1 = Some (Inr s2) \<and>
    exit_events s2 = [BeginProcessExit MONITOR_EXIT_EXEC, ShootdownDone,
      FiniProcess MONITOR_EXIT_EXEC (main_data s)]"
proof -
  obtain s' where e: "monitor_end_process_fcn ee self MONITOR_EXIT_EXEC s = Some (Inr s')"
    and t: "proc_trace s' = proc_trace s @ [BeginProcessExit MONITOR_EXIT_EXEC, ShootdownDone,
      FiniProcess MONITOR_EXIT_EXEC (main_data s)]"
    and c: "monitor_end_process_cookie s' = 1" "\<not> monitor_has_used_threads (thr s')"
      "tn_exit_win (nodes (thr s') MainTn)" "normal_init_done s'"
    using end_process_unthreaded [OF assms(3,2), of ee self MONITOR_EXIT_EXEC] assms(4) by auto
  let ?s1 = "proc_emit ExecWarning (proc_emit (RealExec path argv None) (monitor_end_library_fcn s'))"
  have "upd_thr monitor_early_init s = s" using assms(5) by (simp add: upd_thr_def monitor_early_init_def)
  then have x: "monitor_execv ee self access (Some err) path argv s = Some (Inr (Some err, ?s1))"
    using assms(1) by (simp add: monitor_execv_def exec_tail_def e Let_def)
  have l: "monitor_end_process_cookie (monitor_end_library_fcn u) = monitor_end_process_cookie u"
    "thr (monitor_end_library_fcn u) = thr u" "normal_init_done (monitor_end_library_fcn u) = normal_init_done u"
    "exit_events (monitor_end_library_fcn u) = exit_events u" for u
    by (simp_all add: monitor_end_library_fcn_def exit_events_def proc_emit_def)
  have n: "monitor_normal_init ssys ?s1 = ?s1" using c(4) by (simp add: monitor_normal_init_def l)
  have "\<exists>s2. exit_override ssys ee self status ?s1 = Some (Inr s2) \<and> exit_events s2 = exit_events s'"
    unfolding exit_override_def n
    by (simp add: monitor_end_process_fcn_def end_race_def compare_and_swap_def monitor_get_tn_def
        Let_def c l)
  then show ?thesis using x assms(6) t by (fastforce simp: exit_events_def)
qed

text \<open>C19: system leaves the dispositions as it found them.  However it ends (returned, the
  shell running in the child, the child dead of the failed exec), the kernel's actions
  of SIGINT, SIGQUIT and SIGCHLD, and all others, are those before the call.\<close>
theorem system_restores_dispositions:
  assumes "monitor_system cl se command callback s = Some (Inr (r, s'))"
  shows "kern_table (sgn s') = kern_table (sgn s)"
  using assms disposition_roundtrip [OF prod.collapse [symmetric]]
  by (auto simp: monitor_system_def system_child_def Let_def case_prod_beta split: option.splits if_splits)

text \<open>C24: system waits through interrupts.  With a child forked and any number of interrupted
  waits, the child's status is returned, and with callbacks the client sees pre-fork
  and post-fork around it with pre-fork's data; without them it sees nothing.\<close>
theorem system_waits_for_child:
  assumes "0 < se_fork se" "se_waits se = replicate k (WaitError EINTR) @ WaitStatus status # rest"
  shows "\<exists>s'. monitor_system cl se (Some cmd) callback s = Some (Inr (Returned status, s')) \<and>
    proc_trace s' = proc_trace s @
      (if callback then [PreFork, RealFork, PostFork (se_fork se) (cl_pre_fork cl)] else [RealFork])"
  using assms wait_loop_eintr [of k "WaitStatus status # rest"]
    system_ignore_facts(3) [OF prod.collapse [symmetric]]
  by (simp add: monitor_system_def Let_def case_prod_beta system_restore_facts)

definition sample_system :: system_env where
  "sample_system = \<lparr>se_shell_ok = True, se_fork = 42, se_exec_ok = True,
     se_waits = [WaitError EINTR, WaitStatus 7], se_environ = [''A=1''], se_pagesize = 4096, se_mmap_ok = True\<rparr>"

theorem system_restores_dispositions_witness:
  "\<exists>r s'. monitor_system default_client (sample_system\<lparr>se_fork := 0\<rparr>) (Some ''date'') True
      (procst_start thst_start (sigst_start (\<lambda>_. zero_sigact))) = Some (Inr (r, s')) \<and>
    r = IsShell \<and> kern_table (sgn s') = (\<lambda>_. zero_sigact)"
proof -
  let ?s = "procst_start thst_start (sigst_start (\<lambda>_. zero_sigact))"
  obtain s' where "monitor_system default_client (sample_system\<lparr>se_fork := 0\<rparr>) (Some ''date'') True ?s =
      Some (Inr (IsShell, s'))"
    by (simp add: monitor_system_def sample_system_def system_child_def Let_def case_prod_beta)
  with system_restores_dispositions [OF this] show ?thesis
    by (simp add: procst_start_def sigst_start_def)
qed

theorem system_waits_for_child_witness:
  "\<exists>s'. monitor_system default_client sample_system (Some ''date'') True
      (procst_start thst_start (sigst_start (\<lambda>_. zero_sigact))) = Some (Inr (Returned 7, s')) \<and>
    proc_trace s' = [PreFork, RealFork, PostFork 42 NULL]"
  using system_waits_for_child [of sample_system 1 7 "[]" default_client "''date''" True
      "procst_start thst_start (sigst_start (\<lambda>_. zero_sigact))"]
  by (simp add: sample_system_def procst_start_def default_client_def default_pre_fork_def)

end
