(* ===== verification/PapiexState.thy ===== *)
theory PapiexState
  imports Prelude CString
begin

text \<open>
  The data of papiex/src: the caliper and per-thread structures of papiex_internal.h and
  the static variables of papiex.c.  The per-thread structures live in a list that
  stands for the heap, so that a pointer is an index.  Counters are 64-bit words.
\<close>

section \<open>Constants\<close>

definition PAPIEX_MAX_CALIPERS :: nat where "PAPIEX_MAX_CALIPERS = 32"
definition PAPIEX_MAX_COUNTERS :: nat where "PAPIEX_MAX_COUNTERS = 128"
definition PAPIEX_INIT_THREADS :: nat where "PAPIEX_INIT_THREADS = 256"
definition PAPIEX_DEFAULT_MPX_HZ :: int where "PAPIEX_DEFAULT_MPX_HZ = 10"
definition MAX_LABEL_SIZE :: nat where "MAX_LABEL_SIZE = 64"
definition EEXIST :: int where "EEXIST = 17"
definition PATHSCALE_NONE :: nat where "PATHSCALE_NONE = 0"
definition PATHSCALE_LOOPS :: nat where "PATHSCALE_LOOPS = 1"
definition PATHSCALE_FUNCS :: nat where "PATHSCALE_FUNCS = 2"
definition PATHSCALE_ALL :: nat where "PATHSCALE_ALL = 3"
definition DEFAULT_SPEC_FILE :: string where "DEFAULT_SPEC_FILE = ''papi''"

section \<open>Calipers and threads\<close>

type_synonym clonglong = "64 word"

record caliper =
  cal_label :: string
  cal_used :: nat
  cal_depth :: int
  tmp_real_usec :: clonglong
  real_usec :: clonglong
  tmp_virt_usec :: clonglong
  virt_usec :: clonglong
  tmp_real_cyc :: clonglong
  real_cyc :: clonglong
  tmp_virt_cyc :: clonglong
  virt_cyc :: clonglong
  mpiprof :: clonglong
  tmp_mpiprof :: clonglong
  mpisyncprof :: clonglong
  tmp_mpisyncprof :: clonglong
  ioprof :: clonglong
  tmp_ioprof :: clonglong
  threadsyncprof :: clonglong
  tmp_threadsyncprof :: clonglong
  tmp_counters :: "nat \<Rightarrow> clonglong"
  counters :: "nat \<Rightarrow> clonglong"

definition zero_caliper :: caliper where
  "zero_caliper = \<lparr>cal_label = [], cal_used = 0, cal_depth = 0, tmp_real_usec = 0, real_usec = 0,
     tmp_virt_usec = 0, virt_usec = 0, tmp_real_cyc = 0, real_cyc = 0, tmp_virt_cyc = 0,
     virt_cyc = 0, mpiprof = 0, tmp_mpiprof = 0, mpisyncprof = 0, tmp_mpisyncprof = 0,
     ioprof = 0, tmp_ioprof = 0, threadsyncprof = 0, tmp_threadsyncprof = 0,
     tmp_counters = (\<lambda>_. 0), counters = (\<lambda>_. 0)\<rparr>"

text \<open>The htab of the structure belongs to the gcc hooks and is not part of it here.\<close>

record perthread =
  pt_eventset :: int
  pt_stamp :: int
  pt_finish :: int
  papiex_mpiprof :: clonglong
  papiex_mpisyncprof :: clonglong
  papiex_ioprof :: clonglong
  papiex_threadsyncprof :: clonglong
  max_caliper_entries :: int
  max_caliper_used :: int
  pt_data :: "caliper list"

text \<open>memset of the whole structure, as papiex_thread_init_routine leaves it.\<close>

definition zero_perthread :: perthread where
  "zero_perthread = \<lparr>pt_eventset = 0, pt_stamp = 0, pt_finish = 0, papiex_mpiprof = 0,
     papiex_mpisyncprof = 0, papiex_ioprof = 0, papiex_threadsyncprof = 0,
     max_caliper_entries = 0, max_caliper_used = 0,
     pt_data = replicate PAPIEX_MAX_CALIPERS zero_caliper\<rparr>"

section \<open>The variables of the process\<close>

datatype papi_domain = DomUser | DomKernel | DomOther | DomSupervisor

text \<open>An error that ends the process through monitor_real_exit, or one that is undefined
  behaviour in C (TooManyEvents, PathTooLong).\<close>

datatype papiex_error =
    NoOptions
  | MkdirFailed string
  | NeedsBinutils
  | TooManyEvents
  | PathTooLong
  | DlopenFailed
  | DlsymFailed string
  | PapiError string
  | ThreadDataNull
  | CaliperOutOfRange int
  | CaliperInUse int
  | CaliperNotInUse int
  | MallocFailed
  | OutputFailed string
  | ReportFailed
  | DivisionByZero

datatype papiex_event =
    SetGate string int
  | ProfInit string
  | PapiDebugEnv string
  | CounterStart nat
  | CounterStop nat
  | ThreadStats nat string nat
  | ProcessStats "nat list"
  | RealSystem string

record pglob =
  eventnames :: "string list"
  eventcodes :: "nat \<Rightarrow> int"
  multiplex :: bool
  mpx_interval :: int
  no_derived_stats :: bool
  no_summary_stats :: bool
  no_follow_fork :: bool
  no_mpi_gather :: bool
  no_mpi_prof :: bool
  no_io_prof :: bool
  no_threadsync_prof :: bool
  no_scientific :: bool
  no_write :: bool
  write_only :: bool
  rusage :: bool
  memory :: bool
  quiet :: bool
  gcc_prof :: bool
  pathscale_prof :: nat
  papiex_nextgen :: bool
  csv_output :: bool
  papiex_debug :: nat
  domain :: "papi_domain set"
  spec_file :: "string option"
  user_specified_spec :: bool
  file_output :: "string option"
  file_is_prefix :: bool
  output_file_name :: "string option"
  user_path_prefix :: string
  base_output_path :: string
  proc_output_path :: string
  proc_stats_path :: string
  hostname :: string
  papi_mpx_zero_counts_bug :: bool
  papi_broken_stop :: bool
  papiex_threaded :: bool
  is_mpied :: bool
  myrank :: int
  ntasks :: int
  process_name :: "string option"
  process_args :: string
  proc_fini_time :: int
  called_process_shutdown :: bool
  monitor_fini_mpi_callback_occurred :: bool
  fptr_mpiprof_set_gate :: bool
  fptr_ioprof_set_gate :: bool
  fptr_threadsyncprof_set_gate :: bool
  all_threads :: "(int \<times> nat) list"
  all_threads_size :: nat
  thread_heap :: "perthread list"
  thread_data :: "nat \<Rightarrow> nat option"
  papiex_trace :: "papiex_event list"

definition papiex_emit :: "papiex_event \<Rightarrow> pglob \<Rightarrow> pglob" where
  "papiex_emit e g = g\<lparr>papiex_trace := papiex_trace g @ [e]\<rparr>"

section \<open>init_process_globals and init_library_globals\<close>

definition init_process_globals :: "pglob \<Rightarrow> pglob" where
  "init_process_globals g = g\<lparr>called_process_shutdown := False,
     monitor_fini_mpi_callback_occurred := False, process_name := None, process_args := []\<rparr>"

text \<open>Whether the build defines PROFILING_SUPPORT and HAVE_BINUTILS.\<close>

record build =
  profiling_support :: bool
  have_binutils :: bool

definition init_library_globals :: "build \<Rightarrow> pglob \<Rightarrow> pglob" where
  "init_library_globals b g =
     init_process_globals (g\<lparr>all_threads := [], all_threads_size := PAPIEX_INIT_THREADS,
       csv_output := False, domain := {}, eventnames := [], eventcodes := (\<lambda>_. 0),
       file_output := None, file_is_prefix := False, gcc_prof := False, hostname := [],
       is_mpied := False, quiet := False, memory := False, mpx_interval := PAPIEX_DEFAULT_MPX_HZ,
       multiplex := False, no_derived_stats := False, no_follow_fork := False,
       no_mpi_gather := False, no_scientific := False, no_summary_stats := False,
       no_write := False, rusage := False, pathscale_prof := PATHSCALE_NONE,
       papi_broken_stop := False, papi_mpx_zero_counts_bug := False, papiex_threaded := False,
       papiex_nextgen := False, papiex_debug := 0, thread_data := (\<lambda>_. None), write_only := False,
       base_output_path := [], proc_output_path := [], output_file_name := None,
       proc_stats_path := [], user_path_prefix := [],
       no_mpi_prof := \<not> profiling_support b, no_io_prof := \<not> profiling_support b,
       no_threadsync_prof := True\<rparr>)"

text \<open>The initial values of the static variables.\<close>

definition pglob_start :: "build \<Rightarrow> pglob" where
  "pglob_start b = \<lparr>eventnames = [], eventcodes = (\<lambda>_. 0), multiplex = False,
     mpx_interval = PAPIEX_DEFAULT_MPX_HZ, no_derived_stats = False, no_summary_stats = False,
     no_follow_fork = False, no_mpi_gather = False, no_mpi_prof = \<not> profiling_support b,
     no_io_prof = \<not> profiling_support b, no_threadsync_prof = True, no_scientific = False,
     no_write = False, write_only = False, rusage = False, memory = False, quiet = False,
     gcc_prof = False, pathscale_prof = PATHSCALE_NONE, papiex_nextgen = False, csv_output = False,
     papiex_debug = 0, domain = {}, spec_file = None, user_specified_spec = False,
     file_output = None, file_is_prefix = False, output_file_name = None, user_path_prefix = [],
     base_output_path = [], proc_output_path = [], proc_stats_path = [], hostname = [],
     papi_mpx_zero_counts_bug = False, papi_broken_stop = False, papiex_threaded = False,
     is_mpied = False, myrank = 0, ntasks = 1, process_name = None, process_args = [],
     proc_fini_time = 0, called_process_shutdown = False, monitor_fini_mpi_callback_occurred = False,
     fptr_mpiprof_set_gate = False, fptr_ioprof_set_gate = False, fptr_threadsyncprof_set_gate = False,
     all_threads = [], all_threads_size = PAPIEX_INIT_THREADS, thread_heap = [],
     thread_data = (\<lambda>_. None), papiex_trace = []\<rparr>"

end
