(* ===== verification/PapiexOptions.thy ===== *)
theory PapiexOptions
  imports PapiexState
begin

text \<open>
  papiex.c: monitor_init_library, which reads the options the driver left in the
  environment into the variables of the library.
\<close>

section \<open>The environment\<close>

text \<open>What the host answers: the two variables, mkdir (the error number, or None), the
  symbols dlsym finds (None is an error, False a symbol that is NULL).\<close>

record papiex_env =
  env_options :: "string option"
  env_output :: "string option"
  mkdir :: "string \<Rightarrow> int option"
  the_hostname :: string
  papi_set_debug_ok :: bool
  dlopen_self_ok :: bool
  dlsym :: "string \<Rightarrow> bool option"

text \<open>The text behind a prefix; None when the text does not begin with it.\<close>

fun after_prefix :: "string \<Rightarrow> string \<Rightarrow> string option" where
  "after_prefix [] s = Some s"
| "after_prefix (c # cs) [] = None"
| "after_prefix (c # cs) (d # ds) = (if c = d then after_prefix cs ds else None)"

section \<open>One option\<close>

text \<open>The variable PAPIEX_OUTPUT when it is set and not empty.\<close>

definition output_value :: "papiex_env \<Rightarrow> string option" where
  "output_value env =
    (case env_output env of None \<Rightarrow> None | Some t \<Rightarrow> if length t > 0 then Some t else None)"

definition option_prefix :: "papiex_env \<Rightarrow> pglob \<Rightarrow> papiex_error + pglob" where
  "option_prefix env g =
    (case output_value env of
       None \<Rightarrow> Inr g
     | Some t \<Rightarrow>
         if length t \<ge> PATH_MAX then Inl PathTooLong
         else Inr (g\<lparr>file_output := Some t, file_is_prefix := True, user_path_prefix := t\<rparr>))"

definition option_dir :: "papiex_env \<Rightarrow> pglob \<Rightarrow> papiex_error + pglob" where
  "option_dir env g =
    (case output_value env of
       None \<Rightarrow> Inr g
     | Some t \<Rightarrow>
         let p = t @ ''/'' in
         if length p \<ge> PATH_MAX then Inl PathTooLong
         else if mkdir env p \<noteq> None \<and> mkdir env p \<noteq> Some EEXIST then Inl (MkdirFailed p)
         else Inr (g\<lparr>user_path_prefix := p, file_output := Some p, file_is_prefix := True\<rparr>))"

definition option_file :: "papiex_env \<Rightarrow> pglob \<Rightarrow> papiex_error + pglob" where
  "option_file env g =
    (case output_value env of
       None \<Rightarrow> Inr g
     | Some t \<Rightarrow> Inr (g\<lparr>file_output := Some t, output_file_name := Some t, file_is_prefix := False\<rparr>))"

definition option_event :: "string \<Rightarrow> pglob \<Rightarrow> papiex_error + pglob" where
  "option_event tmp g =
    (if length (eventnames g) \<ge> PAPIEX_MAX_COUNTERS then Inl TooManyEvents
     else let g1 = (if after_prefix ''PAPI_'' tmp \<noteq> None \<and> spec_file g = None
                    then g\<lparr>spec_file := Some DEFAULT_SPEC_FILE\<rparr> else g)
          in Inr (g1\<lparr>eventnames := eventnames g1 @ [tmp]\<rparr>))"

text \<open>The body of the loop.\<close>

definition option_step :: "papiex_env \<Rightarrow> string \<Rightarrow> pglob \<Rightarrow> papiex_error + pglob" where
  "option_step env tmp g =
    (if tmp = ''QUIET'' then Inr g
     else if tmp = ''DEBUG'' then Inr (g\<lparr>papiex_debug := papiex_debug g + 1\<rparr>)
     else if tmp = ''NO_MPI_GATHER'' then Inr (g\<lparr>no_mpi_gather := True\<rparr>)
     else if tmp = ''NO_DERIVED_STATS'' then Inr (g\<lparr>no_derived_stats := True\<rparr>)
     else if tmp = ''NO_SUMMARY_STATS'' then Inr (g\<lparr>no_summary_stats := True\<rparr>)
     else if tmp = ''MULTIPLEX'' then Inr (g\<lparr>multiplex := True\<rparr>)
     else case after_prefix ''MPX_INTERVAL='' tmp of Some v \<Rightarrow> Inr (g\<lparr>mpx_interval := atoi v\<rparr>)
     | None \<Rightarrow> (case after_prefix ''SPEC='' tmp of
         Some v \<Rightarrow> Inr (g\<lparr>spec_file := Some v, user_specified_spec := True\<rparr>)
     | None \<Rightarrow>
       (if tmp = ''NOFORK'' then Inr (g\<lparr>no_follow_fork := True\<rparr>)
        else if tmp = ''RUSAGE'' then Inr (g\<lparr>rusage := True\<rparr>)
        else if tmp = ''MEMORY'' then Inr (g\<lparr>memory := True\<rparr>)
        else if tmp = ''NO_WRITE'' then Inr (g\<lparr>no_write := True\<rparr>)
        else if tmp = ''GCC_PROF'' then Inr (g\<lparr>gcc_prof := True\<rparr>)
        else if tmp = ''PATHSCALE_FUNCS'' then Inr (g\<lparr>pathscale_prof := PATHSCALE_FUNCS\<rparr>)
        else if tmp = ''PATHSCALE_ALL'' then Inr (g\<lparr>pathscale_prof := PATHSCALE_ALL\<rparr>)
        else if tmp = ''PATHSCALE_LOOPS'' then Inr (g\<lparr>pathscale_prof := PATHSCALE_LOOPS\<rparr>)
        else if tmp = ''NO_MPI_PROF'' then Inr (g\<lparr>no_mpi_prof := True\<rparr>)
        else if tmp = ''NO_IO_PROF'' then Inr (g\<lparr>no_io_prof := True\<rparr>)
        else if tmp = ''NO_THREADSYNC_PROF'' then Inr (g\<lparr>no_threadsync_prof := True\<rparr>)
        else if tmp = ''NO_SCIENTIFIC'' then Inr (g\<lparr>no_scientific := True\<rparr>)
        else if tmp = ''NEXTGEN'' then Inr (g\<lparr>papiex_nextgen := True\<rparr>)
        else if tmp = ''CSV'' then Inr (g\<lparr>csv_output := True, papiex_nextgen := True\<rparr>)
        else if tmp = ''WRITE_ONLY'' then Inr (g\<lparr>write_only := True\<rparr>)
        else if tmp = ''PREFIX'' then option_prefix env g
        else if tmp = ''DIR'' then option_dir env g
        else if tmp = ''FILE'' then option_file env g
        else if tmp = ''USER'' then Inr (g\<lparr>domain := insert DomUser (domain g)\<rparr>)
        else if tmp = ''KERNEL'' then Inr (g\<lparr>domain := insert DomKernel (domain g)\<rparr>)
        else if tmp = ''OTHER'' then Inr (g\<lparr>domain := insert DomOther (domain g)\<rparr>)
        else if tmp = ''SUPERVISOR'' then Inr (g\<lparr>domain := insert DomSupervisor (domain g)\<rparr>)
        else option_event tmp g)))"

text \<open>The loop over the tokens: the first is cut at a comma or a space, the others at commas.\<close>

fun options_fold :: "papiex_env \<Rightarrow> string list \<Rightarrow> pglob \<Rightarrow> papiex_error + pglob" where
  "options_fold env [] g = Inr g"
| "options_fold env (t # ts) g = rbind (option_step env t g) (options_fold env ts)"

definition option_tokens :: "string \<Rightarrow> string list" where
  "option_tokens opts =
    (case strtok {CHR '','', CHR '' ''} opts of
       None \<Rightarrow> []
     | Some (tok, rest) \<Rightarrow> tok # strtoks {CHR '',''} rest)"

definition parse_options :: "papiex_env \<Rightarrow> string \<Rightarrow> pglob \<Rightarrow> papiex_error + pglob" where
  "parse_options env opts g = options_fold env (option_tokens opts) g"

section \<open>monitor_init_library\<close>

text \<open>The look-up of a profiling library's functions: no symbol is an error of
  GET_DLSYM, a NULL init function switches the profiling off.  The result: whether the
  profiling is off, and whether there is a gate function (\<open>gate\<close> when it is off).\<close>

definition find_prof :: "papiex_env \<Rightarrow> string \<Rightarrow> bool \<Rightarrow> bool \<Rightarrow> papiex_error + (bool \<times> bool)" where
  "find_prof env name off gate =
    (if off then Inr (True, gate)
     else case dlsym env (name @ ''_init'') of
            None \<Rightarrow> Inl (DlsymFailed (name @ ''_init''))
          | Some False \<Rightarrow> Inr (True, gate)
          | Some True \<Rightarrow>
              (case dlsym env (name @ ''_set_gate'') of
                 None \<Rightarrow> Inl (DlsymFailed (name @ ''_set_gate''))
               | Some found \<Rightarrow> Inr (False, found)))"

fun need_syms :: "papiex_env \<Rightarrow> string list \<Rightarrow> papiex_error + unit" where
  "need_syms env [] = Inr ()"
| "need_syms env (n # ns) = (if dlsym env n = None then Inl (DlsymFailed n) else need_syms env ns)"

definition papi_debug_env :: "nat \<Rightarrow> string option" where
  "papi_debug_env d =
    (if d > 4 then Some ''PAPI_DEBUG=ALL''
     else if d > 3 then Some ''PAPI_DEBUG=API:THREADS:INTERNAL:SUBSTRATE''
     else if d > 2 then Some ''PAPI_DEBUG=API:SUBSTRATE''
     else if d > 1 then Some ''PAPI_DEBUG=API''
     else None)"

definition emit_if :: "bool \<Rightarrow> papiex_event \<Rightarrow> pglob \<Rightarrow> pglob" where
  "emit_if c e g = (if c then papiex_emit e g else g)"

definition finish_options :: "papiex_env \<Rightarrow> build \<Rightarrow> pglob \<Rightarrow> papiex_error + pglob" where
  "finish_options env b g =
    (if \<not> have_binutils b \<and> (gcc_prof g \<or> pathscale_prof g \<noteq> PATHSCALE_NONE) then Inl NeedsBinutils
     else let g1 = (if papiex_nextgen g then g\<lparr>no_write := False\<rparr> else g)\<lparr>hostname := the_hostname env\<rparr>
          in if papiex_debug g1 > 0 \<and> \<not> papi_set_debug_ok env then Inl (PapiError ''PAPI_set_debug'')
             else Inr (case papi_debug_env (papiex_debug g1) of
                         None \<Rightarrow> g1 | Some v \<Rightarrow> papiex_emit (PapiDebugEnv v) g1))"

definition load_profilers :: "papiex_env \<Rightarrow> pglob \<Rightarrow> papiex_error + pglob" where
  "load_profilers env g =
    (if \<not> dlopen_self_ok env then Inl DlopenFailed
     else rbind (find_prof env ''papiex_ioprof'' (no_io_prof g) (fptr_ioprof_set_gate g)) (\<lambda>(no_io, io_gate).
          rbind (find_prof env ''papiex_threadsyncprof'' (no_threadsync_prof g)
                   (fptr_threadsyncprof_set_gate g)) (\<lambda>(no_ts, ts_gate).
          rbind (find_prof env ''papiex_mpiprof'' (no_mpi_prof g) (fptr_mpiprof_set_gate g)) (\<lambda>(no_mpi, mpi_gate).
          rbind (if gcc_prof g
                 then need_syms env [''papiex_gcc_set_gate'', ''papiex_gcc_thread_init'',
                                     ''papiex_gcc_thread_shutdown''] else Inr ()) (\<lambda>_.
          rbind (if pathscale_prof g \<noteq> PATHSCALE_NONE
                 then need_syms env [''papiex_pathscale_set_gate'', ''papiex_pathscale_thread_init'',
                                     ''papiex_pathscale_thread_shutdown''] else Inr ()) (\<lambda>_.
          Inr (emit_if (\<not> no_mpi) (ProfInit ''papiex_mpiprof'')
                (emit_if (\<not> no_ts) (ProfInit ''papiex_threadsyncprof'')
                  (emit_if (\<not> no_io) (ProfInit ''papiex_ioprof'')
                    (g\<lparr>no_io_prof := no_io, no_threadsync_prof := no_ts, no_mpi_prof := no_mpi,
                       fptr_ioprof_set_gate := io_gate, fptr_threadsyncprof_set_gate := ts_gate,
                       fptr_mpiprof_set_gate := mpi_gate\<rparr>))))))))))"

definition monitor_init_library :: "papiex_env \<Rightarrow> build \<Rightarrow> pglob \<Rightarrow> papiex_error + pglob" where
  "monitor_init_library env b g0 =
    (let g = init_library_globals b g0 in
     case env_options env of
       None \<Rightarrow> Inl NoOptions
     | Some opts \<Rightarrow>
         rbind (parse_options env opts g) (\<lambda>g1.
         rbind (finish_options env b g1) (load_profilers env)))"

end
