(* ===== verification/OutPath.thy ===== *)
theory OutPath
  imports PapiexState
begin

text \<open>
  papiex.c: where the output goes.  The file system is a finite map from paths to
  contents, in which a path is absent or there (an access refused for another reason is
  not modelled).  A wait or a search that does not end is None.
\<close>

type_synonym filesys = "string \<Rightarrow> string option"

text \<open>What the host fixes: the process id, which files can be created, and mkdir's error.\<close>

record path_host =
  ph_pid :: int
  ph_can_create :: "string \<Rightarrow> bool"
  ph_mkdir :: "string \<Rightarrow> int option"

definition path_container :: string where "path_container = ''.papiex.output''"
definition tool :: string where "tool = ''papiex''"
definition suffix :: string where "suffix = ''.txt''"

definition file_exists :: "filesys \<Rightarrow> string \<Rightarrow> bool" where
  "file_exists fs f \<longleftrightarrow> fs f \<noteq> None"

text \<open>snprintf into a buffer of PATH_MAX bytes.\<close>

definition snprintf_path :: "string \<Rightarrow> string" where
  "snprintf_path s = take (PATH_MAX - 1) s"

section \<open>get_next_gen\<close>

definition gen_path :: "string \<Rightarrow> nat \<Rightarrow> string" where
  "gen_path path inst = path @ ''.'' @ dec inst"

text \<open>The do-while loop; a name beyond the buffer is undefined behaviour.\<close>

partial_function (option) gen_loop ::
  "filesys \<Rightarrow> string \<Rightarrow> nat \<Rightarrow> (papiex_error + nat) option" where
  "gen_loop fs path inst =
    (if length (gen_path path inst) \<ge> PATH_MAX then Some (Inl PathTooLong)
     else if file_exists fs (gen_path path inst) then gen_loop fs path (inst + 1)
     else Some (Inr inst))"

definition get_next_gen :: "filesys \<Rightarrow> string \<Rightarrow> (papiex_error + nat) option" where
  "get_next_gen fs path =
    (if length path \<ge> PATH_MAX then Some (Inl PathTooLong)
     else if \<not> file_exists fs path then Some (Inr 0)
     else gen_loop fs path 1)"

section \<open>The base path\<close>

definition printf_s :: "string option \<Rightarrow> string" where
  "printf_s s = (case s of None \<Rightarrow> ''(null)'' | Some t \<Rightarrow> t)"

definition instance_path :: "string \<Rightarrow> string option \<Rightarrow> string \<Rightarrow> int \<Rightarrow> nat \<Rightarrow> string" where
  "instance_path prefix name host pid inst =
     snprintf_path (prefix @ printf_s name @ ''.'' @ tool @ ''.'' @ host @ ''.'' @ dec_int pid @ ''.'' @ dec inst)"

partial_function (option) instance_loop ::
  "filesys \<Rightarrow> (nat \<Rightarrow> string) \<Rightarrow> nat \<Rightarrow> string option" where
  "instance_loop fs name inst =
    (if file_exists fs (name (inst + 1)) then instance_loop fs name (inst + 1) else Some (name (inst + 1)))"

text \<open>strtok of the host name at the dot changes the host name.\<close>

definition short_host :: "string \<Rightarrow> string" where
  "short_host h =
    (if CHR ''.'' \<in> set h
     then (case strtok {CHR ''.''} h of None \<Rightarrow> ''(null)'' | Some (t, _) \<Rightarrow> t)
     else h)"

definition new_instance :: "path_host \<Rightarrow> string option \<Rightarrow> filesys \<Rightarrow> pglob \<Rightarrow> (pglob \<times> filesys) option" where
  "new_instance ph prefix fs g =
    (let host = short_host (hostname g);
         pre = (case prefix of None \<Rightarrow> [] | Some p \<Rightarrow> p)
     in map_option (\<lambda>path.
          let g1 = g\<lparr>hostname := host, base_output_path := path\<rparr>;
              fs1 = fs(path_container := None)
          in (g1, if is_mpied g \<and> ph_can_create ph path_container
                  then fs1(path_container := Some path) else fs1))
          (instance_loop fs (instance_path pre (process_name g) host (ph_pid ph)) 0))"

definition set_base_output_path ::
  "path_host \<Rightarrow> string option \<Rightarrow> string option \<Rightarrow> filesys \<Rightarrow> pglob \<Rightarrow>
   (papiex_error + (pglob \<times> filesys)) option" where
  "set_base_output_path ph prefix user_spec_file fs g =
    (case user_spec_file of
       Some f \<Rightarrow>
         if f \<noteq> [] \<and> \<not> is_mpied g
         then map_option (\<lambda>r. rbind r (\<lambda>gen.
                Inr (g\<lparr>base_output_path := (if gen \<noteq> 0 then gen_path f gen else f)\<rparr>, fs)))
                (get_next_gen fs f)
         else map_option Inr (new_instance ph prefix fs g)
     | None \<Rightarrow> map_option Inr (new_instance ph prefix fs g))"

text \<open>The word fscanf reads with "%s".\<close>

definition first_word :: "string \<Rightarrow> string" where
  "first_word s = takeWhile (\<lambda>c. \<not> is_space_char c) (dropWhile is_space_char s)"

definition get_base_output_path ::
  "path_host \<Rightarrow> string option \<Rightarrow> string option \<Rightarrow> filesys \<Rightarrow> pglob \<Rightarrow>
   (papiex_error + (pglob \<times> filesys)) option" where
  "get_base_output_path ph prefix user_spec_file fs g =
    (if length (base_output_path g) > 0 then Some (Inr (g, fs))
     else if is_mpied g
     then (case fs path_container of
             None \<Rightarrow> None
           | Some content \<Rightarrow>
               Some (if first_word content = [] then Inl (OutputFailed path_container)
                     else Inr (g\<lparr>base_output_path := first_word content\<rparr>, fs)))
     else set_base_output_path ph prefix user_spec_file fs g)"

section \<open>The paths of a process and a thread\<close>

definition get_proc_output_path :: "pglob \<Rightarrow> pglob" where
  "get_proc_output_path g =
    (if length (proc_output_path g) > 0 then g
     else if is_mpied g
     then g\<lparr>proc_output_path := snprintf_path (base_output_path g @ ''/task_'' @ dec_int (myrank g))\<rparr>
     else g\<lparr>proc_output_path := base_output_path g\<rparr>)"

definition get_thread_output_path :: "pglob \<Rightarrow> nat \<Rightarrow> string" where
  "get_thread_output_path g i =
     snprintf_path (proc_output_path g @ ''/thread_'' @ dec i @ suffix)"

definition mkdir_ok :: "path_host \<Rightarrow> string \<Rightarrow> bool" where
  "mkdir_ok ph p \<longleftrightarrow> ph_mkdir ph p = None \<or> ph_mkdir ph p = Some EEXIST"

text \<open>The directories that are made, in order, and the state with the process path set.\<close>

definition make_output_paths ::
  "path_host \<Rightarrow> bool \<Rightarrow> pglob \<Rightarrow> papiex_error + (string list \<times> pglob)" where
  "make_output_paths ph is_threaded g =
    (if is_mpied g \<and> base_output_path g = [] then Inl (OutputFailed [])
     else if is_mpied g \<and> \<not> mkdir_ok ph (base_output_path g) then Inl (OutputFailed (base_output_path g))
     else
       let d1 = (if is_mpied g then [base_output_path g] else [])
       in if is_threaded
          then let g1 = get_proc_output_path g
               in if \<not> mkdir_ok ph (proc_output_path g1) then Inl (OutputFailed (proc_output_path g1))
                  else Inr (d1 @ [proc_output_path g1], g1)
          else Inr (d1, g))"

section \<open>The processor's spec file\<close>

record hw_info =
  vendor_string :: string
  model_string :: string
  vendor :: int
  cpuid_family :: int
  cpuid_model :: int

definition is_intel_core_processor :: "int \<Rightarrow> int \<Rightarrow> int \<Rightarrow> int" where
  "is_intel_core_processor vend family m =
    (if vend = 1 \<and> family = 6 \<and> m \<in> {26, 30, 37, 44, 46, 47} then m else 0)"

definition is_intel_i7 :: "int \<Rightarrow> int \<Rightarrow> int" where
  "is_intel_i7 vend m = (if vend = 1 \<and> m \<in> {21, 26, 30, 37, 44, 46, 47} then m else 0)"

definition get_spec_file :: "hw_info \<Rightarrow> pglob \<Rightarrow> string" where
  "get_spec_file hw g =
    (case spec_file g of
       Some f \<Rightarrow> f
     | None \<Rightarrow>
         if vendor_string hw = ''MIPS'' \<and> take 3 (model_string hw) = ''74K'' then ''mips74k''
         else if vendor_string hw = ''SiCortex'' then ''ice9''
         else if is_intel_core_processor (vendor hw) (cpuid_family hw) (cpuid_model hw) \<noteq> 0 then ''nehalem''
         else DEFAULT_SPEC_FILE)"

section \<open>match_caliper_label\<close>

text \<open>0 for a match; an empty first label takes the second.  The result is the code and
  the first label afterwards.\<close>

definition match_caliper_label :: "string \<Rightarrow> string \<Rightarrow> int \<times> string" where
  "match_caliper_label label sub_label =
    (if label \<noteq> [] \<and> sub_label \<noteq> [] then (cbool (label \<noteq> sub_label), label)
     else if sub_label = [] \<and> label = [] then (0, label)
     else if sub_label = [] \<and> label \<noteq> [] then (1, label)
     else (0, sub_label))"

section \<open>Facts\<close>

lemma gen_path_inj: "gen_path p i = gen_path p j \<Longrightarrow> i = j"
  by (simp add: gen_path_def)

text \<open>Among more names than there are files one is free.\<close>

lemma free_instance:
  assumes "finite {f. file_exists fs f}" "inj name"
  shows "\<exists>k\<ge>n. \<not> file_exists fs (name (k :: nat))"
proof (rule ccontr)
  assume "\<not> ?thesis"
  then have "name ` {n..} \<subseteq> {f. file_exists fs f}" by auto
  then have "finite (name ` {n..})" using assms(1) by (rule finite_subset)
  then have "finite {n..}" using finite_imageD [OF _ inj_on_subset [OF assms(2)]] by auto
  then show False using infinite_Ici [of n] by blast
qed

lemma instance_loop_least:
  assumes "\<not> file_exists fs (name k)" "n < k" "\<forall>j. n < j \<and> j < k \<longrightarrow> file_exists fs (name j)"
  shows "instance_loop fs name n = Some (name k)"
  using assms
proof (induction "k - n" arbitrary: n)
  case (Suc d)
  show ?case
  proof (cases "n + 1 = k")
    case True
    then show ?thesis using Suc.prems by (subst instance_loop.simps) simp
  next
    case False
    then have "file_exists fs (name (n + 1))" using Suc.prems by simp
    moreover have "instance_loop fs name (n + 1) = Some (name k)"
      by (rule Suc.hyps(1)) (use Suc.hyps(2) Suc.prems False in auto)
    ultimately show ?thesis by (subst instance_loop.simps) simp
  qed
qed simp

lemma least_free:
  assumes "finite {f. file_exists fs f}" "inj name"
  shows "\<exists>k>n. \<not> file_exists fs (name (k :: nat)) \<and> (\<forall>j. n < j \<and> j < k \<longrightarrow> file_exists fs (name j))"
proof -
  let ?P = "\<lambda>k. n < k \<and> \<not> file_exists fs (name k)"
  obtain k0 where "?P k0" using free_instance [OF assms, of "n + 1"] by (auto simp: Suc_le_eq)
  then have "?P (Least ?P)" by (rule LeastI)
  moreover have "file_exists fs (name j)" if "n < j" "j < Least ?P" for j
    using not_less_Least [OF that(2)] that(1) by simp
  ultimately show ?thesis by blast
qed

lemma gen_loop_least:
  assumes "\<not> file_exists fs (gen_path p k)" "n \<le> k" "\<forall>j. n \<le> j \<and> j < k \<longrightarrow> file_exists fs (gen_path p j)"
    and "\<forall>j\<le>k. length (gen_path p j) < PATH_MAX"
  shows "gen_loop fs p n = Some (Inr k)"
  using assms
proof (induction "k - n" arbitrary: n)
  case 0
  then have "n = k" by simp
  then show ?case using 0 by (subst gen_loop.simps) (simp add: not_le)
next
  case (Suc d)
  then have "file_exists fs (gen_path p n)" "length (gen_path p n) < PATH_MAX" by auto
  moreover have "gen_loop fs p (n + 1) = Some (Inr k)"
    by (rule Suc.hyps(1)) (use Suc.hyps(2) Suc.prems in auto)
  ultimately show ?case by (subst gen_loop.simps) (simp add: not_le)
qed

text \<open>The names tried in turn fit the buffer: each is the name in full.\<close>

definition names_fit :: "filesys \<Rightarrow> (nat \<Rightarrow> string) \<Rightarrow> (nat \<Rightarrow> string) \<Rightarrow> bool" where
  "names_fit fs name full \<longleftrightarrow>
     (\<forall>k. (\<forall>j. 0 < j \<and> j < k \<longrightarrow> file_exists fs (name j)) \<longrightarrow> name k = full k \<and> length (full k) < PATH_MAX)"

lemma first_free:
  assumes "finite {f. file_exists fs f}" "inj full" "names_fit fs name full"
  shows "\<exists>k>0. \<not> file_exists fs (name k) \<and> (\<forall>j. 0 < j \<and> j < k \<longrightarrow> file_exists fs (name j))"
proof -
  obtain k where k: "0 < k" "\<not> file_exists fs (full k)"
    "\<forall>j. 0 < j \<and> j < k \<longrightarrow> file_exists fs (full j)"
    using least_free [OF assms(1,2), of 0] by auto
  have "name j = full j" if "j \<le> k" for j
    using that
  proof (induction j rule: less_induct)
    case (less j)
    have "file_exists fs (name i)" if "0 < i" "i < j" for i
      using less.IH [OF that(2)] k(3) less.prems that by simp
    then show ?case using assms(3) by (simp add: names_fit_def)
  qed
  then show ?thesis using k by auto
qed

definition full_instance :: "path_host \<Rightarrow> string option \<Rightarrow> pglob \<Rightarrow> nat \<Rightarrow> string" where
  "full_instance ph prefix g inst = (case prefix of None \<Rightarrow> [] | Some p \<Rightarrow> p) @ printf_s (process_name g)
     @ ''.'' @ tool @ ''.'' @ short_host (hostname g) @ ''.'' @ dec_int (ph_pid ph) @ ''.'' @ dec inst"

definition tried_instance :: "path_host \<Rightarrow> string option \<Rightarrow> pglob \<Rightarrow> nat \<Rightarrow> string" where
  "tried_instance ph prefix g = instance_path (case prefix of None \<Rightarrow> [] | Some p \<Rightarrow> p) (process_name g)
     (short_host (hostname g)) (ph_pid ph)"

lemma new_instance_fresh:
  assumes "finite {f. file_exists fs f}" "names_fit fs (tried_instance ph prefix g) (full_instance ph prefix g)"
  shows "\<exists>g' fs'. new_instance ph prefix fs g = Some (g', fs') \<and> \<not> file_exists fs (base_output_path g')"
proof -
  have "inj (full_instance ph prefix g)" by (rule injI) (simp add: full_instance_def)
  then obtain k where k: "0 < k" "\<not> file_exists fs (tried_instance ph prefix g k)"
    "\<forall>j. 0 < j \<and> j < k \<longrightarrow> file_exists fs (tried_instance ph prefix g j)"
    using first_free [OF assms(1) _ assms(2)] by blast
  then have "instance_loop fs (tried_instance ph prefix g) 0 = Some (tried_instance ph prefix g k)"
    by (intro instance_loop_least) auto
  then show ?thesis using k(2) by (simp add: new_instance_def Let_def tried_instance_def)
qed

text \<open>What the searches return is free.\<close>

lemma gen_loop_result:
  assumes "gen_loop fs p n = Some r"
  shows "\<forall>k. r = Inr k \<longrightarrow> n \<le> k \<and> \<not> file_exists fs (gen_path p k)"
proof (rule gen_loop.raw_induct [where P = "\<lambda>fs p n r. \<forall>k. r = Inr k \<longrightarrow> n \<le> k \<and> \<not> file_exists fs (gen_path p k)", OF _ assms])
  fix loop fs p n and r :: "papiex_error + nat"
  assume ih: "\<And>fs p n r. loop fs p n = Some r \<Longrightarrow> \<forall>k. r = Inr k \<longrightarrow> n \<le> k \<and> \<not> file_exists fs (gen_path p k)"
    and eq: "(if PATH_MAX \<le> length (gen_path p n) then Some (Inl PathTooLong)
      else if file_exists fs (gen_path p n) then loop fs p (n + 1) else Some (Inr n)) = Some r"
  show "\<forall>k. r = Inr k \<longrightarrow> n \<le> k \<and> \<not> file_exists fs (gen_path p k)"
  proof (cases "PATH_MAX \<le> length (gen_path p n) \<or> \<not> file_exists fs (gen_path p n)")
    case False
    then have "loop fs p (n + 1) = Some r" using eq by simp
    then show ?thesis using ih [of fs p "n + 1" r] by auto
  qed (use eq in \<open>auto split: if_splits\<close>)
qed

lemmas gen_loop_free = gen_loop_result [rule_format]

lemma instance_loop_free:
  assumes "instance_loop fs name n = Some p"
  shows "\<not> file_exists fs p"
proof (rule instance_loop.raw_induct [where P = "\<lambda>fs name n p. \<not> file_exists fs p", OF _ assms])
  fix loop fs name and n :: nat and p
  assume ih: "\<And>fs name n p. loop fs name n = Some p \<Longrightarrow> \<not> file_exists fs p"
    and eq: "(if file_exists fs (name (n + 1)) then loop fs name (n + 1) else Some (name (n + 1))) = Some p"
  show "\<not> file_exists fs p"
    using ih [of fs name "n + 1" p] eq by (cases "file_exists fs (name (n + 1))") auto
qed

lemma set_base_free:
  assumes "set_base_output_path ph prefix user_file fs g = Some (Inr (g', fs'))"
  shows "\<not> file_exists fs (base_output_path g')" "f \<noteq> path_container \<Longrightarrow> fs' f = fs f"
    "papiex_threaded g' = papiex_threaded g" "all_threads g' = all_threads g" "no_write g' = no_write g"
    "is_mpied g' = is_mpied g" "proc_output_path g' = proc_output_path g" "ntasks g' = ntasks g"
    "papiex_nextgen g' = papiex_nextgen g" "myrank g' = myrank g"
  using assms
  by (auto simp: set_base_output_path_def new_instance_def get_next_gen_def Let_def
      dest: instance_loop_free gen_loop_free split: option.splits if_splits)

section \<open>The search ends\<close>

text \<open>On a finite file system, while the names tried fit the buffer, the search for the base
  path ends, and the path it chooses, the user's file, its next generation or the next
  instance, did not exist before.\<close>
lemma output_path_is_new:
  assumes "finite {f. file_exists fs f}"
    and "names_fit fs (tried_instance ph prefix g) (full_instance ph prefix g)"
    and "\<And>f. user_file = Some f \<Longrightarrow> length f < PATH_MAX \<and> names_fit fs (gen_path f) (gen_path f)"
  shows "\<exists>g' fs'. set_base_output_path ph prefix user_file fs g = Some (Inr (g', fs')) \<and>
    \<not> file_exists fs (base_output_path g')"
proof (cases "\<exists>f. user_file = Some f \<and> f \<noteq> [] \<and> \<not> is_mpied g")
  case True
  then obtain f where f: "user_file = Some f" "f \<noteq> []" "\<not> is_mpied g" by blast
  have fit: "length f < PATH_MAX" "names_fit fs (gen_path f) (gen_path f)" using assms(3) f(1) by auto
  show ?thesis
  proof (cases "file_exists fs f")
    case False
    then show ?thesis using f fit by (simp add: set_base_output_path_def get_next_gen_def not_le)
  next
    case True
    have "inj (gen_path f)" by (rule injI) (rule gen_path_inj)
    then obtain k where k: "0 < k" "\<not> file_exists fs (gen_path f k)"
      "\<forall>j. 0 < j \<and> j < k \<longrightarrow> file_exists fs (gen_path f j)"
      using first_free [OF assms(1) _ fit(2)] by blast
    have "length (gen_path f j) < PATH_MAX" if "j \<le> k" for j
      using fit(2) k(3) that by (simp add: names_fit_def)
    then have "gen_loop fs f 1 = Some (Inr k)"
      using k by (intro gen_loop_least) auto
    then show ?thesis
      using True f fit k by (simp add: set_base_output_path_def get_next_gen_def not_le)
  qed
next
  case False
  then have "set_base_output_path ph prefix user_file fs g = map_option Inr (new_instance ph prefix fs g)"
    by (auto simp: set_base_output_path_def split: option.split)
  then show ?thesis using new_instance_fresh [OF assms(1,2)] by auto
qed

definition sample_files :: filesys where
  "sample_files f = (if f = ''out'' \<or> f = ''out.1'' then Some [] else None)"

definition sample_host :: path_host where
  "sample_host = \<lparr>ph_pid = 42, ph_can_create = (\<lambda>_. True), ph_mkdir = (\<lambda>_. None)\<rparr>"

definition sample_process :: pglob where
  "sample_process = (pglob_start \<lparr>profiling_support = False, have_binutils = False\<rparr>)
     \<lparr>process_name := Some ''app'', hostname := ''node1''\<rparr>"

lemma sample_dec: "dec (Suc 0) = ''1''" "dec 0 = ''0''" "dec 1 = ''1''" "dec 2 = ''2''" "dec_int 42 = ''42''"
  by code_simp+

lemma sample_full:
  "full_instance sample_host None sample_process k = ''app.papiex.node1.42.'' @ dec k"
proof -
  have "short_host ''node1'' = ''node1''" by (simp add: short_host_def)
  then show ?thesis
    by (simp add: full_instance_def sample_host_def sample_process_def pglob_start_def printf_s_def
        tool_def sample_dec)
qed

lemma sample_tried:
  assumes "length (dec k) < 100"
  shows "tried_instance sample_host None sample_process k = full_instance sample_host None sample_process k"
proof -
  have "tried_instance sample_host None sample_process k =
      snprintf_path (full_instance sample_host None sample_process k)"
    by (simp add: tried_instance_def full_instance_def instance_path_def)
  also have "\<dots> = full_instance sample_host None sample_process k"
    using assms by (simp add: snprintf_path_def sample_full PATH_MAX_def)
  finally show ?thesis .
qed

lemma sample_fit:
  "finite {f. file_exists sample_files f}"
  "names_fit sample_files (tried_instance sample_host None sample_process)
     (full_instance sample_host None sample_process)"
  "names_fit sample_files (gen_path ''out'') (gen_path ''out'')"
proof -
  have "{f. file_exists sample_files f} = {''out'', ''out.1''}"
    by (auto simp: file_exists_def sample_files_def)
  then show "finite {f. file_exists sample_files f}" by simp
  have t: "tried_instance sample_host None sample_process k = full_instance sample_host None sample_process k"
    "length (full_instance sample_host None sample_process k) < PATH_MAX" if "k \<le> 1" for k
  proof -
    have "k = 0 \<or> k = 1" using that by auto
    then have "length (dec k) = 1" using sample_dec by (elim disjE) simp_all
    then show "tried_instance sample_host None sample_process k = full_instance sample_host None sample_process k"
      "length (full_instance sample_host None sample_process k) < PATH_MAX"
      using sample_tried [of k] by (simp_all add: sample_full PATH_MAX_def)
  qed
  have "\<not> file_exists sample_files (tried_instance sample_host None sample_process 1)"
    unfolding t(1) [OF order.refl] by (simp add: sample_full file_exists_def sample_files_def)
  then have "k \<le> 1" if "\<forall>j. 0 < j \<and> j < k \<longrightarrow> file_exists sample_files
      (tried_instance sample_host None sample_process j)" for k
    using that by (meson less_numeral_extra(1) not_le)
  then show "names_fit sample_files (tried_instance sample_host None sample_process)
     (full_instance sample_host None sample_process)"
    unfolding names_fit_def using t by blast
  have "\<not> file_exists sample_files (gen_path ''out'' 2)"
    by (simp add: file_exists_def sample_files_def gen_path_def sample_dec)
  then have "k \<le> 2" if "\<forall>j. 0 < j \<and> j < k \<longrightarrow> file_exists sample_files (gen_path ''out'' j)" for k
    using that by (meson not_le zero_less_numeral)
  moreover have "length (gen_path ''out'' k) < PATH_MAX" if "k \<le> 2" for k
  proof -
    have "k = 0 \<or> k = 1 \<or> k = 2" using that by auto
    then show ?thesis by (auto simp: gen_path_def sample_dec PATH_MAX_def)
  qed
  ultimately show "names_fit sample_files (gen_path ''out'') (gen_path ''out'')"
    unfolding names_fit_def by blast
qed

text \<open>With out and out.1 there, the search goes on to another name.\<close>

lemma sample_new_path:
  "\<exists>g' fs'. set_base_output_path sample_host None (Some ''out'') sample_files sample_process =
      Some (Inr (g', fs')) \<and> \<not> file_exists sample_files (base_output_path g') \<and>
    file_exists sample_files ''out''"
  using output_path_is_new [OF sample_fit(1,2), of "Some ''out''"] sample_fit(3)
  by (auto simp: PATH_MAX_def file_exists_def sample_files_def)

end
