(* ===== verification/Caliper.thy ===== *)
theory Caliper
  imports PapiexState
begin

text \<open>
  papiex.c: papiex_start, papiex_stop and papiex_accum on one thread's calipers.  What the
  clocks and the counters show at a call is a parameter, the reading; a skipped read
  leaves the local variables of the C function unset, and the reading then stands for
  what they happen to hold.
\<close>

section \<open>Readings\<close>

record reading =
  rd_papi_ok :: bool
  rd_counters :: "nat \<Rightarrow> clonglong"
  rd_real_cyc :: clonglong
  rd_real_usec :: clonglong
  rd_virt_usec :: clonglong
  rd_virt_cyc :: clonglong
  rd_running_long :: bool

text \<open>Whether the call reads the counters: the workaround for the multiplex bug of PAPI.\<close>

definition does_read :: "pglob \<Rightarrow> reading \<Rightarrow> bool" where
  "does_read g r \<longleftrightarrow> \<not> papi_mpx_zero_counts_bug g \<or> \<not> multiplex g \<or> rd_running_long r"

definition eventcnt :: "pglob \<Rightarrow> nat" where "eventcnt g = length (eventnames g)"

text \<open>used is a float that is incremented: from 2^24 on it no longer moves.\<close>

definition used_inc :: "nat \<Rightarrow> nat" where
  "used_inc u = (if u < 2 ^ 24 then u + 1 else u)"

definition upd_cal :: "int \<Rightarrow> (caliper \<Rightarrow> caliper) \<Rightarrow> perthread \<Rightarrow> perthread" where
  "upd_cal p f t = t\<lparr>pt_data := (pt_data t)[nat p := f (pt_data t ! nat p)]\<rparr>"

section \<open>papiex_start\<close>

definition start_label :: "int \<Rightarrow> string option \<Rightarrow> caliper \<Rightarrow> caliper" where
  "start_label point label c =
    (case label of
       None \<Rightarrow> c
     | Some l \<Rightarrow> if point \<noteq> 0 \<and> cal_label c = [] then c\<lparr>cal_label := take (MAX_LABEL_SIZE - 1) l\<rparr> else c)"

text \<open>The clocks of point 0 (FULL_CALIPER_DATA is not defined).\<close>

definition start_clocks :: "pglob \<Rightarrow> reading \<Rightarrow> perthread \<Rightarrow> caliper \<Rightarrow> caliper" where
  "start_clocks g r t c =
    (let c1 = c\<lparr>tmp_virt_usec := rd_virt_usec r, tmp_real_usec := rd_real_usec r,
                tmp_virt_cyc := rd_virt_cyc r\<rparr>;
         c2 = (if \<not> no_mpi_prof g \<and> is_mpied g
               then c1\<lparr>tmp_mpiprof := papiex_mpiprof t, tmp_mpisyncprof := papiex_mpisyncprof t\<rparr> else c1);
         c3 = (if \<not> no_io_prof g then c2\<lparr>tmp_ioprof := papiex_ioprof t\<rparr> else c2)
     in if \<not> no_threadsync_prof g then c3\<lparr>tmp_threadsyncprof := papiex_threadsyncprof t\<rparr> else c3)"

text \<open>The array of counters PAPI_read_ts fills has one entry per event.\<close>

definition read_into :: "nat \<Rightarrow> (nat \<Rightarrow> clonglong) \<Rightarrow> (nat \<Rightarrow> clonglong) \<Rightarrow> nat \<Rightarrow> clonglong" where
  "read_into n new old i = (if i < n then new i else old i)"

definition start_read :: "pglob \<Rightarrow> reading \<Rightarrow> caliper \<Rightarrow> caliper" where
  "start_read g r c =
    (if does_read g r
     then c\<lparr>tmp_counters := read_into (eventcnt g) (rd_counters r) (tmp_counters c),
            tmp_real_cyc := rd_real_cyc r\<rparr>
     else c)"

definition cal_start :: "pglob \<Rightarrow> reading \<Rightarrow> int \<Rightarrow> string option \<Rightarrow> perthread \<Rightarrow> papiex_error + perthread" where
  "cal_start g r point label t =
    (if point < 0 then Inl (CaliperOutOfRange point)
     else if point \<ge> max_caliper_entries t then Inr t
     else if cal_depth (pt_data t ! nat point) \<noteq> 0 then Inl (CaliperInUse point)
     else
       let t1 = upd_cal point (\<lambda>c. start_label point label (c\<lparr>cal_depth := cal_depth c + 1\<rparr>)) t;
           t2 = (if max_caliper_used t1 \<le> point then t1\<lparr>max_caliper_used := point\<rparr> else t1);
           t3 = (if point = 0 then upd_cal point (start_clocks g r t2) t2 else t2)
       in Inr (upd_cal point (start_read g r) t3))"

section \<open>papiex_stop\<close>

definition add_counters :: "pglob \<Rightarrow> reading \<Rightarrow> caliper \<Rightarrow> caliper" where
  "add_counters g r c = c\<lparr>counters :=
     (\<lambda>i. if i < eventcnt g then counters c i + (rd_counters r i - tmp_counters c i) else counters c i)\<rparr>"

definition stop_clocks :: "pglob \<Rightarrow> reading \<Rightarrow> perthread \<Rightarrow> caliper \<Rightarrow> caliper" where
  "stop_clocks g r t c =
    (let c1 = c\<lparr>real_usec := real_usec c + (rd_real_usec r - tmp_real_usec c),
                virt_usec := virt_usec c + (rd_virt_usec r - tmp_virt_usec c),
                virt_cyc := virt_cyc c + (rd_virt_cyc r - tmp_virt_cyc c)\<rparr>;
         c2 = (if \<not> no_mpi_prof g \<and> is_mpied g
               then c1\<lparr>mpiprof := mpiprof c1 + (papiex_mpiprof t - tmp_mpiprof c1),
                       mpisyncprof := mpisyncprof c1 + (papiex_mpisyncprof t - tmp_mpisyncprof c1)\<rparr> else c1);
         c3 = (if \<not> no_io_prof g then c2\<lparr>ioprof := ioprof c2 + (papiex_ioprof t - tmp_ioprof c2)\<rparr> else c2)
     in if \<not> no_threadsync_prof g
        then c3\<lparr>threadsyncprof := threadsyncprof c3 + (papiex_threadsyncprof t - tmp_threadsyncprof c3)\<rparr>
        else c3)"

text \<open>Without a read, retval is still the PAPI_OK of the call before.\<close>

definition read_status :: "pglob \<Rightarrow> reading \<Rightarrow> bool" where
  "read_status g r \<longleftrightarrow> (if does_read g r then rd_papi_ok r else True)"

definition cal_stop :: "pglob \<Rightarrow> reading \<Rightarrow> int \<Rightarrow> perthread \<Rightarrow> papiex_error + perthread" where
  "cal_stop g r point t =
    (if point < 0 then Inl (CaliperOutOfRange point)
     else if point \<ge> max_caliper_entries t then Inr t
     else if cal_depth (pt_data t ! nat point) = 0 then Inl (CaliperNotInUse point)
     else
       let t1 = upd_cal point (\<lambda>c. c\<lparr>cal_depth := cal_depth c - 1, cal_used := used_inc (cal_used c),
                                 real_cyc := real_cyc c + (rd_real_cyc r - tmp_real_cyc c)\<rparr>) t
       in Inr (if read_status g r
               then let t2 = upd_cal point (add_counters g r) t1
                    in if point = 0 then upd_cal point (stop_clocks g r t2) t2 else t2
               else t1))"

section \<open>papiex_accum\<close>

definition accum_counters :: "pglob \<Rightarrow> reading \<Rightarrow> caliper \<Rightarrow> caliper" where
  "accum_counters g r c =
     (add_counters g r c)\<lparr>tmp_counters := read_into (eventcnt g) (rd_counters r) (tmp_counters c)\<rparr>"

text \<open>Point 0 is excluded at the top, so the clocks of point 0 are never accumulated.\<close>

definition cal_accum :: "pglob \<Rightarrow> reading \<Rightarrow> int \<Rightarrow> perthread \<Rightarrow> papiex_error + perthread" where
  "cal_accum g r point t =
    (if point \<le> 0 then Inl (CaliperOutOfRange point)
     else if point \<ge> max_caliper_entries t then Inr t
     else if cal_depth (pt_data t ! nat point) = 0 then Inl (CaliperNotInUse point)
     else
       let t1 = upd_cal point (\<lambda>c. c\<lparr>cal_used := used_inc (cal_used c),
                                 real_cyc := real_cyc c + (rd_real_cyc r - tmp_real_cyc c),
                                 tmp_real_cyc := rd_real_cyc r\<rparr>) t
       in Inr (if read_status g r then upd_cal point (accum_counters g r) t1 else t1))"

section \<open>The calls on the process state\<close>

text \<open>The calling thread's structure; without one the process ends.  A process that is
  linked with the library but not run under papiex has no events and does nothing.\<close>

definition with_thread ::
  "nat \<Rightarrow> (perthread \<Rightarrow> papiex_error + perthread) \<Rightarrow> pglob \<Rightarrow> papiex_error + pglob" where
  "with_thread self f g =
    (if eventcnt g = 0 then Inr g
     else case thread_data g self of
            None \<Rightarrow> Inl ThreadDataNull
          | Some i \<Rightarrow> rbind (f (thread_heap g ! i)) (\<lambda>t. Inr (g\<lparr>thread_heap := (thread_heap g)[i := t]\<rparr>)))"

definition papiex_start :: "nat \<Rightarrow> reading \<Rightarrow> int \<Rightarrow> string option \<Rightarrow> pglob \<Rightarrow> papiex_error + pglob" where
  "papiex_start self r point label g = with_thread self (cal_start g r point label) g"

definition papiex_stop :: "nat \<Rightarrow> reading \<Rightarrow> int \<Rightarrow> pglob \<Rightarrow> papiex_error + pglob" where
  "papiex_stop self r point g = with_thread self (cal_stop g r point) g"

definition papiex_accum :: "nat \<Rightarrow> reading \<Rightarrow> int \<Rightarrow> pglob \<Rightarrow> papiex_error + pglob" where
  "papiex_accum self r point g = with_thread self (cal_accum g r point) g"

text \<open>The Fortran names, which are given the address of the point; the four spellings of each
  are alike.  mem is the memory the pointers lead to.\<close>

definition papiex_start_fortran ::
  "(cptr \<Rightarrow> int) \<Rightarrow> nat \<Rightarrow> reading \<Rightarrow> cptr \<Rightarrow> string option \<Rightarrow> pglob \<Rightarrow> papiex_error + pglob" where
  "papiex_start_fortran mem self r point label g = papiex_start self r (mem point) label g"

definition papiex_stop_fortran ::
  "(cptr \<Rightarrow> int) \<Rightarrow> nat \<Rightarrow> reading \<Rightarrow> cptr \<Rightarrow> pglob \<Rightarrow> papiex_error + pglob" where
  "papiex_stop_fortran mem self r point g = papiex_stop self r (mem point) g"

definition papiex_accum_fortran ::
  "(cptr \<Rightarrow> int) \<Rightarrow> nat \<Rightarrow> reading \<Rightarrow> cptr \<Rightarrow> pglob \<Rightarrow> papiex_error + pglob" where
  "papiex_accum_fortran mem self r point g = papiex_accum self r (mem point) g"

section \<open>Sequences of calls\<close>

datatype cal_op =
    OpStart int "string option" reading
  | OpStop int reading
  | OpAccum int reading

fun run_op :: "pglob \<Rightarrow> cal_op \<Rightarrow> perthread \<Rightarrow> papiex_error + perthread" where
  "run_op g (OpStart p l r) t = cal_start g r p l t"
| "run_op g (OpStop p r) t = cal_stop g r p t"
| "run_op g (OpAccum p r) t = cal_accum g r p t"

fun run_ops :: "pglob \<Rightarrow> cal_op list \<Rightarrow> perthread \<Rightarrow> papiex_error + perthread" where
  "run_ops g [] t = Inr t"
| "run_ops g (op # ops) t = rbind (run_op g op t) (run_ops g ops)"

fun op_point :: "cal_op \<Rightarrow> int" where
  "op_point (OpStart p l r) = p"
| "op_point (OpStop p r) = p"
| "op_point (OpAccum p r) = p"

fun op_reading :: "cal_op \<Rightarrow> reading" where
  "op_reading (OpStart p l r) = r"
| "op_reading (OpStop p r) = r"
| "op_reading (OpAccum p r) = r"

fun is_accum :: "cal_op \<Rightarrow> bool" where
  "is_accum (OpAccum p r) = True"
| "is_accum op = False"

text \<open>A reading that really comes from the counters.\<close>

definition real_reading :: "pglob \<Rightarrow> reading \<Rightarrow> bool" where
  "real_reading g r \<longleftrightarrow> does_read g r \<and> rd_papi_ok r"

text \<open>A caliper at rest or in use once, in a structure of the allocated size.\<close>

definition cal_inv :: "perthread \<Rightarrow> bool" where
  "cal_inv t \<longleftrightarrow> length (pt_data t) = PAPIEX_MAX_CALIPERS \<and>
     max_caliper_entries t = int PAPIEX_MAX_CALIPERS \<and>
     0 \<le> max_caliper_used t \<and> max_caliper_used t < max_caliper_entries t \<and>
     (\<forall>c\<in>set (pt_data t). cal_depth c \<in> {0, 1} \<and> length (cal_label c) < MAX_LABEL_SIZE \<and> cal_used c \<le> 2 ^ 24)"

section \<open>Facts\<close>

lemma upd_cal_simps [simp, op_simps]:
  "length (pt_data (upd_cal p f t)) = length (pt_data t)"
  "max_caliper_entries (upd_cal p f t) = max_caliper_entries t"
  "max_caliper_used (upd_cal p f t) = max_caliper_used t"
  "nat p < length (pt_data t) \<Longrightarrow> pt_data (upd_cal p f t) ! nat p = f (pt_data t ! nat p)"
  "q \<noteq> nat p \<Longrightarrow> pt_data (upd_cal p f t) ! q = pt_data t ! q"
  "pt_data t \<noteq> [] \<Longrightarrow> pt_data (upd_cal 0 f t) ! 0 = f (pt_data t ! 0)"
  "pt_data (upd_cal p f t) = [] \<longleftrightarrow> pt_data t = []"
  by (simp_all add: upd_cal_def)

text \<open>What one call does to the caliper it names and to the others.\<close>

lemma cal_step_frame:
  assumes "run_op g op t = Inr t'"
  shows "length (pt_data t') = length (pt_data t)"
    and "max_caliper_entries t' = max_caliper_entries t"
    and "q \<noteq> nat (op_point op) \<Longrightarrow> pt_data t' ! q = pt_data t ! q"
  using assms
  by (cases op; auto simp: cal_start_def cal_stop_def cal_accum_def Let_def split: if_splits)+

lemma start_parts [simp]:
  "cal_depth (start_label p l c) = cal_depth c" "cal_used (start_label p l c) = cal_used c"
  "counters (start_label p l c) = counters c" "real_cyc (start_label p l c) = real_cyc c"
  "cal_depth (start_clocks g r t c) = cal_depth c" "cal_used (start_clocks g r t c) = cal_used c"
  "counters (start_clocks g r t c) = counters c" "real_cyc (start_clocks g r t c) = real_cyc c"
  "cal_depth (start_read g r c) = cal_depth c" "cal_used (start_read g r c) = cal_used c"
  "counters (start_read g r c) = counters c" "real_cyc (start_read g r c) = real_cyc c"
  "cal_label (start_clocks g r t c) = cal_label c" "cal_label (start_read g r c) = cal_label c"
  by (simp_all add: start_label_def start_clocks_def start_read_def Let_def split: option.splits)

lemma start_read_tmp:
  assumes "does_read g r"
  shows "i < eventcnt g \<Longrightarrow> tmp_counters (start_read g r c) i = rd_counters r i"
    and "tmp_real_cyc (start_read g r c) = rd_real_cyc r"
  using assms by (simp_all add: start_read_def read_into_def)

lemma stop_parts [simp]:
  "cal_depth (add_counters g r c) = cal_depth c" "cal_used (add_counters g r c) = cal_used c"
  "real_cyc (add_counters g r c) = real_cyc c" "cal_label (add_counters g r c) = cal_label c"
  "cal_depth (stop_clocks g r t c) = cal_depth c" "cal_used (stop_clocks g r t c) = cal_used c"
  "counters (stop_clocks g r t c) = counters c" "real_cyc (stop_clocks g r t c) = real_cyc c"
  "cal_label (stop_clocks g r t c) = cal_label c"
  "cal_depth (accum_counters g r c) = cal_depth c" "cal_used (accum_counters g r c) = cal_used c"
  "real_cyc (accum_counters g r c) = real_cyc c" "tmp_real_cyc (accum_counters g r c) = tmp_real_cyc c"
  "cal_label (accum_counters g r c) = cal_label c"
  by (simp_all add: add_counters_def stop_clocks_def accum_counters_def Let_def)

end
