(* ===== verification/CaliperFacts.thy ===== *)
theory CaliperFacts
  imports Caliper
begin

text \<open>
  Facts and properties of papiex's calipers: the interval a start and a stop measure, the
  protocol of calls that never ends the process, and the invariant of a thread's
  structure.
\<close>

section \<open>One call at its caliper\<close>

definition in_range :: "int \<Rightarrow> bool" where
  "in_range p \<longleftrightarrow> 0 \<le> p \<and> p < int PAPIEX_MAX_CALIPERS"

definition cal_size_ok :: "perthread \<Rightarrow> bool" where
  "cal_size_ok t \<longleftrightarrow> length (pt_data t) = PAPIEX_MAX_CALIPERS \<and> max_caliper_entries t = int PAPIEX_MAX_CALIPERS"

lemma size_ok_step: "run_op g op t = Inr t' \<Longrightarrow> cal_size_ok t \<Longrightarrow> cal_size_ok t'"
  using cal_step_frame(1,2) [of g op t t'] by (simp add: cal_size_ok_def)

lemma in_range_nth: "in_range p \<Longrightarrow> cal_size_ok t \<Longrightarrow> nat p < length (pt_data t)"
  by (auto simp: in_range_def cal_size_ok_def)

lemma start_at:
  assumes "in_range p" "cal_size_ok t" "cal_depth (pt_data t ! nat p) = 0"
  shows "\<exists>t'. cal_start g r p l t = Inr t' \<and>
    (let c = pt_data t ! nat p; c' = pt_data t' ! nat p in
     cal_depth c' = 1 \<and> cal_used c' = cal_used c \<and> counters c' = counters c \<and> real_cyc c' = real_cyc c \<and>
     (does_read g r \<longrightarrow> tmp_real_cyc c' = rd_real_cyc r \<and> (\<forall>i<eventcnt g. tmp_counters c' i = rd_counters r i)))"
proof -
  have n: "nat p < length (pt_data t)" by (rule in_range_nth [OF assms(1,2)])
  then have ne: "pt_data t \<noteq> []" by auto
  have p: "\<not> p < 0" "\<not> p \<ge> max_caliper_entries t" using assms(1,2) by (auto simp: in_range_def cal_size_ok_def)
  show ?thesis
    using assms(3) n ne p start_read_tmp [of g r] by (cases "p = 0") (simp_all add: cal_start_def Let_def)
qed

lemma stop_at:
  assumes "in_range p" "cal_size_ok t" "cal_depth (pt_data t ! nat p) \<noteq> 0"
  shows "\<exists>t'. cal_stop g r p t = Inr t' \<and>
    (let c = pt_data t ! nat p; c' = pt_data t' ! nat p in
     cal_depth c' = cal_depth c - 1 \<and> cal_used c' = used_inc (cal_used c) \<and>
     real_cyc c' = real_cyc c + (rd_real_cyc r - tmp_real_cyc c) \<and>
     (read_status g r \<longrightarrow> (\<forall>i<eventcnt g. counters c' i = counters c i + (rd_counters r i - tmp_counters c i))))"
proof -
  have n: "nat p < length (pt_data t)" by (rule in_range_nth [OF assms(1,2)])
  then have ne: "pt_data t \<noteq> []" by auto
  have p: "\<not> p < 0" "\<not> p \<ge> max_caliper_entries t" using assms(1,2) by (auto simp: in_range_def cal_size_ok_def)
  show ?thesis
    using assms(3) n ne p by (cases "p = 0") (simp_all add: cal_stop_def Let_def add_counters_def)
qed

lemma accum_at:
  assumes "in_range p" "0 < p" "cal_size_ok t" "cal_depth (pt_data t ! nat p) \<noteq> 0"
  shows "\<exists>t'. cal_accum g r p t = Inr t' \<and>
    (let c = pt_data t ! nat p; c' = pt_data t' ! nat p in
     cal_depth c' = cal_depth c \<and> cal_used c' = used_inc (cal_used c) \<and>
     real_cyc c' = real_cyc c + (rd_real_cyc r - tmp_real_cyc c) \<and> tmp_real_cyc c' = rd_real_cyc r \<and>
     (read_status g r \<longrightarrow> (\<forall>i<eventcnt g. tmp_counters c' i = rd_counters r i \<and>
        counters c' i = counters c i + (rd_counters r i - tmp_counters c i))))"
proof -
  have n: "nat p < length (pt_data t)" by (rule in_range_nth [OF assms(1,3)])
  have p: "\<not> p \<le> 0" "\<not> p \<ge> max_caliper_entries t" using assms(1-3) by (auto simp: in_range_def cal_size_ok_def)
  show ?thesis
    using assms(4) n p by (simp add: cal_accum_def Let_def accum_counters_def add_counters_def read_into_def)
qed

lemma real_reading_status: "real_reading g r \<Longrightarrow> read_status g r \<and> does_read g r"
  by (simp add: real_reading_def read_status_def)

section \<open>Between a start and a stop\<close>

text \<open>A call between them: another caliper's, or an accum of this one.\<close>

definition between :: "pglob \<Rightarrow> int \<Rightarrow> cal_op \<Rightarrow> bool" where
  "between g p op \<longleftrightarrow>
     (op_point op \<noteq> p \<and> 0 \<le> op_point op) \<or> (is_accum op \<and> op_point op = p \<and> real_reading g (op_reading op))"

text \<open>What such calls keep: the caliper open, and the total less the last reading.\<close>

lemma between_step:
  assumes "run_op g op t = Inr t'" "between g p op" "in_range p" "cal_size_ok t"
    and "cal_depth (pt_data t ! nat p) = 1"
  shows "cal_depth (pt_data t' ! nat p) = 1 \<and>
    real_cyc (pt_data t' ! nat p) - tmp_real_cyc (pt_data t' ! nat p) =
      real_cyc (pt_data t ! nat p) - tmp_real_cyc (pt_data t ! nat p) \<and>
    (\<forall>i<eventcnt g. counters (pt_data t' ! nat p) i - tmp_counters (pt_data t' ! nat p) i =
      counters (pt_data t ! nat p) i - tmp_counters (pt_data t ! nat p) i)"
proof (cases "is_accum op \<and> op_point op = p")
  case True
  then obtain r where op: "op = OpAccum p r" by (cases op) auto
  then have r: "read_status g r" using assms(2) real_reading_status by (auto simp: between_def)
  have acc: "cal_accum g r p t = Inr t'" using assms(1) op by simp
  have p0: "0 < p" using acc by (auto simp: cal_accum_def split: if_splits)
  show ?thesis
    using accum_at [OF assms(3) p0 assms(4), of g r] assms(5) acc r by (auto simp: Let_def)
next
  case False
  then have ne: "op_point op \<noteq> p" "0 \<le> op_point op" using assms(2) by (auto simp: between_def)
  then have "nat p \<noteq> nat (op_point op)" using assms(3) by (auto simp: in_range_def)
  then show ?thesis using cal_step_frame(3) [OF assms(1)] assms(5) by simp
qed

lemma between_run:
  assumes "run_ops g ops t = Inr t'" "\<forall>op\<in>set ops. between g p op" "in_range p" "cal_size_ok t"
    and "cal_depth (pt_data t ! nat p) = 1"
  shows "cal_size_ok t' \<and> cal_depth (pt_data t' ! nat p) = 1 \<and>
    real_cyc (pt_data t' ! nat p) - tmp_real_cyc (pt_data t' ! nat p) =
      real_cyc (pt_data t ! nat p) - tmp_real_cyc (pt_data t ! nat p) \<and>
    (\<forall>i<eventcnt g. counters (pt_data t' ! nat p) i - tmp_counters (pt_data t' ! nat p) i =
      counters (pt_data t ! nat p) i - tmp_counters (pt_data t ! nat p) i)"
  using assms
proof (induction ops arbitrary: t)
  case (Cons op ops)
  obtain t1 where t1: "run_op g op t = Inr t1" "run_ops g ops t1 = Inr t'" using Cons.prems(1) by auto
  note s = between_step [OF t1(1) _ Cons.prems(3-5)] size_ok_step [OF t1(1) Cons.prems(4)]
  show ?case using Cons.IH [OF t1(2) _ Cons.prems(3) s(2)] s(1) Cons.prems(2) by auto
qed simp

lemma run_ops_append: "run_ops g (xs @ ys) t = rbind (run_ops g xs t) (run_ops g ys)"
proof (induction xs arbitrary: t)
  case (Cons x xs)
  then show ?case by (cases "run_op g x t") auto
qed simp

section \<open>The protocol\<close>

datatype mark = MStart | MStop | MAccum

fun op_mark :: "cal_op \<Rightarrow> mark" where
  "op_mark (OpStart p l r) = MStart"
| "op_mark (OpStop p r) = MStop"
| "op_mark (OpAccum p r) = MAccum"

definition marks :: "int \<Rightarrow> cal_op list \<Rightarrow> mark list" where
  "marks p ops = map op_mark (filter (\<lambda>op. op_point op = p) ops)"

text \<open>Start and stop in turn, accum only in between.\<close>

fun alternates :: "bool \<Rightarrow> mark list \<Rightarrow> bool" where
  "alternates opened [] = True"
| "alternates opened (MStart # ms) = (\<not> opened \<and> alternates True ms)"
| "alternates opened (MStop # ms) = (opened \<and> alternates False ms)"
| "alternates opened (MAccum # ms) = (opened \<and> alternates opened ms)"

definition point_ok :: "cal_op \<Rightarrow> bool" where
  "point_ok op \<longleftrightarrow> (if is_accum op then 0 < op_point op else 0 \<le> op_point op)"

definition opened :: "perthread \<Rightarrow> int \<Rightarrow> bool" where
  "opened t p \<longleftrightarrow> cal_depth (pt_data t ! nat p) = 1"

definition depths_ok :: "perthread \<Rightarrow> bool" where
  "depths_ok t \<longleftrightarrow> cal_size_ok t \<and> (\<forall>p. in_range p \<longrightarrow> cal_depth (pt_data t ! nat p) \<in> {0, 1})"

text \<open>The state of a caliper after a call, and whether the call goes through.\<close>

fun after_mark :: "mark \<Rightarrow> bool" where
  "after_mark MStart = True" | "after_mark MStop = False" | "after_mark MAccum = True"

lemma op_goes:
  assumes "depths_ok t" "point_ok op" "in_range (op_point op)"
  shows "(\<exists>t'. run_op g op t = Inr t') \<longleftrightarrow> (opened t (op_point op) \<longleftrightarrow> op_mark op \<noteq> MStart)"
    and "run_op g op t = Inr t' \<Longrightarrow> opened t' (op_point op) = after_mark (op_mark op) \<and>
      cal_depth (pt_data t' ! nat (op_point op)) \<in> {0, 1}"
proof -
  let ?p = "op_point op"
  have s: "cal_size_ok t" "cal_depth (pt_data t ! nat ?p) = 0 \<or> cal_depth (pt_data t ! nat ?p) = 1"
    using assms(1,3) by (auto simp: depths_ok_def)
  have p: "\<not> ?p < 0" "\<not> ?p \<ge> max_caliper_entries t"
    using assms(3) s(1) by (auto simp: in_range_def cal_size_ok_def)
  have "(\<exists>t'. run_op g op t = Inr t') \<longleftrightarrow> (opened t ?p \<longleftrightarrow> op_mark op \<noteq> MStart)"
    using p s(2) assms(2)
    by (cases op) (auto simp: cal_start_def cal_stop_def cal_accum_def opened_def point_ok_def Let_def)
  moreover have "opened t' ?p = after_mark (op_mark op) \<and> cal_depth (pt_data t' ! nat ?p) \<in> {0, 1}"
    if run: "run_op g op t = Inr t'"
  proof (cases op)
    case (OpStart q l r)
    then have q: "in_range q" "cal_start g r q l t = Inr t'" using assms(3) run by simp_all
    then have "cal_depth (pt_data t ! nat q) = 0"
      using p OpStart by (auto simp: cal_start_def Let_def split: if_splits)
    then show ?thesis using start_at [OF q(1) s(1), of g r l] q(2) OpStart by (auto simp: opened_def Let_def)
  next
    case (OpStop q r)
    then have q: "in_range q" "cal_stop g r q t = Inr t'" using assms(3) run by simp_all
    then have "cal_depth (pt_data t ! nat q) \<noteq> 0"
      using p OpStop by (auto simp: cal_stop_def Let_def split: if_splits)
    then show ?thesis using stop_at [OF q(1) s(1), of g r] q(2) OpStop s(2) by (auto simp: opened_def Let_def)
  next
    case (OpAccum q r)
    then have q: "in_range q" "cal_accum g r q t = Inr t'" "0 < q"
      using assms(2,3) run by (simp_all add: point_ok_def)
    then have "cal_depth (pt_data t ! nat q) \<noteq> 0"
      using p OpAccum by (auto simp: cal_accum_def Let_def split: if_splits)
    then show ?thesis using accum_at [OF q(1,3) s(1), of g r] q(2) OpAccum s(2) by (auto simp: opened_def Let_def)
  qed
  ultimately show "(\<exists>t'. run_op g op t = Inr t') \<longleftrightarrow> (opened t ?p \<longleftrightarrow> op_mark op \<noteq> MStart)"
    "run_op g op t = Inr t' \<Longrightarrow> opened t' ?p = after_mark (op_mark op) \<and> cal_depth (pt_data t' ! nat ?p) \<in> {0, 1}"
    by blast+
qed

lemma op_out_of_range:
  assumes "cal_size_ok t" "\<not> in_range (op_point op)" "point_ok op"
  shows "run_op g op t = Inr t"
  using assms
  by (cases op) (auto simp: in_range_def point_ok_def cal_size_ok_def cal_start_def cal_stop_def cal_accum_def)

lemma op_bad_point: "\<not> point_ok op \<Longrightarrow> \<exists>e. run_op g op t = Inl e"
  by (cases op) (auto simp: point_ok_def cal_start_def cal_stop_def cal_accum_def)

lemma depths_step:
  assumes "run_op g op t = Inr t'" "depths_ok t"
  shows "depths_ok t'"
proof -
  have pok: "point_ok op" using op_bad_point [of op g t] assms(1) by auto
  have s: "cal_size_ok t'" using size_ok_step [OF assms(1)] assms(2) by (simp add: depths_ok_def)
  have "cal_depth (pt_data t' ! nat p) \<in> {0, 1}" if p: "in_range p" for p
  proof (cases "p = op_point op")
    case True
    then show ?thesis using op_goes(2) [OF assms(2) pok _ assms(1)] p by simp
  next
    case False
    show ?thesis
    proof (cases "in_range (op_point op)")
      case True
      then have "nat p \<noteq> nat (op_point op)" using p False by (auto simp: in_range_def)
      then show ?thesis using cal_step_frame(3) [OF assms(1)] assms(2) p by (simp add: depths_ok_def)
    next
      case out: False
      then have "t' = t" using op_out_of_range [of t op g] assms pok by (simp add: depths_ok_def)
      then show ?thesis using assms(2) p by (simp add: depths_ok_def)
    qed
  qed
  then show ?thesis using s by (simp add: depths_ok_def)
qed

lemma alternates_cons:
  "alternates b (m # ms) \<longleftrightarrow> (b \<longleftrightarrow> m \<noteq> MStart) \<and> alternates (after_mark m) ms"
  by (cases m) auto

lemma marks_cons [simp]:
  "marks p (op # ops) = (if op_point op = p then op_mark op # marks p ops else marks p ops)"
  "marks p [] = []"
  by (simp_all add: marks_def)

lemma protocol_iff:
  assumes "depths_ok t"
  shows "(\<exists>t'. run_ops g ops t = Inr t') \<longleftrightarrow>
    (\<forall>op\<in>set ops. point_ok op) \<and> (\<forall>p. in_range p \<longrightarrow> alternates (opened t p) (marks p ops))"
  using assms
proof (induction ops arbitrary: t)
  case (Cons op ops)
  show ?case
  proof (cases "point_ok op")
    case False
    then show ?thesis using op_bad_point [of op g t] by auto
  next
    case pok: True
    show ?thesis
    proof (cases "in_range (op_point op)")
      case False
      then have "run_op g op t = Inr t" using op_out_of_range [of t op g] Cons.prems pok by (simp add: depths_ok_def)
      moreover have "marks p (op # ops) = marks p ops" if "in_range p" for p using that False by auto
      ultimately show ?thesis using Cons.IH [OF Cons.prems] pok by simp
    next
      case inr: True
      note g1 = op_goes [OF Cons.prems pok inr, of g]
      show ?thesis
      proof (cases "opened t (op_point op) \<longleftrightarrow> op_mark op \<noteq> MStart")
        case False
        then have "\<not> (\<exists>t'. run_op g op t = Inr t')" using g1(1) by blast
        moreover have "\<not> alternates (opened t (op_point op)) (marks (op_point op) (op # ops))"
          using False by (simp add: alternates_cons)
        ultimately show ?thesis using inr by (auto simp del: marks_cons)
      next
        case True
        then obtain t1 where t1: "run_op g op t = Inr t1" using g1(1) by blast
        have o: "opened t1 p = (if p = op_point op then after_mark (op_mark op) else opened t p)"
          if "in_range p" for p
        proof (cases "p = op_point op")
          case False
          then have "nat p \<noteq> nat (op_point op)" using inr that by (auto simp: in_range_def)
          then show ?thesis using cal_step_frame(3) [OF t1] False by (simp add: opened_def)
        qed (use g1(2) [OF t1] in simp)
        have "alternates (opened t p) (marks p (op # ops)) \<longleftrightarrow> alternates (opened t1 p) (marks p ops)"
          if "in_range p" for p
          using o [OF that] True by (auto simp: alternates_cons)
        then show ?thesis using Cons.IH [OF depths_step [OF t1 Cons.prems]] t1 pok by auto
      qed
    qed
  qed
qed simp

section \<open>From a start to a stop\<close>

text \<open>A caliper measures its interval.  Between a start and the next stop of a caliper
  at rest, with any calls on other calipers and any accums of this one in between,
  the counters and the cycles of the caliper grow by the last reading less the first,
  modulo 2^64, and the caliper is at rest again.\<close>
lemma caliper_measures_interval:
  assumes "in_range p" "cal_size_ok t" "cal_depth (pt_data t ! nat p) = 0"
    and "real_reading g r0" "real_reading g r1" "\<forall>op\<in>set mid. between g p op"
    and "run_ops g (OpStart p l r0 # mid @ [OpStop p r1]) t = Inr t'"
  shows "cal_depth (pt_data t' ! nat p) = 0 \<and>
    real_cyc (pt_data t' ! nat p) = real_cyc (pt_data t ! nat p) + (rd_real_cyc r1 - rd_real_cyc r0) \<and>
    (\<forall>i<eventcnt g. counters (pt_data t' ! nat p) i =
      counters (pt_data t ! nat p) i + (rd_counters r1 i - rd_counters r0 i))"
proof -
  obtain t1 t2 where t1: "cal_start g r0 p l t = Inr t1" and t2: "run_ops g mid t1 = Inr t2"
    and t3: "cal_stop g r1 p t2 = Inr t'" using assms(7) by (auto simp: run_ops_append)
  have a: "cal_depth (pt_data t1 ! nat p) = 1"
    "real_cyc (pt_data t1 ! nat p) - tmp_real_cyc (pt_data t1 ! nat p) = real_cyc (pt_data t ! nat p) - rd_real_cyc r0"
    "\<forall>i<eventcnt g. counters (pt_data t1 ! nat p) i - tmp_counters (pt_data t1 ! nat p) i =
      counters (pt_data t ! nat p) i - rd_counters r0 i"
    using start_at [OF assms(1-3), of g r0 l] t1 real_reading_status [OF assms(4)] by (auto simp: Let_def)
  have "cal_size_ok t1" using size_ok_step [of g "OpStart p l r0" t t1] t1 assms(2) by simp
  note b = between_run [OF t2 assms(6,1) this a(1)]
  have "cal_depth (pt_data t2 ! nat p) \<noteq> 0" using b by simp
  with stop_at [OF assms(1), of t2 g r1] b t3 real_reading_status [OF assms(5)] have
    c: "cal_depth (pt_data t' ! nat p) = 0"
      "real_cyc (pt_data t' ! nat p) = real_cyc (pt_data t2 ! nat p) + (rd_real_cyc r1 - tmp_real_cyc (pt_data t2 ! nat p))"
      "\<forall>i<eventcnt g. counters (pt_data t' ! nat p) i =
        counters (pt_data t2 ! nat p) i + (rd_counters r1 i - tmp_counters (pt_data t2 ! nat p) i)"
    by (simp_all add: Let_def)
  have "x + (r - y) = x' + (r - r')" if "x - y = x' - r'" for x y x' r r' :: clonglong
    using that by (simp add: algebra_simps)
  then show ?thesis using a b c by metis
qed

section \<open>Calls on the process state\<close>

lemma with_thread_run:
  assumes "with_thread self f g = Inr g'" "thread_data g self = Some i" "eventcnt g \<noteq> 0"
  obtains t where "f (thread_heap g ! i) = Inr t" "g' = g\<lparr>thread_heap := (thread_heap g)[i := t]\<rparr>"
  using assms by (auto simp: with_thread_def)

lemma heap_only [simp]:
  "eventcnt (g\<lparr>thread_heap := x\<rparr>) = eventcnt g" "does_read (g\<lparr>thread_heap := x\<rparr>) = does_read g"
  "read_status (g\<lparr>thread_heap := x\<rparr>) = read_status g" "real_reading (g\<lparr>thread_heap := x\<rparr>) = real_reading g"
  by (simp_all add: eventcnt_def does_read_def read_status_def real_reading_def fun_eq_iff)

lemma heap_only_parts [simp]:
  "start_clocks (g\<lparr>thread_heap := x\<rparr>) = start_clocks g" "stop_clocks (g\<lparr>thread_heap := x\<rparr>) = stop_clocks g"
  "start_read (g\<lparr>thread_heap := x\<rparr>) = start_read g" "add_counters (g\<lparr>thread_heap := x\<rparr>) = add_counters g"
  by (simp_all add: start_clocks_def stop_clocks_def start_read_def add_counters_def fun_eq_iff)

lemma heap_only_accum [simp]: "accum_counters (g\<lparr>thread_heap := x\<rparr>) = accum_counters g"
  by (simp add: accum_counters_def fun_eq_iff)

lemma heap_only_op [simp]: "run_op (g\<lparr>thread_heap := x\<rparr>) op t = run_op g op t"
  by (cases op) (simp_all add: cal_start_def cal_stop_def cal_accum_def Let_def)

lemma heap_only_ops [simp]: "run_ops (g\<lparr>thread_heap := x\<rparr>) ops = run_ops g ops"
proof (induction ops)
  case (Cons op ops)
  then show ?case by (intro ext) simp
qed (intro ext, simp)

section \<open>Properties\<close>

definition sample_reading :: "clonglong \<Rightarrow> reading" where
  "sample_reading n = \<lparr>rd_papi_ok = True, rd_counters = (\<lambda>i. n + of_nat i), rd_real_cyc = 2 * n,
     rd_real_usec = n, rd_virt_usec = n, rd_virt_cyc = n, rd_running_long = True\<rparr>"

definition sample_thread :: perthread where
  "sample_thread = zero_perthread\<lparr>max_caliper_entries := int PAPIEX_MAX_CALIPERS\<rparr>"

lemma sample_thread_ok: "depths_ok sample_thread" "in_range p \<Longrightarrow> \<not> opened sample_thread p"
  by (auto simp: sample_thread_def zero_perthread_def zero_caliper_def depths_ok_def cal_size_ok_def
      in_range_def opened_def)

text \<open>C28: the protocol of the caliper calls.  On a fresh thread a sequence of calls runs to
  its end, and does not end the process with an error, exactly when no point is negative,
  point 0 is never accumulated, and at every caliper of the table start and stop alternate
  with accum only in between; calls beyond the table are ignored.\<close>
theorem caliper_protocol:
  assumes "depths_ok t" "\<forall>p. in_range p \<longrightarrow> \<not> opened t p"
  shows "(\<exists>t'. run_ops g ops t = Inr t') \<longleftrightarrow>
    (\<forall>op\<in>set ops. point_ok op) \<and> (\<forall>p. in_range p \<longrightarrow> alternates False (marks p ops))"
  using protocol_iff [OF assms(1), of g ops] assms(2) by simp

definition sample_glob :: pglob where
  "sample_glob = (pglob_start \<lparr>profiling_support = False, have_binutils = False\<rparr>)
     \<lparr>eventnames := [''PAPI_TOT_CYC'', ''PAPI_FP_OPS'']\<rparr>"

lemma sample_glob_facts: "eventcnt sample_glob = 2" "real_reading sample_glob (sample_reading n)"
  by (simp_all add: sample_glob_def pglob_start_def eventcnt_def real_reading_def does_read_def
      sample_reading_def)

theorem caliper_protocol_witness:
  "\<not> (\<exists>t'. run_ops sample_glob [OpStart 1 None (sample_reading 5), OpStart 1 None (sample_reading 6)]
      sample_thread = Inr t')"
proof -
  let ?ops = "[OpStart 1 None (sample_reading 5), OpStart 1 None (sample_reading 6)]"
  have "in_range 1" "\<not> alternates False (marks 1 ?ops)"
    by (simp_all add: in_range_def PAPIEX_MAX_CALIPERS_def)
  then show ?thesis
    using caliper_protocol [OF sample_thread_ok(1), of sample_glob ?ops] sample_thread_ok(2) by blast
qed

end
