(* ===== verification/PapiexRuntime.thy ===== *)
theory PapiexRuntime
  imports CaliperFacts OutPath PapiexOptions
begin

text \<open>
  papiex.c: the life of a thread and of a process, as the callbacks libmonitor makes.
  What PAPI, the clock and the environment answer at a callback is the record
  \<open>papi_sys\<close>; an error that ends the process is Inl, and a wait for other MPI tasks
  that is not over is None.
\<close>

record papi_sys =
  ps_malloc_ok :: bool
  ps_create_ok :: bool
  ps_assign_ok :: bool
  ps_set_opt_ok :: bool
  ps_set_multiplex_ok :: bool
  ps_query_ok :: "string \<Rightarrow> bool"
  ps_preset :: "string \<Rightarrow> int"
  ps_code :: "string \<Rightarrow> int option"
  ps_add_ok :: "int \<Rightarrow> bool"
  ps_start_ok :: bool
  ps_realloc_ok :: bool
  ps_unregister_ok :: bool
  ps_thread_init_ok :: bool
  ps_eventset :: int
  ps_thread_num :: int
  ps_now :: int
  ps_running_long :: bool
  ps_library_ok :: bool
  ps_hw_ok :: bool
  ps_exe_name :: "string option"
  ps_mpx_init_ok :: bool
  ps_domain_ok :: bool
  ps_zero_bug_env :: bool
  ps_broken_stop_env :: bool
  ps_comm_size :: int
  ps_comm_rank :: int

definition ensure :: "bool \<Rightarrow> papiex_error \<Rightarrow> papiex_error + unit" where
  "ensure b e = (if b then Inr () else Inl e)"

section \<open>papiex_thread_init_routine\<close>

text \<open>Without events two are chosen.\<close>

definition default_events :: "papi_sys \<Rightarrow> pglob \<Rightarrow> pglob" where
  "default_events sys g =
    (if eventcnt g = 0 then
       let second = (if ps_query_ok sys ''PAPI_FP_OPS'' then ''PAPI_FP_OPS''
                     else if ps_query_ok sys ''PAPI_FP_INS'' then ''PAPI_FP_INS''
                     else ''PAPI_TOT_INS'')
       in g\<lparr>eventnames := [''PAPI_TOT_CYC'', second],
            eventcodes := (eventcodes g)(0 := ps_preset sys ''PAPI_TOT_CYC'', 1 := ps_preset sys second)\<rparr>
     else g)"

text \<open>The interval is divided into a second: an interval of 0 traps.\<close>

definition multiplex_setup :: "papi_sys \<Rightarrow> pglob \<Rightarrow> papiex_error + unit" where
  "multiplex_setup sys g =
    (if multiplex g
     then rbind (ensure (ps_assign_ok sys) (PapiError ''PAPI_assign_eventset_component'')) (\<lambda>_.
          rbind (if mpx_interval g \<noteq> PAPIEX_DEFAULT_MPX_HZ
                 then rbind (ensure (mpx_interval g \<noteq> 0) DivisionByZero) (\<lambda>_.
                      ensure (ps_set_opt_ok sys) (PapiError ''PAPI_set_opt'')) else Inr ()) (\<lambda>_.
          ensure (ps_set_multiplex_ok sys) (PapiError ''PAPI_set_multiplex'')))
     else Inr ())"

text \<open>The table of threads doubles before it is full.\<close>

definition thread_table_add :: "papi_sys \<Rightarrow> nat \<Rightarrow> pglob \<Rightarrow> papiex_error + pglob" where
  "thread_table_add sys idx g =
     rbind (if length (all_threads g) + 1 \<ge> all_threads_size g
            then if ps_realloc_ok sys then Inr (g\<lparr>all_threads_size := all_threads_size g * 2\<rparr>)
                 else Inl MallocFailed
            else Inr g)
       (\<lambda>g1. Inr (g1\<lparr>all_threads := all_threads g1 @ [(ps_thread_num sys, idx)]\<rparr>))"

definition new_thread :: "papi_sys \<Rightarrow> perthread" where
  "new_thread sys = zero_perthread\<lparr>max_caliper_entries := int PAPIEX_MAX_CALIPERS,
     pt_eventset := ps_eventset sys, pt_stamp := ps_now sys\<rparr>"

text \<open>The structure of the new thread, made known and its counters started.\<close>

definition thread_ready :: "papi_sys \<Rightarrow> nat \<Rightarrow> pglob \<Rightarrow> pglob" where
  "thread_ready sys self g =
    (let g2 = (if spec_file g = None then g\<lparr>spec_file := Some DEFAULT_SPEC_FILE\<rparr> else g);
         idx = length (thread_heap g2)
     in papiex_emit (CounterStart idx)
          (g2\<lparr>thread_heap := thread_heap g2 @ [new_thread sys],
              thread_data := (thread_data g2)(self := Some idx)\<rparr>))"

definition papiex_thread_init_routine :: "papi_sys \<Rightarrow> nat \<Rightarrow> reading \<Rightarrow> pglob \<Rightarrow> papiex_error + pglob" where
  "papiex_thread_init_routine sys self r g =
     rbind (ensure (ps_malloc_ok sys) MallocFailed) (\<lambda>_.
     rbind (ensure (ps_create_ok sys) (PapiError ''PAPI_create_eventset'')) (\<lambda>_.
     rbind (multiplex_setup sys g) (\<lambda>_.
     (let g1 = default_events sys g in
      rbind (ensure (list_all (\<lambda>i. ps_add_ok sys (eventcodes g1 i)) [0..<eventcnt g1])
               (PapiError ''PAPI_add_events'')) (\<lambda>_.
      rbind (ensure (ps_start_ok sys) (PapiError ''PAPI_start'')) (\<lambda>_.
      rbind (thread_table_add sys (length (thread_heap g1)) (thread_ready sys self g1))
        (papiex_start self r 0 (Some []))))))))"

section \<open>papiex_thread_shutdown_routine\<close>

text \<open>PAPI_stop is skipped where it is known to fail.\<close>

definition stop_counters :: "papi_sys \<Rightarrow> nat \<Rightarrow> pglob \<Rightarrow> pglob" where
  "stop_counters sys i g =
    (if papi_broken_stop g \<and> multiplex g \<and> papiex_threaded g \<and> ps_thread_num sys = 0 then g
     else emit_if (\<not> papi_mpx_zero_counts_bug g \<or> \<not> multiplex g \<or> ps_running_long sys) (CounterStop i) g)"

definition papiex_thread_shutdown_routine :: "papi_sys \<Rightarrow> nat \<Rightarrow> reading \<Rightarrow> pglob \<Rightarrow> papiex_error + pglob" where
  "papiex_thread_shutdown_routine sys self r g =
     rbind (papiex_stop self r 0 g) (\<lambda>g1.
       case thread_data g1 self of
         None \<Rightarrow> Inl ThreadDataNull
       | Some i \<Rightarrow>
           let g2 = stop_counters sys i g1;
               g3 = g2\<lparr>thread_heap := (thread_heap g2)[i := (thread_heap g2 ! i)\<lparr>pt_finish := ps_now sys\<rparr>]\<rparr>
           in rbind (ensure (ps_unregister_ok sys) (PapiError ''PAPI_unregister_thread'')) (\<lambda>_. Inr g3))"

section \<open>papiex_process_init_routine\<close>

text \<open>The codes of the events, as long as every name has one.\<close>

fun resolve_codes :: "papi_sys \<Rightarrow> string list \<Rightarrow> nat \<Rightarrow> (nat \<Rightarrow> int) \<Rightarrow> papiex_error + (nat \<Rightarrow> int)" where
  "resolve_codes sys [] i codes = Inr codes"
| "resolve_codes sys (n # ns) i codes =
    (case ps_code sys n of
       None \<Rightarrow> Inl (PapiError ''PAPI_event_name_to_code'')
     | Some c \<Rightarrow> resolve_codes sys ns (i + 1) (codes(i := c)))"

text \<open>The gates of the profilers: opened at process init, closed at shutdown.  A symbol of
  the compiler hooks that was found is not NULL.\<close>

definition set_gates :: "build \<Rightarrow> bool \<Rightarrow> pglob \<Rightarrow> pglob" where
  "set_gates b on g =
     emit_if (have_binutils b \<and> pathscale_prof g \<noteq> PATHSCALE_NONE)
         (SetGate ''pathscale'' (if on then int (pathscale_prof g) else 0))
       (emit_if (have_binutils b \<and> gcc_prof g) (SetGate ''gcc'' (cbool on))
         (emit_if (\<not> no_threadsync_prof g \<and> fptr_threadsyncprof_set_gate g) (SetGate ''threadsync'' (cbool on))
           (emit_if (\<not> no_io_prof g \<and> fptr_ioprof_set_gate g) (SetGate ''io'' (cbool on))
             (emit_if (\<not> no_mpi_prof g \<and> fptr_mpiprof_set_gate g) (SetGate ''mpi'' (cbool on)) g))))"

text \<open>At shutdown the compiler hooks are closed first.\<close>

definition close_gates :: "build \<Rightarrow> pglob \<Rightarrow> pglob" where
  "close_gates b g =
     emit_if (\<not> no_threadsync_prof g \<and> fptr_threadsyncprof_set_gate g) (SetGate ''threadsync'' 0)
       (emit_if (\<not> no_io_prof g \<and> fptr_ioprof_set_gate g) (SetGate ''io'' 0)
         (emit_if (\<not> no_mpi_prof g \<and> fptr_mpiprof_set_gate g) (SetGate ''mpi'' 0)
           (emit_if (have_binutils b \<and> pathscale_prof g \<noteq> PATHSCALE_NONE) (SetGate ''pathscale'' 0)
             (emit_if (have_binutils b \<and> gcc_prof g) (SetGate ''gcc'' 0) g))))"

definition papi_workarounds :: "papi_sys \<Rightarrow> pglob \<Rightarrow> pglob" where
  "papi_workarounds sys g =
    (let g1 = (if ps_zero_bug_env sys then g\<lparr>papi_mpx_zero_counts_bug := True\<rparr> else g)
     in if ps_broken_stop_env sys then g1\<lparr>papi_broken_stop := True\<rparr> else g1)"

text \<open>The name, the codes and the domain, after the calls that can fail.\<close>

definition process_ready :: "papi_sys \<Rightarrow> (nat \<Rightarrow> int) \<Rightarrow> pglob \<Rightarrow> pglob" where
  "process_ready sys codes g = g\<lparr>process_name := ps_exe_name sys, eventcodes := codes,
     domain := (if domain g = {} then {DomUser} else domain g)\<rparr>"

definition papiex_process_init_routine ::
  "papi_sys \<Rightarrow> build \<Rightarrow> nat \<Rightarrow> reading \<Rightarrow> filesys \<Rightarrow> pglob \<Rightarrow> papiex_error + (pglob \<times> filesys)" where
  "papiex_process_init_routine sys b self r fs g0 =
    (let g = papi_workarounds sys g0
     in rbind (ensure (ps_library_ok sys) (PapiError ''PAPI_library_init'')) (\<lambda>_.
        rbind (ensure (ps_hw_ok sys) (PapiError ''PAPI_get_hardware_info'')) (\<lambda>_.
        rbind (ensure (ps_exe_name sys \<noteq> None) (PapiError ''PAPI_get_executable_info'')) (\<lambda>_.
        rbind (resolve_codes sys (eventnames g) 0 (eventcodes g)) (\<lambda>codes.
        rbind (ensure (multiplex g \<longrightarrow> ps_mpx_init_ok sys) (PapiError ''PAPI_multiplex_init'')) (\<lambda>_.
        rbind (ensure (ps_domain_ok sys) (PapiError ''PAPI_set_domain'')) (\<lambda>_.
        rbind (ensure (ps_realloc_ok sys) MallocFailed) (\<lambda>_.
        rbind (papiex_thread_init_routine sys self r (set_gates b True (process_ready sys codes g))) (\<lambda>g1.
          Inr (g1, fs(path_container := None)))))))))))"

section \<open>The callbacks of libmonitor\<close>

definition monitor_init_process ::
  "papi_sys \<Rightarrow> build \<Rightarrow> nat \<Rightarrow> reading \<Rightarrow> string list \<Rightarrow> filesys \<Rightarrow> pglob \<Rightarrow> papiex_error + (pglob \<times> filesys)" where
  "monitor_init_process sys b self r argv fs g =
    (let args = join_with (CHR '' '') (tl argv) in
     if length args \<ge> PATH_MAX then Inl PathTooLong
     else papiex_process_init_routine sys b self r fs ((init_process_globals g)\<lparr>process_args := args\<rparr>))"

definition monitor_init_thread_support :: "papi_sys \<Rightarrow> pglob \<Rightarrow> papiex_error + pglob" where
  "monitor_init_thread_support sys g =
     rbind (ensure (ps_thread_init_ok sys) (PapiError ''PAPI_thread_init'')) (\<lambda>_.
       Inr (g\<lparr>papiex_threaded := True\<rparr>))"

definition monitor_init_thread :: "papi_sys \<Rightarrow> nat \<Rightarrow> reading \<Rightarrow> pglob \<Rightarrow> papiex_error + pglob" where
  "monitor_init_thread sys self r g = papiex_thread_init_routine sys self r g"

definition monitor_fini_thread :: "papi_sys \<Rightarrow> nat \<Rightarrow> reading \<Rightarrow> pglob \<Rightarrow> papiex_error + pglob" where
  "monitor_fini_thread sys self r g = papiex_thread_shutdown_routine sys self r g"

definition monitor_init_mpi :: "pglob \<Rightarrow> pglob" where
  "monitor_init_mpi g = g\<lparr>is_mpied := True\<rparr>"

section \<open>papiex_process_shutdown_routine\<close>

text \<open>What the shutdown meets: the host of the output paths, which files open, what the
  other tasks have written by then, the processor, the variables of the environment and
  the results of the commands.\<close>

record shutdown_env =
  sd_host :: path_host
  sd_can_open :: "string \<Rightarrow> bool"
  sd_others :: "filesys \<Rightarrow> filesys"
  sd_hw :: hw_info
  sd_report_args :: "string option"
  sd_exec_cmd :: "string option"
  sd_system :: "string \<Rightarrow> int"

definition complete_file :: "pglob \<Rightarrow> int \<Rightarrow> string" where
  "complete_file g rank = base_output_path g @ ''/.rank.'' @ dec_int rank @ ''.complete''"

text \<open>The loop over the threads: their files, and the finish time of one that has none.\<close>

fun write_threads :: "shutdown_env \<Rightarrow> nat \<Rightarrow> nat list \<Rightarrow> pglob \<times> filesys \<Rightarrow> papiex_error + (pglob \<times> filesys)" where
  "write_threads sd i [] gf = Inr gf"
| "write_threads sd i (t # ts) gf =
    (let (g, fs) = gf;
         path = (if papiex_threaded g then get_thread_output_path g i else proc_stats_path g)
     in if \<not> sd_can_open sd path then Inl (OutputFailed path)
        else
          let th = thread_heap g ! t;
              th' = (if pt_finish th = 0 then th\<lparr>pt_finish := proc_fini_time g\<rparr> else th);
              g1 = papiex_emit (ThreadStats i path t) (g\<lparr>thread_heap := (thread_heap g)[t := th']\<rparr>)
          in write_threads sd (i + 1) ts (g1, fs(path := Some [])))"

text \<open>print_process_stats as far as files go; the statistics of the classic mode are in
  PapiexStats.\<close>

definition print_process_stats :: "shutdown_env \<Rightarrow> filesys \<Rightarrow> pglob \<Rightarrow> papiex_error + (pglob \<times> filesys)" where
  "print_process_stats sd fs g =
    (let g1 = get_proc_output_path g;
         path = proc_output_path g1 @ (if papiex_threaded g1 then [] else suffix);
         g2 = papiex_emit (ProcessStats (map snd (all_threads g1))) (g1\<lparr>proc_stats_path := path\<rparr>)
     in if length path \<ge> PATH_MAX then Inl PathTooLong
        else rbind (if no_write g2 then Inr (g2, fs)
                    else write_threads sd 0 (map snd (all_threads g2)) (g2, fs)) (\<lambda>(g3, fs1).
          if papiex_nextgen g3 \<and> ntasks g3 > 1
          then let f = complete_file g3 (myrank g3)
               in if sd_can_open sd f then Inr (g3, fs1(f := Some [])) else Inl (OutputFailed f)
          else Inr (g3, fs1)))"

text \<open>The master waits for the file of every task and removes it.\<close>

fun wait_tasks :: "pglob \<Rightarrow> int list \<Rightarrow> filesys \<Rightarrow> filesys option" where
  "wait_tasks g [] fs = Some fs"
| "wait_tasks g (i # is) fs =
    (if file_exists fs (complete_file g i) then wait_tasks g is (fs(complete_file g i := None)) else None)"

definition report_command :: "shutdown_env \<Rightarrow> pglob \<Rightarrow> string" where
  "report_command sd g =
    (let target = (if is_mpied g then base_output_path g else proc_stats_path g);
         args = (case sd_report_args sd of None \<Rightarrow> [] | Some a \<Rightarrow> a);
         prefix = (if user_path_prefix g \<noteq> [] then ''-prefix='' @ user_path_prefix g else [])
     in if csv_output g then ''papiex-output2csv '' @ target
        else ''papiex-report '' @ (if papiex_debug g > 0 then ''-d'' else []) @ '' '' @
             (if user_specified_spec g then ''-nosearch'' else []) @ '' '' @ prefix @ '' -spec='' @
             get_spec_file (sd_hw sd) g @ '' '' @ args @ '' '' @ target)"

definition run_report :: "shutdown_env \<Rightarrow> filesys \<Rightarrow> pglob \<Rightarrow> (papiex_error + (pglob \<times> filesys)) option" where
  "run_report sd fs g =
    (if papiex_nextgen g \<and> myrank g = 0
     then map_option (\<lambda>fs1.
            let cmd = report_command sd g;
                g1 = papiex_emit (RealSystem cmd) g
            in if sd_system sd cmd \<noteq> 0 then Inl ReportFailed else Inr (g1, fs1))
          (if ntasks g > 1
           then map_option (\<lambda>fs1. fs1(path_container := None))
                  (wait_tasks g (map int [0..<nat (ntasks g)]) (sd_others sd fs))
           else Some fs)
     else Some (Inr (g, fs)))"

definition run_exec_cmd :: "shutdown_env \<Rightarrow> pglob \<Rightarrow> pglob" where
  "run_exec_cmd sd g =
    (case sd_exec_cmd sd of None \<Rightarrow> g | Some cmd \<Rightarrow> papiex_emit (RealSystem cmd) g)"

definition shutdown_begin :: "papi_sys \<Rightarrow> build \<Rightarrow> nat \<Rightarrow> reading \<Rightarrow> pglob \<Rightarrow> papiex_error + pglob" where
  "shutdown_begin sys b self r g =
    (let g1 = close_gates b (g\<lparr>called_process_shutdown := True\<rparr>);
         g2 = (if proc_fini_time g1 = 0 then g1\<lparr>proc_fini_time := ps_now sys\<rparr> else g1)
     in papiex_thread_shutdown_routine sys self r g2)"

definition shutdown_paths :: "shutdown_env \<Rightarrow> filesys \<Rightarrow> pglob \<Rightarrow> (papiex_error + (pglob \<times> filesys)) option" where
  "shutdown_paths sd fs g =
     map_option (\<lambda>res. rbind res (\<lambda>(g1, fs1).
         if no_write g1 then Inr (g1, fs1)
         else rbind (make_output_paths (sd_host sd) (papiex_threaded g1) g1) (\<lambda>(dirs, g2). Inr (g2, fs1))))
       (get_base_output_path (sd_host sd) (Some (user_path_prefix g)) (output_file_name g) fs g)"

text \<open>A failure that ends the process is a value, a wait is None.\<close>

definition obind :: "(papiex_error + 'a) option \<Rightarrow> ('a \<Rightarrow> (papiex_error + 'b) option) \<Rightarrow>
    (papiex_error + 'b) option" where
  "obind m f = (case m of None \<Rightarrow> None | Some (Inl e) \<Rightarrow> Some (Inl e) | Some (Inr x) \<Rightarrow> f x)"

definition papiex_process_shutdown_routine ::
  "papi_sys \<Rightarrow> build \<Rightarrow> shutdown_env \<Rightarrow> nat \<Rightarrow> reading \<Rightarrow> filesys \<Rightarrow> pglob \<Rightarrow>
   (papiex_error + (pglob \<times> filesys)) option" where
  "papiex_process_shutdown_routine sys b sd self r fs g =
    (if called_process_shutdown g then Some (Inr (g, fs))
     else obind (Some (shutdown_begin sys b self r g)) (\<lambda>g1.
          obind (shutdown_paths sd fs g1) (\<lambda>(g2, fs1).
          obind (Some (print_process_stats sd fs1 g2)) (\<lambda>(g3, fs2).
          obind (run_report sd fs2 g3) (\<lambda>(g4, fs3).
          Some (Inr (run_exec_cmd sd g4, fs3)))))))"

definition monitor_fini_process ::
  "papi_sys \<Rightarrow> build \<Rightarrow> shutdown_env \<Rightarrow> nat \<Rightarrow> reading \<Rightarrow> filesys \<Rightarrow> pglob \<Rightarrow>
   (papiex_error + (pglob \<times> filesys)) option" where
  "monitor_fini_process sys b sd self r fs g = papiex_process_shutdown_routine sys b sd self r fs g"

text \<open>In the classic mode the MPI callback already shuts the process down.\<close>

definition monitor_fini_mpi ::
  "papi_sys \<Rightarrow> build \<Rightarrow> shutdown_env \<Rightarrow> nat \<Rightarrow> reading \<Rightarrow> filesys \<Rightarrow> pglob \<Rightarrow>
   (papiex_error + (pglob \<times> filesys)) option" where
  "monitor_fini_mpi sys b sd self r fs g =
    (let g1 = g\<lparr>monitor_fini_mpi_callback_occurred := True, ntasks := ps_comm_size sys,
                myrank := ps_comm_rank sys\<rparr>
     in obind (if myrank g1 = 0
               then set_base_output_path (sd_host sd) (Some (user_path_prefix g1)) (output_file_name g1) fs g1
               else Some (Inr (g1, fs))) (\<lambda>(g2, fs1).
          if \<not> papiex_nextgen g2 \<and> \<not> no_mpi_gather g2
          then monitor_fini_process sys b sd self r fs1 g2 else Some (Inr (g2, fs1))))"

end
