(* ===== verification/PapiexRuntimeFacts.thy ===== *)
theory PapiexRuntimeFacts
  imports PapiexRuntime
begin

text \<open>
  Facts and properties of papiex's callbacks: the table of threads, what a callback of one
  thread leaves of the others, and the steps from which PapiexLife derives the properties of
  whole runs.
\<close>

section \<open>The callbacks as one step function\<close>

datatype callback =
    CbInitProcess papi_sys nat reading "string list"
  | CbInitThreadSupport papi_sys
  | CbInitThread papi_sys nat reading
  | CbFiniThread papi_sys nat reading
  | CbInitMpi
  | CbFiniMpi papi_sys shutdown_env nat reading
  | CbFiniProcess papi_sys shutdown_env nat reading
  | CbCaliper nat cal_op

type_synonym rt_result = "(papiex_error + (pglob \<times> filesys)) option"

definition on_glob :: "filesys \<Rightarrow> papiex_error + pglob \<Rightarrow> rt_result" where
  "on_glob fs res = Some (rbind res (\<lambda>g. Inr (g, fs)))"

fun run_callback :: "build \<Rightarrow> callback \<Rightarrow> pglob \<times> filesys \<Rightarrow> rt_result" where
  "run_callback b (CbInitProcess sys self r argv) (g, fs) = Some (monitor_init_process sys b self r argv fs g)"
| "run_callback b (CbInitThreadSupport sys) (g, fs) = on_glob fs (monitor_init_thread_support sys g)"
| "run_callback b (CbInitThread sys self r) (g, fs) = on_glob fs (monitor_init_thread sys self r g)"
| "run_callback b (CbFiniThread sys self r) (g, fs) = on_glob fs (monitor_fini_thread sys self r g)"
| "run_callback b CbInitMpi (g, fs) = on_glob fs (Inr (monitor_init_mpi g))"
| "run_callback b (CbFiniMpi sys sd self r) (g, fs) = monitor_fini_mpi sys b sd self r fs g"
| "run_callback b (CbFiniProcess sys sd self r) (g, fs) = monitor_fini_process sys b sd self r fs g"
| "run_callback b (CbCaliper self op) (g, fs) = on_glob fs (with_thread self (run_op g op) g)"

fun run_callbacks :: "build \<Rightarrow> callback list \<Rightarrow> pglob \<times> filesys \<Rightarrow> rt_result" where
  "run_callbacks b [] gf = Some (Inr gf)"
| "run_callbacks b (cb # cbs) gf = obind (run_callback b cb gf) (run_callbacks b cbs)"

text \<open>The thread a callback runs on (the MPI start and the thread support touch none).\<close>

fun cb_self :: "callback \<Rightarrow> nat option" where
  "cb_self (CbInitProcess sys self r argv) = Some self"
| "cb_self (CbInitThreadSupport sys) = None"
| "cb_self (CbInitThread sys self r) = Some self"
| "cb_self (CbFiniThread sys self r) = Some self"
| "cb_self CbInitMpi = None"
| "cb_self (CbFiniMpi sys sd self r) = Some self"
| "cb_self (CbFiniProcess sys sd self r) = Some self"
| "cb_self (CbCaliper self op) = Some self"

fun is_init_process :: "callback \<Rightarrow> bool" where
  "is_init_process (CbInitProcess sys self r argv) = True"
| "is_init_process cb = False"

fun is_fini_process :: "callback \<Rightarrow> bool" where
  "is_fini_process (CbFiniProcess sys sd self r) = True"
| "is_fini_process cb = False"

fun is_report :: "papiex_event \<Rightarrow> bool" where
  "is_report (ProcessStats ts) = True"
| "is_report e = False"

definition reports :: "pglob \<Rightarrow> papiex_event list" where
  "reports g = filter is_report (papiex_trace g)"

lemma obind_iff [simp]: "obind m f = Some (Inr y) \<longleftrightarrow> (\<exists>x. m = Some (Inr x) \<and> f x = Some (Inr y))"
  by (auto simp: obind_def split: option.splits sum.splits)

lemma ensure_iff [simp]: "ensure c e = Inr u \<longleftrightarrow> c"
  by (simp add: ensure_def)

lemma on_glob_iff [simp]: "on_glob fs res = Some (Inr (g, fs')) \<longleftrightarrow> res = Inr g \<and> fs' = fs"
  by (cases res) (auto simp: on_glob_def)

section \<open>The state of the threads\<close>

text \<open>The table lists every structure once, in the order they were made, and is never
  full; a thread's structure is there and no other thread's; every caliper is at rest or
  open once.\<close>

definition rt_inv :: "pglob \<Rightarrow> bool" where
  "rt_inv g \<longleftrightarrow> map snd (all_threads g) = [0..<length (thread_heap g)] \<and>
     length (all_threads g) < all_threads_size g \<and>
     (\<forall>s i. thread_data g s = Some i \<longrightarrow> i < length (thread_heap g)) \<and>
     (\<forall>s s' i. thread_data g s = Some i \<and> thread_data g s' = Some i \<longrightarrow> s = s') \<and>
     (\<forall>t\<in>set (thread_heap g). depths_ok t)"

text \<open>What the callbacks that are not about threads leave alone.\<close>

definition rt_key where
  "rt_key g = (all_threads g, all_threads_size g, thread_heap g, thread_data g, eventnames g,
     multiplex g, papi_mpx_zero_counts_bug g, called_process_shutdown g, reports g)"

lemma rt_keyD:
  assumes "rt_key g' = rt_key g"
  shows "all_threads g' = all_threads g" "all_threads_size g' = all_threads_size g"
    "thread_heap g' = thread_heap g" "thread_data g' = thread_data g" "eventnames g' = eventnames g"
    "multiplex g' = multiplex g" "papi_mpx_zero_counts_bug g' = papi_mpx_zero_counts_bug g"
    "called_process_shutdown g' = called_process_shutdown g" "reports g' = reports g"
  using assms by (simp_all add: rt_key_def)

lemma rt_key_inv: "rt_key g' = rt_key g \<Longrightarrow> rt_inv g' \<longleftrightarrow> rt_inv g"
  using rt_keyD(1-4) [of g' g] by (simp add: rt_inv_def)

text \<open>A step on behalf of one thread: the state of the threads stays sound, the
  structures of the other threads and the setting of the counters stay as they are.\<close>

definition guard_of :: "pglob \<Rightarrow> string list \<times> bool \<times> bool" where
  "guard_of g = (eventnames g, multiplex g, papi_mpx_zero_counts_bug g)"

definition rt_step :: "nat \<Rightarrow> pglob \<Rightarrow> pglob \<Rightarrow> bool" where
  "rt_step self g g' \<longleftrightarrow> (rt_inv g \<longrightarrow> rt_inv g' \<and>
     (eventnames g \<noteq> [] \<longrightarrow> guard_of g' = guard_of g) \<and>
     (\<forall>s i. s \<noteq> self \<and> thread_data g s = Some i \<longrightarrow> thread_data g' s = Some i \<and>
        pt_data (thread_heap g' ! i) = pt_data (thread_heap g ! i)))"

lemma rt_stepD:
  assumes "rt_step self g g'" "rt_inv g"
  shows "rt_inv g'" "eventnames g \<noteq> [] \<Longrightarrow> guard_of g' = guard_of g"
    and "s \<noteq> self \<Longrightarrow> thread_data g s = Some i \<Longrightarrow> thread_data g' s = Some i"
    and "s \<noteq> self \<Longrightarrow> thread_data g s = Some i \<Longrightarrow> pt_data (thread_heap g' ! i) = pt_data (thread_heap g ! i)"
  using assms unfolding rt_step_def by simp_all

lemma rt_step_key: "rt_key g' = rt_key g \<Longrightarrow> rt_step self g g'"
  using rt_keyD(3-7) [of g' g] rt_key_inv [of g' g] by (simp add: rt_step_def guard_of_def)

lemma rt_step_trans:
  assumes "rt_step self g g1" "rt_step self g1 g2"
  shows "rt_step self g g2"
proof -
  have "eventnames g \<noteq> [] \<Longrightarrow> guard_of g1 = guard_of g \<Longrightarrow> eventnames g1 \<noteq> []"
    by (simp add: guard_of_def)
  then show ?thesis using assms unfolding rt_step_def by fastforce
qed

lemma rt_inv_upd:
  assumes "rt_inv g" "depths_ok t"
  shows "rt_inv (g\<lparr>thread_heap := (thread_heap g)[i := t]\<rparr>)"
  using assms set_update_subset_insert [of "thread_heap g" i t] by (auto simp: rt_inv_def)

lemma rt_step_upd:
  assumes "rt_inv g \<Longrightarrow> depths_ok t"
    and "thread_data g self = Some i \<or> pt_data t = pt_data (thread_heap g ! i)"
  shows "rt_step self g (g\<lparr>thread_heap := (thread_heap g)[i := t]\<rparr>)"
proof -
  have "pt_data ((thread_heap g)[i := t] ! j) = pt_data (thread_heap g ! j)"
    if "rt_inv g" "s \<noteq> self" "thread_data g s = Some j" for s j
  proof (cases "i = j")
    case True
    then have "thread_data g self \<noteq> Some i" using that by (auto simp: rt_inv_def)
    then show ?thesis using assms(2) True that by (auto simp: rt_inv_def)
  qed simp
  then show ?thesis using assms(1) rt_inv_upd by (auto simp: rt_step_def guard_of_def)
qed

lemma depths_ok_finish [simp]: "depths_ok (t\<lparr>pt_finish := n\<rparr>) = depths_ok t"
  by (simp add: depths_ok_def cal_size_ok_def)

lemma reports_emit [simp]: "reports (papiex_emit e g) = (if is_report e then reports g @ [e] else reports g)"
  by (simp add: reports_def papiex_emit_def)

lemma rt_key_emit [simp]: "\<not> is_report e \<Longrightarrow> rt_key (papiex_emit e g) = rt_key g"
  by (simp add: rt_key_def) (simp add: papiex_emit_def)

lemma rt_key_emit_if [simp]: "\<not> is_report e \<Longrightarrow> rt_key (emit_if c e g) = rt_key g"
  by (simp add: emit_if_def)

lemma rt_key_gates [simp]: "rt_key (set_gates b on g) = rt_key g" "rt_key (close_gates b g) = rt_key g"
  by (simp_all add: set_gates_def close_gates_def)

section \<open>The callbacks of a thread\<close>

definition rep_key :: "pglob \<Rightarrow> bool \<times> papiex_event list" where
  "rep_key g = (called_process_shutdown g, reports g)"

lemma rep_key_key: "rt_key g' = rt_key g \<Longrightarrow> rep_key g' = rep_key g"
  using rt_keyD(8,9) [of g' g] by (simp add: rep_key_def)

lemma rep_key_heap [simp]: "rep_key (g\<lparr>thread_heap := h\<rparr>) = rep_key g"
  by (simp add: rep_key_def reports_def)

lemma caliper_call:
  assumes "with_thread self (run_op g op) g = Inr g'"
  shows "rt_step self g g'" "rep_key g' = rep_key g" "all_threads g' = all_threads g"
proof -
  have "rt_step self g g' \<and> rep_key g' = rep_key g \<and> all_threads g' = all_threads g"
  proof (cases "eventcnt g = 0")
    case True
    then show ?thesis using assms by (simp add: with_thread_def rt_step_key)
  next
    case False
    then obtain i t where i: "thread_data g self = Some i" "run_op g op (thread_heap g ! i) = Inr t"
      and g': "g' = g\<lparr>thread_heap := (thread_heap g)[i := t]\<rparr>"
      using assms by (auto simp: with_thread_def split: option.splits)
    have "depths_ok t" if "rt_inv g"
      using that i depths_step [OF i(2)] by (auto simp: rt_inv_def)
    then show ?thesis using rt_step_upd [of g t self i] i g' by simp
  qed
  then show "rt_step self g g'" "rep_key g' = rep_key g" "all_threads g' = all_threads g" by simp_all
qed

lemma start_is_op: "papiex_start self r p l g = with_thread self (run_op g (OpStart p l r)) g"
proof -
  have "cal_start g r p l = run_op g (OpStart p l r)" by (rule ext) simp
  then show ?thesis by (simp add: papiex_start_def)
qed

lemma stop_is_op: "papiex_stop self r p g = with_thread self (run_op g (OpStop p r)) g"
proof -
  have "cal_stop g r p = run_op g (OpStop p r)" by (rule ext) simp
  then show ?thesis by (simp add: papiex_stop_def)
qed

lemma new_thread_ok: "depths_ok (new_thread sys)"
  by (auto simp: new_thread_def zero_perthread_def zero_caliper_def depths_ok_def cal_size_ok_def in_range_def)

lemma default_events_parts:
  "all_threads (default_events sys g) = all_threads g" "all_threads_size (default_events sys g) = all_threads_size g"
  "thread_heap (default_events sys g) = thread_heap g" "thread_data (default_events sys g) = thread_data g"
  "multiplex (default_events sys g) = multiplex g"
  "papi_mpx_zero_counts_bug (default_events sys g) = papi_mpx_zero_counts_bug g"
  "called_process_shutdown (default_events sys g) = called_process_shutdown g"
  "reports (default_events sys g) = reports g"
  "eventnames (default_events sys g) \<noteq> []"
  "eventnames g \<noteq> [] \<Longrightarrow> default_events sys g = g"
  by (simp_all add: default_events_def Let_def eventcnt_def reports_def)

lemma thread_ready_parts:
  "all_threads (thread_ready sys self g) = all_threads g"
  "all_threads_size (thread_ready sys self g) = all_threads_size g"
  "thread_heap (thread_ready sys self g) = thread_heap g @ [new_thread sys]"
  "thread_data (thread_ready sys self g) = (thread_data g)(self := Some (length (thread_heap g)))"
  "guard_of (thread_ready sys self g) = guard_of g"
  "rep_key (thread_ready sys self g) = rep_key g"
  by (simp_all add: thread_ready_def Let_def guard_of_def rep_key_def) (simp_all add: papiex_emit_def reports_def)

lemma table_add_parts:
  assumes "thread_table_add sys idx g = Inr g'"
  shows "all_threads g' = all_threads g @ [(ps_thread_num sys, idx)]"
    "all_threads_size g' = (if length (all_threads g) + 1 \<ge> all_threads_size g
                            then all_threads_size g * 2 else all_threads_size g)"
    "thread_heap g' = thread_heap g" "thread_data g' = thread_data g"
    "guard_of g' = guard_of g" "rep_key g' = rep_key g"
  using assms
  by (auto simp: thread_table_add_def guard_of_def rep_key_def reports_def split: if_splits)

text \<open>The state in which a new thread starts its caliper 0.\<close>

lemma thread_init_parts:
  assumes "papiex_thread_init_routine sys self r g = Inr g'"
  obtains g1 where "papiex_start self r 0 (Some []) g1 = Inr g'"
    "all_threads g1 = all_threads g @ [(ps_thread_num sys, length (thread_heap g))]"
    "all_threads_size g1 = (if length (all_threads g) + 1 \<ge> all_threads_size g
                            then all_threads_size g * 2 else all_threads_size g)"
    "thread_heap g1 = thread_heap g @ [new_thread sys]"
    "thread_data g1 = (thread_data g)(self := Some (length (thread_heap g)))"
    "guard_of g1 = guard_of (default_events sys g)" "rep_key g1 = rep_key g"
proof -
  let ?g = "default_events sys g"
  obtain g1 where g1: "thread_table_add sys (length (thread_heap ?g)) (thread_ready sys self ?g) = Inr g1"
    "papiex_start self r 0 (Some []) g1 = Inr g'"
    using assms by (auto simp: papiex_thread_init_routine_def Let_def)
  have "rep_key ?g = rep_key g" by (simp add: rep_key_def default_events_parts)
  then show thesis
    using that [OF g1(2)] table_add_parts [OF g1(1)] by (simp add: thread_ready_parts default_events_parts)
qed

lemma thread_init_step:
  assumes "papiex_thread_init_routine sys self r g = Inr g'"
  shows "rt_step self g g'" "rep_key g' = rep_key g"
    and "all_threads g' = all_threads g @ [(ps_thread_num sys, length (thread_heap g))]"
proof -
  obtain g1 where g1: "papiex_start self r 0 (Some []) g1 = Inr g'"
    "all_threads g1 = all_threads g @ [(ps_thread_num sys, length (thread_heap g))]"
    "all_threads_size g1 = (if length (all_threads g) + 1 \<ge> all_threads_size g
                            then all_threads_size g * 2 else all_threads_size g)"
    "thread_heap g1 = thread_heap g @ [new_thread sys]"
    "thread_data g1 = (thread_data g)(self := Some (length (thread_heap g)))"
    "guard_of g1 = guard_of (default_events sys g)" "rep_key g1 = rep_key g"
    using thread_init_parts [OF assms] by metis
  note start = caliper_call [OF g1(1) [unfolded start_is_op]]
  have "rt_inv g1" if "rt_inv g"
    using that g1(2-5) new_thread_ok [of sys] by (auto simp: rt_inv_def less_SucI)
  moreover have "eventnames g \<noteq> [] \<Longrightarrow> guard_of g1 = guard_of g"
    by (simp add: g1(6) default_events_parts)
  moreover have "thread_data g1 s = Some i \<and> pt_data (thread_heap g1 ! i) = pt_data (thread_heap g ! i)"
    if "rt_inv g" "s \<noteq> self" "thread_data g s = Some i" for s i
    using that g1(4,5) by (auto simp: rt_inv_def nth_append)
  ultimately have "rt_step self g g1" unfolding rt_step_def by blast
  then show "rt_step self g g'" using start(1) by (rule rt_step_trans)
  show "rep_key g' = rep_key g" using start(2) g1(7) by simp
  show "all_threads g' = all_threads g @ [(ps_thread_num sys, length (thread_heap g))]"
    using start(3) g1(2) by simp
qed

lemma thread_fini_step:
  assumes "papiex_thread_shutdown_routine sys self r g = Inr g'"
  shows "rt_step self g g'" "rep_key g' = rep_key g" "all_threads g' = all_threads g"
proof -
  obtain g1 i where g1: "papiex_stop self r 0 g = Inr g1" "thread_data g1 self = Some i"
    using assms by (auto simp: papiex_thread_shutdown_routine_def split: option.splits)
  define g2 where "g2 = stop_counters sys i g1"
  have g2: "rt_key g2 = rt_key g1" by (simp add: g2_def stop_counters_def)
  have g': "g' = g2\<lparr>thread_heap := (thread_heap g2)[i := (thread_heap g2 ! i)\<lparr>pt_finish := ps_now sys\<rparr>]\<rparr>"
    using assms g1 by (simp add: papiex_thread_shutdown_routine_def Let_def g2_def)
  note stop = caliper_call [OF g1(1) [unfolded stop_is_op]]
  have i: "thread_data g2 self = Some i" using rt_keyD(4) [OF g2] g1(2) by simp
  then have "rt_inv g2 \<Longrightarrow> depths_ok ((thread_heap g2 ! i)\<lparr>pt_finish := ps_now sys\<rparr>)"
    by (auto simp: rt_inv_def)
  then have "rt_step self g2 g'" using rt_step_upd i unfolding g' by blast
  then show "rt_step self g g'" using rt_step_trans stop(1) rt_step_key [OF g2] by metis
  show "rep_key g' = rep_key g" using stop(2) rep_key_key [OF g2] g' by simp
  show "all_threads g' = all_threads g" using stop(3) rt_keyD(1) [OF g2] g' by simp
qed

section \<open>The callbacks of a process\<close>

lemma rt_key_upd [simp]:
  "rt_key (g\<lparr>base_output_path := p\<rparr>) = rt_key g" "rt_key (g\<lparr>hostname := p\<rparr>) = rt_key g"
  "rt_key (g\<lparr>proc_output_path := p\<rparr>) = rt_key g" "rt_key (g\<lparr>proc_stats_path := p\<rparr>) = rt_key g"
  "rt_key (g\<lparr>is_mpied := c\<rparr>) = rt_key g" "rt_key (g\<lparr>papiex_threaded := c\<rparr>) = rt_key g"
  "rt_key (g\<lparr>monitor_fini_mpi_callback_occurred := c\<rparr>) = rt_key g"
  "rt_key (g\<lparr>ntasks := n\<rparr>) = rt_key g" "rt_key (g\<lparr>myrank := n\<rparr>) = rt_key g"
  "rt_key (g\<lparr>proc_fini_time := n\<rparr>) = rt_key g"
  by (simp_all add: rt_key_def reports_def)

lemma new_instance_key: "new_instance ph prefix fs g = Some (g', fs') \<Longrightarrow> rt_key g' = rt_key g"
  by (auto simp: new_instance_def Let_def)

lemma set_base_key: "set_base_output_path ph prefix f fs g = Some (Inr (g', fs')) \<Longrightarrow> rt_key g' = rt_key g"
  by (auto simp: set_base_output_path_def split: option.splits if_splits dest: new_instance_key)

lemma get_base_key: "get_base_output_path ph prefix f fs g = Some (Inr (g', fs')) \<Longrightarrow> rt_key g' = rt_key g"
  by (auto simp: get_base_output_path_def split: option.splits if_splits dest: set_base_key)

lemma proc_path_key [simp]: "rt_key (get_proc_output_path g) = rt_key g"
  by (simp add: get_proc_output_path_def)

lemma make_paths_key: "make_output_paths ph c g = Inr (ds, g') \<Longrightarrow> rt_key g' = rt_key g"
  by (auto simp: make_output_paths_def Let_def split: if_splits)

lemma shutdown_paths_key:
  assumes "shutdown_paths sd fs g = Some (Inr (g', fs'))"
  shows "rt_key g' = rt_key g"
proof -
  obtain g1 fs1 where "get_base_output_path (sd_host sd) (Some (user_path_prefix g)) (output_file_name g) fs g
      = Some (Inr (g1, fs1))" and "rt_key g' = rt_key g1"
    using assms by (auto simp: shutdown_paths_def split: if_splits dest: make_paths_key)
  then show ?thesis using get_base_key by metis
qed

lemma run_report_key: "run_report sd fs g = Some (Inr (g', fs')) \<Longrightarrow> rt_key g' = rt_key g"
  by (auto simp: run_report_def Let_def split: if_splits)

lemma exec_cmd_key [simp]: "rt_key (run_exec_cmd sd g) = rt_key g"
  by (simp add: run_exec_cmd_def split: option.splits)

lemma write_threads_step:
  assumes "write_threads sd i ts (g, fs) = Inr (g', fs')"
  shows "rt_step self g g' \<and> rep_key g' = rep_key g"
  using assms
proof (induction ts arbitrary: i g fs)
  case (Cons t ts)
  let ?th = "if pt_finish (thread_heap g ! t) = 0
    then (thread_heap g ! t)\<lparr>pt_finish := proc_fini_time g\<rparr> else thread_heap g ! t"
  let ?g1 = "g\<lparr>thread_heap := (thread_heap g)[t := ?th]\<rparr>"
  obtain path fs1 where "write_threads sd (i + 1) ts (papiex_emit (ThreadStats i path t) ?g1, fs1) = Inr (g', fs')"
    using Cons.prems by (auto simp: Let_def split: if_splits)
  note ih = Cons.IH [OF this]
  have "rt_step self g ?g1"
  proof (cases "t < length (thread_heap g)")
    case True
    then have "rt_inv g \<Longrightarrow> depths_ok ?th" by (simp add: rt_inv_def)
    moreover have "pt_data ?th = pt_data (thread_heap g ! t)" by simp
    ultimately show ?thesis using rt_step_upd by blast
  next
    case False
    then have "?g1 = g" by (simp add: list_update_beyond)
    then show ?thesis by (simp add: rt_step_key)
  qed
  moreover have key: "rt_key (papiex_emit (ThreadStats i path t) ?g1) = rt_key ?g1" by simp
  ultimately have "rt_step self g g'" using ih rt_step_key [OF key] by (blast intro: rt_step_trans)
  then show ?case using ih rep_key_key [OF key] by simp
qed (simp add: rt_step_key)

lemma print_stats_step:
  assumes "print_process_stats sd fs g = Inr (g', fs')"
  shows "rt_step self g g'" "rep_key g' = (called_process_shutdown g,
           reports g @ [ProcessStats (map snd (all_threads g))])"
proof -
  define g1 where "g1 = get_proc_output_path g"
  have k1: "rt_key g1 = rt_key g" by (simp add: g1_def)
  define g2 where "g2 = papiex_emit (ProcessStats (map snd (all_threads g1)))
    (g1\<lparr>proc_stats_path := proc_output_path g1 @ (if papiex_threaded g1 then [] else suffix)\<rparr>)"
  have r2: "rep_key g2 = (called_process_shutdown g, reports g @ [ProcessStats (map snd (all_threads g))])"
    using rt_keyD [OF k1] by (simp add: rep_key_def g2_def reports_def papiex_emit_def)
  have "rt_step self g1 g2"
    by (simp add: rt_step_def g2_def papiex_emit_def rt_inv_def guard_of_def)
  then have s2: "rt_step self g g2" using rt_step_trans rt_step_key [OF k1] by blast
  obtain fs1 where "g' = g2 \<or> write_threads sd 0 (map snd (all_threads g2)) (g2, fs) = Inr (g', fs1)"
    using assms by (auto simp: print_process_stats_def Let_def g1_def g2_def split: if_splits)
  then have "rt_step self g2 g' \<and> rep_key g' = rep_key g2"
    using write_threads_step rt_step_key by blast
  then show "rt_step self g g'" "rep_key g' = (called_process_shutdown g,
      reports g @ [ProcessStats (map snd (all_threads g))])"
    using s2 r2 rt_step_trans by auto
qed

lemma shutdown_begin_step:
  assumes "shutdown_begin sys b self r g = Inr g'"
  shows "rt_step self g g'" "rep_key g' = (True, reports g)" "all_threads g' = all_threads g"
proof -
  define g1 where "g1 = close_gates b (g\<lparr>called_process_shutdown := True\<rparr>)"
  define g2 where "g2 = (if proc_fini_time g1 = 0 then g1\<lparr>proc_fini_time := ps_now sys\<rparr> else g1)"
  have k: "rt_key g2 = rt_key (g\<lparr>called_process_shutdown := True\<rparr>)" by (simp add: g2_def g1_def)
  have "rt_step self g (g\<lparr>called_process_shutdown := True\<rparr>)"
    by (simp add: rt_step_def rt_inv_def guard_of_def)
  then have s: "rt_step self g g2" using rt_step_trans rt_step_key [OF k] by blast
  have fini: "papiex_thread_shutdown_routine sys self r g2 = Inr g'"
    using assms unfolding shutdown_begin_def Let_def g1_def g2_def .
  show "rt_step self g g'" using rt_step_trans [OF s thread_fini_step(1) [OF fini]] .
  show "rep_key g' = (True, reports g)"
    using thread_fini_step(2) [OF fini] rep_key_key [OF k] by (simp add: rep_key_def reports_def)
  show "all_threads g' = all_threads g" using thread_fini_step(3) [OF fini] rt_keyD(1) [OF k] by simp
qed

text \<open>A shutdown that has been done does nothing; another reports every thread once.\<close>

lemma process_shutdown_step:
  assumes "papiex_process_shutdown_routine sys b sd self r fs g = Some (Inr (g', fs'))"
  shows "rt_step self g g'"
    and "rep_key g' = (True, if called_process_shutdown g then reports g
                             else reports g @ [ProcessStats (map snd (all_threads g))])"
proof -
  have "rt_step self g g' \<and> rep_key g' = (True, if called_process_shutdown g then reports g
      else reports g @ [ProcessStats (map snd (all_threads g))])"
  proof (cases "called_process_shutdown g")
    case True
    then show ?thesis
      using assms by (simp add: papiex_process_shutdown_routine_def rt_step_key rep_key_def)
  next
    case False
    then obtain g1 g2 fs1 g3 fs2 g4 where g1: "shutdown_begin sys b self r g = Inr g1"
      and g2: "shutdown_paths sd fs g1 = Some (Inr (g2, fs1))"
      and g3: "print_process_stats sd fs1 g2 = Inr (g3, fs2)"
      and g4: "run_report sd fs2 g3 = Some (Inr (g4, fs'))" and g': "g' = run_exec_cmd sd g4"
      using assms by (auto simp: papiex_process_shutdown_routine_def)
    note b = shutdown_begin_step [OF g1] and p = print_stats_step [OF g3]
      and k2 = shutdown_paths_key [OF g2]
    have k4: "rt_key g' = rt_key g3" using run_report_key [OF g4] g' by simp
    have "rt_step self g g'"
      using rt_step_trans b(1) rt_step_key [OF k2] p(1) rt_step_key [OF k4] by blast
    moreover have "rep_key g' = (True, reports g @ [ProcessStats (map snd (all_threads g))])"
      using rep_key_key [OF k4] p(2) rep_key_key [OF k2] b(2,3) rt_keyD(1) [OF k2]
      by (simp add: rep_key_def)
    ultimately show ?thesis using False by simp
  qed
  then show "rt_step self g g'" "rep_key g' = (True, if called_process_shutdown g then reports g
      else reports g @ [ProcessStats (map snd (all_threads g))])" by simp_all
qed

lemma fini_mpi_step:
  assumes "monitor_fini_mpi sys b sd self r fs g = Some (Inr (g', fs'))"
  shows "rt_step self g g'"
    and "rep_key g' = rep_key g \<or> rep_key g' = (True, if called_process_shutdown g then reports g
                             else reports g @ [ProcessStats (map snd (all_threads g))])"
proof -
  define g1 where "g1 = g\<lparr>monitor_fini_mpi_callback_occurred := True, ntasks := ps_comm_size sys,
    myrank := ps_comm_rank sys\<rparr>"
  obtain g2 fs1 where g2: "(if myrank g1 = 0
        then set_base_output_path (sd_host sd) (Some (user_path_prefix g1)) (output_file_name g1) fs g1
        else Some (Inr (g1, fs))) = Some (Inr (g2, fs1))"
    and g': "g' = g2 \<or> papiex_process_shutdown_routine sys b sd self r fs1 g2 = Some (Inr (g', fs'))"
    using assms
    by (auto simp: monitor_fini_mpi_def Let_def g1_def monitor_fini_process_def split: if_splits)
  have k: "rt_key g2 = rt_key g"
    using g2 set_base_key [of _ _ _ fs g1 g2 fs1] by (auto simp: g1_def split: if_splits)
  show "rt_step self g g'"
    using g' process_shutdown_step(1) rt_step_key [OF k] rt_step_trans by blast
  show "rep_key g' = rep_key g \<or> rep_key g' = (True, if called_process_shutdown g then reports g
      else reports g @ [ProcessStats (map snd (all_threads g))])"
    using g' process_shutdown_step(2) [of sys b sd self r fs1 g2 g' fs'] rep_key_key [OF k] rt_keyD [OF k] by auto
qed

lemma init_process_step:
  assumes "monitor_init_process sys b self r argv fs g = Inr (g', fs')"
  shows "rt_inv g \<Longrightarrow> rt_inv g'" "rep_key g' = (False, reports g)"
    and "all_threads g' = all_threads g @ [(ps_thread_num sys, length (thread_heap g))]"
proof -
  let ?g = "papi_workarounds sys ((init_process_globals g)\<lparr>process_args := join_with (CHR '' '') (tl argv)\<rparr>)"
  obtain codes where g1: "papiex_thread_init_routine sys self r (set_gates b True (process_ready sys codes ?g)) = Inr g'"
    using assms
    by (auto simp: monitor_init_process_def papiex_process_init_routine_def Let_def split: if_splits)
  define g1 where "g1 = process_ready sys codes ?g"
  note g1 = g1 [folded g1_def]
  have k: "all_threads g1 = all_threads g" "all_threads_size g1 = all_threads_size g"
    "thread_heap g1 = thread_heap g" "thread_data g1 = thread_data g" "rep_key g1 = (False, reports g)"
    by (simp_all add: g1_def process_ready_def papi_workarounds_def Let_def init_process_globals_def
        rep_key_def reports_def)
  note i = thread_init_step [OF g1] and e = rt_keyD [OF rt_key_gates(1), of b True g1]
  have "rt_inv g \<Longrightarrow> rt_inv (set_gates b True g1)" using e k by (simp add: rt_inv_def)
  then show "rt_inv g \<Longrightarrow> rt_inv g'" using i(1) by (simp add: rt_step_def)
  show "rep_key g' = (False, reports g)" using i(2) rep_key_key [OF rt_key_gates(1)] k(5) by simp
  show "all_threads g' = all_threads g @ [(ps_thread_num sys, length (thread_heap g))]"
    using i(3) e(1,3) k(1,3) by simp
qed

section \<open>The state the library starts in\<close>

definition lib_key where
  "lib_key g = (all_threads g, all_threads_size g, thread_heap g, thread_data g, called_process_shutdown g,
     reports g)"

lemma lib_key_emit_if [simp]: "\<not> is_report e \<Longrightarrow> lib_key (emit_if c e g) = lib_key g"
  by (simp add: emit_if_def lib_key_def reports_def papiex_emit_def)

lemma option_output_key:
  "option_prefix env g = Inr g' \<Longrightarrow> lib_key g' = lib_key g"
  "option_dir env g = Inr g' \<Longrightarrow> lib_key g' = lib_key g"
  "option_file env g = Inr g' \<Longrightarrow> lib_key g' = lib_key g"
  "option_event t g = Inr g' \<Longrightarrow> lib_key g' = lib_key g"
  by (auto simp: option_prefix_def option_dir_def option_file_def option_event_def lib_key_def reports_def
      Let_def split: option.splits if_splits)

text \<open>The cascade of tests, whichever branch is taken.\<close>

definition keeps_lib :: "pglob \<Rightarrow> papiex_error + pglob \<Rightarrow> bool" where
  "keeps_lib g res \<longleftrightarrow> (\<forall>g'. res = Inr g' \<longrightarrow> lib_key g' = lib_key g)"

lemma keeps_lib_intros:
  "keeps_lib g x \<Longrightarrow> keeps_lib g y \<Longrightarrow> keeps_lib g (if c then x else y)"
  "keeps_lib g x \<Longrightarrow> (\<And>v. keeps_lib g (f v)) \<Longrightarrow> keeps_lib g (case m of None \<Rightarrow> x | Some v \<Rightarrow> f v)"
  "lib_key g' = lib_key g \<Longrightarrow> keeps_lib g (Inr g')"
  "keeps_lib g (option_prefix env g)" "keeps_lib g (option_dir env g)" "keeps_lib g (option_file env g)"
  "keeps_lib g (option_event t g)"
  by (simp_all add: keeps_lib_def option_output_key split: option.split)

lemma option_step_key: "option_step env t g = Inr g' \<Longrightarrow> lib_key g' = lib_key g"
proof -
  have "keeps_lib g (option_step env t g)"
    unfolding option_step_def by (intro keeps_lib_intros) (simp_all add: lib_key_def reports_def)
  then show "option_step env t g = Inr g' \<Longrightarrow> lib_key g' = lib_key g" by (simp add: keeps_lib_def)
qed

lemma options_key: "options_fold env ts g = Inr g' \<Longrightarrow> lib_key g' = lib_key g"
  by (induction ts arbitrary: g) (auto dest: option_step_key)

lemma finish_options_key: "finish_options env b g = Inr g' \<Longrightarrow> lib_key g' = lib_key g"
  by (auto simp: finish_options_def Let_def lib_key_def reports_def papiex_emit_def
      split: if_splits option.splits)

lemma load_profilers_key: "load_profilers env g = Inr g' \<Longrightarrow> lib_key g' = lib_key g"
  by (auto simp: load_profilers_def split: if_splits) (simp_all add: lib_key_def reports_def)

lemma library_start:
  assumes "monitor_init_library env b (pglob_start b) = Inr g"
  shows "rt_inv g" "rep_key g = (False, [])" "thread_heap g = []"
proof -
  obtain opts g1 g2 where "parse_options env opts (init_library_globals b (pglob_start b)) = Inr g1"
    "finish_options env b g1 = Inr g2" "load_profilers env g2 = Inr g"
    using assms by (auto simp: monitor_init_library_def Let_def split: option.splits)
  then have "lib_key g = lib_key (init_library_globals b (pglob_start b))"
    using options_key load_profilers_key finish_options_key by (simp add: parse_options_def)
  then have "lib_key g = ([], PAPIEX_INIT_THREADS, [], (\<lambda>_. None), False, [])"
    by (simp add: lib_key_def init_library_globals_def init_process_globals_def pglob_start_def reports_def)
  then show "rt_inv g" "rep_key g = (False, [])" "thread_heap g = []"
    by (simp_all add: lib_key_def rt_inv_def rep_key_def PAPIEX_INIT_THREADS_def)
qed

section \<open>Sequences of callbacks\<close>

text \<open>Nothing to report, or the one report of a process that has not reported.\<close>

definition report_step :: "pglob \<Rightarrow> pglob \<Rightarrow> bool" where
  "report_step g g' \<longleftrightarrow> rep_key g' = rep_key g \<or>
     rep_key g' = (True, if called_process_shutdown g then reports g
                         else reports g @ [ProcessStats (map snd (all_threads g))])"

lemma callback_keeps:
  assumes "run_callback b cb (g, fs) = Some (Inr (g', fs'))" "cb_self cb = None"
  shows "rt_key g' = rt_key g"
  using assms by (cases cb) (auto simp: monitor_init_thread_support_def monitor_init_mpi_def)

lemma callback_moves:
  assumes "run_callback b cb (g, fs) = Some (Inr (g', fs'))" "\<not> is_init_process cb" "cb_self cb = Some s"
  shows "rt_step s g g'" "report_step g g'" "is_fini_process cb \<Longrightarrow> called_process_shutdown g'"
proof -
  have "rt_step s g g' \<and> report_step g g' \<and> (is_fini_process cb \<longrightarrow> called_process_shutdown g')"
  proof (cases cb)
    case (CbInitThread sys self r)
    then show ?thesis
      using assms thread_init_step(1,2) [of sys self r g g'] by (simp add: monitor_init_thread_def report_step_def)
  next
    case (CbFiniThread sys self r)
    then show ?thesis
      using assms thread_fini_step(1,2) [of sys self r g g'] by (simp add: monitor_fini_thread_def report_step_def)
  next
    case (CbFiniMpi sys sd self r)
    then show ?thesis
      using assms fini_mpi_step [of sys b sd self r fs g g' fs'] by (simp add: report_step_def)
  next
    case (CbFiniProcess sys sd self r)
    then have "papiex_process_shutdown_routine sys b sd self r fs g = Some (Inr (g', fs'))" "s = self"
      using assms by (simp_all add: monitor_fini_process_def)
    then show ?thesis using process_shutdown_step by (simp add: report_step_def rep_key_def)
  next
    case (CbCaliper self op)
    then show ?thesis using assms caliper_call(1,2) [of self g op g'] by (simp add: report_step_def)
  qed (use assms in simp_all)
  then show "rt_step s g g'" "report_step g g'" "is_fini_process cb \<Longrightarrow> called_process_shutdown g'"
    by simp_all
qed

lemma callback_step:
  assumes "run_callback b cb (g, fs) = Some (Inr (g', fs'))" "\<not> is_init_process cb"
  shows "\<exists>s. rt_step s g g'" "report_step g g'" "is_fini_process cb \<Longrightarrow> called_process_shutdown g'"
proof -
  have n: "cb_self cb = None \<Longrightarrow> \<not> is_fini_process cb" by (cases cb) simp_all
  show "\<exists>s. rt_step s g g'" "report_step g g'" "is_fini_process cb \<Longrightarrow> called_process_shutdown g'"
    using callback_moves [OF assms] n rt_step_key [OF callback_keeps [OF assms(1)]]
      rep_key_key [OF callback_keeps [OF assms(1)]]
    by (cases "cb_self cb"; auto simp: report_step_def)+
qed

lemma callback_inv:
  assumes "run_callback b cb (g, fs) = Some (Inr (g', fs'))" "rt_inv g"
  shows "rt_inv g'"
proof (cases cb)
  case (CbInitProcess sys self r argv)
  then show ?thesis using assms init_process_step(1) by simp
next
qed (use callback_step(1) [OF assms(1)] assms(2) in \<open>auto simp: rt_step_def\<close>)

lemma callbacks_inv:
  "run_callbacks b cbs (g, fs) = Some (Inr (g', fs')) \<Longrightarrow> rt_inv g \<Longrightarrow> rt_inv g'"
  by (induction cbs arbitrary: g fs) (auto dest: callback_inv)

lemma callbacks_reports:
  assumes "run_callbacks b cbs (g, fs) = Some (Inr (g', fs'))" "list_all (\<lambda>cb. \<not> is_init_process cb) cbs"
  shows "length (reports g') = length (reports g) +
      (if called_process_shutdown g' \<and> \<not> called_process_shutdown g then 1 else 0) \<and>
    (called_process_shutdown g \<or> list_ex is_fini_process cbs \<longrightarrow> called_process_shutdown g')"
  using assms
proof (induction cbs arbitrary: g fs)
  case (Cons cb cbs)
  obtain g1 fs1 where s: "run_callback b cb (g, fs) = Some (Inr (g1, fs1))"
    "run_callbacks b cbs (g1, fs1) = Some (Inr (g', fs'))" using Cons.prems(1) by auto
  have n: "\<not> is_init_process cb" "list_all (\<lambda>cb. \<not> is_init_process cb) cbs" using Cons.prems(2) by simp_all
  show ?case
    using Cons.IH [OF s(2) n(2)] callback_step(2) [OF s(1) n(1)] callback_step(3) [OF s(1) n(1)]
    by (cases "called_process_shutdown g") (auto simp: rep_key_def report_step_def)
qed simp

end
