(* ===== verification/PapiexLife.thy ===== *)
theory PapiexLife
  imports PapiexRuntimeFacts
begin

text \<open>
  Properties of whole runs of papiex's callbacks: the tables of threads, the one report of
  a process, what a forked child reports, and the counts of a thread's whole life.
\<close>

section \<open>A thread from init to fini\<close>

text \<open>A callback that is not about the thread's caliper 0.\<close>

fun foreign :: "nat \<Rightarrow> callback \<Rightarrow> bool" where
  "foreign self (CbCaliper s op) = (s \<noteq> self \<or> 0 < op_point op)"
| "foreign self cb = (\<not> is_init_process cb \<and> cb_self cb \<noteq> Some self)"

definition caliper0 :: "pglob \<Rightarrow> nat \<Rightarrow> caliper" where
  "caliper0 g i = pt_data (thread_heap g ! i) ! 0"

definition lives :: "pglob \<Rightarrow> nat \<Rightarrow> nat \<Rightarrow> bool" where
  "lives g self i \<longleftrightarrow> rt_inv g \<and> thread_data g self = Some i \<and> eventnames g \<noteq> []"

lemma other_thread_keeps:
  assumes "rt_step s g g'" "s \<noteq> self" "lives g self i"
  shows "lives g' self i \<and> caliper0 g' i = caliper0 g i \<and> guard_of g' = guard_of g"
proof -
  have l: "rt_inv g" "thread_data g self = Some i" "eventnames g \<noteq> []" using assms(3) by (simp_all add: lives_def)
  then show ?thesis
    using rt_stepD(1,2) [OF assms(1) l(1)] rt_stepD(3,4) [OF assms(1) l(1) assms(2) [symmetric] l(2)]
    by (simp add: lives_def caliper0_def guard_of_def)
qed

lemma own_caliper_keeps:
  assumes "with_thread self (run_op g op) g = Inr g'" "0 < op_point op" "lives g self i"
  shows "lives g' self i \<and> caliper0 g' i = caliper0 g i \<and> guard_of g' = guard_of g"
proof -
  have e: "eventcnt g \<noteq> 0" and td: "thread_data g self = Some i" and inv: "rt_inv g"
    using assms(3) by (simp_all add: lives_def eventcnt_def)
  obtain t where t: "run_op g op (thread_heap g ! i) = Inr t"
    and g': "g' = g\<lparr>thread_heap := (thread_heap g)[i := t]\<rparr>"
    using assms(1) e td by (auto simp: with_thread_def)
  have i: "i < length (thread_heap g)" using inv td by (auto simp: rt_inv_def)
  have "pt_data t ! 0 = pt_data (thread_heap g ! i) ! 0"
    using cal_step_frame(3) [OF t, of 0] assms(2) by simp
  moreover have "rt_inv g'" using caliper_call(1) [OF assms(1)] inv by (simp add: rt_step_def)
  ultimately show ?thesis using assms(3) i by (simp add: g' lives_def caliper0_def guard_of_def)
qed

lemma foreign_keeps:
  assumes "run_callback b cb (g, fs) = Some (Inr (g', fs'))" "foreign self cb" "lives g self i"
  shows "lives g' self i \<and> caliper0 g' i = caliper0 g i \<and> guard_of g' = guard_of g"
proof -
  have n: "\<not> is_init_process cb" using assms(2) by (cases cb) simp_all
  show ?thesis
  proof (cases "cb_self cb")
    case None
    then show ?thesis
      using other_thread_keeps [OF rt_step_key [OF callback_keeps [OF assms(1)], of "self + 1"] _ assms(3)] by simp
  next
    case (Some s)
    show ?thesis
    proof (cases "s = self")
      case False
      then show ?thesis using other_thread_keeps [OF callback_moves(1) [OF assms(1) n Some]] assms(3) by simp
    next
      case True
      then obtain op where "cb = CbCaliper self op" "0 < op_point op" using assms(2) Some by (cases cb) auto
      then show ?thesis using own_caliper_keeps [OF _ _ assms(3), of op g'] assms(1) by simp
    qed
  qed
qed

lemma foreign_run:
  assumes "run_callbacks b cbs (g, fs) = Some (Inr (g', fs'))" "list_all (foreign self) cbs" "lives g self i"
  shows "lives g' self i \<and> caliper0 g' i = caliper0 g i \<and> guard_of g' = guard_of g"
  using assms
proof (induction cbs arbitrary: g fs)
  case (Cons cb cbs)
  obtain g1 fs1 where s: "run_callback b cb (g, fs) = Some (Inr (g1, fs1))"
    "run_callbacks b cbs (g1, fs1) = Some (Inr (g', fs'))" using Cons.prems(1) by auto
  have f: "foreign self cb" "list_all (foreign self) cbs" using Cons.prems(2) by simp_all
  show ?case using foreign_keeps [OF s(1) f(1) Cons.prems(3)] Cons.IH [OF s(2) f(2)] by auto
qed simp

lemma guard_facts:
  assumes "guard_of g' = guard_of g"
  shows "eventcnt g' = eventcnt g" "does_read g' r = does_read g r" "real_reading g' r = real_reading g r"
    "read_status g' r = read_status g r"
  using assms by (simp_all add: guard_of_def eventcnt_def does_read_def real_reading_def read_status_def)

lemma init_opens:
  assumes "papiex_thread_init_routine sys self r g = Inr g'" "rt_inv g" "does_read g' r"
  obtains i where "lives g' self i" "cal_depth (caliper0 g' i) = 1" "real_cyc (caliper0 g' i) = 0"
    "tmp_real_cyc (caliper0 g' i) = rd_real_cyc r"
    "\<forall>k<eventcnt g'. counters (caliper0 g' i) k = 0 \<and> tmp_counters (caliper0 g' i) k = rd_counters r k"
proof -
  obtain g1 where g1: "papiex_start self r 0 (Some []) g1 = Inr g'"
    "thread_heap g1 = thread_heap g @ [new_thread sys]"
    "thread_data g1 = (thread_data g)(self := Some (length (thread_heap g)))"
    "guard_of g1 = guard_of (default_events sys g)"
    using thread_init_parts [OF assms(1)] by metis
  define i where "i = length (thread_heap g)"
  have ev: "eventnames g1 \<noteq> []" using g1(4) default_events_parts(9) [of sys g] by (simp add: guard_of_def)
  then obtain t where t: "cal_start g1 r 0 (Some []) (new_thread sys) = Inr t"
    and g': "g' = g1\<lparr>thread_heap := (thread_heap g1)[i := t]\<rparr>"
    using g1(1-3) by (auto simp: papiex_start_def with_thread_def eventcnt_def i_def)
  have gd: "guard_of g' = guard_of g1" by (simp add: g' guard_of_def)
  have r0: "in_range 0" by (simp add: in_range_def PAPIEX_MAX_CALIPERS_def)
  have c: "pt_data (new_thread sys) ! nat 0 = zero_caliper"
    by (simp add: new_thread_def zero_perthread_def PAPIEX_MAX_CALIPERS_def)
  have "rt_inv g'" using thread_init_step(1) [OF assms(1)] assms(2) by (simp add: rt_step_def)
  then have l: "lives g' self i" using g1(3) ev by (simp add: lives_def g' i_def)
  have "caliper0 g' i = pt_data t ! 0" using g1(2) by (simp add: caliper0_def g' i_def)
  moreover have "cal_size_ok (new_thread sys)" using new_thread_ok by (simp add: depths_ok_def)
  ultimately show thesis
    using that [OF l] start_at [OF r0, of "new_thread sys" g1 r "Some []"] t c assms(3) guard_facts [OF gd]
    by (auto simp: zero_caliper_def Let_def)
qed

lemma fini_closes:
  assumes "papiex_thread_shutdown_routine sys self r g = Inr g'" "lives g self i"
    and "cal_depth (caliper0 g i) \<noteq> 0" "read_status g r"
  shows "thread_data g' self = Some i" "cal_depth (caliper0 g' i) = cal_depth (caliper0 g i) - 1"
    and "real_cyc (caliper0 g' i) = real_cyc (caliper0 g i) + (rd_real_cyc r - tmp_real_cyc (caliper0 g i))"
    and "\<forall>k<eventcnt g. counters (caliper0 g' i) k = counters (caliper0 g i) k +
           (rd_counters r k - tmp_counters (caliper0 g i) k)"
proof -
  have td: "thread_data g self = Some i" and i: "i < length (thread_heap g)" and e: "eventcnt g \<noteq> 0"
    and sz: "cal_size_ok (thread_heap g ! i)"
    using assms(2) by (auto simp: lives_def rt_inv_def eventcnt_def depths_ok_def)
  obtain t where t: "cal_stop g r 0 (thread_heap g ! i) = Inr t"
    and st: "papiex_stop self r 0 g = Inr (g\<lparr>thread_heap := (thread_heap g)[i := t]\<rparr>)"
    using assms(1) td e by (auto simp: papiex_thread_shutdown_routine_def papiex_stop_def with_thread_def)
  define g2 where "g2 = stop_counters sys i (g\<lparr>thread_heap := (thread_heap g)[i := t]\<rparr>)"
  have k: "rt_key g2 = rt_key (g\<lparr>thread_heap := (thread_heap g)[i := t]\<rparr>)"
    by (simp add: g2_def stop_counters_def)
  have g': "g' = g2\<lparr>thread_heap := (thread_heap g2)[i := (thread_heap g2 ! i)\<lparr>pt_finish := ps_now sys\<rparr>]\<rparr>"
    using assms(1) st td by (simp add: papiex_thread_shutdown_routine_def Let_def g2_def)
  have c: "caliper0 g' i = pt_data t ! 0" using rt_keyD(3) [OF k] i by (simp add: caliper0_def g')
  show "thread_data g' self = Some i" using rt_keyD(4) [OF k] td by (simp add: g')
  have r0: "in_range 0" by (simp add: in_range_def PAPIEX_MAX_CALIPERS_def)
  note s = stop_at [OF r0 sz, of g r] 
  show "cal_depth (caliper0 g' i) = cal_depth (caliper0 g i) - 1"
    "real_cyc (caliper0 g' i) = real_cyc (caliper0 g i) + (rd_real_cyc r - tmp_real_cyc (caliper0 g i))"
    "\<forall>k<eventcnt g. counters (caliper0 g' i) k = counters (caliper0 g i) k +
           (rd_counters r k - tmp_counters (caliper0 g i) k)"
    using s t c assms(3,4) by (auto simp: caliper0_def Let_def)
qed

section \<open>Properties\<close>

text \<open>C8: the state papiex keeps of its threads is well formed.  From the load of the library
  on, whatever the order of the callbacks and caliper calls, as long as none ends the process:
  the table of threads lists every structure once, in the order they were made, and has room,
  a thread points to a structure of its own, and every caliper is at rest or open once.\<close>
theorem runtime_well_formed:
  assumes "monitor_init_library env b (pglob_start b) = Inr g0"
    and "run_callbacks b cbs (g0, fs0) = Some (Inr (g, fs))"
  shows "map snd (all_threads g) = [0..<length (thread_heap g)] \<and>
     length (all_threads g) < all_threads_size g \<and>
     (thread_data g s = Some i \<longrightarrow> i < length (thread_heap g)) \<and>
     (thread_data g s = Some i \<and> thread_data g s' = Some i \<longrightarrow> s = s') \<and>
     list_all depths_ok (thread_heap g)"
  using callbacks_inv [OF assms(2) library_start(1) [OF assms(1)]]
  by (auto simp: rt_inv_def list_all_iff)

text \<open>C10: a process reports once.  Over any callbacks after the one that starts the process,
  MPI's end included, the statistics of the process are written once when a shutdown has been
  done and never otherwise, and the end of the process is such a shutdown.\<close>
theorem process_reports_once:
  assumes "monitor_init_process sys b self r argv fs g = Inr (g0, fs0)"
    and "list_all (\<lambda>cb. \<not> is_init_process cb) cbs"
    and "run_callbacks b cbs (g0, fs0) = Some (Inr (g', fs'))"
  shows "length (reports g') = length (reports g) + (if called_process_shutdown g' then 1 else 0) \<and>
    (list_ex is_fini_process cbs \<longrightarrow> called_process_shutdown g')"
  using callbacks_reports [OF assms(3,2)] init_process_step(2) [OF assms(1)] by (simp add: rep_key_def)

text \<open>C32: a forked child reports its parent's threads.  The table of threads is not cleared
  when the process begins, so the child of a fork in a process with n thread structures
  reports n + 1 of them, the parent's first.\<close>
theorem forked_child_reports_parent_threads:
  assumes "rt_inv g"
    and "monitor_init_process sys0 b self r0 argv fs g = Inr (g0, fs0)"
    and "monitor_fini_process sys1 b sd self r1 fs0 g0 = Some (Inr (g', fs'))"
  shows "reports g' = reports g @ [ProcessStats [0..<length (thread_heap g) + 1]]"
proof -
  note i = init_process_step [OF assms(2)]
  have "map snd (all_threads g0) = [0..<length (thread_heap g) + 1]"
    using assms(1) i(3) by (simp add: rt_inv_def)
  then show ?thesis
    using process_shutdown_step(2) [OF assms(3) [unfolded monitor_fini_process_def]] i(2)
    by (simp add: rep_key_def)
qed

text \<open>What a thread counts over its life.  Between a thread's init callback and its fini
  callback, with any callbacks of other threads and any caliper calls of its own on other
  points in between, caliper 0 measures the difference of the two readings, modulo 2^64,
  and is at rest at the end.\<close>
lemma thread_counts_whole_life:
  assumes "rt_inv g" "monitor_init_thread sys0 self r0 g = Inr g0"
    and "real_reading g0 r0" "real_reading g0 r1"
    and "list_all (foreign self) mid" "run_callbacks b mid (g0, fs0) = Some (Inr (g1, fs1))"
    and "monitor_fini_thread sys1 self r1 g1 = Inr g2"
  shows "\<exists>i. thread_data g2 self = Some i \<and> cal_depth (caliper0 g2 i) = 0 \<and>
    real_cyc (caliper0 g2 i) = rd_real_cyc r1 - rd_real_cyc r0 \<and>
    (\<forall>k<eventcnt g0. counters (caliper0 g2 i) k = rd_counters r1 k - rd_counters r0 k)"
proof -
  obtain i where i: "lives g0 self i" "cal_depth (caliper0 g0 i) = 1" "real_cyc (caliper0 g0 i) = 0"
    "tmp_real_cyc (caliper0 g0 i) = rd_real_cyc r0"
    "\<forall>k<eventcnt g0. counters (caliper0 g0 i) k = 0 \<and> tmp_counters (caliper0 g0 i) k = rd_counters r0 k"
    using init_opens [OF assms(2) [unfolded monitor_init_thread_def] assms(1)] assms(3)
    by (metis real_reading_def)
  note f = foreign_run [OF assms(6,5) i(1)]
  then have "read_status g1 r1" using assms(4) real_reading_status guard_facts(4) by metis
  with fini_closes [OF assms(7) [unfolded monitor_fini_thread_def], of i] f i guard_facts(1) [of g1 g0]
  show ?thesis by auto
qed

section \<open>A run on concrete values\<close>

definition sample_build :: build where
  "sample_build = \<lparr>profiling_support = False, have_binutils = False\<rparr>"

definition sample_env :: papiex_env where
  "sample_env = \<lparr>env_options = Some ''PAPI_TOT_CYC,PAPI_FP_OPS,NO_WRITE,FILE'', env_output = Some ''out'', mkdir = (\<lambda>_. None),
     the_hostname = ''node1'', papi_set_debug_ok = True, dlopen_self_ok = True, dlsym = (\<lambda>_. Some True)\<rparr>"

definition sample_sys :: papi_sys where
  "sample_sys = \<lparr>ps_malloc_ok = True, ps_create_ok = True, ps_assign_ok = True, ps_set_opt_ok = True,
     ps_set_multiplex_ok = True, ps_query_ok = (\<lambda>_. True), ps_preset = (\<lambda>_. 1), ps_code = (\<lambda>_. Some 1),
     ps_add_ok = (\<lambda>_. True), ps_start_ok = True, ps_realloc_ok = True, ps_unregister_ok = True,
     ps_thread_init_ok = True, ps_eventset = 3, ps_thread_num = 0, ps_now = 9, ps_running_long = True,
     ps_library_ok = True, ps_hw_ok = True, ps_exe_name = Some ''app'', ps_mpx_init_ok = True,
     ps_domain_ok = True, ps_zero_bug_env = False, ps_broken_stop_env = False, ps_comm_size = 1,
     ps_comm_rank = 0\<rparr>"

definition sample_sd :: shutdown_env where
  "sample_sd = \<lparr>sd_host = \<lparr>ph_pid = 42, ph_can_create = (\<lambda>_. True), ph_mkdir = (\<lambda>_. None)\<rparr>,
     sd_can_open = (\<lambda>_. True), sd_others = (\<lambda>fs. fs), 
     sd_hw = \<lparr>vendor_string = [], model_string = [], vendor = 1, cpuid_family = 6, cpuid_model = 26\<rparr>,
     sd_report_args = None, sd_exec_cmd = None, sd_system = (\<lambda>_. 0)\<rparr>"

text \<open>What a shutdown that writes no files needs.\<close>

definition writes_out :: "pglob \<Rightarrow> bool" where
  "writes_out g \<longleftrightarrow> base_output_path g = [] \<and> proc_output_path g = [] \<and> output_file_name g = Some ''out'' \<and>
     no_write g \<and> \<not> papiex_nextgen g \<and> \<not> is_mpied g"

lemma writes_out_key:
  "writes_out (g\<lparr>thread_heap := h\<rparr>) = writes_out g" "writes_out (papiex_emit e g) = writes_out g"
  "writes_out (emit_if c e g) = writes_out g" "writes_out (stop_counters sys i g) = writes_out g"
  "writes_out (close_gates b g) = writes_out g" "writes_out (g\<lparr>proc_fini_time := n\<rparr>) = writes_out g"
  "writes_out (g\<lparr>called_process_shutdown := c\<rparr>) = writes_out g"
  by (simp_all add: writes_out_def emit_if_def papiex_emit_def stop_counters_def close_gates_def)

lemma thread_fini_goes:
  assumes "lives g self i" "cal_depth (caliper0 g i) \<noteq> 0" "ps_unregister_ok sys"
  shows "\<exists>g'. papiex_thread_shutdown_routine sys self r g = Inr g' \<and> writes_out g' = writes_out g"
proof -
  have td: "thread_data g self = Some i" and e: "eventcnt g \<noteq> 0" and sz: "cal_size_ok (thread_heap g ! i)"
    using assms(1) by (auto simp: lives_def rt_inv_def eventcnt_def depths_ok_def)
  have "in_range 0" by (simp add: in_range_def PAPIEX_MAX_CALIPERS_def)
  then obtain t where "cal_stop g r 0 (thread_heap g ! i) = Inr t"
    using stop_at [OF _ sz, of 0 g r] assms(2) by (auto simp: caliper0_def)
  then show ?thesis using td e assms(3)
    by (simp add: papiex_thread_shutdown_routine_def papiex_stop_def with_thread_def ensure_def Let_def writes_out_key)
qed

lemma shutdown_begin_goes:
  assumes "lives g self i" "cal_depth (caliper0 g i) \<noteq> 0" "ps_unregister_ok sys" "writes_out g"
  shows "\<exists>g'. shutdown_begin sys b self r g = Inr g' \<and> writes_out g'"
proof -
  define g1 where "g1 = close_gates b (g\<lparr>called_process_shutdown := True\<rparr>)"
  define g2 where "g2 = (if proc_fini_time g1 = 0 then g1\<lparr>proc_fini_time := ps_now sys\<rparr> else g1)"
  have k: "rt_key g2 = rt_key (g\<lparr>called_process_shutdown := True\<rparr>)" by (simp add: g2_def g1_def)
  have "lives g2 self i" "caliper0 g2 i = caliper0 g i"
    using rt_keyD [OF k] rt_key_inv [OF k] assms(1) by (auto simp: lives_def caliper0_def rt_inv_def)
  moreover have "writes_out g2" using assms(4) by (simp add: g2_def g1_def writes_out_key)
  ultimately obtain g' where "papiex_thread_shutdown_routine sys self r g2 = Inr g'" "writes_out g'"
    using thread_fini_goes assms(2,3) by metis
  then show ?thesis unfolding shutdown_begin_def Let_def g2_def g1_def by blast
qed

lemma process_fini_goes:
  assumes "lives g self i" "cal_depth (caliper0 g i) \<noteq> 0" "ps_unregister_ok sys" "writes_out g"
    and "fs ''out'' = None"
  shows "\<exists>g' fs'. monitor_fini_process sys b sd self r fs g = Some (Inr (g', fs'))"
proof (cases "called_process_shutdown g")
  case False
  obtain g1 where g1: "shutdown_begin sys b self r g = Inr g1" "writes_out g1"
    using shutdown_begin_goes [OF assms(1-4)] by blast
  define g2 where "g2 = g1\<lparr>base_output_path := ''out''\<rparr>"
  have gen: "get_next_gen fs ''out'' = Some (Inr 0)"
    using assms(5) by (simp add: get_next_gen_def file_exists_def PATH_MAX_def)
  have w: "base_output_path g1 = []" "proc_output_path g1 = []" "output_file_name g1 = Some ''out''"
    "no_write g1" "\<not> papiex_nextgen g1" "\<not> is_mpied g1"
    using g1(2) by (simp_all add: writes_out_def)
  have "set_base_output_path (sd_host sd) (Some (user_path_prefix g1)) (Some ''out'') fs g1 = Some (Inr (g2, fs))"
    unfolding set_base_output_path_def by (simp add: gen w(6) g2_def)
  then have g2: "shutdown_paths sd fs g1 = Some (Inr (g2, fs))"
    using w by (simp add: shutdown_paths_def get_base_output_path_def g2_def)
  define g3 where "g3 = papiex_emit (ProcessStats (map snd (all_threads (get_proc_output_path g2))))
    ((get_proc_output_path g2)\<lparr>proc_stats_path := proc_output_path (get_proc_output_path g2) @
       (if papiex_threaded (get_proc_output_path g2) then [] else suffix)\<rparr>)"
  have out: "proc_output_path (get_proc_output_path g2) = ''out''"
    using w by (simp add: get_proc_output_path_def g2_def)
  have n3: "no_write g3" "\<not> papiex_nextgen g3"
    using w by (simp_all add: g3_def papiex_emit_def get_proc_output_path_def g2_def)
  have "print_process_stats sd fs g2 = Inr (g3, fs)"
    unfolding print_process_stats_def Let_def g3_def [symmetric] using n3 by (simp add: out PATH_MAX_def suffix_def)
  note g3 = this
  have "run_report sd fs g3 = Some (Inr (g3, fs))"
    using n3 by (simp add: run_report_def)
  then show ?thesis
    using False g1(1) g2 g3
    by (simp add: monitor_fini_process_def papiex_process_shutdown_routine_def obind_def)
qed (simp add: monitor_fini_process_def papiex_process_shutdown_routine_def)

text \<open>The library loaded and the process started.\<close>

fun started :: "papiex_error + (pglob \<times> filesys) \<Rightarrow> bool" where
  "started (Inl e) = False"
| "started (Inr (g, fs)) = (writes_out g \<and> \<not> called_process_shutdown g \<and> \<not> multiplex g \<and>
     eventcnt g = 2 \<and> fs ''out'' = None)"

lemma sample_started:
  "(case monitor_init_library sample_env sample_build (pglob_start sample_build) of
      Inl e \<Rightarrow> False
    | Inr g \<Rightarrow> started (monitor_init_process sample_sys sample_build 7 (sample_reading 5) [''app''] (\<lambda>_. None) g))"
  by code_simp

lemma sample_run:
  obtains g0 g1 fs1 g2 fs2 where "monitor_init_library sample_env sample_build (pglob_start sample_build) = Inr g0"
    "monitor_init_process sample_sys sample_build 7 (sample_reading 5) [''app''] (\<lambda>_. None) g0 = Inr (g1, fs1)"
    "started (Inr (g1, fs1))" "rt_inv g1"
    "monitor_fini_process sample_sys sample_build sample_sd 7 (sample_reading 9) fs1 g1 = Some (Inr (g2, fs2))"
proof -
  obtain g0 where g0: "monitor_init_library sample_env sample_build (pglob_start sample_build) = Inr g0"
    using sample_started by (auto split: sum.splits)
  obtain g1 fs1 where g1: "monitor_init_process sample_sys sample_build 7 (sample_reading 5) [''app''] (\<lambda>_. None) g0 =
      Inr (g1, fs1)" "started (Inr (g1, fs1))"
    using sample_started g0
    by (cases "monitor_init_process sample_sys sample_build 7 (sample_reading 5) [''app''] (\<lambda>_. None) g0") auto
  have mp: "does_read g1 (sample_reading 5)" using g1(2) by (simp add: does_read_def)
  let ?g = "papi_workarounds sample_sys ((init_process_globals g0)\<lparr>process_args := join_with (CHR '' '') (tl [''app''])\<rparr>)"
  obtain codes where ti: "papiex_thread_init_routine sample_sys 7 (sample_reading 5)
      (set_gates sample_build True (process_ready sample_sys codes ?g)) = Inr g1"
    using g1(1) by (auto simp: monitor_init_process_def papiex_process_init_routine_def Let_def split: if_splits)
  have "rt_inv ?g = rt_inv g0"
    by (simp add: papi_workarounds_def Let_def init_process_globals_def rt_inv_def)
  moreover have "rt_inv (process_ready sample_sys codes ?g) = rt_inv ?g"
    by (simp add: process_ready_def rt_inv_def)
  ultimately have "rt_inv (set_gates sample_build True (process_ready sample_sys codes ?g))"
    using rt_key_inv [OF rt_key_gates(1)] library_start(1) [OF g0] by blast
  then obtain i where i: "lives g1 7 i" "cal_depth (caliper0 g1 i) = 1" using init_opens [OF ti _ mp] by metis
  have "ps_unregister_ok sample_sys" by (simp add: sample_sys_def)
  then show thesis
    using process_fini_goes [OF i(1), of sample_sys fs1 sample_build sample_sd "sample_reading 9"] i g1(2)
      that [OF g0 g1] by (auto simp: lives_def)
qed

lemma run_two:
  "run_callback b c s = Some (Inr t) \<Longrightarrow> run_callback b c' t = Some (Inr u) \<Longrightarrow>
   run_callbacks b [c, c'] s = Some (Inr u)"
  by (simp add: obind_def)

theorem runtime_well_formed_witness:
  "\<exists>g fs. run_callbacks sample_build [CbInitProcess sample_sys 7 (sample_reading 5) [''app''],
      CbFiniProcess sample_sys sample_sd 7 (sample_reading 9)]
      (projr (monitor_init_library sample_env sample_build (pglob_start sample_build)), \<lambda>_. None) = Some (Inr (g, fs)) \<and>
    map snd (all_threads g) = [0..<length (thread_heap g)]"
proof -
  obtain g0 g1 fs1 g2 fs2 where g0: "monitor_init_library sample_env sample_build (pglob_start sample_build) = Inr g0"
    "monitor_init_process sample_sys sample_build 7 (sample_reading 5) [''app''] (\<lambda>_. None) g0 = Inr (g1, fs1)"
    "started (Inr (g1, fs1))" "rt_inv g1"
    and g2: "monitor_fini_process sample_sys sample_build sample_sd 7 (sample_reading 9) fs1 g1 = Some (Inr (g2, fs2))"
    by (rule sample_run)
  have "run_callbacks sample_build [CbInitProcess sample_sys 7 (sample_reading 5) [''app''],
      CbFiniProcess sample_sys sample_sd 7 (sample_reading 9)] (g0, \<lambda>_. None) = Some (Inr (g2, fs2))"
    by (rule run_two [where t = "(g1, fs1)"]) (simp_all only: run_callback.simps g0(2) g2)
  from runtime_well_formed [OF g0(1) this] this show ?thesis using g0(1) by auto
qed

theorem process_reports_once_witness:
  "\<exists>g0 g1 fs1 g2 fs2. monitor_init_process sample_sys sample_build 7 (sample_reading 5) [''app''] (\<lambda>_. None) g0 =
      Inr (g1, fs1) \<and>
    run_callbacks sample_build [CbFiniProcess sample_sys sample_sd 7 (sample_reading 9)] (g1, fs1) =
      Some (Inr (g2, fs2)) \<and> length (reports g2) = length (reports g0) + 1"
proof -
  obtain g0 g1 fs1 g2 fs2 where g0: "monitor_init_library sample_env sample_build (pglob_start sample_build) = Inr g0"
    "monitor_init_process sample_sys sample_build 7 (sample_reading 5) [''app''] (\<lambda>_. None) g0 = Inr (g1, fs1)"
    "started (Inr (g1, fs1))" "rt_inv g1"
    and g2: "monitor_fini_process sample_sys sample_build sample_sd 7 (sample_reading 9) fs1 g1 = Some (Inr (g2, fs2))"
    by (rule sample_run)
  have run: "run_callbacks sample_build [CbFiniProcess sample_sys sample_sd 7 (sample_reading 9)] (g1, fs1) =
      Some (Inr (g2, fs2))" using g2 by simp
  show ?thesis using process_reports_once [OF g0(2) _ run] g0(2) run by fastforce
qed

theorem forked_child_reports_parent_threads_witness:
  "\<exists>g0 g1 fs1 g2 fs2. monitor_init_process sample_sys sample_build 7 (sample_reading 5) [''app''] (\<lambda>_. None) g0 =
      Inr (g1, fs1) \<and>
    monitor_fini_process sample_sys sample_build sample_sd 7 (sample_reading 9) fs1 g1 = Some (Inr (g2, fs2)) \<and>
    reports g2 = reports g0 @ [ProcessStats [0..<length (thread_heap g0) + 1]]"
proof -
  obtain g0 g1 fs1 g2 fs2 where g0: "monitor_init_library sample_env sample_build (pglob_start sample_build) = Inr g0"
    "monitor_init_process sample_sys sample_build 7 (sample_reading 5) [''app''] (\<lambda>_. None) g0 = Inr (g1, fs1)"
    "started (Inr (g1, fs1))" "rt_inv g1"
    and g2: "monitor_fini_process sample_sys sample_build sample_sd 7 (sample_reading 9) fs1 g1 = Some (Inr (g2, fs2))"
    by (rule sample_run)
  show ?thesis
    using forked_child_reports_parent_threads [OF library_start(1) [OF g0(1)] g0(2) g2] g0(2) g2 by blast
qed

text \<open>Another thread starts while the thread of the process runs.\<close>

lemma thread_init_goes:
  assumes "\<not> multiplex g"
  shows "\<exists>g'. papiex_thread_init_routine sample_sys self r g = Inr g'"
proof -
  let ?g = "default_events sample_sys g"
  have "ps_realloc_ok sample_sys" by (simp add: sample_sys_def)
  then obtain g1 where g1: "thread_table_add sample_sys (length (thread_heap ?g)) (thread_ready sample_sys self ?g) = Inr g1"
    by (cases "all_threads_size (thread_ready sample_sys self ?g) \<le> length (all_threads (thread_ready sample_sys self ?g)) + 1")
      (auto simp: thread_table_add_def)
  note p = table_add_parts [OF g1]
  have "thread_data g1 self = Some (length (thread_heap g))" "thread_heap g1 ! length (thread_heap g) = new_thread sample_sys"
    by (simp_all add: p thread_ready_parts default_events_parts)
  moreover have "\<exists>t. cal_start g1 r 0 (Some []) (new_thread sample_sys) = Inr t"
    by (simp add: cal_start_def Let_def new_thread_def zero_perthread_def zero_caliper_def PAPIEX_MAX_CALIPERS_def)
  ultimately have "\<exists>g'. papiex_start self r 0 (Some []) g1 = Inr g'"
    by (auto simp: papiex_start_def with_thread_def)
  then show ?thesis
    using assms g1 by (simp add: papiex_thread_init_routine_def Let_def multiplex_setup_def)
      (simp add: ensure_def sample_sys_def list_all_iff)
qed

section \<open>Where the statistics go\<close>






end
