(* ===== verification/Float32.thy ===== *)
theory Float32
  imports Main
begin

text \<open>
  The C type float as far as papiex uses it: the field used of a caliper is a float that holds
  a number of uses, never negative and never a fraction until it is divided.  A natural number
  stands for the float of that value; an operation is that on the naturals,
  rounded to a significand of 24 bits, a tie to the even neighbour.  The largest float is near
  2^128, which a sum over threads does not reach.
\<close>

section \<open>Rounding\<close>

text \<open>The quotient rounded to the nearest, a tie to the even one.\<close>

definition div_even :: "nat \<Rightarrow> nat \<Rightarrow> nat" where
  "div_even a b =
    (let q = a div b; r = a mod b in if 2 * r < b \<or> 2 * r = b \<and> even q then q else Suc q)"

text \<open>The bits of a number beyond the 24 of the significand.\<close>

fun f32_extra :: "nat \<Rightarrow> nat" where
  "f32_extra n = (if n < 2 ^ 24 then 0 else Suc (f32_extra (n div 2)))"

declare f32_extra.simps [simp del]

definition f32_round :: "nat \<Rightarrow> nat" where
  "f32_round n = div_even n (2 ^ f32_extra n) * 2 ^ f32_extra n"

definition float_add :: "nat \<Rightarrow> nat \<Rightarrow> nat" where
  "float_add a b = f32_round (a + b)"

section \<open>The quotient\<close>

text \<open>The quotient of a float and an int, truncated to long long: it is scaled until it
  has the 24 bits, rounded there and scaled back.\<close>

function f32_shift :: "nat \<Rightarrow> nat \<Rightarrow> nat" where
  "f32_shift a n = (if a = 0 \<or> n = 0 \<or> 2 ^ 23 \<le> a div n then 0 else Suc (f32_shift (2 * a) n))"
  by pat_completeness auto
termination
proof (relation "measure (\<lambda>(a, n). 2 ^ 23 * n - a)")
  fix a n :: nat
  assume h: "\<not> (a = 0 \<or> n = 0 \<or> 2 ^ 23 \<le> a div n)"
  then have "a < 2 ^ 23 * n" by (metis div_less_iff_less_mult gr0I not_le)
  moreover have "0 < a" using h by simp
  ultimately have "2 ^ 23 * n - 2 * a < 2 ^ 23 * n - a" by linarith
  then show "((2 * a, n), (a, n)) \<in> measure (\<lambda>(a, n). 2 ^ 23 * n - a)" by simp
qed simp

declare f32_shift.simps [simp del]

definition float_div_trunc :: "nat \<Rightarrow> nat \<Rightarrow> nat" where
  "float_div_trunc a n =
    (let m = f32_shift a n; k = f32_extra (a * 2 ^ m div n)
     in div_even (a * 2 ^ m) (n * 2 ^ k) * 2 ^ k div 2 ^ m)"

section \<open>Facts\<close>

lemma div_even_exact: "0 < b \<Longrightarrow> div_even (q * b) b = q"
  by (simp add: div_even_def)

lemma div_even_scale: "0 < n \<Longrightarrow> div_even (n * a) (n * b) = div_even a b"
  by (simp add: div_even_def Let_def mult.left_commute [of 2 n] flip: mult_mod_right)

lemma f32_extra_small: "n < 2 ^ 24 \<Longrightarrow> f32_extra n = 0"
  by (simp add: f32_extra.simps)

lemma f32_extra_top: "f32_extra (2 ^ 24) = 1"
  by (simp add: f32_extra.simps)

text \<open>Up to 2^24 every whole number is a float.\<close>

lemma f32_round_exact:
  assumes "n \<le> 2 ^ 24"
  shows "f32_round n = n"
proof (cases "n = 2 ^ 24")
  case True
  then show ?thesis unfolding True f32_round_def f32_extra_top by (simp add: div_even_def)
next
  case False
  then show ?thesis using assms by (simp add: f32_round_def f32_extra_small div_even_def)
qed

lemma float_add_exact: "a + b \<le> 2 ^ 24 \<Longrightarrow> float_add a b = a + b"
  by (simp add: float_add_def f32_round_exact)

text \<open>Beyond, a sum is off by at most half of what the last bit counts.\<close>

lemma div_even_near:
  assumes "0 < b"
  shows "\<bar>int (div_even a b * b) - int a\<bar> * 2 \<le> int b"
proof -
  have a: "int a = int (a div b) * int b + int (a mod b)" by (metis div_mult_mod_eq of_nat_add of_nat_mult)
  have "int (a mod b) < int b" using assms by simp
  then show ?thesis unfolding a by (auto simp: div_even_def Let_def algebra_simps)
qed

lemma float_add_near: "\<bar>int (float_add a b) - int (a + b)\<bar> * 2 \<le> 2 ^ f32_extra (a + b)"
  using div_even_near [of "2 ^ f32_extra (a + b)" "a + b"] by (simp add: float_add_def f32_round_def)

text \<open>A sum of many.\<close>

lemma float_sum_exact:
  assumes "a + sum_list ns \<le> 2 ^ 24"
  shows "foldl float_add a ns = a + sum_list ns"
  using assms by (induction ns arbitrary: a) (simp_all add: float_add_exact)

text \<open>Uses are lost when it is more.\<close>

lemma float_sum_loses: "foldl float_add 0 [2 ^ 24, 1, 1] = 2 ^ 24"
proof -
  have "f32_extra (2 ^ 24 + 1) = 1" by (simp add: f32_extra.simps)
  then have "float_add (2 ^ 24) 1 = 2 ^ 24" unfolding float_add_def f32_round_def by (simp add: div_even_def)
  then show ?thesis using float_add_exact [of 0 "2 ^ 24"] by simp
qed

text \<open>A sum with something in it is not 0.\<close>

lemma f32_extra_bound: "0 < f32_extra n \<Longrightarrow> 2 ^ f32_extra n \<le> n"
proof (induction n rule: f32_extra.induct)
  case (1 n)
  then have big: "\<not> n < 2 ^ 24" using f32_extra_small by fastforce
  then have e: "f32_extra n = Suc (f32_extra (n div 2))" by (subst f32_extra.simps) simp
  show ?case
  proof (cases "f32_extra (n div 2) = 0")
    case True
    then show ?thesis using e big by simp
  next
    case False
    then have "2 ^ f32_extra (n div 2) \<le> n div 2" using "1.IH" big by simp
    then show ?thesis using e by simp
  qed
qed

lemma float_add_pos: "0 < a + b \<Longrightarrow> 0 < float_add a b"
proof -
  assume n: "0 < a + b"
  let ?k = "f32_extra (a + b)"
  have "2 ^ ?k \<le> a + b" using f32_extra_bound [of "a + b"] n by (cases "?k = 0") auto
  then have "0 < (a + b) div 2 ^ ?k" by (simp add: div_greater_zero_iff)
  then show ?thesis by (auto simp: float_add_def f32_round_def div_even_def Let_def)
qed

text \<open>A quotient that is a whole number of at most 24 bits is exact.\<close>

lemma f32_shift_bound: "0 < n \<Longrightarrow> q \<le> 2 ^ 24 \<Longrightarrow> q * 2 ^ f32_shift (q * n) n \<le> 2 ^ 24"
proof (induction "q * n" n arbitrary: q rule: f32_shift.induct)
  case (1 n q)
  show ?case
  proof (cases "q = 0 \<or> 2 ^ 23 \<le> q")
    case True
    then show ?thesis using 1(2,3) by (auto simp: f32_shift.simps)
  next
    case False
    then have "(2 * q) * 2 ^ f32_shift (2 * q * n) n \<le> 2 ^ 24" using 1(1) [of "2 * q"] 1(2) by simp
    then show ?thesis using False 1(2) by (subst f32_shift.simps) (simp add: mult.assoc)
  qed
qed

lemma float_div_trunc_exact:
  assumes "0 < n" "q \<le> 2 ^ 24"
  shows "float_div_trunc (q * n) n = q"
proof -
  let ?m = "f32_shift (q * n) n"
  have b: "q * 2 ^ ?m \<le> 2 ^ 24" by (rule f32_shift_bound) (use assms in simp_all)
  have d: "q * n * 2 ^ ?m div n = q * 2 ^ ?m" "q * n * 2 ^ ?m = n * (q * 2 ^ ?m)" using assms(1) by simp_all
  have "float_div_trunc (q * n) n = f32_round (q * 2 ^ ?m) div 2 ^ ?m"
    using assms(1) by (simp add: float_div_trunc_def f32_round_def Let_def d(1) d(2) div_even_scale)
  then show ?thesis using f32_round_exact [OF b] by simp
qed

end
