(* ===== verification/PapiexStats.thy ===== *)
theory PapiexStats
  imports Caliper OutPath Float32 "HOL-Library.Signed_Division"
begin

text \<open>
  papiex.c: the statistics over the threads of a process in the classic mode, in
  print_process_stats: the sums, the means, and the least and largest values.  long long
  is a 64-bit word read as signed; a sum that overflows wraps.  The number of uses is a
  float in C, and its sum is rounded after each addition as Float32 has it.  The standard
  deviations are in ProcessReport.
\<close>

section \<open>min and max\<close>

definition min_ll :: "clonglong \<Rightarrow> clonglong \<Rightarrow> clonglong" where
  "min_ll a b = (if sint a \<le> sint b then a else b)"

definition max_ll :: "clonglong \<Rightarrow> clonglong \<Rightarrow> clonglong" where
  "max_ll a b = (if sint a \<ge> sint b then a else b)"

definition max_int :: "int \<Rightarrow> int \<Rightarrow> int" where
  "max_int a b = (if a \<ge> b then a else b)"

section \<open>The sums\<close>

text \<open>The values of one caliper that every point has, and those point 0 adds.\<close>

definition cal_combine :: "(clonglong \<Rightarrow> clonglong \<Rightarrow> clonglong) \<Rightarrow> nat \<Rightarrow> caliper \<Rightarrow> caliper \<Rightarrow> caliper" where
  "cal_combine f n a c = c\<lparr>real_cyc := f (real_cyc c) (real_cyc a),
     counters := (\<lambda>k. if k < n then f (counters c k) (counters a k) else counters c k)\<rparr>"

definition cal_combine0 :: "(clonglong \<Rightarrow> clonglong \<Rightarrow> clonglong) \<Rightarrow> nat \<Rightarrow> caliper \<Rightarrow> caliper \<Rightarrow> caliper" where
  "cal_combine0 f n a c = cal_combine f n a (c\<lparr>real_usec := f (real_usec c) (real_usec a),
     virt_usec := f (virt_usec c) (virt_usec a), virt_cyc := f (virt_cyc c) (virt_cyc a)\<rparr>)"

text \<open>The profiles a caliper and a thread keep, as far as they are taken.\<close>

definition profs_of :: "pglob \<Rightarrow> (clonglong \<Rightarrow> clonglong \<Rightarrow> clonglong) \<Rightarrow> perthread \<Rightarrow> perthread \<Rightarrow> perthread" where
  "profs_of g f a t =
    (let t1 = (if \<not> no_mpi_prof g \<and> is_mpied g
               then t\<lparr>papiex_mpiprof := f (papiex_mpiprof t) (papiex_mpiprof a),
                      papiex_mpisyncprof := f (papiex_mpisyncprof t) (papiex_mpisyncprof a)\<rparr> else t);
         t2 = (if \<not> no_io_prof g then t1\<lparr>papiex_ioprof := f (papiex_ioprof t1) (papiex_ioprof a)\<rparr> else t1)
     in if \<not> no_threadsync_prof g
        then t2\<lparr>papiex_threadsyncprof := f (papiex_threadsyncprof t2) (papiex_threadsyncprof a)\<rparr> else t2)"

definition add_profs0 :: "pglob \<Rightarrow> caliper \<Rightarrow> caliper \<Rightarrow> caliper" where
  "add_profs0 g a c =
    (let c1 = (if \<not> no_mpi_prof g \<and> is_mpied g
               then c\<lparr>mpiprof := mpiprof c + mpiprof a, mpisyncprof := mpisyncprof c + mpisyncprof a\<rparr> else c);
         c2 = (if \<not> no_io_prof g then c1\<lparr>ioprof := ioprof c1 + ioprof a\<rparr> else c1)
     in if \<not> no_threadsync_prof g then c2\<lparr>threadsyncprof := threadsyncprof c2 + threadsyncprof a\<rparr> else c2)"

definition sum_point0 :: "pglob \<Rightarrow> perthread \<Rightarrow> perthread \<Rightarrow> perthread" where
  "sum_point0 g thr sums =
    (let a = pt_data thr ! 0;
         s1 = upd_cal 0 (\<lambda>c. add_profs0 g a (cal_combine0 (+) (eventcnt g) a (c\<lparr>cal_used := float_add (cal_used c) (cal_used a)\<rparr>))) sums;
         s2 = profs_of g (+) thr s1
     in s2\<lparr>max_caliper_entries := max_int (max_caliper_entries s2) (max_caliper_entries thr),
           max_caliper_used := max_int (max_caliper_used s2) (max_caliper_used thr)\<rparr>)"

text \<open>A used caliper of the thread is added when its label matches that of the sum.\<close>

definition sum_point :: "pglob \<Rightarrow> perthread \<Rightarrow> nat \<Rightarrow> perthread \<Rightarrow> perthread" where
  "sum_point g thr j sums =
    (let a = pt_data thr ! j in
     if cal_used a > 0
     then let (rc, label) = match_caliper_label (cal_label (pt_data sums ! j)) (cal_label a) in
          if rc \<noteq> 0 then sums
          else upd_cal (int j) (\<lambda>c. cal_combine (+) (eventcnt g) a
                 (c\<lparr>cal_label := label, cal_used := float_add (cal_used c) (cal_used a)\<rparr>)) sums
     else sums)"

definition sum_thread :: "pglob \<Rightarrow> perthread \<Rightarrow> perthread \<Rightarrow> perthread" where
  "sum_thread g thr sums =
     fold (sum_point g thr) [1..<nat (max_caliper_entries thr)] (sum_point0 g thr sums)"

definition process_data_sums :: "pglob \<Rightarrow> perthread list \<Rightarrow> perthread" where
  "process_data_sums g thrs = fold (sum_thread g) thrs zero_perthread"

section \<open>The means\<close>

text \<open>Division of long long by the number of threads truncates toward zero.\<close>

definition div_ll :: "clonglong \<Rightarrow> nat \<Rightarrow> clonglong" where
  "div_ll a n = word_of_int (sint a sdiv int n)"

definition by_threads :: "nat \<Rightarrow> clonglong \<Rightarrow> clonglong \<Rightarrow> clonglong" where
  "by_threads n old a = div_ll a n"

definition mean_profs0 :: "pglob \<Rightarrow> nat \<Rightarrow> caliper \<Rightarrow> caliper \<Rightarrow> caliper" where
  "mean_profs0 g n a c =
    (let c1 = (if \<not> no_mpi_prof g \<and> is_mpied g
               then c\<lparr>mpiprof := div_ll (mpiprof a) n, mpisyncprof := div_ll (mpisyncprof a) n\<rparr> else c);
         c2 = (if \<not> no_io_prof g then c1\<lparr>ioprof := div_ll (ioprof a) n\<rparr> else c1)
     in if \<not> no_threadsync_prof g then c2\<lparr>threadsyncprof := div_ll (threadsyncprof a) n\<rparr> else c2)"

definition mean_point :: "pglob \<Rightarrow> nat \<Rightarrow> perthread \<Rightarrow> nat \<Rightarrow> perthread \<Rightarrow> perthread" where
  "mean_point g n sums j mean =
    (let a = pt_data sums ! j in
     if cal_used a > 0 then upd_cal (int j) (cal_combine (by_threads n) (eventcnt g) a) mean else mean)"

definition mean_data :: "pglob \<Rightarrow> nat \<Rightarrow> perthread \<Rightarrow> perthread" where
  "mean_data g n sums =
    (let a = pt_data sums ! 0;
         m = profs_of g (by_threads n) sums
               (upd_cal 0 (\<lambda>c. mean_profs0 g n a (cal_combine0 (by_threads n) (eventcnt g) a c)) zero_perthread)
     in fold (mean_point g n sums) [1..<PAPIEX_MAX_CALIPERS] m)"

section \<open>The least and largest values\<close>

text \<open>The values of the first thread are taken over; a caliper it has not used stays zero.\<close>

definition second :: "clonglong \<Rightarrow> clonglong \<Rightarrow> clonglong" where
  "second old new = new"

definition first_point :: "pglob \<Rightarrow> perthread \<Rightarrow> nat \<Rightarrow> perthread \<Rightarrow> perthread" where
  "first_point g thr j t =
    (let a = pt_data thr ! j in
     if cal_used a > 0
     then upd_cal (int j) (\<lambda>c. cal_combine second (eventcnt g) a (c\<lparr>cal_used := cal_used a\<rparr>)) t else t)"

definition first_data :: "pglob \<Rightarrow> perthread \<Rightarrow> perthread" where
  "first_data g thr =
     fold (first_point g thr) [1..<PAPIEX_MAX_CALIPERS]
       (profs_of g second thr (upd_cal 0 (cal_combine0 second (eventcnt g) (pt_data thr ! 0)) zero_perthread))"

definition next_point ::
  "(clonglong \<Rightarrow> clonglong \<Rightarrow> clonglong) \<Rightarrow> (nat \<Rightarrow> nat \<Rightarrow> nat) \<Rightarrow> pglob \<Rightarrow> perthread \<Rightarrow> nat \<Rightarrow> perthread \<Rightarrow> perthread" where
  "next_point f fu g thr j t =
    (let a = pt_data thr ! j in
     if cal_used a > 0
     then upd_cal (int j) (\<lambda>c. cal_combine f (eventcnt g) a (c\<lparr>cal_used := fu (cal_used c) (cal_used a)\<rparr>)) t else t)"

definition next_data ::
  "(clonglong \<Rightarrow> clonglong \<Rightarrow> clonglong) \<Rightarrow> (nat \<Rightarrow> nat \<Rightarrow> nat) \<Rightarrow> pglob \<Rightarrow> perthread \<Rightarrow> perthread \<Rightarrow> perthread" where
  "next_data f fu g thr t =
     fold (next_point f fu g thr) [1..<PAPIEX_MAX_CALIPERS]
       (profs_of g f thr (upd_cal 0 (cal_combine0 f (eventcnt g) (pt_data thr ! 0)) t))"

definition min_data :: "pglob \<Rightarrow> perthread list \<Rightarrow> perthread" where
  "min_data g thrs = fold (next_data min_ll min g) (tl thrs) (first_data g (hd thrs))"

definition max_data :: "pglob \<Rightarrow> perthread list \<Rightarrow> perthread" where
  "max_data g thrs = fold (next_data max_ll max g) (tl thrs) (first_data g (hd thrs))"

text \<open>What the classic mode of a threaded process prints and writes.\<close>

definition process_summary :: "pglob \<Rightarrow> perthread list \<Rightarrow> (perthread \<times> perthread \<times> perthread \<times> perthread) option" where
  "process_summary g thrs =
    (if papiex_nextgen g \<or> \<not> papiex_threaded g \<or> no_summary_stats g then None
     else let sums = process_data_sums g thrs
          in Some (sums, mean_data g (length thrs) sums, min_data g thrs, max_data g thrs))"

section \<open>Facts\<close>

text \<open>used++ adds 1 in the same arithmetic.\<close>

lemma used_inc_float: "u \<le> 2 ^ 24 \<Longrightarrow> used_inc u = float_add u 1"
proof (cases "u = 2 ^ 24")
  case True
  have "f32_extra (2 ^ 24 + 1) = 1" by (simp add: f32_extra.simps)
  then show ?thesis unfolding True used_inc_def float_add_def f32_round_def by (simp add: div_even_def)
next
  case False
  assume "u \<le> 2 ^ 24"
  then show ?thesis using False by (simp add: used_inc_def float_add_exact)
qed

definition at0 :: "perthread \<Rightarrow> caliper" where
  "at0 t = pt_data t ! 0"

text \<open>The loops over the other calipers leave caliper 0 alone.\<close>

definition keeps0 :: "(nat \<Rightarrow> perthread \<Rightarrow> perthread) \<Rightarrow> bool" where
  "keeps0 F \<longleftrightarrow> (\<forall>j t. 0 < j \<longrightarrow> at0 (F j t) = at0 t \<and> length (pt_data (F j t)) = length (pt_data t))"

lemma keeps0_points: "keeps0 (sum_point g thr)" "keeps0 (mean_point g n sums)" "keeps0 (first_point g thr)"
  "keeps0 (next_point f fu g thr)"
  by (auto simp: keeps0_def at0_def sum_point_def mean_point_def first_point_def next_point_def Let_def
      split: prod.split)

lemma keeps0_fold:
  assumes "keeps0 F"
  shows "at0 (fold F [1..<n] t) = at0 t \<and> length (pt_data (fold F [1..<n] t)) = length (pt_data t)"
  by (rule fold_inv) (use assms in \<open>auto simp: keeps0_def\<close>)

lemma profs_of_data [simp]: "pt_data (profs_of g f a t) = pt_data t"
  by (simp add: profs_of_def Let_def)

lemma combine_simps [simp]:
  "real_cyc (cal_combine f n a c) = f (real_cyc c) (real_cyc a)"
  "k < n \<Longrightarrow> counters (cal_combine f n a c) k = f (counters c k) (counters a k)"
  "real_cyc (cal_combine0 f n a c) = f (real_cyc c) (real_cyc a)"
  "k < n \<Longrightarrow> counters (cal_combine0 f n a c) k = f (counters c k) (counters a k)"
  "real_cyc (add_profs0 g a c) = real_cyc c" "counters (add_profs0 g a c) = counters c"
  "real_cyc (mean_profs0 g m a c) = real_cyc c" "counters (mean_profs0 g m a c) = counters c"
  by (simp_all add: cal_combine_def cal_combine0_def add_profs0_def mean_profs0_def Let_def)

definition count0 :: "nat \<Rightarrow> perthread \<Rightarrow> clonglong" where
  "count0 k t = counters (at0 t) k"

definition cyc0 :: "perthread \<Rightarrow> clonglong" where
  "cyc0 t = real_cyc (at0 t)"

lemma at0_upd: "pt_data t \<noteq> [] \<Longrightarrow> at0 (upd_cal 0 f t) = f (at0 t)"
  by (simp add: at0_def)

lemma sum_thread_at0:
  assumes "pt_data s \<noteq> []"
  shows "cyc0 (sum_thread g t s) = cyc0 s + cyc0 t"
    and "k < eventcnt g \<Longrightarrow> count0 k (sum_thread g t s) = count0 k s + count0 k t"
    and "length (pt_data (sum_thread g t s)) = length (pt_data s)"
  using keeps0_fold [OF keeps0_points(1), of g t "nat (max_caliper_entries t)" "sum_point0 g t s"] assms
  by (simp_all add: sum_thread_def cyc0_def count0_def at0_def sum_point0_def Let_def)

lemma next_data_at0:
  assumes "pt_data s \<noteq> []"
  shows "cyc0 (next_data f fu g t s) = f (cyc0 s) (cyc0 t)"
    and "k < eventcnt g \<Longrightarrow> count0 k (next_data f fu g t s) = f (count0 k s) (count0 k t)"
    and "length (pt_data (next_data f fu g t s)) = length (pt_data s)"
  using keeps0_fold [OF keeps0_points(4), of f fu g t PAPIEX_MAX_CALIPERS] assms
  by (simp_all add: next_data_def cyc0_def count0_def at0_def)

lemma zero_perthread_data: "pt_data zero_perthread \<noteq> []" "cyc0 zero_perthread = 0" "count0 k zero_perthread = 0"
  by (simp_all add: zero_perthread_def zero_caliper_def PAPIEX_MAX_CALIPERS_def cyc0_def count0_def at0_def)

lemma first_data_at0:
  "cyc0 (first_data g t) = cyc0 t" "k < eventcnt g \<Longrightarrow> count0 k (first_data g t) = count0 k t"
  "pt_data (first_data g t) \<noteq> []"
proof -
  have f: "at0 (first_data g t) = cal_combine0 second (eventcnt g) (pt_data t ! 0) (at0 zero_perthread)"
    "length (pt_data (first_data g t)) = length (pt_data zero_perthread)"
    using keeps0_fold [OF keeps0_points(3), of g t PAPIEX_MAX_CALIPERS] zero_perthread_data(1)
    by (simp_all add: first_data_def at0_def)
  show "cyc0 (first_data g t) = cyc0 t" "k < eventcnt g \<Longrightarrow> count0 k (first_data g t) = count0 k t"
    by (simp_all add: cyc0_def count0_def f(1)) (simp_all add: second_def at0_def)
  show "pt_data (first_data g t) \<noteq> []" using f(2) zero_perthread_data(1) by (metis length_0_conv)
qed

lemma mean_data_at0:
  "cyc0 (mean_data g n s) = div_ll (cyc0 s) n"
  "k < eventcnt g \<Longrightarrow> count0 k (mean_data g n s) = div_ll (count0 k s) n"
  using keeps0_fold [OF keeps0_points(2), of g n s PAPIEX_MAX_CALIPERS] zero_perthread_data(1)
  by (simp_all add: mean_data_def cyc0_def count0_def at0_def by_threads_def Let_def)

text \<open>A fold of such steps is a fold of the values.\<close>

lemma fold_values:
  assumes "\<And>t s. pt_data s \<noteq> [] \<Longrightarrow> v (F t s) = f (v s) (v t) \<and> length (pt_data (F t s)) = length (pt_data s)"
    and "pt_data s \<noteq> []"
  shows "v (fold F ts s) = foldl f (v s) (map v ts)"
  using assms(2)
proof (induction ts arbitrary: s)
  case (Cons t ts)
  have "pt_data (F t s) \<noteq> []" using assms(1) [OF Cons.prems, of t] Cons.prems by (metis length_0_conv)
  then show ?case using Cons.IH [of "F t s"] assms(1) [OF Cons.prems, of t] by simp
qed simp

lemma foldl_plus: "foldl (+) a xs = a + sum_list (xs :: clonglong list)"
  by (induction xs arbitrary: a) (simp_all add: ac_simps)

lemma foldl_min: "sint (foldl min_ll a xs) = Min (sint ` set (a # xs))"
proof (induction xs arbitrary: a)
  case (Cons x xs)
  have "sint (min_ll a x) = min (sint a) (sint x)" by (simp add: min_ll_def)
  then show ?case using Cons by (cases xs) (simp_all add: min.assoc)
qed simp

lemma foldl_max: "sint (foldl max_ll a xs) = Max (sint ` set (a # xs))"
proof (induction xs arbitrary: a)
  case (Cons x xs)
  have "sint (max_ll a x) = max (sint a) (sint x)" by (simp add: max_ll_def)
  then show ?case using Cons by (cases xs) (simp_all add: max.assoc)
qed simp

section \<open>Properties\<close>

text \<open>C30: the statistics of a process.  In the classic mode of a threaded process the cycles and
  the counters of caliper 0 in the summary are, over all threads, the sum modulo 2^64, the
  truncated quotient of that sum and the number of threads, and the least and the largest
  of the signed values.\<close>
theorem process_statistics:
  assumes "process_summary g thrs = Some (sums, mean, least, most)" "thrs \<noteq> []" "k < eventcnt g"
  shows "cyc0 sums = sum_list (map cyc0 thrs) \<and> count0 k sums = sum_list (map (count0 k) thrs) \<and>
    cyc0 mean = div_ll (cyc0 sums) (length thrs) \<and> count0 k mean = div_ll (count0 k sums) (length thrs) \<and>
    sint (cyc0 least) = Min (sint ` cyc0 ` set thrs) \<and> sint (count0 k least) = Min (sint ` count0 k ` set thrs) \<and>
    sint (cyc0 most) = Max (sint ` cyc0 ` set thrs) \<and> sint (count0 k most) = Max (sint ` count0 k ` set thrs)"
proof -
  obtain t ts where thrs: "thrs = t # ts" using assms(2) by (cases thrs) auto
  have d: "sums = process_data_sums g thrs" "mean = mean_data g (length thrs) sums"
    "least = min_data g thrs" "most = max_data g thrs"
    using assms(1) by (auto simp: process_summary_def Let_def split: if_splits)
  have "cyc0 sums = sum_list (map cyc0 thrs)" "count0 k sums = sum_list (map (count0 k) thrs)"
    using fold_values [of cyc0 "sum_thread g" "(+)" zero_perthread thrs]
      fold_values [of "count0 k" "sum_thread g" "(+)" zero_perthread thrs]
      sum_thread_at0 assms(3) zero_perthread_data
    by (simp_all add: d(1) process_data_sums_def foldl_plus)
  moreover have "sint (cyc0 least) = Min (sint ` cyc0 ` set thrs)" "sint (count0 k least) = Min (sint ` count0 k ` set thrs)"
    using fold_values [of cyc0 "next_data min_ll min g" min_ll "first_data g t" ts]
      fold_values [of "count0 k" "next_data min_ll min g" min_ll "first_data g t" ts]
      next_data_at0 assms(3) first_data_at0
    by (simp_all add: d(3) min_data_def thrs foldl_min)
  moreover have "sint (cyc0 most) = Max (sint ` cyc0 ` set thrs)" "sint (count0 k most) = Max (sint ` count0 k ` set thrs)"
    using fold_values [of cyc0 "next_data max_ll max g" max_ll "first_data g t" ts]
      fold_values [of "count0 k" "next_data max_ll max g" max_ll "first_data g t" ts]
      next_data_at0 assms(3) first_data_at0
    by (simp_all add: d(4) max_data_def thrs foldl_max)
  ultimately show ?thesis using mean_data_at0 assms(3) by (simp add: d(2))
qed

definition sample_counts :: "clonglong \<Rightarrow> perthread" where
  "sample_counts n = upd_cal 0 (\<lambda>c. c\<lparr>real_cyc := n, counters := (\<lambda>_. 2 * n)\<rparr>) zero_perthread"

definition classic_process :: pglob where
  "classic_process = (pglob_start \<lparr>profiling_support = False, have_binutils = False\<rparr>)
     \<lparr>eventnames := [''PAPI_TOT_CYC''], papiex_threaded := True\<rparr>"

theorem process_statistics_witness:
  "\<exists>sums mean least most. process_summary classic_process [sample_counts 7, sample_counts 4] =
      Some (sums, mean, least, most) \<and>
    cyc0 sums = 11 \<and> sint (cyc0 least) = 4 \<and> sint (count0 0 most) = 14"
proof -
  obtain sums mean least most where
    s: "process_summary classic_process [sample_counts 7, sample_counts 4] = Some (sums, mean, least, most)"
    by (simp add: process_summary_def classic_process_def pglob_start_def Let_def)
  have "0 < eventcnt classic_process" by (simp add: classic_process_def eventcnt_def)
  moreover have "cyc0 (sample_counts n) = n" "count0 0 (sample_counts n) = 2 * n" for n
    using zero_perthread_data(1) by (simp_all add: sample_counts_def cyc0_def count0_def at0_def)
  ultimately show ?thesis using process_statistics [OF s] s by simp
qed

end
