(* ===== verification/Driver.thy ===== *)
theory Driver
  imports PapiexState OutPath
begin

text \<open>
  main.c of papiex, the driver: the command line, the options it appends for the library,
  the set of events it tests, and the environment of the measured program.  getopt_long
  of the C library is modelled as it reads the option tables of the file; what PAPI, the
  file system and the processor answer is a parameter.  The result Inl is an end of the
  process with its exit status, or Undefined: an overflow of a buffer or a NULL string.
\<close>

section \<open>Results\<close>

datatype drv_end = Exit int | Undefined

definition fits :: "string \<Rightarrow> drv_end + string" where
  "fits s = (if length s < PATH_MAX then Inr s else Inl Undefined)"

definition append_option :: "string \<Rightarrow> string \<Rightarrow> string" where
  "append_option opt_str opt = (if length opt_str > 0 then opt_str @ '','' @ opt else opt)"

section \<open>The option tables and getopt_long\<close>

datatype arity = NoArg | NeedArg | OptArg

definition short_options :: "(char \<times> arity) list" where
  "short_options =
    [(CHR ''d'', NoArg), (CHR ''h'', NoArg), (CHR ''i'', NoArg), (CHR ''s'', NoArg), (CHR ''V'', NoArg),
     (CHR ''q'', NoArg), (CHR ''n'', NoArg), (CHR ''w'', NoArg), (CHR ''f'', NeedArg), (CHR ''p'', NeedArg),
     (CHR ''o'', NeedArg), (CHR ''e'', NeedArg), (CHR ''l'', NoArg), (CHR ''L'', NeedArg), (CHR ''m'', OptArg),
     (CHR ''U'', NoArg), (CHR ''K'', NoArg), (CHR ''I'', NoArg), (CHR ''S'', NoArg), (CHR ''G'', NoArg),
     (CHR ''Q'', OptArg), (CHR ''E'', NeedArg), (CHR ''M'', OptArg), (CHR ''a'', NoArg), (CHR ''r'', NoArg),
     (CHR ''x'', NoArg)]"

text \<open>A long option sets a variable, or stands for a short one.\<close>

datatype long_target = SetFlag | LikeShort char

definition long_options :: "build \<Rightarrow> (string \<times> arity \<times> long_target) list" where
  "long_options b =
    [(''no-ld-path'', NoArg, SetFlag), (''no-summary'', NoArg, SetFlag), (''no-derived'', NoArg, SetFlag),
     (''no-mpi-gather'', NoArg, SetFlag), (''use-papi-presets'', NoArg, SetFlag), (''test'', NoArg, SetFlag),
     (''skip-unavailable-events'', NoArg, SetFlag)] @
    (if profiling_support b
     then [(''no-mpi-prof'', NoArg, SetFlag), (''no-io-prof'', NoArg, SetFlag),
           (''no-threadsync-prof'', NoArg, SetFlag)] else []) @
    [(''no-scientific'', NoArg, SetFlag), (''no-compat-check'', NoArg, SetFlag), (''classic'', NoArg, SetFlag),
     (''csv-output'', NoArg, SetFlag)] @
    (if have_binutils b
     then [(''gnu'', NoArg, LikeShort (CHR ''G'')), (''pathscale'', OptArg, LikeShort (CHR ''Q''))] else []) @
    [(''spec'', NeedArg, LikeShort (CHR ''E'')), (''help'', NoArg, LikeShort (CHR ''h''))]"

datatype item = Short char "string option" | LongFlag string | BadOption

text \<open>The letters behind one dash, with the arguments that follow.\<close>

fun short_cluster :: "string \<Rightarrow> string list \<Rightarrow> item list \<times> string list" where
  "short_cluster [] rest = ([], rest)"
| "short_cluster (c # cs) rest =
    (case map_of short_options c of
       None \<Rightarrow> (let (is, r) = short_cluster cs rest in (BadOption # is, r))
     | Some NoArg \<Rightarrow> (let (is, r) = short_cluster cs rest in (Short c None # is, r))
     | Some OptArg \<Rightarrow> ([Short c (if cs = [] then None else Some cs)], rest)
     | Some NeedArg \<Rightarrow>
         (if cs \<noteq> [] then ([Short c (Some cs)], rest)
          else case rest of [] \<Rightarrow> ([BadOption], []) | a # r \<Rightarrow> ([Short c (Some a)], r)))"

definition long_item :: "string \<Rightarrow> long_target \<Rightarrow> string option \<Rightarrow> item" where
  "long_item name target arg = (case target of SetFlag \<Rightarrow> LongFlag name | LikeShort c \<Rightarrow> Short c arg)"

text \<open>A full name, or the beginning of one name only.\<close>

definition long_lookup :: "build \<Rightarrow> string \<Rightarrow> (string \<times> arity \<times> long_target) option" where
  "long_lookup b name =
    (case filter (\<lambda>e. fst e = name) (long_options b) of
       e # _ \<Rightarrow> Some e
     | [] \<Rightarrow> (case filter (\<lambda>e. is_prefix name (fst e)) (long_options b) of [e] \<Rightarrow> Some e | _ \<Rightarrow> None))"

definition long_option :: "build \<Rightarrow> string \<Rightarrow> string list \<Rightarrow> item \<times> string list" where
  "long_option b s rest =
    (let name = takeWhile (\<lambda>c. c \<noteq> CHR ''='') s;
         val = (case dropWhile (\<lambda>c. c \<noteq> CHR ''='') s of [] \<Rightarrow> None | _ # v \<Rightarrow> Some v)
     in case long_lookup b name of
          None \<Rightarrow> (BadOption, rest)
        | Some (full, NoArg, target) \<Rightarrow> (if val = None then long_item full target None else BadOption, rest)
        | Some (full, OptArg, target) \<Rightarrow> (long_item full target val, rest)
        | Some (full, NeedArg, target) \<Rightarrow>
            (case val of
               Some v \<Rightarrow> (long_item full target (Some v), rest)
             | None \<Rightarrow> (case rest of [] \<Rightarrow> (BadOption, []) | a # r \<Rightarrow> (long_item full target (Some a), r))))"

lemma short_cluster_length: "length (snd (short_cluster cs rest)) \<le> length rest"
  by (induction cs rest rule: short_cluster.induct)
    (auto split: option.splits arity.splits prod.splits list.splits)

lemma long_option_length: "length (snd (long_option b s rest)) \<le> length rest"
  by (auto simp: long_option_def Let_def split: option.splits prod.splits arity.splits list.splits)

text \<open>The options, up to the first other argument, and what is left of the line.\<close>

function getopts :: "build \<Rightarrow> string list \<Rightarrow> item list \<times> string list" where
  "getopts b [] = ([], [])"
| "getopts b (a # rest) =
    (if a = ''--'' then ([], rest)
     else if is_prefix ''--'' a
     then (let (i, r) = long_option b (drop 2 a) rest; (is, left) = getopts b r in (i # is, left))
     else if is_prefix ''-'' a \<and> a \<noteq> ''-''
     then (let (is, r) = short_cluster (tl a) rest; (is', left) = getopts b r in (is @ is', left))
     else ([], a # rest))"
  by pat_completeness auto

termination getopts
proof (relation "measure (\<lambda>(b, args). length args)")
  fix b a rest x i r
  assume "x = long_option b (drop 2 a) rest" "(i, r) = x"
  then show "((b, r), b, a # rest) \<in> measure (\<lambda>(b, args). length args)"
    using long_option_length [of b "drop 2 a" rest] by (metis case_prod_conv in_measure le_imp_less_Suc
        length_Cons snd_conv)
next
  fix b a rest x i r
  assume "x = short_cluster (tl a) rest" "(i, r) = x"
  then show "((b, r), b, a # rest) \<in> measure (\<lambda>(b, args). length args)"
    using short_cluster_length [of "tl a" rest] by (metis case_prod_conv in_measure le_imp_less_Suc
        length_Cons snd_conv)
qed simp

section \<open>The variables of the driver\<close>

record drv =
  option_string :: string
  d_events :: string
  outstr :: string
  d_debug :: nat
  shell_dump :: bool
  no_ld_library_path :: bool
  d_no_summary_stats :: bool
  d_no_derived_stats :: bool
  d_no_mpi_gather :: bool
  d_no_mpi_prof :: bool
  d_no_io_prof :: bool
  d_no_threadsync_prof :: bool
  use_papi_presets :: bool
  test_events_only :: bool
  skip_unavailable_events :: bool
  could_not_add_some_events :: bool
  incompatible_events :: string
  unavailable_events :: string
  successful_events :: string
  requested_events :: string
  d_gcc_prof :: bool
  d_pathscale_prof :: nat
  d_no_scientific :: bool
  no_compat_check :: bool
  classic :: bool
  d_csv_output :: bool
  d_multiplex :: bool
  auto_stats :: bool
  user_set_event :: bool

definition drv_start :: "build \<Rightarrow> drv" where
  "drv_start b = \<lparr>option_string = [], d_events = [], outstr = [], d_debug = 0, shell_dump = False,
     no_ld_library_path = False, d_no_summary_stats = False, d_no_derived_stats = False,
     d_no_mpi_gather = False, d_no_mpi_prof = \<not> profiling_support b, d_no_io_prof = \<not> profiling_support b,
     d_no_threadsync_prof = \<not> profiling_support b, use_papi_presets = True, test_events_only = False,
     skip_unavailable_events = False, could_not_add_some_events = False, incompatible_events = [],
     unavailable_events = [], successful_events = [], requested_events = [], d_gcc_prof = False,
     d_pathscale_prof = PATHSCALE_NONE, d_no_scientific = False, no_compat_check = False, classic = False,
     d_csv_output = False, d_multiplex = False, auto_stats = False, user_set_event = False\<rparr>"

definition set_flag :: "string \<Rightarrow> drv \<Rightarrow> drv" where
  "set_flag name d =
    (if name = ''no-ld-path'' then d\<lparr>no_ld_library_path := True\<rparr>
     else if name = ''no-summary'' then d\<lparr>d_no_summary_stats := True\<rparr>
     else if name = ''no-derived'' then d\<lparr>d_no_derived_stats := True\<rparr>
     else if name = ''no-mpi-gather'' then d\<lparr>d_no_mpi_gather := True\<rparr>
     else if name = ''use-papi-presets'' then d\<lparr>use_papi_presets := True\<rparr>
     else if name = ''test'' then d\<lparr>test_events_only := True\<rparr>
     else if name = ''skip-unavailable-events'' then d\<lparr>skip_unavailable_events := True\<rparr>
     else if name = ''no-mpi-prof'' then d\<lparr>d_no_mpi_prof := True\<rparr>
     else if name = ''no-io-prof'' then d\<lparr>d_no_io_prof := True\<rparr>
     else if name = ''no-threadsync-prof'' then d\<lparr>d_no_threadsync_prof := True\<rparr>
     else if name = ''no-scientific'' then d\<lparr>d_no_scientific := True\<rparr>
     else if name = ''no-compat-check'' then d\<lparr>no_compat_check := True\<rparr>
     else if name = ''classic'' then d\<lparr>classic := True\<rparr>
     else if name = ''csv-output'' then d\<lparr>d_csv_output := True\<rparr>
     else d)"

definition add_token :: "string \<Rightarrow> drv \<Rightarrow> drv_end + drv" where
  "add_token t d = rbind (fits (append_option (option_string d) t)) (\<lambda>s. Inr (d\<lparr>option_string := s\<rparr>))"

section \<open>One option\<close>

text \<open>What the driver asks of PAPI and of the host.  PAPI_add_events answers 0, an error
  below 0, or the index of the event it could not add.\<close>

record drv_host =
  dh_file_exists :: "string \<Rightarrow> bool"
  dh_getenv :: "string \<Rightarrow> string option"
  dh_hw :: hw_info
  dh_library_ok :: bool
  dh_hw_ok :: bool
  dh_event_code :: "string \<Rightarrow> int option"
  dh_query :: "int \<Rightarrow> bool"
  dh_mpx_init_ok :: bool
  dh_create_ok :: bool
  dh_assign_ok :: bool
  dh_set_multiplex_ok :: bool
  dh_add_events :: "int list \<Rightarrow> int"

definition do_G_option :: "build \<Rightarrow> drv \<Rightarrow> drv_end + drv" where
  "do_G_option b d =
    (if \<not> have_binutils b then Inl (Exit 1)
     else if d_pathscale_prof d \<noteq> PATHSCALE_NONE then Inl (Exit 1)
     else rbind (add_token ''GCC_PROF'' d) (\<lambda>d1. Inr (d1\<lparr>d_gcc_prof := True\<rparr>)))"

definition to_lower :: "char \<Rightarrow> char" where
  "to_lower c = (if 65 \<le> (of_char c :: nat) \<and> (of_char c :: nat) \<le> 90 then char_of ((of_char c :: nat) + 32) else c)"

definition pathscale_type :: "string option \<Rightarrow> nat option" where
  "pathscale_type opt =
    (case opt of
       None \<Rightarrow> Some PATHSCALE_ALL
     | Some s \<Rightarrow>
         let l = map to_lower s in
         if is_prefix ''func'' l then Some PATHSCALE_FUNCS
         else if is_prefix ''loop'' l then Some PATHSCALE_LOOPS
         else if l = ''all'' then Some PATHSCALE_ALL
         else None)"

definition pathscale_token :: "nat \<Rightarrow> string" where
  "pathscale_token t = (if t = PATHSCALE_FUNCS then ''PATHSCALE_FUNCS''
     else if t = PATHSCALE_LOOPS then ''PATHSCALE_LOOPS'' else ''PATHSCALE_ALL'')"

definition do_Q_option :: "build \<Rightarrow> string option \<Rightarrow> drv \<Rightarrow> drv_end + drv" where
  "do_Q_option b opt d =
    (if \<not> have_binutils b then Inl (Exit 1)
     else if d_gcc_prof d then Inl (Exit 1)
     else case pathscale_type opt of
            None \<Rightarrow> Inl (Exit 1)
          | Some t \<Rightarrow> rbind (add_token (pathscale_token t) d) (\<lambda>d1. Inr (d1\<lparr>d_pathscale_prof := t\<rparr>)))"

text \<open>The options that only print, and the dump; None when the option is not one of them.\<close>

definition handle_common_opts :: "drv_host \<Rightarrow> char \<Rightarrow> string option \<Rightarrow> drv \<Rightarrow> (drv_end + drv) option" where
  "handle_common_opts ho c optarg d =
    (if c = CHR '':'' \<or> c = CHR ''?'' then Some (Inl (Exit 1))
     else if c = CHR ''i'' \<or> c = CHR ''V'' \<or> c = CHR ''l'' then Some (Inl (Exit 0))
     else if c = CHR ''s'' then Some (Inr (d\<lparr>shell_dump := True\<rparr>))
     else if c = CHR ''L''
     then Some (Inl (Exit (case optarg of
              None \<Rightarrow> 0 | Some e \<Rightarrow> if dh_event_code ho e = None then 1 else 0)))
     else None)"

text \<open>strtol into an int: the low 32 bits; a value beyond long is ERANGE.\<close>

definition mpx_value :: "string \<Rightarrow> int option" where
  "mpx_value s =
    (let n = atoi s; v = sint (word_of_int n :: 32 word)
     in if n < - (2 ^ 63) \<or> 2 ^ 63 \<le> n \<or> v \<le> 0 then None else Some v)"

definition opt_m :: "string option \<Rightarrow> drv \<Rightarrow> drv_end + drv" where
  "opt_m optarg d =
     rbind (add_token ''MULTIPLEX'' d) (\<lambda>d0.
       let d1 = d0\<lparr>d_multiplex := True\<rparr> in
       case optarg of
         None \<Rightarrow> Inr d1
       | Some s \<Rightarrow> (case mpx_value s of
                     None \<Rightarrow> Inl (Exit 1)
                   | Some v \<Rightarrow> add_token (''MPX_INTERVAL='' @ dec_int v) d1))"

definition opt_spec :: "drv_host \<Rightarrow> string option \<Rightarrow> drv \<Rightarrow> drv_end + drv" where
  "opt_spec ho optarg d =
    (case optarg of
       None \<Rightarrow> Inl (Exit 1)
     | Some f \<Rightarrow> if \<not> dh_file_exists ho f then Inl (Exit 1)
                else rbind (fits (''SPEC='' @ f)) (\<lambda>t. add_token t d))"

text \<open>An option that the texts say excludes others: the test looks for their names anywhere
  in the options so far.\<close>

definition exclusive :: "string list \<Rightarrow> string \<Rightarrow> drv \<Rightarrow> drv_end + drv" where
  "exclusive others t d =
    (if list_ex (strstr (option_string d)) others then Inl (Exit 1) else add_token t d)"

text \<open>strncpy into the buffer of the output name.\<close>

definition with_output :: "string option \<Rightarrow> drv_end + drv \<Rightarrow> drv_end + drv" where
  "with_output optarg res =
     rbind res (\<lambda>d. case optarg of
        None \<Rightarrow> Inr d
      | Some s \<Rightarrow> rbind (fits s) (\<lambda>t. Inr (d\<lparr>outstr := t\<rparr>)))"

definition opt_a :: "drv \<Rightarrow> drv_end + drv" where
  "opt_a d =
     rbind (add_token ''MULTIPLEX'' d) (\<lambda>d1.
     rbind (add_token ''MEMORY'' d1) (\<lambda>d2.
       Inr (d2\<lparr>d_multiplex := True, auto_stats := True, skip_unavailable_events := True\<rparr>)))"

definition opt_e :: "string option \<Rightarrow> drv \<Rightarrow> drv_end + drv" where
  "opt_e optarg d =
    (case optarg of
       None \<Rightarrow> Inl (Exit 1)
     | Some e \<Rightarrow> rbind (fits (append_option (d_events d) e)) (\<lambda>s.
                   Inr (d\<lparr>d_events := s, user_set_event := True\<rparr>)))"

text \<open>The switch of parse_args.\<close>

definition short_opt :: "drv_host \<Rightarrow> build \<Rightarrow> char \<Rightarrow> string option \<Rightarrow> drv \<Rightarrow> drv_end + drv" where
  "short_opt ho b c optarg d =
    (if c = CHR ''d'' then rbind (add_token ''DEBUG'' d) (\<lambda>d1. Inr (d1\<lparr>d_debug := d_debug d1 + 1\<rparr>))
     else if c = CHR ''E'' then opt_spec ho optarg d
     else if c = CHR ''Q'' then do_Q_option b optarg d
     else if c = CHR ''G'' then do_G_option b d
     else if c = CHR ''h'' then Inl (Exit 0)
     else if c = CHR ''q'' then exclusive [''RUSAGE''] ''QUIET'' d
     else if c = CHR ''m'' then opt_m optarg d
     else if c = CHR ''r'' then exclusive [''QUIET''] ''RUSAGE'' d
     else if c = CHR ''x'' then exclusive [''QUIET''] ''MEMORY'' d
     else if c = CHR ''n'' then exclusive [''DIR'', ''FILE'', ''PREFIX'', ''WRITE_ONLY''] ''NO_WRITE'' d
     else if c = CHR ''w'' then exclusive [''NO_WRITE''] ''WRITE_ONLY'' d
     else if c = CHR ''U'' then add_token ''USER'' d
     else if c = CHR ''K'' then add_token ''KERNEL'' d
     else if c = CHR ''I'' then add_token ''OTHER'' d
     else if c = CHR ''S'' then add_token ''SUPERVISOR'' d
     else if c = CHR ''p'' then with_output optarg (exclusive [''DIR'', ''FILE'', ''NO_WRITE''] ''PREFIX'' d)
     else if c = CHR ''f'' then with_output optarg (exclusive [''PREFIX'', ''FILE'', ''NO_WRITE''] ''DIR'' d)
     else if c = CHR ''o'' then with_output optarg (exclusive [''PREFIX'', ''DIR'', ''NO_WRITE''] ''FILE'' d)
     else if c = CHR ''a'' then opt_a d
     else if c = CHR ''e'' then opt_e optarg d
     else Inl (Exit 1))"

fun one_item :: "drv_host \<Rightarrow> build \<Rightarrow> item \<Rightarrow> drv \<Rightarrow> drv_end + drv" where
  "one_item ho b BadOption d = Inl (Exit 1)"
| "one_item ho b (LongFlag name) d = Inr (set_flag name d)"
| "one_item ho b (Short c optarg) d =
    (case handle_common_opts ho c optarg d of Some res \<Rightarrow> res | None \<Rightarrow> short_opt ho b c optarg d)"

fun all_items :: "drv_host \<Rightarrow> build \<Rightarrow> item list \<Rightarrow> drv \<Rightarrow> drv_end + drv" where
  "all_items ho b [] d = Inr d"
| "all_items ho b (i # is) d = rbind (one_item ho b i d) (all_items ho b is)"

section \<open>The useful events\<close>

text \<open>The built-in lists of the file.\<close>

definition mips_74K_useful_events :: string where
  "mips_74K_useful_events =
     ''CYCLES,INSTRUCTIONS,PREDICTED_JR_31,JR_31_MISPREDICTIONS,REDIRECT_STALLS,'' @
     ''JR_31_NO_PREDICTIONS,ITLB_ACCESSES,ITLB_MISSES,JTLB_INSN_MISSES,ICACHE_ACCESSES,'' @
     ''ICACHE_MISSES,ICACHE_MISS_STALLS,DDQ0_FULL_DR_STALLS,DDQ1_FULL_DR_STALL,'' @
     ''ALCB_FULL_DR_STALLS,AGCB_FULL_DR_STALLS,CLDQ_FULL_DR_STALLS,IODQ_FULL_DR_STALLS,'' @
     ''ALU_NO_ISSUE_CYCLES,AGEN_NO_ISSUE_CYCLES,SINGLE_ISSUE_CYCLES,DUAL_ISSUE_CYCLES,'' @
     ''DCACHE_LOAD_ACCESSES,DCACHE_ACCESSES,DCACHE_WRITEBACKS,DCACHE_MISSES,'' @
     ''JTLB_DATA_ACCESSES,JTLB_DATA_MISSES,L2_CACHE_WRITEBACKS,L2_CACHE_ACCESSES,'' @
     ''L2_CACHE_MISSES,FSB_FULL_STALLS,LDQ_FULL_STALLS,WBB_FULL_STALLS,JR_NON_31_INSNS,'' @
     ''MISPREDICTED_JR_31_INSNS,COND_BRANCH_INSNS,MISPREDICTED_BRANCH_INSNS,'' @
     ''INTEGER_INSNS,FPU_INSNS,LOAD_INSNS,STORE_INSNS,J_JAL_INSNS,MIPS16_INSNS,'' @
     ''NT_MUL_DIV_INSNS,UNCACHED_LOAD_INSNS,UNCACHED_STORE_INSNS,SC_INSNS,'' @
     ''PREFETCH_INSNS,CACHE_HIT_PREFETCH_INSNS,NO_INSN_CYCLES,LOAD_MISS_INSNS,'' @
     ''ONE_INSN_CYCLES,TWO_INSNS_CYCLES,EXCEPTIONS_TAKEN,'' @
     ''NO_INSTRUCTIONS_FROM_REPLAY_CYCLES,PERF_COUNT_SW_TASK_CLOCK,'' @
     ''PERF_COUNT_SW_CONTEXT_SWITCHES,PERF_COUNT_SW_CPU_MIGRATIONS,'' @
     ''PERF_COUNT_SW_PAGE_FAULTS_MIN,PERF_COUNT_SW_PAGE_FAULTS_MAJ,OOO_ALU_ISSUE_CYCLES,'' @
     ''OOO_AGEN_ISSUE_CYCLES,GFIFO_BLOCKED_CYCLES''"

definition sc_ice9A_useful_events :: string where
  "sc_ice9A_useful_events =
     ''CPU_BRANCH,CPU_CYCLES,CPU_DCEVICT,CPU_DCMISS,CPU_DTLBMISS,CPU_FLOAT,CPU_ICMISS,'' @
     ''CPU_INSDUAL,CPU_INSEXEC,CPU_ITLBMISS,CPU_LOAD,CPU_MISPRED,CPU_MSTALL,CPU_SC,'' @
     ''CPU_SCFAIL,CPU_STORE,CPU_TLBTRAP''"

definition sc_ice9B_useful_events :: string where
  "sc_ice9B_useful_events =
     ''CPU_BRANCH,CPU_CYCLES,CPU_DCEVICT,CPU_DCMISS,CPU_DTLBMISS,CPU_FLOAT,CPU_ICMISS,'' @
     ''CPU_INSDUAL,CPU_INSEXEC,CPU_ITLBMISS,CPU_LOAD,CPU_MISPRED,CPU_MSTALL,CPU_SC,'' @
     ''CPU_SCFAIL,CPU_STORE,CPU_TLBTRAP,CPU_FPARITH,CPU_FPMADD,CPU_L2MISS,CPU_L2MISSALL,'' @
     ''CPU_L2REQ''"

definition corei7_events :: string where
  "corei7_events =
     ''UNHALTED_CORE_CYCLES,INSTRUCTION_RETIRED,FP_COMP_OPS_EXE:SSE_DOUBLE_PRECISION,'' @
     ''FP_COMP_OPS_EXE:SSE_SINGLE_PRECISION,BR_INST_RETIRED:ALL_BRANCHES,LLC_MISSES,'' @
     ''L2_RQSTS:LOADS,L2_RQSTS:LD_HIT,L2_RQSTS:REFERENCES,L2_RQSTS:MISS,'' @
     ''L2_DATA_RQSTS:ANY,L1I:HITS,L1I:MISSES,DTLB_LOAD_MISSES:WALK_COMPLETED,'' @
     ''MEM_LOAD_RETIRED:LLC_MISS,MEM_LOAD_RETIRED:OTHER_CORE_L2_HIT_HITM,'' @
     ''MEM_LOAD_RETIRED:DTLB_MISS,L1D_CACHE_LD:I_STATE,L1D_CACHE_LD:MESI,'' @
     ''L1D_CACHE_ST:MESI,UOPS_ISSUED:STALLED_CYCLES,RESOURCE_STALLS:ANY,'' @
     ''RESOURCE_STALLS:ROB_FULL,BR_MISP_EXEC:ANY,RESOURCE_STALLS:RS_FULL,'' @
     ''UOPS_ISSUED:ANY''"

definition westmere_events :: string where
  "westmere_events =
     ''UNHALTED_CORE_CYCLES,INSTRUCTION_RETIRED,FP_COMP_OPS_EXE:SSE_DOUBLE_PRECISION,'' @
     ''FP_COMP_OPS_EXE:SSE_SINGLE_PRECISION,BR_INST_RETIRED:ALL_BRANCHES,LLC_MISSES,'' @
     ''L2_RQSTS:LOADS,L2_RQSTS:LD_HIT,L2_RQSTS:REFERENCES,L2_RQSTS:MISS,'' @
     ''L2_DATA_RQSTS:ANY,L1I:HITS,L1I:MISSES,DTLB_LOAD_MISSES:ANY,'' @
     ''MEM_STORE_RETIRED:DTLB_MISS,MEM_LOAD_RETIRED:L3_MISS,'' @
     ''MEM_LOAD_RETIRED:OTHER_CORE_L2_HIT_HITM,MEM_LOAD_RETIRED:DTLB_MISS,'' @
     ''UOPS_ISSUED:STALL_CYCLES,RESOURCE_STALLS:ANY,RESOURCE_STALLS:ROB_FULL,'' @
     ''BR_MISP_EXEC:ANY,RESOURCE_STALLS:RS_FULL,UOPS_EXECUTED:PORT015,'' @
     ''UOPS_EXECUTED:PORT015_STALL_CYCLES,L1D:REPL,L1D_WB_L2:MESI,L2_LINES_IN:ANY''"

definition papi_useful_presets :: string where
  "papi_useful_presets =
     ''PAPI_TOT_INS,PAPI_FP_INS,PAPI_LST_INS,PAPI_BR_INS,PAPI_VEC_INS,PAPI_INT_INS,'' @
     ''PAPI_FMA_INS,PAPI_LD_INS,PAPI_SR_INS,PAPI_TOT_CYC,PAPI_RES_STL,PAPI_MEM_SCY,'' @
     ''PAPI_FP_STAL,PAPI_L1_DCM,PAPI_L1_ICM,PAPI_TLB_DM,PAPI_TLB_IM,PAPI_L2_DCM,'' @
     ''PAPI_L2_ICM,PAPI_CA_INV,PAPI_CSR_FAL,PAPI_CSR_TOT,PAPI_LSU_IDL,PAPI_FPU_IDL,'' @
     ''PAPI_STL_ICY,PAPI_FUL_ICY,PAPI_BR_CN,PAPI_BR_MSP,PAPI_FP_OPS,PAPI_L1_DCA,'' @
     ''PAPI_L2_DCA,PAPI_L2_ICA''"

text \<open>The comma is added before the length is tested; the events so far are empty where it is called.\<close>

definition get_useful_events :: "drv_host \<Rightarrow> drv \<Rightarrow> string \<Rightarrow> nat \<Rightarrow> drv_end + string" where
  "get_useful_events ho d events maxlen =
    (let hw = dh_hw ho;
         model = is_intel_core_processor (vendor hw) (cpuid_family hw) (cpuid_model hw);
         room = (\<lambda>s. length s + length events < maxlen - 1);
         special = (\<lambda>s. if \<not> room s then Inl (Exit 1) else Inr (append_option events s));
         joined = (\<lambda>s. if \<not> room s then Inl (Exit 1) else Inr (events @ s))
     in if \<not> use_papi_presets d \<and> vendor_string hw = ''MIPS'' \<and> take 3 (model_string hw) = ''74K''
        then special mips_74K_useful_events
        else if \<not> use_papi_presets d \<and> vendor_string hw = ''SiCortex'' \<and> model_string hw = ''ICE9A''
        then special sc_ice9A_useful_events
        else if \<not> use_papi_presets d \<and> vendor_string hw = ''SiCortex'' \<and> model_string hw = ''ICE9B''
        then special sc_ice9B_useful_events
        else if \<not> use_papi_presets d \<and> model \<noteq> 0
        then joined (if model = 44 then westmere_events else corei7_events)
        else special papi_useful_presets)"

section \<open>The set of events\<close>

text \<open>The first loop of test_papi_events: the codes of the names.  Inl ends the process,
  an inner Inl is an early return of the error.\<close>

fun event_codes :: "drv_host \<Rightarrow> string list \<Rightarrow> (string \<times> int) list \<Rightarrow> drv \<Rightarrow>
    drv_end + ((int + (string \<times> int) list) \<times> drv)" where
  "event_codes ho [] acc d = Inr (Inr acc, d)"
| "event_codes ho (t # ts) acc d =
    (case dh_event_code ho t of
       None \<Rightarrow>
         if \<not> skip_unavailable_events d then Inl (Exit 1)
         else let d1 = d\<lparr>unavailable_events := append_option (unavailable_events d) t,
                          could_not_add_some_events := True\<rparr>
              in if test_events_only d then event_codes ho ts acc d1 else Inr (Inl (- 1), d1)
     | Some c \<Rightarrow>
         if length acc + 1 = PAPIEX_MAX_COUNTERS then Inl (Exit 1)
         else event_codes ho ts (acc @ [(t, c)]) d)"

text \<open>The multiplexing of PAPI and of the event set: a failure ends the process.\<close>

definition mpx_ready :: "bool \<Rightarrow> bool \<Rightarrow> drv_end + unit" where
  "mpx_ready m c = (if m \<and> \<not> c then Inl (Exit 1) else Inr ())"

text \<open>The return value matters only as zero or not.\<close>

definition test_papi_events :: "drv_host \<Rightarrow> string \<Rightarrow> drv \<Rightarrow> drv_end + (int \<times> drv)" where
  "test_papi_events ho events d =
    (if events = [] then Inr (cbool (could_not_add_some_events d), d)
     else if strtoks {CHR '',''} events = []
     then Inl (if skip_unavailable_events d then Undefined else Exit 1)
     else rbind (event_codes ho (strtoks {CHR '',''} events) [] d) (\<lambda>(res, d1).
       case res of
         Inl rc \<Rightarrow> Inr (rc, d1)
       | Inr ncs \<Rightarrow>
           rbind (mpx_ready (d_multiplex d1) (dh_mpx_init_ok ho)) (\<lambda>_.
           if \<not> dh_create_ok ho
           then if \<not> skip_unavailable_events d1 then Inl (Exit 1) else Inr (- 1, d1)
           else rbind (mpx_ready (d_multiplex d1) (dh_assign_ok ho \<and> dh_set_multiplex_ok ho)) (\<lambda>_.
             let rc = dh_add_events ho (map snd ncs) in
             if rc < 0
             then if \<not> skip_unavailable_events d1 then Inl (Exit 1)
                  else Inr (rc, d1\<lparr>could_not_add_some_events := True\<rparr>)
             else if rc \<noteq> 0
             then if nat rc \<ge> length ncs then Inl Undefined
                  else if \<not> skip_unavailable_events d1 then Inl (Exit 1)
                  else Inr (rc, d1\<lparr>could_not_add_some_events := True,
                                  incompatible_events := append_option (incompatible_events d1) (fst (ncs ! nat rc))\<rparr>)
             else Inr (cbool (could_not_add_some_events d1), d1)))))"

text \<open>One token of make_compatible_eventset, with the names and codes accepted so far.\<close>

datatype verdict = Unavailable | Unsupported | Incompatible | Compatible

definition judge :: "drv_host \<Rightarrow> int list \<Rightarrow> string \<Rightarrow> verdict" where
  "judge ho codes t =
    (case dh_event_code ho t of
       None \<Rightarrow> Unavailable
     | Some c \<Rightarrow> if \<not> dh_query ho c then Unsupported
                else if dh_add_events ho (codes @ [c]) \<noteq> 0 then Incompatible else Compatible)"

fun compatible_loop :: "drv_host \<Rightarrow> string list \<Rightarrow> int list \<Rightarrow> string \<Rightarrow> drv \<Rightarrow> drv_end + (string \<times> drv)" where
  "compatible_loop ho [] codes acc d = Inr (acc, d)"
| "compatible_loop ho (t # ts) codes acc d =
    (case judge ho codes t of
       Unavailable \<Rightarrow>
         compatible_loop ho ts codes acc (d\<lparr>unavailable_events := append_option (unavailable_events d) t\<rparr>)
     | Unsupported \<Rightarrow>
         compatible_loop ho ts codes acc (d\<lparr>incompatible_events := append_option (incompatible_events d) t\<rparr>)
     | v \<Rightarrow>
         if length codes \<ge> PAPIEX_MAX_COUNTERS then Inl Undefined
         else if \<not> dh_create_ok ho then Inl (Exit 1)
         else rbind (mpx_ready (d_multiplex d) (dh_assign_ok ho \<and> dh_set_multiplex_ok ho)) (\<lambda>_.
           if v = Incompatible
           then compatible_loop ho ts codes acc
                  (d\<lparr>incompatible_events := append_option (incompatible_events d) t, could_not_add_some_events := True\<rparr>)
           else compatible_loop ho ts (codes @ [the (dh_event_code ho t)]) (append_option acc t) d))"

definition make_compatible_eventset :: "drv_host \<Rightarrow> string \<Rightarrow> drv \<Rightarrow> drv_end + (string \<times> drv)" where
  "make_compatible_eventset ho events d =
     rbind (mpx_ready (d_multiplex d) (dh_mpx_init_ok ho)) (\<lambda>_.
       if events \<noteq> [] \<and> strtoks {CHR '',''} events = [] then Inl Undefined
       else compatible_loop ho (strtoks {CHR '',''} events) [] []
         (d\<lparr>unavailable_events := [], incompatible_events := []\<rparr>))"

section \<open>parse_args\<close>

text \<open>The processor values of the report.  With a value already in the environment the buffer
  is an argument of the sprintf that writes it, which is undefined.\<close>

definition arch_values :: "hw_info \<Rightarrow> string" where
  "arch_values hw =
    (if vendor_string hw = ''GenuineIntel'' \<and> model_string hw = ''32''
     then ''CPU='' @ [CHR 0x22] @ ''Intel Itanium 2'' @ [CHR 0x22] @
          '',L2_LATENCY=5,L3_LATENCY=14,MEM_LATENCY=200,WORD_SIZE=8''
     else if is_intel_core_processor (vendor hw) (cpuid_family hw) (cpuid_model hw) \<noteq> 0
     then ''CPU='' @ [CHR 0x22] @ model_string hw @ [CHR 0x22] @
          '',L2_LATENCY=10,L3_LATENCY=40,MEM_LATENCY=200,WORD_SIZE=8''
     else [])"

definition auto_events :: "drv_host \<Rightarrow> drv \<Rightarrow> drv_end + drv" where
  "auto_events ho d =
    (if auto_stats d
     then rbind (get_useful_events ho d [] PATH_MAX) (\<lambda>u.
            rbind (if u \<noteq> [] then fits (append_option (d_events d) u) else Inr (d_events d)) (\<lambda>s.
              Inr (d\<lparr>d_events := s\<rparr>)))
     else Inr d)"

text \<open>The events, tested and fixed up, become options.\<close>

definition tested_events :: "drv_host \<Rightarrow> drv \<Rightarrow> drv_end + (string \<times> drv)" where
  "tested_events ho d =
    (if no_compat_check d then Inr (d_events d, d)
     else rbind (test_papi_events ho (d_events d) d) (\<lambda>(rc, d1).
       if (test_events_only d1 \<or> auto_stats d1 \<or> skip_unavailable_events d1) \<and> rc \<noteq> 0
       then make_compatible_eventset ho (d_events d1) d1 else Inr (d_events d1, d1)))"

definition settle_events :: "drv_host \<Rightarrow> drv \<Rightarrow> drv_end + drv" where
  "settle_events ho d =
    (if d_events d = [] then Inr d
     else rbind (tested_events ho (d\<lparr>requested_events := d_events d\<rparr>)) (\<lambda>(ev, d2).
       add_token ev (d2\<lparr>d_events := ev, successful_events := ev\<rparr>)))"

definition flag_tokens :: "drv \<Rightarrow> string list" where
  "flag_tokens d =
    map snd (filter fst
      [(d_no_mpi_gather d, ''NO_MPI_GATHER''), (d_no_summary_stats d, ''NO_SUMMARY_STATS''),
       (d_no_derived_stats d, ''NO_DERIVED_STATS''), (d_no_mpi_prof d, ''NO_MPI_PROF''),
       (d_no_io_prof d, ''NO_IO_PROF''), (d_no_threadsync_prof d, ''NO_THREADSYNC_PROF''),
       (d_no_scientific d, ''NO_SCIENTIFIC''), (\<not> classic d, ''NEXTGEN''), (d_csv_output d, ''CSV'')])"

fun add_tokens :: "string list \<Rightarrow> drv \<Rightarrow> drv_end + drv" where
  "add_tokens [] d = Inr d"
| "add_tokens (t # ts) d = rbind (add_token t d) (add_tokens ts)"

definition test_skips :: "drv \<Rightarrow> drv" where
  "test_skips d = (if test_events_only d then d\<lparr>skip_unavailable_events := True\<rparr> else d)"

text \<open>The result: the state and the command with its arguments.\<close>

definition parse_args :: "drv_host \<Rightarrow> build \<Rightarrow> string list \<Rightarrow> drv_end + (drv \<times> string list)" where
  "parse_args ho b args =
    (if \<not> dh_library_ok ho \<or> \<not> dh_hw_ok ho then Inl (Exit 1)
     else let (items, cmd) = getopts b args in
       rbind (all_items ho b items (drv_start b)) (\<lambda>d0.
       rbind (auto_events ho (test_skips d0)) (\<lambda>d2.
       rbind (if arch_values (dh_hw ho) \<noteq> [] \<and> dh_getenv ho ''PAPIEX_REPORT_ARCH_VALUES'' \<noteq> None
              then Inl Undefined else fits (arch_values (dh_hw ho))) (\<lambda>_.
       rbind (settle_events ho d2) (\<lambda>d3.
       rbind (add_tokens (flag_tokens d3) d3) (\<lambda>d4.
         if \<not> shell_dump d4 \<and> \<not> test_events_only d4 \<and> cmd = [] then Inl (Exit 1)
         else Inr (d4, cmd)))))))"

section \<open>main\<close>

text \<open>What PAPI and the build fix for the environment of the command, and the separators.\<close>

record main_host =
  mh_preload_env :: string
  mh_preload_sep :: char
  mh_ldpath_env :: string
  mh_ldpath_sep :: char
  mh_built_ldpath :: "string option"

type_synonym environ = "string \<Rightarrow> string option"

text \<open>The part behind the last slash.\<close>

definition basename :: "string \<Rightarrow> string" where
  "basename s = rev (takeWhile (\<lambda>c. c \<noteq> CHR ''/'') (rev s))"

text \<open>The default arguments come before those of the line; the vector has 256 entries.\<close>

definition default_args :: "environ \<Rightarrow> string \<Rightarrow> string list \<Rightarrow> drv_end + string list" where
  "default_args env prog args =
    (case env ''PAPIEX_DEFAULT_ARGS'' of
       None \<Rightarrow> Inr args
     | Some s \<Rightarrow>
         if basename prog \<noteq> ''papiex'' then Inr args
         else let toks = strtoks {CHR '' ''} s in
           if toks = [] \<or> 1 + length toks + length args \<ge> 256 then Inl Undefined
           else Inr (toks @ args))"

text \<open>The libraries in the order they are preloaded.\<close>

definition preload_libs :: "drv \<Rightarrow> string list" where
  "preload_libs d =
    (if d_no_mpi_prof d then [] else [''libpapiexmpi.so'']) @
    (if d_no_io_prof d then [] else [''libpapiexio.so'']) @
    (if d_no_threadsync_prof d then [] else [''libpapiexmpsync.so'']) @
    (if d_gcc_prof d then [''libpapiexgcc.so''] else []) @
    (if d_pathscale_prof d \<noteq> PATHSCALE_NONE then [''libpapiexpathscale.so''] else []) @
    [''libpapiex.so'', ''libmonitor.so'']"

definition preload_value :: "main_host \<Rightarrow> environ \<Rightarrow> drv \<Rightarrow> string" where
  "preload_value mh env d =
     join_with (mh_preload_sep mh)
       (preload_libs d @ (case env (mh_preload_env mh) of None \<Rightarrow> [] | Some v \<Rightarrow> [v]))"

text \<open>The library path that is prepended: the variable wins over the path of the build.\<close>

definition new_ld_path :: "main_host \<Rightarrow> environ \<Rightarrow> string" where
  "new_ld_path mh env =
    (case env ''PAPIEX_LD_LIBRARY_PATH'' of
       Some p \<Rightarrow> p
     | None \<Rightarrow> (case mh_built_ldpath mh of None \<Rightarrow> [] | Some p \<Rightarrow> p))"

definition set_ld_path :: "main_host \<Rightarrow> drv \<Rightarrow> environ \<Rightarrow> drv_end + environ" where
  "set_ld_path mh d env =
    (let p = new_ld_path mh env in
     if no_ld_library_path d \<or> p = [] then Inr env
     else rbind (fits (case env (mh_ldpath_env mh) of
                         None \<Rightarrow> p | Some old \<Rightarrow> p @ mh_ldpath_sep mh # old)) (\<lambda>v.
            Inr (env(mh_ldpath_env mh := Some v))))"

definition command_environ :: "main_host \<Rightarrow> drv_host \<Rightarrow> drv \<Rightarrow> environ \<Rightarrow> drv_end + environ" where
  "command_environ mh ho d env0 =
    (let env = (if arch_values (dh_hw ho) = [] then env0
                else env0(''PAPIEX_REPORT_ARCH_VALUES'' := Some (arch_values (dh_hw ho))))
     in rbind (fits (''PAPIEX_OPTIONS='' @ option_string d)) (\<lambda>_.
        rbind (fits (preload_value mh env d)) (\<lambda>pre.
        rbind (set_ld_path mh d env) (\<lambda>env1.
          let env2 = env1(mh_preload_env mh := Some pre, ''PAPIEX_OPTIONS'' := Some (option_string d),
                          ''PAPIEX_OUTPUT'' := Some (outstr d));
              env3 = (if d_debug d > 1 then env2(''MONITOR_DEBUG'' := Some ''1'') else env2)
          in Inr (env3(''MONITOR_OPTIONS'' := Some ''SIGINT''))))))"

text \<open>dump_shell_vars: the lines it prints.\<close>

definition shell_line :: "bool \<Rightarrow> string \<Rightarrow> string \<Rightarrow> string" where
  "shell_line not_csh name val =
     (if not_csh then ''export '' else ''setenv '') @ name @ (if not_csh then ''='' else '' '') @ val @ '';''"

definition quoted :: "string \<Rightarrow> string" where
  "quoted s = [CHR 0x22] @ s @ [CHR 0x22]"

definition dump_shell_vars :: "main_host \<Rightarrow> drv \<Rightarrow> string \<Rightarrow> environ \<Rightarrow> drv_end + string list" where
  "dump_shell_vars mh d preload_val env =
    (case env ''SHELL'' of
       None \<Rightarrow> Inl (Exit 1)
     | Some sh \<Rightarrow>
         if basename sh = [] then Inl (Exit 1)
         else
           let not_csh = (basename sh \<in> set [''bash'', ''sh'', ''zsh'', ''ksh'', ''ash'']);
               line = (\<lambda>name val. case env name of
                         None \<Rightarrow> [] | Some v \<Rightarrow> [shell_line not_csh name (val v)])
           in Inr (line ''PAPIEX_DEFAULT_ARGS'' quoted @
                   line ''PAPIEX_OPTIONS'' (\<lambda>_. option_string d) @
                   line ''PAPIEX_OUTPUT'' (\<lambda>_. outstr d) @
                   line ''PAPIEX_DEBUG'' (\<lambda>_. ''1'') @
                   line ''MONITOR_DEBUG'' (\<lambda>_. ''1'') @
                   line ''MONITOROPTIONS'' (\<lambda>_. ''1'') @
                   line (mh_preload_env mh) (\<lambda>_. quoted preload_val) @
                   line (mh_ldpath_env mh) (\<lambda>v. v)))"

text \<open>The end of main before the fork: the lines dumped, and the exit status, or the
  environment and the command the child is to run.\<close>

definition test_status :: "drv \<Rightarrow> int" where
  "test_status d =
    (if requested_events d = [] then 1 else if could_not_add_some_events d then 1 else 0)"

definition driver_main ::
  "main_host \<Rightarrow> drv_host \<Rightarrow> build \<Rightarrow> string \<Rightarrow> string list \<Rightarrow>
   drv_end + (string list \<times> (int + environ \<times> string list))" where
  "driver_main mh ho b prog args0 =
     rbind (default_args (dh_getenv ho) prog args0) (\<lambda>args.
     rbind (parse_args ho b args) (\<lambda>(d, cmd).
     rbind (command_environ mh ho d (dh_getenv ho)) (\<lambda>env.
     rbind (if d_debug d \<ge> 1 \<or> shell_dump d
            then dump_shell_vars mh d (preload_value mh (dh_getenv ho) d) env else Inr []) (\<lambda>dumped.
       Inr (dumped,
            if test_events_only d then Inl (test_status d)
            else if shell_dump d then Inl 0
            else Inr (env, cmd))))))"

text \<open>The child: a failed exec is tried again with the current directory on the path.\<close>

datatype child_end = Started environ | ChildExit int

definition run_child :: "main_host \<Rightarrow> (environ \<Rightarrow> string list \<Rightarrow> bool) \<Rightarrow> environ \<Rightarrow> string list \<Rightarrow> child_end" where
  "run_child mh exec_ok env cmd =
    (let env1 = env(''PATH'' := Some (case env ''PATH'' of
                      None \<Rightarrow> ''.'' | Some p \<Rightarrow> p @ mh_ldpath_sep mh # ''.''))
     in if exec_ok env cmd then Started env
        else if exec_ok env1 cmd then Started env1 else ChildExit 1)"

text \<open>WEXITSTATUS of what wait returned.\<close>

definition driver_status :: "nat \<Rightarrow> nat" where
  "driver_status status = (status div 256) mod 256"

end
