(* ===== verification/DriverFacts.thy ===== *)
theory DriverFacts
  imports Driver PapiexOptions "HOL-Library.Sublist" "HOL-Library.Multiset"
begin

text \<open>
  Facts and properties of the driver: its options reach the library as they were given,
  and the set of events it measures.
\<close>

section \<open>Tokens\<close>

lemma strtok_delims: "set pre \<subseteq> D \<Longrightarrow> strtok D (pre @ s) = strtok D s"
proof -
  assume "set pre \<subseteq> D"
  then have "dropWhile (\<lambda>c. c \<in> D) (pre @ s) = dropWhile (\<lambda>c. c \<in> D) s"
    by (auto simp: dropWhile_append subset_iff)
  then show ?thesis by (simp add: strtok_def)
qed

lemma strtok_None: "strtok D s = None \<longleftrightarrow> set s \<subseteq> D"
  by (auto simp: strtok_def Let_def dropWhile_eq_Nil_conv)

lemma strtok_Some:
  assumes "strtok D s = Some (t, r)"
  obtains pre where "set pre \<subseteq> D" "t \<noteq> []" "\<forall>c\<in>set t. c \<notin> D" "s = pre @ t" "r = []"
  | pre c where "set pre \<subseteq> D" "t \<noteq> []" "\<forall>c\<in>set t. c \<notin> D" "c \<in> D" "s = pre @ t @ c # r"
proof -
  define pre where "pre = takeWhile (\<lambda>c. c \<in> D) s"
  define s' where "s' = dropWhile (\<lambda>c. c \<in> D) s"
  define rest where "rest = dropWhile (\<lambda>c. c \<notin> D) s'"
  have t: "s' \<noteq> []" "t = takeWhile (\<lambda>c. c \<notin> D) s'" "r = tl rest"
    using assms by (auto simp: strtok_def Let_def s'_def rest_def split: if_splits)
  have s: "s = pre @ t @ rest" by (simp add: pre_def s'_def rest_def t(2))
  have pre: "set pre \<subseteq> D" by (auto simp: pre_def dest: set_takeWhileD)
  have tD: "\<forall>c\<in>set t. c \<notin> D" by (auto simp: t(2) dest: set_takeWhileD)
  have "hd s' \<notin> D" using t(1) hd_dropWhile [of "\<lambda>c. c \<in> D" s] by (simp add: s'_def)
  then have tn: "t \<noteq> []" using t(1) unfolding t(2) by (cases s') auto
  show thesis
  proof (cases rest)
    case Nil
    then show thesis using that(1) pre tn tD s t(3) by simp
  next
    case (Cons c cs)
    then have "c \<in> D" using hd_dropWhile [of "\<lambda>c. c \<notin> D" s'] by (simp add: rest_def)
    then show thesis using that(2) pre tn tD s t(3) Cons by simp
  qed
qed

lemma strtoks_Nil [simp]: "strtoks D [] = []"
  by (subst strtoks.simps) (simp add: strtok_def)

lemma strtoks_append:
  assumes "d \<in> D"
  shows "strtoks D (xs @ d # ys) = strtoks D xs @ strtoks D ys"
proof (induction "length xs" arbitrary: xs rule: less_induct)
  case less
  show ?case
  proof (cases "strtok D xs")
    case None
    then have "set (xs @ [d]) \<subseteq> D" using assms by (simp add: strtok_None)
    then have "strtok D (xs @ d # ys) = strtok D ys" using strtok_delims [of "xs @ [d]" D ys] by simp
    then have "strtoks D (xs @ d # ys) = strtoks D ys" by (subst (1 2) strtoks.simps) simp
    moreover have "strtoks D xs = []" using None by (subst strtoks.simps) simp
    ultimately show ?thesis by simp
  next
    case (Some p)
    obtain t r where p: "p = (t, r)" by (cases p)
    have xs: "strtoks D xs = t # strtoks D r" using Some p by (subst strtoks.simps) simp
    have len: "length r < length xs" using strtok_length Some p by blast
    show ?thesis using Some [unfolded p]
    proof (cases rule: strtok_Some)
      case (1 pre)
      have "strtok D (xs @ d # ys) = strtok D (t @ d # ys)"
        using 1(4) strtok_delims [OF 1(1), of "t @ d # ys"] by simp
      then have "strtok D (xs @ d # ys) = Some (t, ys)"
        using strtok_token(1) [OF 1(2,3) assms] by simp
      then show ?thesis using xs 1(5) by (subst strtoks.simps) simp
    next
      case (2 pre c)
      have "strtok D (xs @ d # ys) = strtok D (t @ c # (r @ d # ys))"
        using 2(5) strtok_delims [OF 2(1), of "t @ c # (r @ d # ys)"] by simp
      then have "strtok D (xs @ d # ys) = Some (t, r @ d # ys)"
        using strtok_token(1) [OF 2(2,3,4)] by simp
      then have "strtoks D (xs @ d # ys) = t # strtoks D (r @ d # ys)" by (subst strtoks.simps) simp
      then show ?thesis using xs less [OF len] by simp
    qed
  qed
qed

lemma strtoks_token:
  "t \<in> set (strtoks D s) \<Longrightarrow> t \<noteq> [] \<and> (\<forall>c\<in>set t. c \<notin> D)"
proof (induction D s rule: strtoks.induct)
  case (1 D s)
  show ?case
  proof (cases "strtok D s")
    case None
    then show ?thesis using 1(2) by (subst (asm) strtoks.simps) simp
  next
    case (Some p)
    obtain tok r where p: "p = (tok, r)" by (cases p)
    have "t = tok \<or> t \<in> set (strtoks D r)" using 1(2) Some p by (subst (asm) strtoks.simps) simp
    then show ?thesis
      using 1(1) [OF Some p [symmetric]] strtok_Some [OF Some [unfolded p]] by metis
  qed
qed

abbreviation toks :: "string \<Rightarrow> string list" where
  "toks \<equiv> strtoks {CHR '',''}"

lemma toks_append_option [simp]: "toks (append_option s t) = toks s @ toks t"
  by (simp add: append_option_def strtoks_append)

lemma toks_token: "t \<noteq> [] \<Longrightarrow> CHR '','' \<notin> set t \<Longrightarrow> toks t = [t]"
proof -
  assume "t \<noteq> []" "CHR '','' \<notin> set t"
  then have "strtok {CHR '',''} t = Some (t, [])"
    by (intro strtok_token(2) [where d = "CHR '',''"]) auto
  then show "toks t = [t]" by (subst strtoks.simps) simp
qed

lemma toks_of_tok: "t \<in> set (toks s) \<Longrightarrow> toks t = [t]"
  using strtoks_token [of t "{CHR '',''}" s] by (intro toks_token) auto

text \<open>The library reads the first token up to a comma or a space.\<close>

lemma option_tokens_toks:
  assumes "CHR '' '' \<notin> set s"
  shows "option_tokens s = toks s"
proof -
  have d: "dropWhile (\<lambda>c. c \<in> {CHR '','', CHR '' ''}) s = dropWhile (\<lambda>c. c \<in> {CHR '',''}) s"
    by (rule dropWhile_cong) (use assms in auto)
  have "CHR '' '' \<notin> set (dropWhile (\<lambda>c. c \<in> {CHR '',''}) s)" using assms set_dropWhileD by fastforce
  then have "takeWhile (\<lambda>c. c \<notin> {CHR '','', CHR '' ''}) (dropWhile (\<lambda>c. c \<in> {CHR '',''}) s) =
      takeWhile (\<lambda>c. c \<notin> {CHR '',''}) (dropWhile (\<lambda>c. c \<in> {CHR '',''}) s)"
    "dropWhile (\<lambda>c. c \<notin> {CHR '','', CHR '' ''}) (dropWhile (\<lambda>c. c \<in> {CHR '',''}) s) =
      dropWhile (\<lambda>c. c \<notin> {CHR '',''}) (dropWhile (\<lambda>c. c \<in> {CHR '',''}) s)"
    by (auto intro!: takeWhile_cong dropWhile_cong)
  with d have "strtok {CHR '','', CHR '' ''} s = strtok {CHR '',''} s" unfolding strtok_def Let_def by (simp only: d)
  then show ?thesis by (subst strtoks.simps) (simp add: option_tokens_def split: option.split)
qed

section \<open>What each option adds\<close>

definition short_tokens :: "char \<Rightarrow> string option \<Rightarrow> string list" where
  "short_tokens c optarg =
    (if c = CHR ''d'' then [''DEBUG'']
     else if c = CHR ''E'' then (case optarg of None \<Rightarrow> [] | Some f \<Rightarrow> toks (''SPEC='' @ f))
     else if c = CHR ''Q'' then (case pathscale_type optarg of None \<Rightarrow> [] | Some t \<Rightarrow> [pathscale_token t])
     else if c = CHR ''G'' then [''GCC_PROF'']
     else if c = CHR ''h'' then []
     else if c = CHR ''q'' then [''QUIET'']
     else if c = CHR ''m''
     then ''MULTIPLEX'' # (case optarg of None \<Rightarrow> [] | Some s \<Rightarrow>
            (case mpx_value s of None \<Rightarrow> [] | Some v \<Rightarrow> [''MPX_INTERVAL='' @ dec_int v]))
     else if c = CHR ''r'' then [''RUSAGE'']
     else if c = CHR ''x'' then [''MEMORY'']
     else if c = CHR ''n'' then [''NO_WRITE'']
     else if c = CHR ''w'' then [''WRITE_ONLY'']
     else if c = CHR ''U'' then [''USER'']
     else if c = CHR ''K'' then [''KERNEL'']
     else if c = CHR ''I'' then [''OTHER'']
     else if c = CHR ''S'' then [''SUPERVISOR'']
     else if c = CHR ''p'' then [''PREFIX'']
     else if c = CHR ''f'' then [''DIR'']
     else if c = CHR ''o'' then [''FILE'']
     else if c = CHR ''a'' then [''MULTIPLEX'', ''MEMORY'']
     else if c = CHR ''e'' then []
     else [])"

fun item_tokens :: "item \<Rightarrow> string list" where
  "item_tokens (Short c optarg) = short_tokens c optarg"
| "item_tokens (LongFlag name) = []"
| "item_tokens BadOption = []"

text \<open>A step that appends tokens to the options and leaves the events that succeeded alone.\<close>

definition emits :: "string list \<Rightarrow> drv \<Rightarrow> drv_end + drv \<Rightarrow> bool" where
  "emits ts d res \<longleftrightarrow> (\<forall>d'. res = Inr d' \<longrightarrow>
     toks (option_string d') = toks (option_string d) @ ts \<and> successful_events d' = successful_events d)"

lemma emits_if:
  "emits ts d x \<Longrightarrow> emits us d y \<Longrightarrow> emits (if c then ts else us) d (if c then x else y)"
  by simp

lemma add_token_toks:
  "add_token t d = Inr d' \<Longrightarrow> toks (option_string d') = toks (option_string d) @ toks t \<and>
     successful_events d' = successful_events d"
  by (auto simp: add_token_def fits_def split: if_splits)

lemma emits_add: "emits (toks t) d (add_token t d)"
  by (auto simp: emits_def dest: add_token_toks)

lemma emits_token: "t \<noteq> [] \<Longrightarrow> CHR '','' \<notin> set t \<Longrightarrow> emits [t] d (add_token t d)"
  using emits_add [of t d] by (simp add: toks_token)

lemma emits_bind:
  assumes "emits ts d res" "\<And>d1. emits us d1 (f d1)"
  shows "emits (ts @ us) d (rbind res f)"
  using assms by (auto simp: emits_def)

lemma emits_Inr: "option_string d' = option_string d \<Longrightarrow> successful_events d' = successful_events d \<Longrightarrow> emits [] d (Inr d')"
  by (simp add: emits_def)

lemma emits_Inl [simp]: "emits ts d (Inl e)"
  by (simp add: emits_def)

lemma emits_exclusive: "t \<noteq> [] \<Longrightarrow> CHR '','' \<notin> set t \<Longrightarrow> emits [t] d (exclusive others t d)"
  by (simp add: exclusive_def emits_token)

lemma emits_output: "emits ts d res \<Longrightarrow> emits ts d (with_output optarg res)"
  by (auto simp: with_output_def emits_def split: option.splits)

lemma dec_int_no_comma: "CHR '','' \<notin> set (dec_int v)"
proof -
  have "c \<noteq> CHR '',''" if "c \<in> set (dec n)" for c n
    using dec_chars [OF that] by auto
  then show ?thesis by (auto simp: dec_int_def)
qed

lemma emits_m:
  "emits (''MULTIPLEX'' # (case optarg of None \<Rightarrow> [] | Some s \<Rightarrow>
      (case mpx_value s of None \<Rightarrow> [] | Some v \<Rightarrow> [''MPX_INTERVAL='' @ dec_int v]))) d (opt_m optarg d)"
proof -
  have "emits ([''MULTIPLEX''] @ (case optarg of None \<Rightarrow> [] | Some s \<Rightarrow>
      (case mpx_value s of None \<Rightarrow> [] | Some v \<Rightarrow> [''MPX_INTERVAL='' @ dec_int v]))) d (opt_m optarg d)"
    unfolding opt_m_def Let_def
    by (rule emits_bind, rule emits_token)
      (auto simp: emits_Inr emits_def dec_int_no_comma toks_token dest!: add_token_toks split: option.splits)
  then show ?thesis by simp
qed

lemma emits_Q: "emits (case pathscale_type optarg of None \<Rightarrow> [] | Some t \<Rightarrow> [pathscale_token t]) d (do_Q_option b optarg d)"
  by (auto simp: do_Q_option_def emits_def pathscale_token_def toks_token dest!: add_token_toks split: option.splits if_splits)

lemma emits_G: "emits [''GCC_PROF''] d (do_G_option b d)"
  by (auto simp: do_G_option_def emits_def toks_token dest!: add_token_toks split: if_splits)

lemma emits_spec:
  "emits (case optarg of None \<Rightarrow> [] | Some f \<Rightarrow> toks (''SPEC='' @ f)) d (opt_spec ho optarg d)"
  by (auto simp: opt_spec_def emits_def fits_def dest!: add_token_toks split: option.splits if_splits)

lemma emits_d: "emits [''DEBUG''] d (rbind (add_token ''DEBUG'' d) (\<lambda>d1. Inr (d1\<lparr>d_debug := d_debug d1 + 1\<rparr>)))"
  by (auto simp: emits_def toks_token dest!: add_token_toks)

lemma emits_a: "emits [''MULTIPLEX'', ''MEMORY''] d (opt_a d)"
  by (auto simp: opt_a_def emits_def toks_token dest!: add_token_toks)

lemma emits_e: "emits [] d (opt_e optarg d)"
  by (auto simp: opt_e_def emits_def split: option.splits)

lemma emits_short: "emits (short_tokens c optarg) d (short_opt ho b c optarg d)"
  unfolding short_tokens_def short_opt_def
  by (intro emits_if emits_d emits_spec emits_Q emits_G emits_Inl emits_m emits_a emits_e emits_output
      emits_exclusive emits_token) simp_all

lemma emits_item: "emits (item_tokens i) d (one_item ho b i d)"
proof (cases i)
  case (Short c optarg)
  have "emits (short_tokens c optarg) d res" if "handle_common_opts ho c optarg d = Some res" for res
  proof (cases "c = CHR ''s''")
    case True
    then show ?thesis using that by (auto simp: handle_common_opts_def short_tokens_def intro: emits_Inr)
  next
    case False
    then show ?thesis using that by (auto simp: handle_common_opts_def split: if_splits)
  qed
  then show ?thesis using emits_short Short by (auto split: option.split)
qed (auto simp: emits_def set_flag_def)

lemma emits_items: "emits (concat (map item_tokens is)) d (all_items ho b is d)"
proof (induction "is" arbitrary: d)
  case (Cons i "is")
  show ?case using emits_bind [OF emits_item Cons] by simp
qed (simp add: emits_Inr)

section \<open>The events\<close>

text \<open>What the tests of the events leave alone.\<close>

definition same_options :: "drv \<Rightarrow> drv \<Rightarrow> bool" where
  "same_options d d' \<longleftrightarrow> option_string d' = option_string d \<and> successful_events d' = successful_events d"

lemma event_codes_same:
  "event_codes ho ts acc d = Inr (res, d') \<Longrightarrow> same_options d d'"
proof (induction ts arbitrary: acc d)
  case (Cons t ts)
  show ?case
  proof (cases "dh_event_code ho t")
    case None
    then show ?thesis using Cons by (auto simp: Let_def same_options_def split: if_splits)
  next
    case (Some c)
    then show ?thesis using Cons by (auto split: if_splits)
  qed
qed (simp add: same_options_def)

lemma test_events_same: "test_papi_events ho ev d = Inr (rc, d') \<Longrightarrow> same_options d d'"
  by (auto simp: test_papi_events_def Let_def same_options_def split: if_splits sum.splits
      dest!: event_codes_same)

lemma compatible_loop_same: "compatible_loop ho ts codes acc d = Inr (ev, d') \<Longrightarrow> same_options d d'"
proof (induction ts arbitrary: codes acc d)
  case (Cons t ts)
  note ih = Cons.IH [unfolded same_options_def]
  show ?case
    using Cons.prems unfolding same_options_def
    by (cases "judge ho codes t") (auto split: if_splits dest!: ih)
qed (simp add: same_options_def)

lemma make_compatible_same: "make_compatible_eventset ho ev d = Inr (ev', d') \<Longrightarrow> same_options d d'"
  by (auto simp: make_compatible_eventset_def same_options_def split: if_splits dest!: compatible_loop_same)

lemma tested_same: "tested_events ho d = Inr (ev, d') \<Longrightarrow> same_options d d'"
  by (auto simp: tested_events_def same_options_def split: if_splits
      dest!: test_events_same make_compatible_same)

lemma settle_toks:
  assumes "settle_events ho d = Inr d'" "successful_events d = []"
  shows "toks (option_string d') = toks (option_string d) @ toks (successful_events d')"
proof (cases "d_events d = []")
  case False
  obtain ev d2 where "tested_events ho (d\<lparr>requested_events := d_events d\<rparr>) = Inr (ev, d2)"
    and add: "add_token ev (d2\<lparr>d_events := ev, successful_events := ev\<rparr>) = Inr d'"
    using assms(1) False by (auto simp: settle_events_def)
  then have "same_options d d2" using tested_same by (fastforce simp: same_options_def)
  then show ?thesis using add_token_toks [OF add] by (simp add: same_options_def)
qed (use assms in \<open>simp add: settle_events_def\<close>)

lemma add_tokens_toks:
  "add_tokens ts d = Inr d' \<Longrightarrow> list_all (\<lambda>t. toks t = [t]) ts \<Longrightarrow>
   toks (option_string d') = toks (option_string d) @ ts \<and> successful_events d' = successful_events d \<and>
   flag_tokens d' = flag_tokens d"
proof (induction ts arbitrary: d)
  case (Cons t ts)
  obtain d1 where d1: "add_token t d = Inr d1" "add_tokens ts d1 = Inr d'" using Cons.prems(1) by auto
  obtain s where "d1 = d\<lparr>option_string := s\<rparr>" using d1(1) by (auto simp: add_token_def)
  then have "flag_tokens d1 = flag_tokens d" by (simp add: flag_tokens_def)
  then show ?case using Cons.IH [OF d1(2)] Cons.prems(2) add_token_toks [OF d1(1)] by simp
qed simp

lemma flag_tokens_ok: "list_all (\<lambda>t. toks t = [t]) (flag_tokens d)"
  by (simp add: flag_tokens_def list_all_iff toks_token)

section \<open>Properties\<close>

text \<open>C9: the driver's options reach the library.  When a command line is accepted and its
  options hold no space, the library that reads the options it is given goes through
  exactly the tokens of the line: those of the options in the order given, the events that
  passed the tests, and those of the long flags.\<close>
theorem driver_options_reach_library:
  assumes "parse_args ho b args = Inr (d, cmd)" "CHR '' '' \<notin> set (option_string d)"
  shows "parse_options env (option_string d) g =
    options_fold env (concat (map item_tokens (fst (getopts b args))) @ toks (successful_events d) @ flag_tokens d) g"
proof -
  obtain d0 d2 d3 where d0: "all_items ho b (fst (getopts b args)) (drv_start b) = Inr d0"
    and d2: "auto_events ho (test_skips d0) = Inr d2"
    and d3: "settle_events ho d2 = Inr d3" and d4: "add_tokens (flag_tokens d3) d3 = Inr d"
    using assms(1) by (auto simp: parse_args_def Let_def split: if_split_asm prod.split_asm)
  have start: "toks (option_string (drv_start b)) = []" "successful_events (drv_start b) = []"
    by (simp_all add: drv_start_def)
  have "same_options d0 d2"
    using d2 by (auto simp: auto_events_def test_skips_def same_options_def split: if_split_asm)
  then have "toks (option_string d2) = concat (map item_tokens (fst (getopts b args)))" "successful_events d2 = []"
    using emits_items [of "fst (getopts b args)" "drv_start b" ho b] d0 start
    by (auto simp: emits_def same_options_def)
  then have "toks (option_string d) =
      concat (map item_tokens (fst (getopts b args))) @ toks (successful_events d) @ flag_tokens d"
    using settle_toks [OF d3] add_tokens_toks [OF d4 flag_tokens_ok] by simp
  then show ?thesis using option_tokens_toks [OF assms(2)] by (simp add: parse_options_def)
qed

text \<open>A sample host whose PAPI knows the events with a code below.\<close>

definition sample_drv_host :: drv_host where
  "sample_drv_host = \<lparr>dh_file_exists = (\<lambda>_. True), dh_getenv = (\<lambda>_. None),
     dh_hw = \<lparr>vendor_string = [], model_string = [], vendor = 2, cpuid_family = 0, cpuid_model = 0\<rparr>,
     dh_library_ok = True, dh_hw_ok = True,
     dh_event_code = (\<lambda>e. if e = ''A'' then Some 1 else if e = ''B'' then Some 2 else if e = ''C'' then Some 3 else None),
     dh_query = (\<lambda>c. c \<noteq> 3), dh_mpx_init_ok = True, dh_create_ok = True, dh_assign_ok = True,
     dh_set_multiplex_ok = True, dh_add_events = (\<lambda>cs. 0)\<rparr>"

definition plain_build :: build where
  "plain_build = \<lparr>profiling_support = False, have_binutils = False\<rparr>"

definition sample_args :: "string list" where
  "sample_args = [''-dm100'', ''--csv'', ''-e'', ''A'', ''-f'', ''out'', ''-eB'', ''app'', ''-x'']"

lemma sample_parse:
  "map_sum id (\<lambda>(d, cmd). (option_string d, successful_events d, flag_tokens d, outstr d, cmd))
     (parse_args sample_drv_host plain_build sample_args) =
   Inr (''DEBUG,MULTIPLEX,MPX_INTERVAL=100,DIR,A,B,NO_MPI_PROF,NO_IO_PROF,NO_THREADSYNC_PROF,NEXTGEN,CSV'',
     ''A,B'', [''NO_MPI_PROF'', ''NO_IO_PROF'', ''NO_THREADSYNC_PROF'', ''NEXTGEN'', ''CSV''], ''out'',
     [''app'', ''-x''])"
  by code_simp

lemma sample_items:
  "concat (map item_tokens (fst (getopts plain_build sample_args))) =
     [''DEBUG'', ''MULTIPLEX'', ''MPX_INTERVAL=100'', ''DIR'']"
  by code_simp

theorem driver_options_reach_library_witness:
  "\<exists>d cmd. parse_args sample_drv_host plain_build sample_args = Inr (d, cmd) \<and>
    (\<forall>env g. parse_options env (option_string d) g = options_fold env
      [''DEBUG'', ''MULTIPLEX'', ''MPX_INTERVAL=100'', ''DIR'', ''A'', ''B'', ''NO_MPI_PROF'', ''NO_IO_PROF'',
       ''NO_THREADSYNC_PROF'', ''NEXTGEN'', ''CSV''] g)"
proof -
  obtain d cmd where p: "parse_args sample_drv_host plain_build sample_args = Inr (d, cmd)"
    using sample_parse by (cases "parse_args sample_drv_host plain_build sample_args") auto
  then have f: "option_string d = ''DEBUG,MULTIPLEX,MPX_INTERVAL=100,DIR,A,B,NO_MPI_PROF,NO_IO_PROF,NO_THREADSYNC_PROF,NEXTGEN,CSV''"
    "successful_events d = ''A,B''"
    "flag_tokens d = [''NO_MPI_PROF'', ''NO_IO_PROF'', ''NO_THREADSYNC_PROF'', ''NEXTGEN'', ''CSV'']"
    using sample_parse by simp_all
  have "toks (successful_events d) = [''A'', ''B'']" unfolding f by code_simp
  then show ?thesis
    using driver_options_reach_library [OF p] p unfolding f(3) sample_items by (simp add: f(1))
qed

section \<open>The compatible events\<close>

definition the_code :: "drv_host \<Rightarrow> string \<Rightarrow> int" where
  "the_code ho t = the (dh_event_code ho t)"

text \<open>The specification: in their order, the events that can be added to those taken before.\<close>

fun greedy :: "drv_host \<Rightarrow> string list \<Rightarrow> string list \<Rightarrow> string list" where
  "greedy ho taken [] = taken"
| "greedy ho taken (t # ts) =
    (if judge ho (map (the_code ho) taken) t = Compatible
     then greedy ho (taken @ [t]) ts else greedy ho taken ts)"

lemma greedy_subseq: "\<exists>more. greedy ho taken ts = taken @ more \<and> subseq more ts"
proof (induction ts arbitrary: taken)
  case (Cons t ts)
  show ?case
  proof (cases "judge ho (map (the_code ho) taken) t = Compatible")
    case True
    then show ?thesis using Cons [of "taken @ [t]"] by auto
  next
    case False
    then show ?thesis using Cons [of taken] by auto
  qed
qed simp

lemma greedy_dropped:
  assumes "t \<in> set ts" "t \<notin> set (greedy ho taken ts)"
  shows "\<exists>p. prefix p (greedy ho taken ts) \<and> judge ho (map (the_code ho) p) t \<noteq> Compatible"
  using assms
proof (induction ts arbitrary: taken)
  case (Cons u us)
  show ?case
  proof (cases "judge ho (map (the_code ho) taken) u = Compatible")
    case True
    have "u \<in> set (greedy ho (taken @ [u]) us)" using greedy_subseq [of ho "taken @ [u]" us] by auto
    then have "t \<in> set us" using Cons.prems True by auto
    then show ?thesis using Cons.IH [of "taken @ [u]"] Cons.prems(2) True by simp
  next
    case False
    show ?thesis
    proof (cases "t \<in> set us")
      case True
      then show ?thesis using Cons.IH [of taken] Cons.prems(2) False by simp
    next
      case nin: False
      then have "t = u" using Cons.prems(1) by simp
      moreover have "prefix taken (greedy ho taken us)" using greedy_subseq [of ho taken us] by auto
      ultimately show ?thesis using False by (auto intro!: exI [of _ taken])
    qed
  qed
qed simp

text \<open>Every event taken was accepted together with those before it.\<close>

definition accepted :: "drv_host \<Rightarrow> string list \<Rightarrow> bool" where
  "accepted ho ts \<longleftrightarrow> list_all (\<lambda>n. judge ho (map (the_code ho) (take n ts)) (ts ! n) = Compatible) [0..<length ts]"

lemma accepted_snoc:
  "accepted ho ts \<Longrightarrow> judge ho (map (the_code ho) ts) t = Compatible \<Longrightarrow> accepted ho (ts @ [t])"
  by (auto simp: accepted_def list_all_iff nth_append)

lemma greedy_accepted: "accepted ho taken \<Longrightarrow> accepted ho (greedy ho taken ts)"
  by (induction ts arbitrary: taken) (auto intro: accepted_snoc)

lemma accepted_all:
  assumes "accepted ho ts" "ts \<noteq> []"
  shows "dh_add_events ho (map (the_code ho) ts) = 0"
proof -
  obtain us t where ts: "ts = us @ [t]" using assms(2) by (metis rev_exhaust)
  have "judge ho (map (the_code ho) (take (length us) ts)) (ts ! length us) = Compatible"
    using assms(1) unfolding accepted_def list_all_iff ts by simp
  then show ?thesis by (auto simp: ts judge_def the_code_def split: option.splits if_splits)
qed

text \<open>The loop computes it, and sorts the rest into the two lists of the driver.\<close>

lemma compatible_loop_greedy:
  assumes "compatible_loop ho ts codes acc d = Inr (ev, d')" "list_all (\<lambda>t. toks t = [t]) ts"
    and "codes = map (the_code ho) (toks acc)"
  shows "toks ev = greedy ho (toks acc) ts \<and>
    mset (toks ev) + mset (toks (unavailable_events d')) + mset (toks (incompatible_events d')) =
    mset (toks acc) + mset (toks (unavailable_events d)) + mset (toks (incompatible_events d)) + mset ts"
  using assms
proof (induction ts arbitrary: codes acc d)
  case (Cons t ts)
  have t: "toks t = [t]" "list_all (\<lambda>t. toks t = [t]) ts" using Cons.prems(2) by simp_all
  note ih = Cons.IH [OF _ t(2)]
  show ?case
  proof (cases "judge ho codes t")
    case Unavailable
    then show ?thesis using Cons.prems t(1) ih [of codes acc "d\<lparr>unavailable_events := append_option (unavailable_events d) t\<rparr>"]
      by auto
  next
    case Unsupported
    then show ?thesis using Cons.prems t(1) ih [of codes acc "d\<lparr>incompatible_events := append_option (incompatible_events d) t\<rparr>"]
      by auto
  next
    case Incompatible
    then show ?thesis
      using Cons.prems t(1) ih [of codes acc "d\<lparr>incompatible_events := append_option (incompatible_events d) t,
          could_not_add_some_events := True\<rparr>"]
      by (auto split: if_splits)
  next
    case Compatible
    then show ?thesis
      using Cons.prems t(1) ih [of "codes @ [the (dh_event_code ho t)]" "append_option acc t" d]
      by (auto simp flip: the_code_def split: if_splits)
  qed
qed simp

text \<open>C29: the driver measures a compatible set of events.  What make_compatible_eventset leaves
  is, in the order asked for, a set of events that PAPI accepts together; an event is
  dropped only if PAPI has no code for it, does not count it, or refuses it along with the
  events taken before it; and every event asked for is taken or listed as unavailable or
  incompatible, exactly once.\<close>
theorem compatible_event_set:
  assumes "make_compatible_eventset ho events d = Inr (ev, d')"
  shows "subseq (toks ev) (toks events) \<and>
    (toks ev \<noteq> [] \<longrightarrow> dh_add_events ho (map (the_code ho) (toks ev)) = 0) \<and>
    (\<forall>t\<in>set (toks events) - set (toks ev). dh_event_code ho t = None \<or> \<not> dh_query ho (the_code ho t) \<or>
       (\<exists>p. prefix p (toks ev) \<and>
          dh_add_events ho (map (the_code ho) (p @ [t])) \<noteq> 0)) \<and>
    mset (toks events) =
      mset (toks ev) + mset (toks (unavailable_events d')) + mset (toks (incompatible_events d'))"
proof -
  let ?ts = "toks events" and ?code = "the_code ho"
  have ts: "list_all (\<lambda>t. toks t = [t]) ?ts" by (simp add: list_all_iff toks_of_tok)
  have "compatible_loop ho ?ts [] [] (d\<lparr>unavailable_events := [], incompatible_events := []\<rparr>) = Inr (ev, d')"
    using assms by (auto simp: make_compatible_eventset_def split: if_splits)
  note loop = compatible_loop_greedy [OF this ts]
  then have ev: "toks ev = greedy ho [] ?ts" by simp
  have "accepted ho (greedy ho [] ?ts)" by (rule greedy_accepted) (simp add: accepted_def)
  moreover have "dh_event_code ho t = None \<or> \<not> dh_query ho (the_code ho t) \<or>
      (\<exists>p. prefix p (toks ev) \<and> dh_add_events ho (map ?code (p @ [t])) \<noteq> 0)"
    if "t \<in> set ?ts - set (toks ev)" for t
  proof -
    have "t \<in> set ?ts" "t \<notin> set (greedy ho [] ?ts)" using that by (simp_all flip: ev)
    from greedy_dropped [OF this] obtain p where p: "prefix p (toks ev)" "judge ho (map ?code p) t \<noteq> Compatible"
      unfolding ev by blast
    then show ?thesis by (auto simp: judge_def the_code_def split: option.splits if_splits)
  qed
  ultimately show ?thesis
    using loop greedy_subseq [of ho "[]" ?ts] accepted_all [of ho "toks ev"] by (auto simp: ev)
qed

theorem compatible_event_set_witness:
  "\<exists>ev d'. make_compatible_eventset sample_drv_host ''A,C,X,B'' (drv_start plain_build) = Inr (ev, d') \<and>
    subseq (toks ev) [''A'', ''C'', ''X'', ''B''] \<and>
    dh_add_events sample_drv_host (map (the_code sample_drv_host) (toks ev)) = 0"
proof -
  have "map_sum id fst (make_compatible_eventset sample_drv_host ''A,C,X,B'' (drv_start plain_build)) = Inr ''A,B''"
    by code_simp
  then obtain d' where m: "make_compatible_eventset sample_drv_host ''A,C,X,B'' (drv_start plain_build) = Inr (''A,B'', d')"
    by (cases "make_compatible_eventset sample_drv_host ''A,C,X,B'' (drv_start plain_build)") auto
  have "toks ''A,C,X,B'' = [''A'', ''C'', ''X'', ''B'']" "toks ''A,B'' \<noteq> []" by code_simp+
  then show ?thesis using compatible_event_set [OF m] m by auto
qed

end
