(* ===== verification/GccHooks.thy ===== *)
theory GccHooks
  imports CaliperFacts
begin

text \<open>
  papiex/src/gcc.c: the hooks that gcc puts at the entry and the exit of every function.
  A hash table of the thread maps the function to a caliper point.  hcreate_r, hsearch_r
  and hdestroy_r are those of the C library: a table that was not created or is destroyed
  must not be searched.  The key is an array on the stack that nothing clears, so its
  contents at the call are a parameter.
\<close>

section \<open>The address in hexadecimal\<close>

definition ULTOHEXSTR_SZ :: nat where "ULTOHEXSTR_SZ = 34"
definition NUL :: char where "NUL = CHR 0x00"

definition hex_char :: "nat \<Rightarrow> char" where
  "hex_char c = (if c > 9 then char_of (97 - 10 + c) else char_of (48 + c))"

text \<open>The do loop, which writes from the end of the buffer down.\<close>

fun hex_loop :: "nat \<Rightarrow> string \<Rightarrow> string" where
  "hex_loop v acc =
    (let acc' = hex_char (v mod 16) # acc
     in if v div 16 = 0 then acc' else hex_loop (v div 16) acc')"

declare hex_loop.simps [simp del]

text \<open>The position returned, and the buffer with the digits and the NUL at its end.\<close>

definition ultohexstr :: "64 word \<Rightarrow> string \<Rightarrow> nat \<times> string" where
  "ultohexstr v buf =
    (let written = hex_loop (unat v) [NUL]; p = ULTOHEXSTR_SZ - length written
     in (p, take p buf @ written))"

text \<open>The string a char pointer into a buffer stands for.\<close>

definition c_string :: "string \<Rightarrow> nat \<Rightarrow> string" where
  "c_string buf p = takeWhile (\<lambda>c. c \<noteq> NUL) (drop p buf)"

text \<open>The hooks take the array itself as the key, not the pointer returned.\<close>

definition gcc_key :: "string \<Rightarrow> 64 word \<Rightarrow> string" where
  "gcc_key junk this_fn = c_string (snd (ultohexstr this_fn junk)) 0"

text \<open>printf of a pointer.\<close>

definition ptr_string :: "64 word \<Rightarrow> string" where
  "ptr_string a = (if a = 0 then ''(nil)'' else ''0x'' @ hex_loop (unat a) [])"

section \<open>The hooks\<close>

datatype htab = NoTable | Table "string \<rightharpoonup> int" | Destroyed

text \<open>An end of the process: undefined in C, an error of the hash table, an error of papiex.\<close>

datatype hook_end = HookUndefined | HashFailed | FunctionNotFound | PapiexEnds papiex_error

definition ends :: "papiex_error + 'a \<Rightarrow> hook_end + 'a" where
  "ends res = map_sum PapiexEnds id res"

lemma ends_iff [simp]: "ends res = Inr x \<longleftrightarrow> res = Inr x" "ends res = Inl e \<longleftrightarrow> (\<exists>e'. res = Inl e' \<and> e = PapiexEnds e')"
  by (cases res; auto simp: ends_def)+

text \<open>What the stack and the C library hold for a call.\<close>

record hook_sys =
  hs_junk :: string
  hs_create_ok :: bool
  hs_strdup_ok :: bool
  hs_enter_ok :: bool

text \<open>The tables are those of the threads' structures, by the index of the structure.\<close>

record gccst =
  papiex_gcc_enable :: int
  htabs :: "nat \<Rightarrow> htab"

definition papiex_gcc_set_gate :: "int \<Rightarrow> gccst \<Rightarrow> gccst" where
  "papiex_gcc_set_gate i h = h\<lparr>papiex_gcc_enable := i\<rparr>"

text \<open>hcreate_r on a first call.  Its failure, which is 0, is taken for success.\<close>

definition open_table :: "bool \<Rightarrow> htab \<Rightarrow> (string \<rightharpoonup> int) option" where
  "open_table create_ok tab =
    (case tab of NoTable \<Rightarrow> if create_ok then Some Map.empty else None | Table m \<Rightarrow> Some m | Destroyed \<Rightarrow> None)"

definition cyg_profile_func_enter ::
  "hook_sys \<Rightarrow> nat \<Rightarrow> reading \<Rightarrow> 64 word \<Rightarrow> gccst \<times> pglob \<Rightarrow> hook_end + (gccst \<times> pglob)" where
  "cyg_profile_func_enter sys self r this_fn = (\<lambda>(h, g).
    if papiex_gcc_enable h = 0 then Inr (h, g)
    else case thread_data g self of
      None \<Rightarrow> Inl (PapiexEnds ThreadDataNull)
    | Some i \<Rightarrow>
        (case open_table (hs_create_ok sys) (htabs h i) of
           None \<Rightarrow> Inl HookUndefined
         | Some m \<Rightarrow>
             let t = thread_heap g ! i; key = gcc_key (hs_junk sys) this_fn;
                 h1 = h\<lparr>htabs := (htabs h)(i := Table m)\<rparr>
             in (case m key of
                   Some point \<Rightarrow> rbind (ends (papiex_start self r point None g)) (\<lambda>g'. Inr (h1, g'))
                 | None \<Rightarrow>
                     if max_caliper_used t + 1 \<ge> max_caliper_entries t then Inr (h1, g)
                     else if \<not> hs_strdup_ok sys then Inl HookUndefined
                     else if \<not> hs_enter_ok sys then Inl HashFailed
                     else let point = max_caliper_used t + 1 in
                       rbind (ends (papiex_start self r point (Some ('':'' @ ptr_string this_fn)) g))
                         (\<lambda>g'. Inr (h\<lparr>htabs := (htabs h)(i := Table (m(key \<mapsto> point)))\<rparr>, g')))))"

definition cyg_profile_func_exit ::
  "hook_sys \<Rightarrow> nat \<Rightarrow> reading \<Rightarrow> 64 word \<Rightarrow> gccst \<times> pglob \<Rightarrow> hook_end + (gccst \<times> pglob)" where
  "cyg_profile_func_exit sys self r this_fn = (\<lambda>(h, g).
    if papiex_gcc_enable h = 0 then Inr (h, g)
    else case thread_data g self of
      None \<Rightarrow> Inl (PapiexEnds ThreadDataNull)
    | Some i \<Rightarrow>
        (case htabs h i of
           Table m \<Rightarrow>
             (case m (gcc_key (hs_junk sys) this_fn) of
                Some point \<Rightarrow> rbind (ends (papiex_stop self r point g)) (\<lambda>g'. Inr (h, g'))
              | None \<Rightarrow> Inl FunctionNotFound)
         | _ \<Rightarrow> Inl HookUndefined))"

text \<open>hdestroy_r leaves the size as it was, so the table counts as initialised.\<close>

definition papiex_gcc_thread_shutdown :: "nat \<Rightarrow> gccst \<Rightarrow> gccst" where
  "papiex_gcc_thread_shutdown i h =
    (if htabs h i \<noteq> NoTable then h\<lparr>htabs := (htabs h)(i := Destroyed)\<rparr> else h)"

section \<open>Sequences of hooks of one thread\<close>

datatype gcc_hook =
    FnEnter hook_sys reading "64 word"
  | FnExit hook_sys reading "64 word"

fun run_hook :: "nat \<Rightarrow> gcc_hook \<Rightarrow> gccst \<times> pglob \<Rightarrow> hook_end + (gccst \<times> pglob)" where
  "run_hook self (FnEnter sys r f) = cyg_profile_func_enter sys self r f"
| "run_hook self (FnExit sys r f) = cyg_profile_func_exit sys self r f"

fun run_hooks :: "nat \<Rightarrow> gcc_hook list \<Rightarrow> gccst \<times> pglob \<Rightarrow> hook_end + (gccst \<times> pglob)" where
  "run_hooks self [] s = Inr s"
| "run_hooks self (k # ks) s = rbind (run_hook self k s) (run_hooks self ks)"

fun hook_key :: "gcc_hook \<Rightarrow> string" where
  "hook_key (FnEnter sys r f) = gcc_key (hs_junk sys) f"
| "hook_key (FnExit sys r f) = gcc_key (hs_junk sys) f"

end
