(* ===== verification/GccFacts.thy ===== *)
theory GccFacts
  imports GccHooks
begin

text \<open>
  Facts and properties of the gcc hooks: the key of a function, the table of points, the
  interval a function's caliper measures, and the calls that end the process.
\<close>

section \<open>Hexadecimal\<close>

definition hex_value :: "char \<Rightarrow> nat" where
  "hex_value c = (if of_char c < (97 :: nat) then of_char c - 48 else of_char c - 87)"

definition unhex :: "string \<Rightarrow> nat" where
  "unhex s = foldl (\<lambda>n c. 16 * n + hex_value c) 0 s"

lemma hex_char_value: "c < 16 \<Longrightarrow> hex_value (hex_char c) = c"
  by (simp add: hex_value_def hex_char_def)

lemma hex_char_not_NUL: "c < 16 \<Longrightarrow> hex_char c \<noteq> NUL"
  by (cases "c > 9") (auto simp: hex_char_def NUL_def dest!: arg_cong [where f = "of_char :: char \<Rightarrow> nat"])

lemma hex_loop_append: "hex_loop v acc = hex_loop v [] @ acc"
proof (induction v arbitrary: acc rule: less_induct)
  case (less v)
  show ?case
  proof (cases "v div 16 = 0")
    case True
    then show ?thesis by (simp add: hex_loop.simps [of v])
  next
    case False
    then have "v div 16 < v" by (cases v) auto
    then show ?thesis
      using less.IH [of "v div 16" "hex_char (v mod 16) # acc"] less.IH [of "v div 16" "[hex_char (v mod 16)]"] False
      by (simp add: hex_loop.simps [of v])
  qed
qed

lemma hex_loop_digits:
  "NUL \<notin> set (hex_loop v []) \<and> unhex (hex_loop v []) = v \<and> (v < 16 ^ n \<longrightarrow> 0 < n \<longrightarrow> length (hex_loop v []) \<le> n)"
proof (induction v arbitrary: n rule: less_induct)
  case (less v)
  have d: "hex_char (v mod 16) \<noteq> NUL" "hex_value (hex_char (v mod 16)) = v mod 16"
    by (simp_all add: hex_char_not_NUL hex_char_value)
  show ?case
  proof (cases "v div 16 = 0")
    case True
    then have "v mod 16 = v" by simp
    then show ?thesis using d True by (simp add: hex_loop.simps [of v] unhex_def)
  next
    case False
    then have lt: "v div 16 < v" by (cases v) auto
    have e: "hex_loop v [] = hex_loop (v div 16) [] @ [hex_char (v mod 16)]"
      using False hex_loop_append [of "v div 16" "[hex_char (v mod 16)]"] by (simp add: hex_loop.simps [of v])
    have "length (hex_loop v []) \<le> n" if n: "v < 16 ^ n" "0 < n"
    proof -
      have "1 < n" using n False by (cases n; cases "n - 1") auto
      then have "v div 16 < 16 ^ (n - 1)" "0 < n - 1"
        using n by (auto simp: div_less_iff_less_mult power_eq_if mult.commute)
      then have "length (hex_loop (v div 16) []) \<le> n - 1" using less.IH [OF lt, of "n - 1"] by blast
      then show ?thesis using e n by simp
    qed
    then show ?thesis using less.IH [OF lt, of 1] d e by (auto simp: unhex_def)
  qed
qed

lemma hex_word_length: "length (hex_loop (unat (v :: 64 word)) []) \<le> 16"
proof -
  have "unat v < 16 ^ 16" using unsigned_less [of v, where 'a = nat] by simp
  then show ?thesis using hex_loop_digits [of "unat v" 16] by simp
qed

lemma ultohexstr_parts:
  assumes "length buf = ULTOHEXSTR_SZ"
  shows "ultohexstr v buf = (33 - length (hex_loop (unat v) []),
    take (33 - length (hex_loop (unat v) [])) buf @ hex_loop (unat v) [] @ [NUL])"
  by (simp add: ultohexstr_def Let_def hex_loop_append [of "unat v" "[NUL]"] ULTOHEXSTR_SZ_def)

text \<open>What is on the stack below the digits decides on the key.\<close>

lemma gcc_key_cases:
  assumes "length junk = ULTOHEXSTR_SZ"
  shows "gcc_key junk f =
    (let below = take (33 - length (hex_loop (unat f) [])) junk
     in if NUL \<in> set below then takeWhile (\<lambda>c. c \<noteq> NUL) below else below @ hex_loop (unat f) [])"
proof -
  let ?d = "hex_loop (unat f) []" and ?b = "take (33 - length (hex_loop (unat f) [])) junk"
  have k: "gcc_key junk f = takeWhile (\<lambda>c. c \<noteq> NUL) (?b @ ?d @ [NUL])"
    by (simp add: gcc_key_def c_string_def ultohexstr_parts [OF assms])
  show ?thesis
  proof (cases "NUL \<in> set ?b")
    case True
    then show ?thesis using k by (simp add: Let_def takeWhile_append1)
  next
    case False
    then have "takeWhile (\<lambda>c. c \<noteq> NUL) (?b @ ?d @ [NUL]) = ?b @ takeWhile (\<lambda>c. c \<noteq> NUL) (?d @ [NUL])"
      by (intro takeWhile_append2) auto
    moreover have "takeWhile (\<lambda>c. c \<noteq> NUL) (?d @ [NUL]) = ?d"
      using hex_loop_digits [of "unat f"] by (subst takeWhile_append2) auto
    ultimately show ?thesis using k False by (simp add: Let_def)
  qed
qed

lemma gcc_key_shared:
  assumes "length junk = ULTOHEXSTR_SZ" "NUL \<in> set (take 17 junk)"
  shows "gcc_key junk f = gcc_key junk f'"
proof -
  have "gcc_key junk v = takeWhile (\<lambda>c. c \<noteq> NUL) (take 17 junk)" for v
  proof -
    let ?n = "33 - length (hex_loop (unat v) [])"
    have "17 \<le> ?n" using hex_word_length [of v] by simp
    then have b: "take ?n junk = take 17 junk @ drop 17 (take ?n junk)"
      by (metis append_take_drop_id min.absorb1 take_take)
    obtain x where x: "x \<in> set (take 17 junk)" "\<not> x \<noteq> NUL" using assms(2) by blast
    have n: "NUL \<in> set (take ?n junk)" by (subst b) (use assms(2) in simp)
    have "takeWhile (\<lambda>c. c \<noteq> NUL) (take ?n junk) = takeWhile (\<lambda>c. c \<noteq> NUL) (take 17 junk)"
      using takeWhile_append1 [of x "take 17 junk" "\<lambda>c. c \<noteq> NUL"] x by (subst b) blast
    then show ?thesis using gcc_key_cases [OF assms(1), of v] n by (simp add: Let_def)
  qed
  then show ?thesis by simp
qed
section \<open>The table of points\<close>

definition table_of :: "gccst \<Rightarrow> nat \<Rightarrow> string \<rightharpoonup> int" where
  "table_of h i = (case htabs h i of Table m \<Rightarrow> m | _ \<Rightarrow> Map.empty)"

text \<open>The points of a table are those in use, each for one key.\<close>

definition points_ok :: "(string \<rightharpoonup> int) \<Rightarrow> perthread \<Rightarrow> bool" where
  "points_ok m t \<longleftrightarrow> inj_on m (dom m) \<and> (\<forall>k p. m k = Some p \<longrightarrow> 0 < p \<and> p \<le> max_caliper_used t)"

text \<open>A thread whose hooks do something.\<close>

definition gcc_ready :: "nat \<Rightarrow> nat \<Rightarrow> gccst \<times> pglob \<Rightarrow> bool" where
  "gcc_ready self i = (\<lambda>(h, g). papiex_gcc_enable h \<noteq> 0 \<and> thread_data g self = Some i \<and>
     i < length (thread_heap g) \<and> eventcnt g \<noteq> 0 \<and> cal_size_ok (thread_heap g ! i) \<and>
     0 \<le> max_caliper_used (thread_heap g ! i) \<and>
     max_caliper_used (thread_heap g ! i) < max_caliper_entries (thread_heap g ! i) \<and>
     points_ok (table_of h i) (thread_heap g ! i))"

text \<open>What one hook does: the table grows, and the calls on calipers are those of its key.\<close>

lemma start_used:
  assumes "cal_start g r p l t = Inr t'"
  shows "max_caliper_used t' = (if p < max_caliper_entries t \<and> max_caliper_used t \<le> p then p else max_caliper_used t)"
  using assms by (auto simp: cal_start_def Let_def split: if_splits)

lemma stop_used: "cal_stop g r p t = Inr t' \<Longrightarrow> max_caliper_used t' = max_caliper_used t"
  by (auto simp: cal_stop_def Let_def split: if_splits)

text \<open>The operation a hook makes, on the point its key has afterwards.\<close>

definition hook_op :: "gcc_hook \<Rightarrow> (string \<rightharpoonup> int) \<Rightarrow> cal_op \<Rightarrow> bool" where
  "hook_op k m op \<longleftrightarrow> m (hook_key k) = Some (op_point op) \<and>
     (case k of FnEnter sys r f \<Rightarrow> \<exists>l. op = OpStart (op_point op) l r
      | FnExit sys r f \<Rightarrow> op = OpStop (op_point op) r)"

definition hook_does :: "nat \<Rightarrow> nat \<Rightarrow> gcc_hook \<Rightarrow> gccst \<times> pglob \<Rightarrow> gccst \<times> pglob \<Rightarrow> bool" where
  "hook_does self i k = (\<lambda>(h, g) (h', g').
     gcc_ready self i (h', g') \<and> htabs h' i = Table (table_of h' i) \<and> table_of h i \<subseteq>\<^sub>m table_of h' i \<and>
     (\<forall>k'. k' \<noteq> hook_key k \<longrightarrow> table_of h' i k' = table_of h i k') \<and>
     (g' = g \<and> table_of h' i = table_of h i \<and> (\<exists>sys r f. k = FnEnter sys r f) \<and> table_of h i (hook_key k) = None \<or>
      (\<exists>op t'. run_op g op (thread_heap g ! i) = Inr t' \<and> g' = g\<lparr>thread_heap := (thread_heap g)[i := t']\<rparr> \<and>
        hook_op k (table_of h' i) op)))"

lemma readyD:
  assumes "gcc_ready self i (h, g)"
  shows "papiex_gcc_enable h \<noteq> 0" "thread_data g self = Some i" "i < length (thread_heap g)" "eventcnt g \<noteq> 0"
    "cal_size_ok (thread_heap g ! i)" "0 \<le> max_caliper_used (thread_heap g ! i)"
    "max_caliper_used (thread_heap g ! i) < max_caliper_entries (thread_heap g ! i)"
    "points_ok (table_of h i) (thread_heap g ! i)"
  using assms by (simp_all add: gcc_ready_def)

lemma does_call:
  assumes "gcc_ready self i (h, g)" "run_op g op (thread_heap g ! i) = Inr t'" "hook_op k m' op"
    "h' = h\<lparr>htabs := (htabs h)(i := Table m')\<rparr>" "g' = g\<lparr>thread_heap := (thread_heap g)[i := t']\<rparr>"
    "points_ok m' t'" "0 \<le> max_caliper_used t'" "max_caliper_used t' < max_caliper_entries t'"
    "table_of h i \<subseteq>\<^sub>m m'" "\<forall>k'. k' \<noteq> hook_key k \<longrightarrow> m' k' = table_of h i k'"
  shows "hook_does self i k (h, g) (h', g')"
proof -
  note rd = readyD [OF assms(1)]
  have t: "table_of h' i = m'" using assms(4) by (simp add: table_of_def)
  have "cal_size_ok t'" using size_ok_step [OF assms(2) rd(5)] .
  then have "gcc_ready self i (h', g')" using rd assms t by (simp add: gcc_ready_def)
  then show ?thesis using t assms by (auto simp: hook_does_def)
qed

lemma does_known:
  assumes "hook_does self i k (h, g) (h', g')" "table_of h' i (hook_key k) = Some p"
  obtains op t' where "run_op g op (thread_heap g ! i) = Inr t'" "hook_op k (table_of h' i) op"
    "g' = g\<lparr>thread_heap := (thread_heap g)[i := t']\<rparr>" "op_point op = p"
proof -
  have "\<exists>op t'. run_op g op (thread_heap g ! i) = Inr t' \<and> g' = g\<lparr>thread_heap := (thread_heap g)[i := t']\<rparr> \<and>
      hook_op k (table_of h' i) op"
  proof -
    have "\<not> (table_of h' i = table_of h i \<and> table_of h i (hook_key k) = None)" using assms(2) by auto
    then show ?thesis using assms(1) unfolding hook_does_def prod.case by blast
  qed
  then show thesis using that assms(2) by (auto simp: hook_op_def)
qed

lemma exit_found:
  assumes "cyg_profile_func_exit sys self r f (h, g) = Inr (h', g')" "gcc_ready self i (h, g)"
  obtains m p where "htabs h i = Table m" "m (gcc_key (hs_junk sys) f) = Some p"
    "papiex_stop self r p g = Inr g'" "h' = h"
  using assms(1) readyD(1,2) [OF assms(2)]
  by (auto simp: cyg_profile_func_exit_def split: htab.splits option.splits)

lemma exit_does:
  assumes "cyg_profile_func_exit sys self r f (h, g) = Inr (h', g')" "gcc_ready self i (h, g)"
  shows "hook_does self i (FnExit sys r f) (h, g) (h', g')"
proof -
  note rd = readyD [OF assms(2)]
  obtain m p where m: "htabs h i = Table m" and p: "m (gcc_key (hs_junk sys) f) = Some p"
    and st: "papiex_stop self r p g = Inr g'" and h': "h' = h"
    by (rule exit_found [OF assms])
  then have mt: "table_of h i = m" by (simp add: table_of_def)
  obtain t' where t': "cal_stop g r p (thread_heap g ! i) = Inr t'"
    and g': "g' = g\<lparr>thread_heap := (thread_heap g)[i := t']\<rparr>"
    using with_thread_run [OF st [unfolded papiex_stop_def] rd(2,4)] .
  have op: "run_op g (OpStop p r) (thread_heap g ! i) = Inr t'" using t' by simp
  have h'': "h' = h\<lparr>htabs := (htabs h)(i := Table m)\<rparr>" using h' m by (simp add: fun_upd_idem)
  show ?thesis
    by (rule does_call [OF assms(2) op _ h'' g'])
      (use p rd(6-8) mt stop_used [OF t'] cal_step_frame(2) [OF op] in \<open>simp_all add: hook_op_def points_ok_def\<close>)
qed

lemma points_ok_new:
  assumes "points_ok m t" "max_caliper_used t' = max_caliper_used t + 1" "m k = None" "0 \<le> max_caliper_used t"
  shows "points_ok (m(k \<mapsto> max_caliper_used t + 1)) t'"
proof -
  have "m k' \<noteq> Some (max_caliper_used t + 1)" for k'
    using assms(1) by (force simp: points_ok_def)
  moreover have "inj_on m (dom m)" using assms(1) by (simp add: points_ok_def)
  ultimately have "inj_on (m(k \<mapsto> max_caliper_used t + 1)) (dom (m(k \<mapsto> max_caliper_used t + 1)))"
    using assms(3) by (auto simp: inj_on_def)
  then show ?thesis using assms by (force simp: points_ok_def)
qed

lemma enter_known:
  assumes "gcc_ready self i (h, g)" "table_of h i = m" "m (gcc_key (hs_junk sys) f) = Some p"
    and "papiex_start self r p None g = Inr g'" "h' = h\<lparr>htabs := (htabs h)(i := Table m)\<rparr>"
  shows "hook_does self i (FnEnter sys r f) (h, g) (h', g')"
proof -
  note rd = readyD [OF assms(1)]
  obtain t' where t': "cal_start g r p None (thread_heap g ! i) = Inr t'"
    and g': "g' = g\<lparr>thread_heap := (thread_heap g)[i := t']\<rparr>"
    using with_thread_run [OF assms(4) [unfolded papiex_start_def] rd(2,4)] .
  have op: "run_op g (OpStart p None r) (thread_heap g ! i) = Inr t'" using t' by simp
  have "0 < p \<and> p \<le> max_caliper_used (thread_heap g ! i)" using rd(8) assms(2,3) by (auto simp: points_ok_def)
  then have "max_caliper_used t' = max_caliper_used (thread_heap g ! i)" using start_used [OF t'] by auto
  then show ?thesis
    by (intro does_call [OF assms(1) op _ assms(5) g'])
      (use assms(2,3) rd(6-8) cal_step_frame(2) [OF op] in \<open>auto simp: hook_op_def points_ok_def\<close>)
qed

lemma enter_new:
  assumes "gcc_ready self i (h, g)" "table_of h i = m" "m (gcc_key (hs_junk sys) f) = None"
    and "p = max_caliper_used (thread_heap g ! i) + 1" "p < max_caliper_entries (thread_heap g ! i)"
    and "papiex_start self r p l g = Inr g'"
    and "h' = h\<lparr>htabs := (htabs h)(i := Table (m(gcc_key (hs_junk sys) f \<mapsto> p)))\<rparr>"
  shows "hook_does self i (FnEnter sys r f) (h, g) (h', g')"
proof -
  note rd = readyD [OF assms(1)]
  obtain t' where t': "cal_start g r p l (thread_heap g ! i) = Inr t'"
    and g': "g' = g\<lparr>thread_heap := (thread_heap g)[i := t']\<rparr>"
    using with_thread_run [OF assms(6) [unfolded papiex_start_def] rd(2,4)] .
  have op: "run_op g (OpStart p l r) (thread_heap g ! i) = Inr t'" using t' by simp
  have u: "max_caliper_used t' = max_caliper_used (thread_heap g ! i) + 1" using start_used [OF t'] assms(4,5) by simp
  show ?thesis
    by (rule does_call [OF assms(1) op _ assms(7) g'])
      (use assms(2-5) rd(6,8) u points_ok_new [OF rd(8) u _ rd(6)] cal_step_frame(2) [OF op]
        in \<open>auto simp: hook_op_def map_le_def\<close>)
qed

lemma enter_full:
  assumes "gcc_ready self i (h, g)" "table_of h i = m" "m (gcc_key (hs_junk sys) f) = None"
    and "h' = h\<lparr>htabs := (htabs h)(i := Table m)\<rparr>"
  shows "hook_does self i (FnEnter sys r f) (h, g) (h', g)"
proof -
  have t: "table_of h' i = m" using assms(4) by (simp add: table_of_def)
  have "gcc_ready self i (h', g)" using assms(1,2,4) t by (simp add: gcc_ready_def)
  then show ?thesis using t assms(2-4) by (simp add: hook_does_def)
qed

lemma does_heap:
  assumes "hook_does self i k (h, g) (h', g')"
  shows "\<exists>x. g' = g\<lparr>thread_heap := x\<rparr>"
proof -
  have "g = g\<lparr>thread_heap := thread_heap g\<rparr>" by simp
  then show ?thesis using assms unfolding hook_does_def by blast
qed

lemma hook_step:
  assumes "run_hook self k (h, g) = Inr (h', g')" "gcc_ready self i (h, g)"
  shows "hook_does self i k (h, g) (h', g')"
proof (cases k)
  case (FnExit sys r f)
  then show ?thesis using assms exit_does by simp
next
  case (FnEnter sys r f)
  note rd = readyD [OF assms(2)]
  have e: "cyg_profile_func_enter sys self r f (h, g) = Inr (h', g')" using assms(1) FnEnter by simp
  then obtain m where o: "open_table (hs_create_ok sys) (htabs h i) = Some m"
    using rd(1,2) by (auto simp: cyg_profile_func_enter_def split: option.splits)
  then have mt: "table_of h i = m" by (auto simp: table_of_def open_table_def split: htab.splits if_splits)
  show ?thesis
  proof (cases "m (gcc_key (hs_junk sys) f)")
    case (Some p)
    then show ?thesis using enter_known [OF assms(2) mt Some] e o rd(1,2) FnEnter
      by (auto simp: cyg_profile_func_enter_def Let_def)
  next
    case None
    then show ?thesis
      using enter_new [OF assms(2) mt None refl] enter_full [OF assms(2) mt None] e o rd(1,2) FnEnter
      by (auto simp: cyg_profile_func_enter_def Let_def split: if_splits)
  qed
qed

section \<open>Between the entry and the exit of a function\<close>

lemma run_hooks_append: "run_hooks self (xs @ ys) s = rbind (run_hooks self xs s) (run_hooks self ys)"
proof (induction xs arbitrary: s)
  case (Cons x xs)
  then show ?case by (cases "run_hook self x s") auto
qed simp

lemma hooks_ready:
  "run_hooks self ks (h, g) = Inr (h', g') \<Longrightarrow> gcc_ready self i (h, g) \<Longrightarrow>
   gcc_ready self i (h', g') \<and> (\<exists>x. g' = g\<lparr>thread_heap := x\<rparr>) \<and>
   (ks \<noteq> [] \<or> htabs h i = Table (table_of h i) \<longrightarrow> htabs h' i = Table (table_of h' i))"
proof (induction ks arbitrary: h g)
  case (Cons k ks)
  obtain h1 g1 where s: "run_hook self k (h, g) = Inr (h1, g1)" "run_hooks self ks (h1, g1) = Inr (h', g')"
    using Cons.prems(1) by auto
  have d: "hook_does self i k (h, g) (h1, g1)" by (rule hook_step [OF s(1) Cons.prems(2)])
  then obtain x where x: "g1 = g\<lparr>thread_heap := x\<rparr>" using does_heap by blast
  have "gcc_ready self i (h1, g1)" using d by (simp add: hook_does_def)
  moreover have "htabs h1 i = Table (table_of h1 i)" using d by (simp add: hook_does_def)
  ultimately show ?case using Cons.IH [OF s(2)] unfolding x by simp
next
  case Nil
  then show ?case by (auto intro!: exI [of _ "thread_heap g"])
qed

text \<open>Hooks of other keys are calls on other calipers.\<close>

lemma other_hooks:
  assumes "run_hooks self ks (h, g) = Inr (h', g')" "gcc_ready self i (h, g)"
    and "\<forall>k\<in>set ks. hook_key k \<noteq> key"
  obtains ops where "run_ops g ops (thread_heap g ! i) = Inr (thread_heap g' ! i)"
    "\<forall>op\<in>set ops. 0 < op_point op \<and> table_of h' i key \<noteq> Some (op_point op)"
    "table_of h' i key = table_of h i key" "table_of h i \<subseteq>\<^sub>m table_of h' i"
  using assms
proof (induction ks arbitrary: h g thesis)
  case Nil
  then show thesis by (metis empty_iff empty_set map_le_refl prod.inject run_hooks.simps(1) run_ops.simps(1) sum.inject(2))
next
  case (Cons k ks)
  obtain h1 g1 where s: "run_hook self k (h, g) = Inr (h1, g1)" "run_hooks self ks (h1, g1) = Inr (h', g')"
    using Cons.prems(2) by auto
  have d: "hook_does self i k (h, g) (h1, g1)" by (rule hook_step [OF s(1) Cons.prems(3)])
  have r1: "gcc_ready self i (h1, g1)" "table_of h i \<subseteq>\<^sub>m table_of h1 i" and key1: "table_of h1 i key = table_of h i key"
    using d Cons.prems(4) by (auto simp: hook_does_def)
  obtain ops where ops: "run_ops g1 ops (thread_heap g1 ! i) = Inr (thread_heap g' ! i)"
    "\<forall>op\<in>set ops. 0 < op_point op \<and> table_of h' i key \<noteq> Some (op_point op)"
    "table_of h' i key = table_of h1 i key" "table_of h1 i \<subseteq>\<^sub>m table_of h' i"
    using Cons.IH [OF _ s(2) r1(1)] Cons.prems(4) by auto
  have le: "table_of h i \<subseteq>\<^sub>m table_of h' i" using r1(2) ops(4) map_le_trans by blast
  consider "g1 = g" | op t' where "run_op g op (thread_heap g ! i) = Inr t'"
      "g1 = g\<lparr>thread_heap := (thread_heap g)[i := t']\<rparr>" "hook_op k (table_of h1 i) op"
    using d by (auto simp: hook_does_def)
  then show thesis
  proof cases
    case 1
    then show thesis using Cons.prems(1) [OF _ ops(2) _ le] ops(1,3) key1 by simp
  next
    case 2
    have i: "i < length (thread_heap g)" by (rule readyD(3) [OF Cons.prems(3)])
    have "table_of h1 i (hook_key k) = Some (op_point op)" using 2(3) by (simp add: hook_op_def)
    moreover have "hook_key k \<noteq> key" using Cons.prems(4) by simp
    ultimately have "0 < op_point op" "table_of h' i key \<noteq> Some (op_point op)"
      using readyD(8) [OF r1(1)] ops(3) by (auto simp: points_ok_def inj_on_def dom_def)
    then show thesis
      using Cons.prems(1) [of "op # ops", OF _ _ _ le] ops 2(1,2) i key1 by simp
  qed
qed

section \<open>Properties\<close>

text \<open>A thread before its first hook.\<close>

definition fresh_thread :: "nat \<Rightarrow> nat \<Rightarrow> gccst \<times> pglob \<Rightarrow> bool" where
  "fresh_thread self i = (\<lambda>(h, g). papiex_gcc_enable h \<noteq> 0 \<and> htabs h i = NoTable \<and> thread_data g self = Some i \<and>
     i < length (thread_heap g) \<and> eventcnt g \<noteq> 0 \<and> cal_size_ok (thread_heap g ! i) \<and>
     max_caliper_used (thread_heap g ! i) = 0)"

lemma fresh_ready: "fresh_thread self i s \<Longrightarrow> gcc_ready self i s"
  by (auto simp: fresh_thread_def gcc_ready_def table_of_def points_ok_def cal_size_ok_def PAPIEX_MAX_CALIPERS_def)

lemma entry_to_exit:
  assumes "gcc_ready self i (h, g)"
    and "run_hooks self (FnEnter sys r0 f # mid @ [FnExit sys' r1 f]) (h, g) = Inr (h', g')"
    and "gcc_key (hs_junk sys) f = key" "gcc_key (hs_junk sys') f = key" "\<forall>k\<in>set mid. hook_key k \<noteq> key"
  obtains p l ops where "0 < p" "in_range p" "table_of h' i key = Some p" "\<forall>op\<in>set ops. between g p op"
    "cal_depth (pt_data (thread_heap g ! i) ! nat p) = 0"
    "run_ops g (OpStart p l r0 # ops @ [OpStop p r1]) (thread_heap g ! i) = Inr (thread_heap g' ! i)"
proof -
  obtain h1 g1 h2 g2 where e: "run_hook self (FnEnter sys r0 f) (h, g) = Inr (h1, g1)"
    and m: "run_hooks self mid (h1, g1) = Inr (h2, g2)"
    and x: "cyg_profile_func_exit sys' self r1 f (h2, g2) = Inr (h', g')"
    using assms(2) by (auto simp: run_hooks_append)
  have d: "hook_does self i (FnEnter sys r0 f) (h, g) (h1, g1)" by (rule hook_step [OF e assms(1)])
  then have r1: "gcc_ready self i (h1, g1)" by (simp add: hook_does_def)
  obtain ops where ops: "run_ops g1 ops (thread_heap g1 ! i) = Inr (thread_heap g2 ! i)"
    "\<forall>op\<in>set ops. 0 < op_point op \<and> table_of h2 i key \<noteq> Some (op_point op)"
    "table_of h2 i key = table_of h1 i key"
    by (rule other_hooks [OF m r1 assms(5)])
  have r2: "gcc_ready self i (h2, g2)" using hooks_ready [OF m r1] by simp
  obtain mm p where p: "htabs h2 i = Table mm" "mm key = Some p" "papiex_stop self r1 p g2 = Inr g'" "h' = h2"
    using exit_found [OF x r2] assms(4) by metis
  then have tp: "table_of h2 i key = Some p" by (simp add: table_of_def)
  then have k1: "table_of h1 i (hook_key (FnEnter sys r0 f)) = Some p" using ops(3) assms(3) by simp
  obtain op t1 where op: "run_op g op (thread_heap g ! i) = Inr t1" "hook_op (FnEnter sys r0 f) (table_of h1 i) op"
    and g1: "g1 = g\<lparr>thread_heap := (thread_heap g)[i := t1]\<rparr>" and "op_point op = p"
    by (rule does_known [OF d k1])
  then obtain l where "op = OpStart p l r0" by (auto simp: hook_op_def)
  then have st: "cal_start g r0 p l (thread_heap g ! i) = Inr t1" using op(1) by simp
  obtain t' where t': "cal_stop g2 r1 p (thread_heap g2 ! i) = Inr t'"
    and g': "g' = g2\<lparr>thread_heap := (thread_heap g2)[i := t']\<rparr>"
    using with_thread_run [OF p(3) [unfolded papiex_stop_def] readyD(2,4) [OF r2]] .
  have "0 < p \<and> p \<le> max_caliper_used (thread_heap g2 ! i)" using readyD(8) [OF r2] tp by (auto simp: points_ok_def)
  then have pr: "0 < p" "in_range p" using readyD(5,7) [OF r2] by (auto simp: in_range_def cal_size_ok_def)
  obtain x where "g2 = g1\<lparr>thread_heap := x\<rparr>" using hooks_ready [OF m r1] by blast
  then have "run_op g2 = run_op g" "run_ops g1 = run_ops g" by (intro ext, simp add: g1)+
  moreover have "thread_heap g1 ! i = t1" "thread_heap g' ! i = t'"
    using readyD(3) [OF assms(1)] readyD(3) [OF r2] g1 g' by simp_all
  moreover have "run_op g2 (OpStop p r1) (thread_heap g2 ! i) = Inr t'" using t' by simp
  ultimately have run: "run_ops g (OpStart p l r0 # ops @ [OpStop p r1]) (thread_heap g ! i) = Inr (thread_heap g' ! i)"
    using st ops(1) by (simp add: run_ops_append)
  have "cal_depth (pt_data (thread_heap g ! i) ! nat p) = 0"
    using st pr readyD(5) [OF assms(1)] by (auto simp: cal_start_def in_range_def cal_size_ok_def split: if_splits)
  moreover have "\<forall>op\<in>set ops. between g p op" using ops(2) tp by (auto simp: between_def)
  ultimately show thesis using that [OF pr _ _ _ run] tp p(4) by simp
qed

text \<open>C25: what a function's caliper measures when its keys are apart.  The key of a function is
  an array on the stack of which only the end is set.  Under the condition that what the stack
  holds gives the function the same key at its entry and at its exit, and gives every hook in
  between another key, then from a thread's first hook on the function entered and left, with
  those hooks in between however they nest, has a caliper of its own, and that caliper's
  counters and cycles grow by the reading at the exit less the one at the entry.  Without the
  condition the exit can stop another function's caliper, and the run goes on (lemma
  exit_stops_other_function).\<close>
theorem gcc_function_measured:
  assumes "fresh_thread self i (h0, g0)" "run_hooks self pre (h0, g0) = Inr (h, g)"
    and "run_hooks self (FnEnter sys r0 f # mid @ [FnExit sys' r1 f]) (h, g) = Inr (h', g')"
    and "gcc_key (hs_junk sys) f = key" "gcc_key (hs_junk sys') f = key" "\<forall>k\<in>set mid. hook_key k \<noteq> key"
    and "real_reading g r0" "real_reading g r1"
  shows "\<exists>p. 0 < p \<and> p < int PAPIEX_MAX_CALIPERS \<and> table_of h' i key = Some p \<and>
    (\<forall>k'. k' \<noteq> key \<longrightarrow> table_of h' i k' \<noteq> Some p) \<and>
    (let c = pt_data (thread_heap g ! i) ! nat p; c' = pt_data (thread_heap g' ! i) ! nat p
     in cal_depth c' = 0 \<and> real_cyc c' = real_cyc c + (rd_real_cyc r1 - rd_real_cyc r0) \<and>
       (\<forall>e<eventcnt g. counters c' e = counters c e + (rd_counters r1 e - rd_counters r0 e)))"
proof -
  have r: "gcc_ready self i (h, g)" using hooks_ready [OF assms(2) fresh_ready [OF assms(1)]] by simp
  obtain p l ops where p: "0 < p" "in_range p" "table_of h' i key = Some p" "\<forall>op\<in>set ops. between g p op"
    "cal_depth (pt_data (thread_heap g ! i) ! nat p) = 0"
    "run_ops g (OpStart p l r0 # ops @ [OpStop p r1]) (thread_heap g ! i) = Inr (thread_heap g' ! i)"
    by (rule entry_to_exit [OF r assms(3-6)])
  have "points_ok (table_of h' i) (thread_heap g' ! i)" using hooks_ready [OF assms(3) r] readyD(8) by blast
  then have "\<forall>k'. k' \<noteq> key \<longrightarrow> table_of h' i k' \<noteq> Some p" using p(3) by (auto simp: points_ok_def inj_on_def dom_def)
  then show ?thesis
    using caliper_measures_interval [OF p(2) readyD(5) [OF r] p(5) assms(7,8) p(4,6)] p(1-3)
    by (auto simp: in_range_def Let_def)
qed

text \<open>C26: calls that end the process.  After a function's entry and hooks of other
  functions, an entry of any function with the same key, a recursive call above all,
  ends the process, because the caliper is in use; and when no caliper was left for
  the function, its exit ends the process.\<close>
theorem gcc_calls_end_process:
  assumes "fresh_thread self i (h0, g0)" "run_hooks self (pre @ FnEnter sys r0 f # mid) (h0, g0) = Inr (h, g)"
    and "\<forall>k\<in>set mid. hook_key k \<noteq> gcc_key (hs_junk sys) f"
    and "gcc_key (hs_junk sys') f' = gcc_key (hs_junk sys) f"
  shows "case table_of h i (gcc_key (hs_junk sys) f) of
     Some p \<Rightarrow> cyg_profile_func_enter sys' self r1 f' (h, g) = Inl (PapiexEnds (CaliperInUse p))
   | None \<Rightarrow> cyg_profile_func_exit sys' self r1 f' (h, g) = Inl FunctionNotFound"
proof -
  let ?key = "gcc_key (hs_junk sys) f"
  obtain h1 g1 h2 g2 where pre: "run_hooks self pre (h0, g0) = Inr (h1, g1)"
    and e: "run_hook self (FnEnter sys r0 f) (h1, g1) = Inr (h2, g2)" and m: "run_hooks self mid (h2, g2) = Inr (h, g)"
    using assms(2) by (auto simp: run_hooks_append)
  have r1: "gcc_ready self i (h1, g1)" using hooks_ready [OF pre fresh_ready [OF assms(1)]] by simp
  have d: "hook_does self i (FnEnter sys r0 f) (h1, g1) (h2, g2)" by (rule hook_step [OF e r1])
  then have r2: "gcc_ready self i (h2, g2)" by (simp add: hook_does_def)
  have r: "gcc_ready self i (h, g)" using hooks_ready [OF m r2] by simp
  obtain ops where ops: "run_ops g2 ops (thread_heap g2 ! i) = Inr (thread_heap g ! i)"
    "\<forall>op\<in>set ops. 0 < op_point op \<and> table_of h i ?key \<noteq> Some (op_point op)" "table_of h i ?key = table_of h2 i ?key"
    by (rule other_hooks [OF m r2 assms(3)])
  have "htabs h2 i = Table (table_of h2 i)" using d by (simp add: hook_does_def)
  then have tab: "htabs h i = Table (table_of h i)" using hooks_ready [OF m r2] by blast
  note g = readyD [OF r]
  show ?thesis
  proof (cases "table_of h i ?key")
    case None
    then show ?thesis using tab g(1,2) assms(4) by (simp add: cyg_profile_func_exit_def)
  next
    case (Some p)
    have k: "table_of h2 i (hook_key (FnEnter sys r0 f)) = Some p" using Some ops(3) by simp
    obtain op t2 where op: "run_op g1 op (thread_heap g1 ! i) = Inr t2" "hook_op (FnEnter sys r0 f) (table_of h2 i) op"
      and g2: "g2 = g1\<lparr>thread_heap := (thread_heap g1)[i := t2]\<rparr>" and p: "op_point op = p"
      by (rule does_known [OF d k])
    then obtain l where st: "cal_start g1 r0 p l (thread_heap g1 ! i) = Inr t2"
    proof -
      obtain l where "op = OpStart p l r0" using op(2) p by (auto simp: hook_op_def)
      then show thesis using that op(1) by simp
    qed
    have "0 < p \<and> p \<le> max_caliper_used (thread_heap g ! i)" using g(8) Some by (auto simp: points_ok_def)
    then have pr: "0 < p" "in_range p" using g(5,7) by (auto simp: in_range_def cal_size_ok_def)
    have t2: "thread_heap g2 ! i = t2" using g2 readyD(3) [OF r1] by simp
    have "cal_depth (pt_data (thread_heap g1 ! i) ! nat p) = 0"
      using st pr readyD(5) [OF r1] by (auto simp: cal_start_def in_range_def cal_size_ok_def split: if_splits)
    then have "cal_depth (pt_data t2 ! nat p) = 1"
      using start_at [OF pr(2) readyD(5) [OF r1], of g1 r0 l] st by (auto simp: Let_def)
    moreover have "\<forall>op\<in>set ops. between g2 p op" using ops(2) Some by (auto simp: between_def)
    ultimately have "cal_depth (pt_data (thread_heap g ! i) ! nat p) = 1"
      using between_run [OF ops(1) _ pr(2) readyD(5) [OF r2]] t2 by simp
    then have "papiex_start self r1 p None g = Inl (CaliperInUse p)"
      using g(2,4,5) pr by (simp add: papiex_start_def with_thread_def cal_start_def in_range_def cal_size_ok_def)
    then show ?thesis
      using tab g(1,2) Some assms(4) by (simp add: cyg_profile_func_enter_def open_table_def ends_def)
  qed
qed

text \<open>An address in hexadecimal.  ultohexstr fills the end of the buffer: what it returns
  points at the digits of the value, and at least 17 characters before them stay as they
  were.  The hooks look up the whole buffer instead: with a NUL among those characters
  the key is the same for all functions.\<close>
lemma ultohexstr_writes_hex:
  assumes "length buf = ULTOHEXSTR_SZ" "ultohexstr v buf = (p, buf')"
  shows "length buf' = ULTOHEXSTR_SZ \<and> unhex (c_string buf' p) = unat v \<and> 17 \<le> p \<and> take p buf' = take p buf \<and>
    (NUL \<in> set (take 17 buf) \<longrightarrow> gcc_key buf v = gcc_key buf w)"
proof -
  let ?d = "hex_loop (unat v) []"
  have p: "p = 33 - length ?d" "buf' = take p buf @ ?d @ [NUL]"
    using assms(2) ultohexstr_parts [OF assms(1), of v] by auto
  have d: "length ?d \<le> 16" "NUL \<notin> set ?d" "unhex ?d = unat v"
    using hex_word_length [of v] hex_loop_digits [of "unat v"] by simp_all
  have l: "length (take p buf) = p" using assms(1) p(1) by (simp add: ULTOHEXSTR_SZ_def)
  have "c_string buf' p = ?d"
    using l d(2) by (simp add: c_string_def p(2)) (subst takeWhile_append2, auto)
  moreover have "length buf' = ULTOHEXSTR_SZ" using l d(1) p by (simp add: ULTOHEXSTR_SZ_def)
  ultimately show ?thesis using d p l gcc_key_shared [OF assms(1)] by simp
qed

text \<open>A thread of sample structure, and a stack that holds letters, or zeros.\<close>

definition sample_hook_glob :: pglob where
  "sample_hook_glob = sample_glob\<lparr>thread_heap := [sample_thread], thread_data := (\<lambda>s. if s = 7 then Some 0 else None)\<rparr>"

definition sample_gccst :: gccst where
  "sample_gccst = papiex_gcc_set_gate 1 \<lparr>papiex_gcc_enable = 0, htabs = (\<lambda>_. NoTable)\<rparr>"

definition stack_of :: "char \<Rightarrow> hook_sys" where
  "stack_of c = \<lparr>hs_junk = replicate ULTOHEXSTR_SZ c, hs_create_ok = True, hs_strdup_ok = True, hs_enter_ok = True\<rparr>"

definition letters :: hook_sys where "letters = stack_of (CHR ''x'')"

lemma sample_fresh: "fresh_thread 7 0 (sample_gccst, sample_hook_glob)"
  by (simp add: fresh_thread_def sample_gccst_def sample_hook_glob_def papiex_gcc_set_gate_def sample_glob_def
      pglob_start_def eventcnt_def sample_thread_def zero_perthread_def cal_size_ok_def PAPIEX_MAX_CALIPERS_def)

lemma sample_keys:
  "gcc_key (hs_junk letters) 1024 = ''xxxxxxxxxxxxxxxxxxxxxxxxxxxxxx400''"
  "gcc_key (hs_junk letters) 1280 = ''xxxxxxxxxxxxxxxxxxxxxxxxxxxxxx500''"
  by code_simp+

lemma sample_thread_parts:
  "length (pt_data sample_thread) = 32" "max_caliper_entries sample_thread = 32" "max_caliper_used sample_thread = 0"
  "n < 32 \<Longrightarrow> cal_depth (pt_data sample_thread ! n) = 0"
  by (simp_all add: sample_thread_def zero_perthread_def PAPIEX_MAX_CALIPERS_def zero_caliper_def)

lemma sample_hook_parts:
  "thread_heap sample_hook_glob = [sample_thread]" "thread_data sample_hook_glob 7 = Some 0"
  "eventcnt sample_hook_glob = 2" "real_reading sample_hook_glob (sample_reading n)"
  "hs_create_ok letters" "hs_strdup_ok letters" "hs_enter_ok letters"
  "papiex_gcc_enable sample_gccst = 1" "htabs sample_gccst = (\<lambda>_. NoTable)"
  by (simp_all add: sample_hook_glob_def sample_glob_def pglob_start_def eventcnt_def real_reading_def does_read_def
      sample_reading_def letters_def stack_of_def sample_gccst_def papiex_gcc_set_gate_def)

lemma sample_hook_run:
  "\<exists>h g. run_hooks 7 (FnEnter letters (sample_reading 5) 1024 #
      [FnEnter letters (sample_reading 6) 1280, FnExit letters (sample_reading 8) 1280] @
      [FnExit letters (sample_reading 11) 1024]) (sample_gccst, sample_hook_glob) = Inr (h, g)"
  by (simp add: cyg_profile_func_enter_def cyg_profile_func_exit_def sample_keys Let_def sample_hook_parts
      open_table_def papiex_start_def papiex_stop_def with_thread_def cal_start_def cal_stop_def
      sample_thread_parts ends_def upd_cal_def)

text \<open>When the stack holds a NUL at the start of the key, an exit stops the caliper of another
  function that was entered with one there: its own caliper stays open.\<close>

lemma exit_stops_other_function:
  "\<exists>h g. run_hooks 7 [FnEnter letters (sample_reading 5) 1024, FnEnter (stack_of NUL) (sample_reading 6) 1280,
      FnExit (stack_of NUL) (sample_reading 8) 1024] (sample_gccst, sample_hook_glob) = Inr (h, g) \<and>
    table_of h 0 (gcc_key (hs_junk letters) 1024) = Some 1 \<and>
    cal_depth (pt_data (thread_heap g ! 0) ! 1) = 1 \<and> cal_depth (pt_data (thread_heap g ! 0) ! 2) = 0"
proof -
  have k: "gcc_key (hs_junk (stack_of NUL)) v = []" if "v = 1024 \<or> v = 1280" for v
    using that by (elim disjE; hypsubst; code_simp)
  have p: "hs_create_ok (stack_of c)" "hs_strdup_ok (stack_of c)" "hs_enter_ok (stack_of c)" for c
    by (simp_all add: stack_of_def)
  show ?thesis
    by (simp add: cyg_profile_func_enter_def cyg_profile_func_exit_def sample_keys k p Let_def sample_hook_parts
        open_table_def papiex_start_def papiex_stop_def with_thread_def cal_start_def cal_stop_def
        sample_thread_parts ends_def upd_cal_def table_of_def sample_reading_def)
qed

theorem gcc_function_measured_witness:
  "\<exists>h g p. run_hooks 7 (FnEnter letters (sample_reading 5) 1024 #
      [FnEnter letters (sample_reading 6) 1280, FnExit letters (sample_reading 8) 1280] @
      [FnExit letters (sample_reading 11) 1024]) (sample_gccst, sample_hook_glob) = Inr (h, g) \<and>
    0 < p \<and> counters (pt_data (thread_heap g ! 0) ! nat p) 1 = 6"
proof -
  let ?s = "(sample_gccst, sample_hook_glob)"
  obtain h g where run: "run_hooks 7 (FnEnter letters (sample_reading 5) 1024 #
      [FnEnter letters (sample_reading 6) 1280, FnExit letters (sample_reading 8) 1280] @
      [FnExit letters (sample_reading 11) 1024]) ?s = Inr (h, g)" using sample_hook_run by blast
  have other: "\<forall>k\<in>set [FnEnter letters (sample_reading 6) 1280, FnExit letters (sample_reading 8) 1280].
      hook_key k \<noteq> gcc_key (hs_junk letters) 1024" by (simp add: sample_keys)
  have c: "counters (pt_data sample_thread ! n) 1 = 0" if "n < 32" for n
    using that by (simp add: sample_thread_def zero_perthread_def zero_caliper_def PAPIEX_MAX_CALIPERS_def)
  have nil: "run_hooks 7 [] ?s = Inr ?s" by simp
  obtain p where "0 < p" "p < 32" "counters (pt_data (thread_heap g ! 0) ! nat p) 1 =
      counters (pt_data sample_thread ! nat p) 1 + (rd_counters (sample_reading 11) 1 - rd_counters (sample_reading 5) 1)"
    using gcc_function_measured [OF sample_fresh nil run refl refl other sample_hook_parts(4) sample_hook_parts(4)]
    by (auto simp: Let_def sample_hook_parts PAPIEX_MAX_CALIPERS_def)
  then show ?thesis using run c [of "nat p"] by (auto simp: sample_reading_def)
qed

theorem gcc_calls_end_process_witness:
  "\<exists>h g p. run_hooks 7 [FnEnter letters (sample_reading 5) 1024] (sample_gccst, sample_hook_glob) = Inr (h, g) \<and>
    cyg_profile_func_enter letters 7 (sample_reading 6) 1024 (h, g) = Inl (PapiexEnds (CaliperInUse p))"
proof -
  obtain h g where run: "run_hooks 7 ([] @ FnEnter letters (sample_reading 5) 1024 # []) (sample_gccst, sample_hook_glob) =
      Inr (h, g)" and t: "table_of h 0 (gcc_key (hs_junk letters) 1024) = Some 1"
    by (simp add: cyg_profile_func_enter_def sample_keys Let_def sample_hook_parts open_table_def papiex_start_def
        with_thread_def cal_start_def sample_thread_parts ends_def table_of_def)
  show ?thesis
    using gcc_calls_end_process [OF sample_fresh run, of letters 1024 "sample_reading 6"] run t by auto
qed

end
