(* ===== verification/PathHooks.thy ===== *)
theory PathHooks
  imports GccHooks
begin

text \<open>
  papiex/src/pathscale.c: the calls that the pathscale compiler puts around loops and
  functions.  Each program unit has a structure with the caliper points of its loops and
  calls; a point is negative until it is used.  The structures are shared by all threads,
  the count of points is kept per thread.  The calls of the interface that only print a
  debug message are left out.
\<close>

unbundle bit_operations_syntax

record pathscale_pu =
  pu_fname :: "string option"
  pu_name :: "string option"
  loops :: "int list option"
  calls :: "int list option"
  num_loops :: int
  num_calls :: int
  pusize :: int
  pu_pc :: int
  pu_checksum :: int

text \<open>A handle is the index of a structure in the list that stands for the heap.\<close>

record pathst =
  papiex_pathscale_enable :: int
  total_points :: "nat \<Rightarrow> int"
  pus :: "pathscale_pu list"

definition pathst_start :: pathst where
  "pathst_start = \<lparr>papiex_pathscale_enable = 0, total_points = (\<lambda>_. 1), pus = []\<rparr>"

definition papiex_pathscale_set_gate :: "int \<Rightarrow> pathst \<Rightarrow> pathst" where
  "papiex_pathscale_set_gate i h = h\<lparr>papiex_pathscale_enable :=
     (if i = int PATHSCALE_LOOPS \<or> i = int PATHSCALE_FUNCS \<or> i = int PATHSCALE_ALL \<or> i = int PATHSCALE_NONE
      then i else int PATHSCALE_ALL)\<rparr>"

definition gate_open :: "nat \<Rightarrow> pathst \<Rightarrow> bool" where
  "gate_open what h \<longleftrightarrow> papiex_pathscale_enable h AND int what \<noteq> 0"

definition profile_pu_init ::
  "bool \<Rightarrow> string option \<Rightarrow> string option \<Rightarrow> int \<Rightarrow> int \<Rightarrow> int \<Rightarrow> pathst \<Rightarrow> nat option \<times> pathst" where
  "profile_pu_init malloc_ok fname name pc psize checksum h =
    (if \<not> malloc_ok then (None, h)
     else (Some (length (pus h)), h\<lparr>pus := pus h @ [\<lparr>pu_fname = fname, pu_name = name, loops = None,
       calls = None, num_loops = 0, num_calls = 0, pusize = psize, pu_pc = pc, pu_checksum = checksum\<rparr>]\<rparr>))"

text \<open>The structure a handle points at; a null handle is not tested for in the calls.\<close>

definition unit_at :: "pathst \<Rightarrow> nat option \<Rightarrow> (nat \<times> pathscale_pu) option" where
  "unit_at h pu = (case pu of None \<Rightarrow> None | Some u \<Rightarrow> if u < length (pus h) then Some (u, pus h ! u) else None)"

section \<open>New points\<close>

text \<open>realloc of an array of num points to num + n; what new memory holds is a parameter.
  The new point at i is start + i, where i counts from the points the unit has already.\<close>

definition grow_points :: "(nat \<Rightarrow> int) \<Rightarrow> int \<Rightarrow> int \<Rightarrow> int \<Rightarrow> int list option \<Rightarrow> int list" where
  "grow_points fresh start num n old =
    (let old = (case old of None \<Rightarrow> [] | Some ps \<Rightarrow> ps)
     in map (\<lambda>i. if int i < num then (if i < length old then old ! i else fresh i) else - (start + int i))
          [0..<nat (num + n)])"

text \<open>A failed realloc leaves the null pointer in the structure.\<close>

definition profile_loop_init ::
  "(nat \<Rightarrow> int) option \<Rightarrow> nat \<Rightarrow> nat option \<Rightarrow> int \<Rightarrow> pathst \<times> pglob \<Rightarrow> hook_end + (pathst \<times> pglob)" where
  "profile_loop_init mem self pu n = (\<lambda>(h, g).
    if \<not> gate_open PATHSCALE_LOOPS h then Inr (h, g)
    else case thread_data g self of
      None \<Rightarrow> Inl (PapiexEnds ThreadDataNull)
    | Some i \<Rightarrow>
        if total_points h self + n > max_caliper_entries (thread_heap g ! i) then Inr (h, g)
        else (case unit_at h pu of
          None \<Rightarrow> Inl HookUndefined
        | Some (u, p) \<Rightarrow>
            (case mem of
               None \<Rightarrow> Inr (h\<lparr>pus := (pus h)[u := p\<lparr>loops := None\<rparr>]\<rparr>, g)
             | Some fresh \<Rightarrow>
                 Inr (h\<lparr>pus := (pus h)[u := p\<lparr>loops := Some (grow_points fresh (total_points h self) (num_loops p) n (loops p)),
                                            num_loops := num_loops p + n\<rparr>],
                        total_points := (total_points h)(self := total_points h self + n)\<rparr>, g))))"

definition profile_call_init ::
  "(nat \<Rightarrow> int) option \<Rightarrow> nat \<Rightarrow> nat option \<Rightarrow> int \<Rightarrow> pathst \<times> pglob \<Rightarrow> hook_end + (pathst \<times> pglob)" where
  "profile_call_init mem self pu n = (\<lambda>(h, g).
    if \<not> gate_open PATHSCALE_FUNCS h then Inr (h, g)
    else case thread_data g self of
      None \<Rightarrow> Inl (PapiexEnds ThreadDataNull)
    | Some i \<Rightarrow>
        if total_points h self + n > max_caliper_entries (thread_heap g ! i) then Inr (h, g)
        else (case unit_at h pu of
          None \<Rightarrow> Inl HookUndefined
        | Some (u, p) \<Rightarrow>
            (case mem of
               None \<Rightarrow> Inr (h\<lparr>pus := (pus h)[u := p\<lparr>calls := None\<rparr>]\<rparr>, g)
             | Some fresh \<Rightarrow>
                 Inr (h\<lparr>pus := (pus h)[u := p\<lparr>calls := Some (grow_points fresh (total_points h self) (num_calls p) n (calls p)),
                                            num_calls := num_calls p + n\<rparr>],
                        total_points := (total_points h)(self := total_points h self + n)\<rparr>, g))))"

section \<open>Loops and calls\<close>

text \<open>The array element, undefined through a null pointer or before the array.\<close>

definition element :: "int list option \<Rightarrow> int \<Rightarrow> int option" where
  "element ps k = (case ps of None \<Rightarrow> None | Some xs \<Rightarrow> if 0 \<le> k \<and> nat k < length xs then Some (xs ! nat k) else None)"

definition set_element :: "int list option \<Rightarrow> int \<Rightarrow> int \<Rightarrow> int list option" where
  "set_element ps k v = map_option (\<lambda>xs. xs[nat k := v]) ps"

definition point_label :: "string \<Rightarrow> int \<Rightarrow> 64 word \<Rightarrow> string" where
  "point_label kind k pc = kind @ dec_int k @ '':'' @ ptr_string pc"

definition profile_loop ::
  "nat \<Rightarrow> reading \<Rightarrow> 64 word \<Rightarrow> nat option \<Rightarrow> int \<Rightarrow> pathst \<times> pglob \<Rightarrow> hook_end + (pathst \<times> pglob)" where
  "profile_loop self r pc pu k = (\<lambda>(h, g).
    if \<not> gate_open PATHSCALE_LOOPS h then Inr (h, g)
    else case unit_at h pu of None \<Rightarrow> Inl HookUndefined
    | Some (u, p) \<Rightarrow>
        if k \<ge> num_loops p then Inr (h, g)
        else case element (loops p) k of
          None \<Rightarrow> Inl HookUndefined
        | Some x \<Rightarrow>
            if x < 0
            then rbind (ends (papiex_start self r (- x) (Some (point_label ''L'' k pc)) g))
              (\<lambda>g'. Inr (h\<lparr>pus := (pus h)[u := p\<lparr>loops := set_element (loops p) k (- x)\<rparr>]\<rparr>, g'))
            else rbind (ends (papiex_start self r x None g)) (\<lambda>g'. Inr (h, g')))"

definition profile_loop_iter ::
  "nat \<Rightarrow> reading \<Rightarrow> nat option \<Rightarrow> int \<Rightarrow> pathst \<times> pglob \<Rightarrow> hook_end + (pathst \<times> pglob)" where
  "profile_loop_iter self r pu k = (\<lambda>(h, g).
    if \<not> gate_open PATHSCALE_LOOPS h then Inr (h, g)
    else case unit_at h pu of None \<Rightarrow> Inl HookUndefined
    | Some (u, p) \<Rightarrow>
        if k \<ge> num_loops p then Inr (h, g)
        else case element (loops p) k of
          None \<Rightarrow> Inl HookUndefined
        | Some x \<Rightarrow> rbind (ends (papiex_accum self r x g)) (\<lambda>g'. Inr (h, g')))"

definition profile_call_entry ::
  "nat \<Rightarrow> reading \<Rightarrow> 64 word \<Rightarrow> nat option \<Rightarrow> int \<Rightarrow> pathst \<times> pglob \<Rightarrow> hook_end + (pathst \<times> pglob)" where
  "profile_call_entry self r pc pu k = (\<lambda>(h, g).
    if \<not> gate_open PATHSCALE_FUNCS h then Inr (h, g)
    else case unit_at h pu of None \<Rightarrow> Inl HookUndefined
    | Some (u, p) \<Rightarrow>
        if k \<ge> num_calls p then Inr (h, g)
        else case element (calls p) k of
          None \<Rightarrow> Inl HookUndefined
        | Some x \<Rightarrow>
            if x < 0
            then rbind (ends (papiex_start self r (- x) (Some (point_label ''C'' k pc)) g))
              (\<lambda>g'. Inr (h\<lparr>pus := (pus h)[u := p\<lparr>calls := set_element (calls p) k (- x)\<rparr>]\<rparr>, g'))
            else rbind (ends (papiex_start self r x None g)) (\<lambda>g'. Inr (h, g')))"

definition profile_call_exit ::
  "nat \<Rightarrow> reading \<Rightarrow> nat option \<Rightarrow> int \<Rightarrow> pathst \<times> pglob \<Rightarrow> hook_end + (pathst \<times> pglob)" where
  "profile_call_exit self r pu k = (\<lambda>(h, g).
    if \<not> gate_open PATHSCALE_FUNCS h then Inr (h, g)
    else case unit_at h pu of None \<Rightarrow> Inl HookUndefined
    | Some (u, p) \<Rightarrow>
        if k \<ge> num_calls p then Inr (h, g)
        else case element (calls p) k of
          None \<Rightarrow> Inl HookUndefined
        | Some x \<Rightarrow> rbind (ends (papiex_stop self r x g)) (\<lambda>g'. Inr (h, g')))"

section \<open>Sequences of calls of one thread\<close>

datatype path_call =
    PuInit bool "string option" "string option" int int int
  | LoopInit "(nat \<Rightarrow> int) option" nat int
  | CallInit "(nat \<Rightarrow> int) option" nat int
  | Loop reading "64 word" nat int
  | LoopIter reading nat int
  | CallEntry reading "64 word" nat int
  | CallExit reading nat int

fun run_path :: "nat \<Rightarrow> path_call \<Rightarrow> pathst \<times> pglob \<Rightarrow> hook_end + (pathst \<times> pglob)" where
  "run_path self (PuInit ok f n pc s c) (h, g) = Inr (snd (profile_pu_init ok f n pc s c h), g)"
| "run_path self (LoopInit mem u n) s = profile_loop_init mem self (Some u) n s"
| "run_path self (CallInit mem u n) s = profile_call_init mem self (Some u) n s"
| "run_path self (Loop r pc u k) s = profile_loop self r pc (Some u) k s"
| "run_path self (LoopIter r u k) s = profile_loop_iter self r (Some u) k s"
| "run_path self (CallEntry r pc u k) s = profile_call_entry self r pc (Some u) k s"
| "run_path self (CallExit r u k) s = profile_call_exit self r (Some u) k s"

fun run_paths :: "nat \<Rightarrow> path_call list \<Rightarrow> pathst \<times> pglob \<Rightarrow> hook_end + (pathst \<times> pglob)" where
  "run_paths self [] s = Inr s"
| "run_paths self (c # cs) s = rbind (run_path self c s) (run_paths self cs)"

end
