(* ===== verification/PathFacts.thy ===== *)
theory PathFacts
  imports PathHooks GccFacts
begin

text \<open>
  Facts and properties of the pathscale hooks: every loop and call has a caliper point of
  its own, and what happens when a loop is entered a second time.
\<close>

section \<open>Places and their points\<close>

datatype place = LoopAt nat nat | CallAt nat nat

fun point_of :: "pathst \<Rightarrow> place \<Rightarrow> int option" where
  "point_of h (LoopAt u k) = (if u < length (pus h) then element (loops (pus h ! u)) (int k) else None)"
| "point_of h (CallAt u k) = (if u < length (pus h) then element (calls (pus h ! u)) (int k) else None)"

fun init_keys :: "path_call list \<Rightarrow> (bool \<times> nat) list" where
  "init_keys [] = []"
| "init_keys (LoopInit mem u n # cs) = (True, u) # init_keys cs"
| "init_keys (CallInit mem u n # cs) = (False, u) # init_keys cs"
| "init_keys (c # cs) = init_keys cs"

fun count_ok :: "path_call \<Rightarrow> bool" where
  "count_ok (LoopInit mem u n) = (0 \<le> n)"
| "count_ok (CallInit mem u n) = (0 \<le> n)"
| "count_ok c = True"

text \<open>The points so far are below the thread's total and differ.\<close>

definition distinct_points :: "int \<Rightarrow> pathst \<Rightarrow> bool" where
  "distinct_points bound h \<longleftrightarrow> 1 \<le> bound \<and>
     (\<forall>a x. point_of h a = Some x \<longrightarrow> 1 \<le> \<bar>x\<bar> \<and> \<bar>x\<bar> < bound) \<and>
     (\<forall>a b x y. point_of h a = Some x \<and> point_of h b = Some y \<and> \<bar>x\<bar> = \<bar>y\<bar> \<longrightarrow> a = b)"

text \<open>A unit whose loops or calls were not initialised has none.\<close>

definition unit_ok :: "(bool \<times> nat) set \<Rightarrow> nat \<Rightarrow> pathscale_pu \<Rightarrow> bool" where
  "unit_ok seen u p \<longleftrightarrow>
     ((True, u) \<notin> seen \<longrightarrow> loops p = None \<and> num_loops p = 0) \<and>
     ((False, u) \<notin> seen \<longrightarrow> calls p = None \<and> num_calls p = 0) \<and>
     (\<forall>xs. loops p = Some xs \<longrightarrow> int (length xs) = num_loops p) \<and>
     (\<forall>xs. calls p = Some xs \<longrightarrow> int (length xs) = num_calls p)"

definition units_ok :: "(bool \<times> nat) set \<Rightarrow> pathst \<Rightarrow> bool" where
  "units_ok seen h \<longleftrightarrow> (\<forall>u<length (pus h). unit_ok seen u (pus h ! u))"

lemma unit_ok_mono: "unit_ok seen u p \<Longrightarrow> seen \<subseteq> seen' \<Longrightarrow> unit_ok seen' u p"
  by (auto simp: unit_ok_def)

text \<open>New points continue the count, the others keep their size.\<close>

lemma distinct_points_grow:
  assumes "distinct_points start h" "0 \<le> n" "inj mk"
    and "\<And>a y. point_of h' a = Some y \<Longrightarrow> (\<exists>x. point_of h a = Some x \<and> \<bar>x\<bar> = \<bar>y\<bar>) \<or>
      (\<exists>i. a = mk i \<and> \<bar>y\<bar> = start + int i \<and> int i < n)"
  shows "distinct_points (start + n) h'"
proof -
  have old: "1 \<le> \<bar>x\<bar> \<and> \<bar>x\<bar> < start" if "point_of h a = Some x" for a x
    using assms(1) that by (simp add: distinct_points_def)
  have inj: "a = b" if "point_of h a = Some x" "point_of h b = Some y" "\<bar>x\<bar> = \<bar>y\<bar>" for a b x y
    using assms(1) that unfolding distinct_points_def by blast
  have "1 \<le> \<bar>y\<bar> \<and> \<bar>y\<bar> < start + n" if "point_of h' a = Some y" for a y
    using assms(4) [OF that] old assms(1,2) by (force simp: distinct_points_def)
  moreover have "a = b" if y: "point_of h' a = Some y" and z: "point_of h' b = Some z" and e: "\<bar>y\<bar> = \<bar>z\<bar>" for a b y z
    using assms(4) [OF y]
  proof (elim disjE exE conjE)
    fix x assume x: "point_of h a = Some x" "\<bar>x\<bar> = \<bar>y\<bar>"
    show "a = b" using assms(4) [OF z] inj [OF x(1)] old [OF x(1)] x(2) e by auto
  next
    fix i assume i: "a = mk i" "\<bar>y\<bar> = start + int i"
    show "a = b" using assms(4) [OF z] old [of b] i e by auto
  qed
  ultimately show ?thesis using assms(1,2) by (auto simp: distinct_points_def)
qed

lemma distinct_points_same:
  assumes "distinct_points start h" "\<And>a y. point_of h' a = Some y \<Longrightarrow> \<exists>x. point_of h a = Some x \<and> \<bar>x\<bar> = \<bar>y\<bar>"
  shows "distinct_points start h'"
  using distinct_points_grow [OF assms(1), of 0 "LoopAt 0" h'] assms(2) by (simp add: inj_def)

lemma grow_points_first:
  "0 \<le> n \<Longrightarrow> grow_points fresh start 0 n None = map (\<lambda>i. - (start + int i)) [0..<nat n]"
  by (simp add: grow_points_def)

lemma element_simps [simp]:
  "element None k = None"
  "element (Some xs) (int j) = (if j < length xs then Some (xs ! j) else None)"
  by (simp_all add: element_def)


text \<open>The points after a write to one unit.\<close>

lemma point_of_write:
  assumes "u < length (pus h)" "pus h' = (pus h)[u := p]"
  shows "point_of h' (LoopAt v k) = (if v = u then element (loops p) (int k) else point_of h (LoopAt v k))"
    and "point_of h' (CallAt v k) = (if v = u then element (calls p) (int k) else point_of h (CallAt v k))"
  using assms by (auto simp: nth_list_update)

lemma units_ok_write:
  assumes "units_ok seen h" "pus h' = (pus h)[u := p]" "seen \<subseteq> seen'" "unit_ok seen' u p"
  shows "units_ok seen' h'"
  unfolding units_ok_def
proof (intro allI impI)
  fix v assume v: "v < length (pus h')"
  then have "unit_ok seen v (pus h ! v)" using assms(1,2) by (simp add: units_ok_def)
  then show "unit_ok seen' v (pus h' ! v)"
    using assms(2,4) v unit_ok_mono [OF _ assms(3)] by (cases "v = u") simp_all
qed

text \<open>What a call does to the points: the thread's total, the units, and papiex's state.\<close>

definition path_inv :: "nat \<Rightarrow> (bool \<times> nat) set \<Rightarrow> pathst \<Rightarrow> bool" where
  "path_inv self seen h \<longleftrightarrow> distinct_points (total_points h self) h \<and> units_ok seen h"

lemma path_inv_write:
  assumes "path_inv self seen h" "u < length (pus h)" "pus h' = (pus h)[u := p]"
    and "total_points h' self = total_points h self" "seen \<subseteq> seen'" "unit_ok seen' u p"
    and "\<And>k y. element (loops p) (int k) = Some y \<Longrightarrow> \<exists>x. element (loops (pus h ! u)) (int k) = Some x \<and> \<bar>x\<bar> = \<bar>y\<bar>"
    and "\<And>k y. element (calls p) (int k) = Some y \<Longrightarrow> \<exists>x. element (calls (pus h ! u)) (int k) = Some x \<and> \<bar>x\<bar> = \<bar>y\<bar>"
  shows "path_inv self seen' h'"
proof -
  have "distinct_points (total_points h self) h'"
  proof (rule distinct_points_same)
    show "distinct_points (total_points h self) h" using assms(1) by (simp add: path_inv_def)
    show "\<exists>x. point_of h a = Some x \<and> \<bar>x\<bar> = \<bar>y\<bar>" if "point_of h' a = Some y" for a y
      using that assms(2,7,8) point_of_write [OF assms(2,3)] by (cases a) (auto split: if_splits)
  qed
  moreover have "units_ok seen' h'"
    by (rule units_ok_write [OF _ assms(3,5,6)]) (use assms(1) in \<open>simp add: path_inv_def\<close>)
  ultimately show ?thesis using assms(4) by (simp add: path_inv_def)
qed

text \<open>A first init of the loops or the calls of a unit: place names where the new points are.\<close>

lemma path_inv_init:
  assumes "path_inv self seen h" "u < length (pus h)" "pus h' = (pus h)[u := p]" "0 \<le> n"
    and "total_points h' self = total_points h self + n" "seen \<subseteq> seen'" "unit_ok seen' u p" "inj place"
    and "\<And>a y. point_of h' a = Some y \<Longrightarrow> point_of h a \<noteq> Some y \<Longrightarrow>
      \<exists>i. a = place i \<and> y = - (total_points h self + int i) \<and> int i < n"
  shows "path_inv self seen' h'"
proof -
  have d: "distinct_points (total_points h self) h" using assms(1) by (simp add: path_inv_def)
  then have t: "1 \<le> total_points h self" by (simp add: distinct_points_def)
  have "distinct_points (total_points h self + n) h'"
  proof (rule distinct_points_grow [OF d assms(4,8)])
    show "(\<exists>x. point_of h a = Some x \<and> \<bar>x\<bar> = \<bar>y\<bar>) \<or>
        (\<exists>i. a = place i \<and> \<bar>y\<bar> = total_points h self + int i \<and> int i < n)" if "point_of h' a = Some y" for a y
    proof (cases "point_of h a = Some y")
      case False
      then show ?thesis using assms(9) [OF that] t by auto
    qed auto
  qed
  moreover have "units_ok seen' h'"
    by (rule units_ok_write [OF _ assms(3,6,7)]) (use assms(1) in \<open>simp add: path_inv_def\<close>)
  ultimately show ?thesis using assms(5) by (simp add: path_inv_def)
qed

lemma path_inv_mono: "path_inv self seen h \<Longrightarrow> seen \<subseteq> seen' \<Longrightarrow> path_inv self seen' h"
  using unit_ok_mono by (auto simp: path_inv_def units_ok_def)

lemma path_inv_unit: "path_inv self seen h \<Longrightarrow> u < length (pus h) \<Longrightarrow> unit_ok seen u (pus h ! u)"
  by (simp add: path_inv_def units_ok_def)

lemma loop_init_cases:
  assumes "profile_loop_init mem self (Some u) n (h, g) = Inr (h', g')"
  shows "g' = g \<and> (h' = h \<or> u < length (pus h) \<and>
    (h' = h\<lparr>pus := (pus h)[u := (pus h ! u)\<lparr>loops := None\<rparr>]\<rparr> \<or>
     (\<exists>fresh. h' = h\<lparr>pus := (pus h)[u := (pus h ! u)\<lparr>loops := Some (grow_points fresh
          (total_points h self) (num_loops (pus h ! u)) n (loops (pus h ! u))), num_loops := num_loops (pus h ! u) + n\<rparr>],
        total_points := (total_points h)(self := total_points h self + n)\<rparr>)))"
  using assms by (auto simp: profile_loop_init_def unit_at_def split: if_splits option.splits)

lemma call_init_cases:
  assumes "profile_call_init mem self (Some u) n (h, g) = Inr (h', g')"
  shows "g' = g \<and> (h' = h \<or> u < length (pus h) \<and>
    (h' = h\<lparr>pus := (pus h)[u := (pus h ! u)\<lparr>calls := None\<rparr>]\<rparr> \<or>
     (\<exists>fresh. h' = h\<lparr>pus := (pus h)[u := (pus h ! u)\<lparr>calls := Some (grow_points fresh
          (total_points h self) (num_calls (pus h ! u)) n (calls (pus h ! u))), num_calls := num_calls (pus h ! u) + n\<rparr>],
        total_points := (total_points h)(self := total_points h self + n)\<rparr>)))"
  using assms by (auto simp: profile_call_init_def unit_at_def split: if_splits option.splits)

lemma loop_init_inv:
  assumes "profile_loop_init mem self (Some u) n (h, g) = Inr (h', g')" "path_inv self seen h"
    and "(True, u) \<notin> seen" "0 \<le> n"
  shows "path_inv self (insert (True, u) seen) h'"
proof -
  let ?p = "pus h ! u" and ?seen = "insert (True, u) seen"
  consider "h' = h" | "u < length (pus h)" "h' = h\<lparr>pus := (pus h)[u := ?p\<lparr>loops := None\<rparr>]\<rparr>"
    | fresh where "u < length (pus h)" "h' = h\<lparr>pus := (pus h)[u := ?p\<lparr>loops := Some (grow_points fresh
          (total_points h self) (num_loops ?p) n (loops ?p)), num_loops := num_loops ?p + n\<rparr>],
        total_points := (total_points h)(self := total_points h self + n)\<rparr>"
    using loop_init_cases [OF assms(1)] by blast
  then show ?thesis
  proof cases
    case 1
    then show ?thesis using path_inv_mono [OF assms(2)] by auto
  next
    case 2
    have "unit_ok ?seen u (?p\<lparr>loops := None\<rparr>)" using path_inv_unit [OF assms(2) 2(1)] by (simp add: unit_ok_def)
    then show ?thesis by (intro path_inv_write [OF assms(2) 2(1), of h']) (use 2(2) in auto)
  next
    case 3
    note ok = path_inv_unit [OF assms(2) 3(1)]
    then have u: "loops ?p = None" "num_loops ?p = 0" using assms(3) by (auto simp: unit_ok_def)
    let ?new = "map (\<lambda>i. - (total_points h self + int i)) [0..<nat n]"
    have p: "pus h' = (pus h)[u := ?p\<lparr>loops := Some ?new, num_loops := n\<rparr>]"
      using 3(2) u assms(4) by (simp add: grow_points_first)
    have "unit_ok ?seen u (?p\<lparr>loops := Some ?new, num_loops := n\<rparr>)" using ok assms(4) by (auto simp: unit_ok_def)
    moreover have "\<exists>i. a = LoopAt u i \<and> y = - (total_points h self + int i) \<and> int i < n"
      if "point_of h' a = Some y" "point_of h a \<noteq> Some y" for a y
      using that 3(1) point_of_write [OF 3(1) p] by (cases a) (auto split: if_splits)
    moreover have "inj (LoopAt u)" by (simp add: inj_def)
    ultimately show ?thesis
      using path_inv_init [OF assms(2) 3(1) p assms(4), of ?seen "LoopAt u"] 3(2) by auto
  qed
qed

lemma call_init_inv:
  assumes "profile_call_init mem self (Some u) n (h, g) = Inr (h', g')" "path_inv self seen h"
    and "(False, u) \<notin> seen" "0 \<le> n"
  shows "path_inv self (insert (False, u) seen) h'"
proof -
  let ?p = "pus h ! u" and ?seen = "insert (False, u) seen"
  consider "h' = h" | "u < length (pus h)" "h' = h\<lparr>pus := (pus h)[u := ?p\<lparr>calls := None\<rparr>]\<rparr>"
    | fresh where "u < length (pus h)" "h' = h\<lparr>pus := (pus h)[u := ?p\<lparr>calls := Some (grow_points fresh
          (total_points h self) (num_calls ?p) n (calls ?p)), num_calls := num_calls ?p + n\<rparr>],
        total_points := (total_points h)(self := total_points h self + n)\<rparr>"
    using call_init_cases [OF assms(1)] by blast
  then show ?thesis
  proof cases
    case 1
    then show ?thesis using path_inv_mono [OF assms(2)] by auto
  next
    case 2
    have "unit_ok ?seen u (?p\<lparr>calls := None\<rparr>)" using path_inv_unit [OF assms(2) 2(1)] by (simp add: unit_ok_def)
    then show ?thesis by (intro path_inv_write [OF assms(2) 2(1), of h']) (use 2(2) in auto)
  next
    case 3
    note ok = path_inv_unit [OF assms(2) 3(1)]
    then have u: "calls ?p = None" "num_calls ?p = 0" using assms(3) by (auto simp: unit_ok_def)
    let ?new = "map (\<lambda>i. - (total_points h self + int i)) [0..<nat n]"
    have p: "pus h' = (pus h)[u := ?p\<lparr>calls := Some ?new, num_calls := n\<rparr>]"
      using 3(2) u assms(4) by (simp add: grow_points_first)
    have "unit_ok ?seen u (?p\<lparr>calls := Some ?new, num_calls := n\<rparr>)" using ok assms(4) by (auto simp: unit_ok_def)
    moreover have "\<exists>i. a = CallAt u i \<and> y = - (total_points h self + int i) \<and> int i < n"
      if "point_of h' a = Some y" "point_of h a \<noteq> Some y" for a y
      using that 3(1) point_of_write [OF 3(1) p] by (cases a) (auto split: if_splits)
    moreover have "inj (CallAt u)" by (simp add: inj_def)
    ultimately show ?thesis
      using path_inv_init [OF assms(2) 3(1) p assms(4), of ?seen "CallAt u"] 3(2) by auto
  qed
qed

lemma pu_init_inv:
  assumes "path_inv self seen h"
  shows "path_inv self seen (snd (profile_pu_init ok f nm pc sz cs h))"
proof -
  let ?h = "snd (profile_pu_init ok f nm pc sz cs h)"
  have "point_of ?h a = point_of h a" for a
    by (cases a) (auto simp: profile_pu_init_def nth_append)
  moreover have "total_points ?h = total_points h" by (simp add: profile_pu_init_def)
  moreover have "units_ok seen ?h"
    using assms by (auto simp: path_inv_def units_ok_def unit_ok_def profile_pu_init_def nth_append)
  ultimately show ?thesis using assms by (simp add: path_inv_def distinct_points_def)
qed

lemma element_set_element:
  assumes "element ps k = Some x" "x < 0" "element (set_element ps k (- x)) (int j) = Some y"
  shows "\<exists>z. element ps (int j) = Some z \<and> \<bar>z\<bar> = \<bar>y\<bar>"
  using assms by (auto simp: element_def set_element_def nth_list_update split: option.splits if_splits)

text \<open>A loop or call that is entered: its point turns positive.\<close>

lemma turn_loop_inv:
  assumes "path_inv self seen h" "u < length (pus h)" "element (loops (pus h ! u)) k = Some x" "x < 0"
    and "h' = h\<lparr>pus := (pus h)[u := (pus h ! u)\<lparr>loops := set_element (loops (pus h ! u)) k (- x)\<rparr>]\<rparr>"
  shows "path_inv self seen h'"
proof -
  have p: "pus h' = (pus h)[u := (pus h ! u)\<lparr>loops := set_element (loops (pus h ! u)) k (- x)\<rparr>]"
    using assms(5) by simp
  have "unit_ok seen u ((pus h ! u)\<lparr>loops := set_element (loops (pus h ! u)) k (- x)\<rparr>)"
    using path_inv_unit [OF assms(1,2)] by (auto simp: unit_ok_def set_element_def)
  then show ?thesis
    by (intro path_inv_write [OF assms(1,2) p]) (use assms(5) element_set_element [OF assms(3,4)] in auto)
qed

lemma turn_call_inv:
  assumes "path_inv self seen h" "u < length (pus h)" "element (calls (pus h ! u)) k = Some x" "x < 0"
    and "h' = h\<lparr>pus := (pus h)[u := (pus h ! u)\<lparr>calls := set_element (calls (pus h ! u)) k (- x)\<rparr>]\<rparr>"
  shows "path_inv self seen h'"
proof -
  have p: "pus h' = (pus h)[u := (pus h ! u)\<lparr>calls := set_element (calls (pus h ! u)) k (- x)\<rparr>]"
    using assms(5) by simp
  have "unit_ok seen u ((pus h ! u)\<lparr>calls := set_element (calls (pus h ! u)) k (- x)\<rparr>)"
    using path_inv_unit [OF assms(1,2)] by (auto simp: unit_ok_def set_element_def)
  then show ?thesis
    by (intro path_inv_write [OF assms(1,2) p]) (use assms(5) element_set_element [OF assms(3,4)] in auto)
qed

section \<open>The calls on calipers\<close>

text \<open>The operation of a call, on the point its loop or function has then.\<close>

fun path_op :: "pathst \<Rightarrow> path_call \<Rightarrow> cal_op \<Rightarrow> bool" where
  "path_op h (Loop r pc u k) (OpStart x l r') = (r' = r \<and> 0 \<le> k \<and> point_of h (LoopAt u (nat k)) = Some x)"
| "path_op h (LoopIter r u k) (OpAccum x r') = (r' = r \<and> 0 \<le> k \<and> point_of h (LoopAt u (nat k)) = Some x)"
| "path_op h (CallEntry r pc u k) (OpStart x l r') = (r' = r \<and> 0 \<le> k \<and> point_of h (CallAt u (nat k)) = Some x)"
| "path_op h (CallExit r u k) (OpStop x r') = (r' = r \<and> 0 \<le> k \<and> point_of h (CallAt u (nat k)) = Some x)"
| "path_op h c op = False"

definition thread_ok :: "nat \<Rightarrow> nat \<Rightarrow> pglob \<Rightarrow> bool" where
  "thread_ok self i g \<longleftrightarrow> thread_data g self = Some i \<and> i < length (thread_heap g) \<and> eventcnt g \<noteq> 0 \<and>
     cal_size_ok (thread_heap g ! i)"

definition caliper_step :: "nat \<Rightarrow> (cal_op \<Rightarrow> bool) \<Rightarrow> pglob \<Rightarrow> pglob \<Rightarrow> bool" where
  "caliper_step i P g g' \<longleftrightarrow> g' = g \<or> (\<exists>op t'. P op \<and> run_op g op (thread_heap g ! i) = Inr t' \<and>
     g' = g\<lparr>thread_heap := (thread_heap g)[i := t']\<rparr>)"

lemma caliper_step_ok:
  assumes "caliper_step i P g g'" "thread_ok self i g"
  shows "thread_ok self i g'"
  using assms size_ok_step by (auto simp: caliper_step_def thread_ok_def)

lemma with_thread_step:
  assumes "with_thread self (run_op g op) g = Inr g'" "thread_ok self i g" "P op"
  shows "caliper_step i P g g'"
  using assms by (auto simp: with_thread_def thread_ok_def caliper_step_def)

lemma papiex_calls:
  "papiex_start self r x l g = with_thread self (run_op g (OpStart x l r)) g"
  "papiex_stop self r x g = with_thread self (run_op g (OpStop x r)) g"
  "papiex_accum self r x g = with_thread self (run_op g (OpAccum x r)) g"
proof -
  have "run_op g (OpStart x l r) = cal_start g r x l" "run_op g (OpStop x r) = cal_stop g r x"
    "run_op g (OpAccum x r) = cal_accum g r x" by (intro ext, simp)+
  then show "papiex_start self r x l g = with_thread self (run_op g (OpStart x l r)) g"
    "papiex_stop self r x g = with_thread self (run_op g (OpStop x r)) g"
    "papiex_accum self r x g = with_thread self (run_op g (OpAccum x r)) g"
    by (simp_all add: papiex_start_def papiex_stop_def papiex_accum_def)
qed

lemma call_step:
  assumes "thread_ok self i g"
  shows "papiex_start self r x l g = Inr g' \<Longrightarrow> P (OpStart x l r) \<Longrightarrow> caliper_step i P g g'"
    and "papiex_stop self r x g = Inr g' \<Longrightarrow> P (OpStop x r) \<Longrightarrow> caliper_step i P g g'"
    and "papiex_accum self r x g = Inr g' \<Longrightarrow> P (OpAccum x r) \<Longrightarrow> caliper_step i P g g'"
  unfolding papiex_calls by (rule with_thread_step [OF _ assms]; assumption)+

lemma element_at:
  assumes "element ps k = Some x"
  shows "0 \<le> k" "element ps (int (nat k)) = Some x"
  using assms by (auto simp: element_def split: option.splits if_splits)

text \<open>Entering: what the entry of a loop or call does to the points.\<close>

lemma loop_cases:
  assumes "profile_loop self r pc (Some u) k (h, g) = Inr (h', g')"
  shows "h' = h \<and> g' = g \<or> u < length (pus h) \<and> (\<exists>x. element (loops (pus h ! u)) k = Some x \<and>
    (\<not> x < 0 \<and> h' = h \<and> papiex_start self r x None g = Inr g' \<or>
     x < 0 \<and> papiex_start self r (- x) (Some (point_label ''L'' k pc)) g = Inr g' \<and>
      h' = h\<lparr>pus := (pus h)[u := (pus h ! u)\<lparr>loops := set_element (loops (pus h ! u)) k (- x)\<rparr>]\<rparr>))"
  using assms by (auto simp: profile_loop_def unit_at_def split: if_splits option.splits)

lemma turned: "element ps k = Some x \<Longrightarrow> element (set_element ps k (- x)) (int (nat k)) = Some (- x)"
  by (auto simp: element_def set_element_def split: option.splits if_splits)

lemma loop_step:
  assumes "profile_loop self r pc (Some u) k (h, g) = Inr (h', g')" "path_inv self seen h" "thread_ok self i g"
  shows "path_inv self seen h' \<and> caliper_step i (path_op h' (Loop r pc u k)) g g'"
  using loop_cases [OF assms(1)]
proof (elim disjE conjE exE)
  assume "h' = h" "g' = g"
  then show ?thesis using assms(2) by (simp add: caliper_step_def)
next
  fix x assume x: "u < length (pus h)" "element (loops (pus h ! u)) k = Some x" "h' = h" "papiex_start self r x None g = Inr g'"
  then show ?thesis using call_step(1) [OF assms(3) x(4)] element_at [OF x(2)] assms(2) by simp
next
  fix x assume x: "u < length (pus h)" "element (loops (pus h ! u)) k = Some x" "x < 0"
    "papiex_start self r (- x) (Some (point_label ''L'' k pc)) g = Inr g'"
    "h' = h\<lparr>pus := (pus h)[u := (pus h ! u)\<lparr>loops := set_element (loops (pus h ! u)) k (- x)\<rparr>]\<rparr>"
  then have "path_op h' (Loop r pc u k) (OpStart (- x) (Some (point_label ''L'' k pc)) r)"
    using element_at [OF x(2)] turned [OF x(2)] by simp
  then show ?thesis using call_step(1) [OF assms(3) x(4)] turn_loop_inv [OF assms(2) x(1-3,5)] by blast
qed

lemma call_cases:
  assumes "profile_call_entry self r pc (Some u) k (h, g) = Inr (h', g')"
  shows "h' = h \<and> g' = g \<or> u < length (pus h) \<and> (\<exists>x. element (calls (pus h ! u)) k = Some x \<and>
    (\<not> x < 0 \<and> h' = h \<and> papiex_start self r x None g = Inr g' \<or>
     x < 0 \<and> papiex_start self r (- x) (Some (point_label ''C'' k pc)) g = Inr g' \<and>
      h' = h\<lparr>pus := (pus h)[u := (pus h ! u)\<lparr>calls := set_element (calls (pus h ! u)) k (- x)\<rparr>]\<rparr>))"
  using assms by (auto simp: profile_call_entry_def unit_at_def split: if_splits option.splits)

lemma call_entry_step:
  assumes "profile_call_entry self r pc (Some u) k (h, g) = Inr (h', g')" "path_inv self seen h" "thread_ok self i g"
  shows "path_inv self seen h' \<and> caliper_step i (path_op h' (CallEntry r pc u k)) g g'"
  using call_cases [OF assms(1)]
proof (elim disjE conjE exE)
  assume "h' = h" "g' = g"
  then show ?thesis using assms(2) by (simp add: caliper_step_def)
next
  fix x assume x: "u < length (pus h)" "element (calls (pus h ! u)) k = Some x" "h' = h" "papiex_start self r x None g = Inr g'"
  then show ?thesis using call_step(1) [OF assms(3) x(4)] element_at [OF x(2)] assms(2) by simp
next
  fix x assume x: "u < length (pus h)" "element (calls (pus h ! u)) k = Some x" "x < 0"
    "papiex_start self r (- x) (Some (point_label ''C'' k pc)) g = Inr g'"
    "h' = h\<lparr>pus := (pus h)[u := (pus h ! u)\<lparr>calls := set_element (calls (pus h ! u)) k (- x)\<rparr>]\<rparr>"
  then have "path_op h' (CallEntry r pc u k) (OpStart (- x) (Some (point_label ''C'' k pc)) r)"
    using element_at [OF x(2)] turned [OF x(2)] by simp
  then show ?thesis using call_step(1) [OF assms(3) x(4)] turn_call_inv [OF assms(2) x(1-3,5)] by blast
qed


lemma path_step:
  assumes "run_path self c (h, g) = Inr (h', g')" "path_inv self seen h" "thread_ok self i g"
    and "set (init_keys [c]) \<inter> seen = {}" "count_ok c"
  shows "path_inv self (seen \<union> set (init_keys [c])) h' \<and> caliper_step i (path_op h' c) g g'"
proof (cases c)
  case (LoopInit mem u n)
  then show ?thesis using loop_init_inv [of mem self u n h g h' g' seen] loop_init_cases [of mem self u n h g h' g'] assms
    by (auto simp: caliper_step_def)
next
  case (CallInit mem u n)
  then show ?thesis using call_init_inv [of mem self u n h g h' g' seen] call_init_cases [of mem self u n h g h' g'] assms
    by (auto simp: caliper_step_def)
next
  case (LoopIter r u k)
  then have h: "h' = h" and d: "g' = g \<or> (\<exists>x. u < length (pus h) \<and> element (loops (pus h ! u)) k = Some x \<and>
      papiex_accum self r x g = Inr g')"
    using assms(1) by (auto simp: profile_loop_iter_def unit_at_def split: if_splits option.splits)
  from d have "caliper_step i (path_op h' c) g g'"
  proof (elim disjE exE conjE)
    fix x assume x: "u < length (pus h)" "element (loops (pus h ! u)) k = Some x" "papiex_accum self r x g = Inr g'"
    show ?thesis using LoopIter x(1) h element_at [OF x(2)] by (intro call_step(3) [OF assms(3) x(3)]) simp
  qed (simp add: caliper_step_def)
  then show ?thesis using LoopIter h assms(2) by simp
next
  case (CallExit r u k)
  then have h: "h' = h" and d: "g' = g \<or> (\<exists>x. u < length (pus h) \<and> element (calls (pus h ! u)) k = Some x \<and>
      papiex_stop self r x g = Inr g')"
    using assms(1) by (auto simp: profile_call_exit_def unit_at_def split: if_splits option.splits)
  from d have "caliper_step i (path_op h' c) g g'"
  proof (elim disjE exE conjE)
    fix x assume x: "u < length (pus h)" "element (calls (pus h ! u)) k = Some x" "papiex_stop self r x g = Inr g'"
    show ?thesis using CallExit x(1) h element_at [OF x(2)] by (intro call_step(2) [OF assms(3) x(3)]) simp
  qed (simp add: caliper_step_def)
  then show ?thesis using CallExit h assms(2) by simp
next
  case (PuInit ok f n pc s cs)
  then show ?thesis using pu_init_inv [OF assms(2), of ok f n pc s cs] assms(1) by (simp add: caliper_step_def)
next
  case (Loop r pc u k)
  then show ?thesis using loop_step [of self r pc u k h g h' g'] assms by simp
next
  case (CallEntry r pc u k)
  then show ?thesis using call_entry_step [of self r pc u k h g h' g'] assms by simp
qed

section \<open>Runs\<close>

lemma init_keys_Cons: "init_keys (c # cs) = init_keys [c] @ init_keys cs"
  by (cases c) simp_all

lemma run_paths_append: "run_paths self (xs @ ys) s = rbind (run_paths self xs s) (run_paths self ys)"
proof (induction xs arbitrary: s)
  case (Cons x xs)
  then show ?case by (cases "run_path self x s") auto
qed simp

lemma path_run:
  assumes "run_paths self cs (h, g) = Inr (h', g')" "path_inv self seen h" "thread_ok self i g"
    and "distinct (init_keys cs)" "set (init_keys cs) \<inter> seen = {}" "list_all count_ok cs"
  shows "path_inv self (seen \<union> set (init_keys cs)) h' \<and> thread_ok self i g'"
  using assms
proof (induction cs arbitrary: h g seen)
  case (Cons c cs)
  obtain h1 g1 where s: "run_path self c (h, g) = Inr (h1, g1)" "run_paths self cs (h1, g1) = Inr (h', g')"
    using Cons.prems(1) by auto
  have k: "distinct (init_keys cs)" "set (init_keys [c]) \<inter> seen = {}" "set (init_keys cs) \<inter> (seen \<union> set (init_keys [c])) = {}"
    "count_ok c" "list_all count_ok cs"
    using Cons.prems(4-6) by (auto simp: init_keys_Cons [of c cs])
  note st = path_step [OF s(1) Cons.prems(2,3) k(2,4)]
  have "thread_ok self i g1" using caliper_step_ok st Cons.prems(3) by blast
  then show ?case using Cons.IH [OF s(2) _ _ k(1,3,5)] st by (simp add: init_keys_Cons [of c cs] Un_assoc)
qed simp

lemma total_step:
  assumes "run_path self c (h, g) = Inr (h', g')" "thread_ok self i g"
  shows "total_points h' self \<le> max (total_points h self) (int PAPIEX_MAX_CALIPERS)"
  using assms
  by (cases c) (auto simp: profile_loop_init_def profile_call_init_def profile_loop_def profile_loop_iter_def
      profile_call_entry_def profile_call_exit_def profile_pu_init_def unit_at_def thread_ok_def cal_size_ok_def Let_def
      split: if_splits option.splits)

lemma total_run:
  assumes "run_paths self cs (h, g) = Inr (h', g')" "path_inv self seen h" "thread_ok self i g"
    and "distinct (init_keys cs)" "set (init_keys cs) \<inter> seen = {}" "list_all count_ok cs"
  shows "total_points h' self \<le> max (total_points h self) (int PAPIEX_MAX_CALIPERS)"
  using assms
proof (induction cs arbitrary: h g seen)
  case (Cons c cs)
  obtain h1 g1 where s: "run_path self c (h, g) = Inr (h1, g1)" "run_paths self cs (h1, g1) = Inr (h', g')"
    using Cons.prems(1) by auto
  have k: "distinct (init_keys cs)" "set (init_keys [c]) \<inter> seen = {}" "set (init_keys cs) \<inter> (seen \<union> set (init_keys [c])) = {}"
    "count_ok c" "list_all count_ok cs"
    using Cons.prems(4-6) by (auto simp: init_keys_Cons [of c cs])
  note st = path_step [OF s(1) Cons.prems(2,3) k(2,4)]
  have "thread_ok self i g1" using caliper_step_ok st Cons.prems(3) by blast
  then show ?case using Cons.IH [OF s(2) _ _ k(1,3,5)] st total_step [OF s(1) Cons.prems(3)] by auto
qed simp

text \<open>A point in use stays where it is.\<close>

lemma used_point_step:
  assumes "run_path self c (h, g) = Inr (h', g')" "path_inv self seen h" "set (init_keys [c]) \<inter> seen = {}"
    and "point_of h a = Some x" "0 < x"
  shows "point_of h' a = Some x"
proof -
  have keep: "point_of h' a = Some x" if "u < length (pus h)" "pus h' = (pus h)[u := p]"
    "\<And>k. a = LoopAt u k \<Longrightarrow> element (loops p) (int k) = Some x"
    "\<And>k. a = CallAt u k \<Longrightarrow> element (calls p) (int k) = Some x" for u p
    using that(3,4) point_of_write [OF that(1,2)] assms(4) by (cases a) auto
  have none: "\<not> (\<exists>k. a = LoopAt u k)" if "(True, u) \<notin> seen" for u
    using that assms(4) path_inv_unit [OF assms(2)] by (auto simp: unit_ok_def split: if_splits)
  have none': "\<not> (\<exists>k. a = CallAt u k)" if "(False, u) \<notin> seen" for u
    using that assms(4) path_inv_unit [OF assms(2)] by (auto simp: unit_ok_def split: if_splits)
  have turn: "element (set_element ps j (- z)) (int k) = Some x" if "element ps (int k) = Some x" "element ps j = Some z" "z < 0"
    for ps j z k
    using that assms(5) by (auto simp: element_def set_element_def nth_list_update split: option.splits if_splits)
  show ?thesis
  proof (cases c)
    case (PuInit ok f n pc s cs)
    then show ?thesis using assms(1,4) by (cases a) (auto simp: profile_pu_init_def nth_append split: if_splits)
  next
    case (LoopInit mem u n)
    then have "h' = h \<or> u < length (pus h) \<and> (\<exists>p. pus h' = (pus h)[u := p] \<and> calls p = calls (pus h ! u))"
      using loop_init_cases [of mem self u n h g h' g'] assms(1) by auto
    then show ?thesis
    proof (elim disjE exE conjE)
      fix p assume p: "u < length (pus h)" "pus h' = (pus h)[u := p]" "calls p = calls (pus h ! u)"
      show ?thesis
        by (rule keep [OF p(1,2)]) (use p none [of u] LoopInit assms(3,4) in auto)
    qed (use assms(4) in simp)
  next
    case (CallInit mem u n)
    then have "h' = h \<or> u < length (pus h) \<and> (\<exists>p. pus h' = (pus h)[u := p] \<and> loops p = loops (pus h ! u))"
      using call_init_cases [of mem self u n h g h' g'] assms(1) by auto
    then show ?thesis
    proof (elim disjE exE conjE)
      fix p assume p: "u < length (pus h)" "pus h' = (pus h)[u := p]" "loops p = loops (pus h ! u)"
      show ?thesis
        by (rule keep [OF p(1,2)]) (use p none' [of u] CallInit assms(3,4) in auto)
    qed (use assms(4) in simp)
  next
    case (Loop r pc u k)
    then have "h' = h \<or> u < length (pus h) \<and> (\<exists>z. element (loops (pus h ! u)) k = Some z \<and> z < 0 \<and>
        pus h' = (pus h)[u := (pus h ! u)\<lparr>loops := set_element (loops (pus h ! u)) k (- z)\<rparr>])"
      using loop_cases [of self r pc u k h g h' g'] assms(1) by auto
    then show ?thesis
    proof (elim disjE exE conjE)
      fix z assume z: "u < length (pus h)" "element (loops (pus h ! u)) k = Some z" "z < 0"
        "pus h' = (pus h)[u := (pus h ! u)\<lparr>loops := set_element (loops (pus h ! u)) k (- z)\<rparr>]"
      show ?thesis
        by (rule keep [OF z(1,4)]) (use z(1) assms(4) turn [OF _ z(2,3)] in auto)
    qed (use assms(4) in simp)
  next
    case (CallEntry r pc u k)
    then have "h' = h \<or> u < length (pus h) \<and> (\<exists>z. element (calls (pus h ! u)) k = Some z \<and> z < 0 \<and>
        pus h' = (pus h)[u := (pus h ! u)\<lparr>calls := set_element (calls (pus h ! u)) k (- z)\<rparr>])"
      using call_cases [of self r pc u k h g h' g'] assms(1) by auto
    then show ?thesis
    proof (elim disjE exE conjE)
      fix z assume z: "u < length (pus h)" "element (calls (pus h ! u)) k = Some z" "z < 0"
        "pus h' = (pus h)[u := (pus h ! u)\<lparr>calls := set_element (calls (pus h ! u)) k (- z)\<rparr>]"
      show ?thesis
        by (rule keep [OF z(1,4)]) (use z(1) assms(4) turn [OF _ z(2,3)] in auto)
    qed (use assms(4) in simp)
  next
    case (LoopIter r u k)
    then have "h' = h" using assms(1) by (auto simp: profile_loop_iter_def split: if_splits option.splits)
    then show ?thesis using assms(4) by simp
  next
    case (CallExit r u k)
    then have "h' = h" using assms(1) by (auto simp: profile_call_exit_def split: if_splits option.splits)
    then show ?thesis using assms(4) by simp
  qed
qed

text \<open>An open caliper stays open under calls that do not stop it.\<close>

lemma open_step:
  assumes "run_op g op t = Inr t'" "cal_size_ok t" "in_range p" "cal_depth (pt_data t ! nat p) = 1"
    and "\<And>r. op \<noteq> OpStop p r"
  shows "cal_depth (pt_data t' ! nat p) = 1"
proof (cases "op_point op = p")
  case False
  then have "nat p \<noteq> nat (op_point op)"
    using assms(1,3) by (cases op) (auto simp: in_range_def cal_start_def cal_stop_def cal_accum_def split: if_splits)
  then show ?thesis using cal_step_frame(3) [OF assms(1)] assms(4) by simp
next
  case True
  then obtain r where "op = OpAccum p r"
    using assms by (cases op) (auto simp: cal_start_def in_range_def cal_size_ok_def split: if_splits)
  then show ?thesis
    using assms(1) accum_at [of p t g r] assms(2-4) by (auto simp: cal_accum_def Let_def split: if_splits)
qed

lemma loop_open_step:
  assumes "run_path self c (h, g) = Inr (h', g')" "path_inv self seen h" "thread_ok self i g"
    and "set (init_keys [c]) \<inter> seen = {}" "count_ok c"
    and "point_of h (LoopAt u k) = Some x" "in_range x" "0 < x" "cal_depth (pt_data (thread_heap g ! i) ! nat x) = 1"
  shows "cal_depth (pt_data (thread_heap g' ! i) ! nat x) = 1"
proof -
  note st = path_step [OF assms(1-5)]
  have x: "point_of h' (LoopAt u k) = Some x" by (rule used_point_step [OF assms(1,2,4,6,8)])
  consider "g' = g" | op t' where "path_op h' c op" "run_op g op (thread_heap g ! i) = Inr t'"
      "g' = g\<lparr>thread_heap := (thread_heap g)[i := t']\<rparr>" using st by (auto simp: caliper_step_def)
  then show ?thesis
  proof cases
    case 2
    have "op \<noteq> OpStop x r" for r
    proof
      assume "op = OpStop x r"
      then obtain v j where "point_of h' (CallAt v j) = Some x" using 2(1) by (cases c) auto
      then show False using x st unfolding path_inv_def distinct_points_def by blast
    qed
    then show ?thesis
      using open_step [OF 2(2) _ assms(7,9)] assms(3) 2(3) by (simp add: thread_ok_def)
  qed (use assms(9) in simp)
qed

lemma loop_open_run:
  assumes "run_paths self cs (h, g) = Inr (h', g')" "path_inv self seen h" "thread_ok self i g"
    and "distinct (init_keys cs)" "set (init_keys cs) \<inter> seen = {}" "list_all count_ok cs"
    and "point_of h (LoopAt u k) = Some x" "in_range x" "0 < x" "cal_depth (pt_data (thread_heap g ! i) ! nat x) = 1"
  shows "cal_depth (pt_data (thread_heap g' ! i) ! nat x) = 1 \<and> point_of h' (LoopAt u k) = Some x"
  using assms
proof (induction cs arbitrary: h g seen)
  case (Cons c cs)
  obtain h1 g1 where s: "run_path self c (h, g) = Inr (h1, g1)" "run_paths self cs (h1, g1) = Inr (h', g')"
    using Cons.prems(1) by auto
  have k: "distinct (init_keys cs)" "set (init_keys [c]) \<inter> seen = {}" "set (init_keys cs) \<inter> (seen \<union> set (init_keys [c])) = {}"
    "count_ok c" "list_all count_ok cs"
    using Cons.prems(4-6) by (auto simp: init_keys_Cons [of c cs])
  note st = path_step [OF s(1) Cons.prems(2,3) k(2,4)]
  have "thread_ok self i g1" using caliper_step_ok st Cons.prems(3) by blast
  moreover note used_point_step [OF s(1) Cons.prems(2) k(2) Cons.prems(7,9)]
    loop_open_step [OF s(1) Cons.prems(2,3) k(2,4) Cons.prems(7-10)]
  ultimately show ?case using Cons.IH [OF s(2) _ _ k(1,3,5) _ Cons.prems(8,9)] st by blast
qed simp

lemma gate_step: "run_path self c (h, g) = Inr (h', g') \<Longrightarrow> papiex_pathscale_enable h' = papiex_pathscale_enable h"
  by (cases c) (auto simp: profile_loop_init_def profile_call_init_def profile_loop_def profile_loop_iter_def
      profile_call_entry_def profile_call_exit_def profile_pu_init_def split: if_splits option.splits)

lemma gate_run: "run_paths self cs (h, g) = Inr (h', g') \<Longrightarrow> papiex_pathscale_enable h' = papiex_pathscale_enable h"
proof (induction cs arbitrary: h g)
  case (Cons c cs)
  obtain h1 g1 where s: "run_path self c (h, g) = Inr (h1, g1)" "run_paths self cs (h1, g1) = Inr (h', g')"
    using Cons.prems by auto
  show ?case using Cons.IH [OF s(2)] gate_step [OF s(1)] by simp
qed simp

lemma init_keys_append: "init_keys (xs @ ys) = init_keys xs @ init_keys ys"
proof (induction xs)
  case (Cons x xs)
  then show ?case using init_keys_Cons [of x xs] init_keys_Cons [of x "xs @ ys"] by simp
qed simp

lemma loop_place:
  assumes "path_inv self seen h" "point_of h (LoopAt u k) = Some z"
  shows "unit_at h (Some u) = Some (u, pus h ! u)" "int k < num_loops (pus h ! u)" "element (loops (pus h ! u)) (int k) = Some z"
    "1 \<le> \<bar>z\<bar>" "u < length (pus h)"
proof -
  show u: "u < length (pus h)" and e: "element (loops (pus h ! u)) (int k) = Some z" using assms(2) by (auto split: if_splits)
  then show "int k < num_loops (pus h ! u)"
    using path_inv_unit [OF assms(1) u] by (cases "loops (pus h ! u)") (auto simp: unit_ok_def split: if_splits)
  show "unit_at h (Some u) = Some (u, pus h ! u)" using u by (simp add: unit_at_def)
  show "1 \<le> \<bar>z\<bar>" using assms unfolding path_inv_def distinct_points_def by blast
qed

lemma loop_enters:
  assumes "profile_loop self r pc (Some u) (int k) (h, g) = Inr (h', g')" "path_inv self seen h"
    and "gate_open PATHSCALE_LOOPS h" "point_of h (LoopAt u k) = Some z"
  shows "\<exists>x l. papiex_start self r x l g = Inr g' \<and> point_of h' (LoopAt u k) = Some x \<and> 0 < x"
proof -
  note p = loop_place [OF assms(2,4)]
  show ?thesis
  proof (cases "z < 0")
    case True
    then have "papiex_start self r (- z) (Some (point_label ''L'' (int k) pc)) g = Inr g'"
      "h' = h\<lparr>pus := (pus h)[u := (pus h ! u)\<lparr>loops := set_element (loops (pus h ! u)) (int k) (- z)\<rparr>]\<rparr>"
      using assms(1,3) p by (auto simp: profile_loop_def)
    then show ?thesis using p(5) True turned [OF p(3)] by auto
  next
    case False
    then have "papiex_start self r z None g = Inr g'" "h' = h" using assms(1,3) p by (auto simp: profile_loop_def)
    then show ?thesis using False p(4) assms(4) by auto
  qed
qed

lemma start_opens:
  assumes "papiex_start self r x l g = Inr g'" "thread_ok self i g" "in_range x"
  shows "cal_depth (pt_data (thread_heap g' ! i) ! nat x) = 1"
proof -
  have ok: "cal_size_ok (thread_heap g ! i)" and i: "i < length (thread_heap g)" using assms(2) by (simp_all add: thread_ok_def)
  obtain t where t: "cal_start g r x l (thread_heap g ! i) = Inr t" "g' = g\<lparr>thread_heap := (thread_heap g)[i := t]\<rparr>"
    using with_thread_run [OF assms(1) [unfolded papiex_start_def]] assms(2) by (auto simp: thread_ok_def)
  have "cal_depth (pt_data (thread_heap g ! i) ! nat x) = 0"
    using t(1) assms(3) ok by (auto simp: cal_start_def in_range_def cal_size_ok_def split: if_splits)
  then show ?thesis using start_at [OF assms(3) ok, of g r l] t i by (auto simp: Let_def)
qed

section \<open>Properties\<close>

text \<open>A process that has no units yet, and a thread that has counted no points.\<close>

definition fresh_path :: "nat \<Rightarrow> nat \<Rightarrow> pathst \<times> pglob \<Rightarrow> bool" where
  "fresh_path self i = (\<lambda>(h, g). pus h = [] \<and> total_points h self = 1 \<and> thread_ok self i g)"

lemma fresh_path_inv: "fresh_path self i (h, g) \<Longrightarrow> path_inv self {} h \<and> thread_ok self i g"
  by (auto simp: fresh_path_def path_inv_def distinct_points_def units_ok_def elim!: point_of.elims)

text \<open>C27: every instrumented loop and call has a caliper of its own.  Whatever one thread's
  hooks do, as long as the loops and the calls of a unit are initialised once each, the
  points handed out are calipers of the thread above 0 and no two places share one.\<close>
theorem pathscale_points_own:
  assumes "fresh_path self i (h0, g0)" "run_paths self cs (h0, g0) = Inr (h, g)"
    and "distinct (init_keys cs)" "list_all count_ok cs"
  shows "(\<forall>a x. point_of h a = Some x \<longrightarrow> 1 \<le> \<bar>x\<bar> \<and> \<bar>x\<bar> < int PAPIEX_MAX_CALIPERS) \<and>
    (\<forall>a b x y. point_of h a = Some x \<and> point_of h b = Some y \<and> \<bar>x\<bar> = \<bar>y\<bar> \<longrightarrow> a = b)"
proof -
  have f: "path_inv self {} h0" "thread_ok self i g0" using fresh_path_inv [OF assms(1)] by simp_all
  have "path_inv self ({} \<union> set (init_keys cs)) h" using path_run [OF assms(2) f assms(3) _ assms(4)] by simp
  moreover have "total_points h self \<le> int PAPIEX_MAX_CALIPERS"
    using total_run [OF assms(2) f assms(3) _ assms(4)] assms(1) by (simp add: fresh_path_def PAPIEX_MAX_CALIPERS_def)
  ultimately have d: "distinct_points (total_points h self) h" "total_points h self \<le> int PAPIEX_MAX_CALIPERS"
    by (simp_all add: path_inv_def)
  then have "1 \<le> \<bar>x\<bar> \<and> \<bar>x\<bar> < int PAPIEX_MAX_CALIPERS" if "point_of h a = Some x" for a x
    using that by (force simp: distinct_points_def)
  then show ?thesis using d(1) unfolding distinct_points_def by blast
qed

text \<open>A loop can be entered only once.  No hook stops the caliper of a loop, so after
  a first entry, whatever the thread's hooks did in between, a second entry ends the
  process.\<close>
lemma second_loop_entry_ends_process:
  assumes "fresh_path self i (h0, g0)" "run_paths self pre (h0, g0) = Inr (h1, g1)"
    and "run_paths self (Loop r pc u (int k) # mid) (h1, g1) = Inr (h, g)"
    and "gate_open PATHSCALE_LOOPS h1" "point_of h1 (LoopAt u k) \<noteq> None"
    and "distinct (init_keys (pre @ mid))" "list_all count_ok (pre @ mid)"
  shows "\<exists>x. run_path self (Loop r' pc' u (int k)) (h, g) = Inl (PapiexEnds (CaliperInUse x))"
proof -
  have f: "path_inv self {} h0" "thread_ok self i g0" using fresh_path_inv [OF assms(1)] by simp_all
  have ks: "distinct (init_keys pre)" "distinct (init_keys mid)" "set (init_keys mid) \<inter> set (init_keys pre) = {}"
    "list_all count_ok pre" "list_all count_ok mid"
    using assms(6,7) by (auto simp: init_keys_append)
  have i1: "path_inv self (set (init_keys pre)) h1" "thread_ok self i g1"
    using path_run [OF assms(2) f ks(1) _ ks(4)] by simp_all
  have t1: "total_points h1 self \<le> int PAPIEX_MAX_CALIPERS"
    using total_run [OF assms(2) f ks(1) _ ks(4)] assms(1) by (simp add: fresh_path_def PAPIEX_MAX_CALIPERS_def)
  obtain z where z: "point_of h1 (LoopAt u k) = Some z" using assms(5) by blast
  obtain h2 g2 where l: "profile_loop self r pc (Some u) (int k) (h1, g1) = Inr (h2, g2)"
    and m: "run_paths self mid (h2, g2) = Inr (h, g)" using assms(3) by auto
  obtain x lb where x: "papiex_start self r x lb g1 = Inr g2" "point_of h2 (LoopAt u k) = Some x" "0 < x"
    using loop_enters [OF l i1(1) assms(4) z] by blast
  have i2: "path_inv self (set (init_keys pre)) h2" "thread_ok self i g2"
    using loop_step [OF l i1] by (blast, blast intro: caliper_step_ok [OF _ i1(2)])
  have "run_path self (Loop r pc u (int k)) (h1, g1) = Inr (h2, g2)" using l by simp
  from total_step [OF this i1(2)] have "total_points h2 self \<le> int PAPIEX_MAX_CALIPERS" using t1 by simp
  moreover have "\<bar>x\<bar> < total_points h2 self" using i2(1) x(2) unfolding path_inv_def distinct_points_def by blast
  ultimately have r: "in_range x" using x(3) by (simp add: in_range_def)
  have o: "cal_depth (pt_data (thread_heap g ! i) ! nat x) = 1" "point_of h (LoopAt u k) = Some x"
    using loop_open_run [OF m i2 ks(2,3,5) x(2) r x(3) start_opens [OF x(1) i1(2) r]] by simp_all
  have e: "path_inv self (set (init_keys pre) \<union> set (init_keys mid)) h" "thread_ok self i g"
    using path_run [OF m i2 ks(2,3,5)] by simp_all
  have g: "gate_open PATHSCALE_LOOPS h"
    using gate_run [OF m] gate_step [of self "Loop r pc u (int k)" h1 g1 h2 g2] l assms(4) by (simp add: gate_open_def)
  note p = loop_place [OF e(1) o(2)]
  have "papiex_start self r' x None g = Inl (CaliperInUse x)"
    using e(2) r o(1) by (simp add: papiex_start_def with_thread_def thread_ok_def cal_start_def in_range_def cal_size_ok_def)
  then show ?thesis using g p x(3) by (auto simp: profile_loop_def ends_def)
qed

text \<open>A second initialisation of the same loops goes wrong: here the loop of unit 1 gets a
  point of unit 0.\<close>

definition sample_pathst :: pathst where
  "sample_pathst = papiex_pathscale_set_gate 1 pathst_start"

lemma sample_path_parts:
  "max_caliper_entries (thread_heap sample_hook_glob ! 0) = 32" "thread_data sample_hook_glob 7 = Some 0"
  "papiex_pathscale_enable sample_pathst AND int PATHSCALE_LOOPS = 1" "total_points sample_pathst = (\<lambda>_. 1)"
  "pus sample_pathst = []"
  by (simp_all add: sample_hook_parts sample_thread_parts sample_pathst_def papiex_pathscale_set_gate_def
      PATHSCALE_LOOPS_def pathst_start_def)

lemma second_init_collides:
  "\<exists>h. run_paths 7 [PuInit True None None 0 0 0, PuInit True None None 0 0 0, LoopInit (Some (\<lambda>_. 0)) 0 2,
      LoopInit (Some (\<lambda>_. 0)) 0 2, LoopInit (Some (\<lambda>_. 0)) 1 1] (sample_pathst, sample_hook_glob) =
      Inr (h, sample_hook_glob) \<and>
    point_of h (LoopAt 0 2) = Some (- 5) \<and> point_of h (LoopAt 1 0) = Some (- 5)"
  by (simp add: sample_path_parts profile_pu_init_def profile_loop_init_def unit_at_def gate_open_def grow_points_def
      element_def Let_def)

lemma sample_fresh_path: "fresh_path 7 0 (sample_pathst, sample_hook_glob)"
  by (simp add: fresh_path_def thread_ok_def sample_path_parts sample_hook_parts cal_size_ok_def sample_thread_parts
      PAPIEX_MAX_CALIPERS_def)

definition sample_inits :: "path_call list" where
  "sample_inits = [PuInit True None None 0 0 0, PuInit True None None 0 0 0, LoopInit (Some (\<lambda>_. 0)) 0 2,
     LoopInit (Some (\<lambda>_. 0)) 1 1]"

lemma sample_inits_parts: "distinct (init_keys sample_inits)" "list_all count_ok sample_inits"
  by (simp_all add: sample_inits_def)

lemma sample_inits_run:
  obtains h where "run_paths 7 sample_inits (sample_pathst, sample_hook_glob) = Inr (h, sample_hook_glob)"
    "gate_open PATHSCALE_LOOPS h" "point_of h (LoopAt 0 1) = Some (- 2)" "point_of h (LoopAt 1 0) = Some (- 3)"
    "unit_at h (Some 1) = Some (1, pus h ! 1)" "num_loops (pus h ! 1) = 1" "loops (pus h ! 1) = Some [- 3]"
  by (simp add: sample_inits_def sample_path_parts profile_pu_init_def profile_loop_init_def unit_at_def gate_open_def
      grow_points_def element_def Let_def)

theorem pathscale_points_own_witness:
  "\<exists>h. run_paths 7 sample_inits (sample_pathst, sample_hook_glob) = Inr (h, sample_hook_glob) \<and>
    point_of h (LoopAt 0 1) = Some (- 2) \<and> point_of h (LoopAt 0 0) \<noteq> Some (- 2)"
proof -
  obtain h where h: "run_paths 7 sample_inits (sample_pathst, sample_hook_glob) = Inr (h, sample_hook_glob)"
    "point_of h (LoopAt 0 1) = Some (- 2)" by (rule sample_inits_run)
  have "point_of h (LoopAt 0 0) \<noteq> Some (- 2)"
    using pathscale_points_own [OF sample_fresh_path h(1) sample_inits_parts] h(2)
    by (metis place.inject(1) zero_neq_one)
  then show ?thesis using h by blast
qed

end
