(* ===== verification/PcLookup.thy ===== *)
theory PcLookup
  imports PathHooks
begin

text \<open>
  papiex/src/pclookup.c: the look-up of the source line of an address through BFD, and its use
  in papiex.c, where the labels the compiler hooks gave the calipers are replaced by texts.
  BFD and the demangler are parameters.  The descriptor abfd is a variable that nothing resets:
  to use it closed is undefined.  HAVE_BFD_GET_SECTION_SIZE and DEMANGLE_GNU are defined; debug
  messages are left out.
\<close>

section \<open>What BFD answers\<close>

record bfd_section =
  sec_alloc :: bool
  sec_vma :: "64 word"
  sec_size :: "64 word"

text \<open>The names of the formats that match are set only when several do.  The nearest line is
  that of an offset in the section of a number: file, function and line.\<close>

record bfd_lib =
  bl_openr :: "string \<Rightarrow> bool"
  bl_archive :: bool
  bl_object :: bool
  bl_matching :: "string list option"
  bl_has_syms :: bool
  bl_storage :: int
  bl_symcount :: int
  bl_sections :: "bfd_section list"
  bl_nearest :: "nat \<Rightarrow> 64 word \<Rightarrow> (string option \<times> string option \<times> nat) option"
  bl_scan_vma :: "string \<Rightarrow> 64 word"
  bl_demangle :: "string \<Rightarrow> string option"

section \<open>The variables of the file\<close>

datatype bfd_handle = NoBfd | OpenBfd | ClosedBfd

record bfdst =
  abfd :: bfd_handle
  bfd_pc :: "64 word"
  bfd_found :: bool
  bfd_filename :: "string option"
  functionname :: "string option"
  bfd_line :: nat
  bfd_warnings :: "string list"

definition bfdst_start :: bfdst where
  "bfdst_start = \<lparr>abfd = NoBfd, bfd_pc = 0, bfd_found = False, bfd_filename = None, functionname = None,
     bfd_line = 0, bfd_warnings = []\<rparr>"

text \<open>A use of a closed descriptor, a failed assertion, and the loop over the formats that
  match, which counts a pointer up until it is NULL.\<close>

datatype bfd_end = BfdUndefined | BfdAssertFailed | BfdLoops

definition bfd_warn :: "string \<Rightarrow> bfdst \<Rightarrow> bfdst" where
  "bfd_warn text st = st\<lparr>bfd_warnings := bfd_warnings st @ [text]\<rparr>"

section \<open>Opening and closing\<close>

text \<open>A failure after bfd_openr closes the descriptor and leaves the variable.\<close>

definition open_failed :: "string \<Rightarrow> bfdst \<Rightarrow> bfd_end + (int \<times> bfdst)" where
  "open_failed text st = Inr (0, (bfd_warn text st)\<lparr>abfd := ClosedBfd\<rparr>)"

definition bfd_open_executable :: "bfd_lib \<Rightarrow> string option \<Rightarrow> bfdst \<Rightarrow> bfd_end + (int \<times> bfdst)" where
  "bfd_open_executable lib filename st =
    (case filename of
       None \<Rightarrow> Inr (0, bfd_warn ''If this is a Fortran application, you may be using the incorrect mpiP library.''
                        (bfd_warn ''Executable filename is NULL!'' st))
     | Some f \<Rightarrow>
         if \<not> bl_openr lib f then Inr (0, (bfd_warn (''could not open filename '' @ f) st)\<lparr>abfd := NoBfd\<rparr>)
         else let st1 = st\<lparr>abfd := OpenBfd\<rparr> in
         if bl_archive lib then open_failed ''can not get addresses from archive'' st1
         else if \<not> bl_object lib
         then (case bl_matching lib of
                 Some (m # ms) \<Rightarrow> Inl BfdLoops
               | _ \<Rightarrow> open_failed ''matching failed'' st1)
         else if \<not> bl_has_syms lib then open_failed ''No symbols in the executable'' st1
         else if bl_storage lib < 0 then open_failed ''storage < 0'' st1
         else if bl_symcount lib < 0 then open_failed ''symcount < 0'' st1
         else Inr (1, st1))"

definition bfd_close_executable :: "bfdst \<Rightarrow> bfd_end + bfdst" where
  "bfd_close_executable st =
    (case abfd st of
       NoBfd \<Rightarrow> Inl BfdAssertFailed
     | ClosedBfd \<Rightarrow> Inl BfdUndefined
     | OpenBfd \<Rightarrow> Inr (st\<lparr>abfd := ClosedBfd\<rparr>))"

section \<open>Looking up an address\<close>

text \<open>The end of a section is computed in 64 bits.\<close>

definition find_address_in_section :: "bfd_lib \<Rightarrow> nat \<times> bfd_section \<Rightarrow> bfdst \<Rightarrow> bfdst" where
  "find_address_in_section lib = (\<lambda>(k, sec) st.
     if bfd_found st then st
     else if \<not> sec_alloc sec then st
     else if bfd_pc st < sec_vma sec then st
     else if bfd_pc st \<ge> sec_vma sec + sec_size sec then st
     else case bl_nearest lib k (bfd_pc st - sec_vma sec) of
            None \<Rightarrow> st\<lparr>bfd_found := False\<rparr>
          | Some (file, func, l) \<Rightarrow>
              st\<lparr>bfd_found := True, bfd_filename := file, functionname := func, bfd_line := l\<rparr>)"

definition bfd_map_over_sections :: "bfd_lib \<Rightarrow> bfdst \<Rightarrow> bfdst" where
  "bfd_map_over_sections lib st =
     fold (find_address_in_section lib) (zip [0..<length (bl_sections lib)] (bl_sections lib)) st"

text \<open>The name in a path: what follows the last slash.\<close>

fun after_slash :: "string \<Rightarrow> string" where
  "after_slash [] = []"
| "after_slash (c # cs) = (if CHR ''/'' \<in> set cs then after_slash cs else if c = CHR ''/'' then cs else c # cs)"

definition function_text :: "bfd_lib \<Rightarrow> string option \<Rightarrow> string" where
  "function_text lib func =
    (case func of
       None \<Rightarrow> ''[unknown]''
     | Some f \<Rightarrow> if f = [] then ''[unknown]'' else case bl_demangle lib f of None \<Rightarrow> f | Some d \<Rightarrow> d)"

text \<open>What the call sets, file, line and function, or nothing when it returns 1.\<close>

definition bfd_find_src_loc ::
  "bfd_lib \<Rightarrow> 64 word \<Rightarrow> bfdst \<Rightarrow> bfd_end + (int \<times> (string \<times> nat \<times> string) option \<times> bfdst)" where
  "bfd_find_src_loc lib addr st =
    (if addr = 0 then Inr (1, None, st)
     else case abfd st of
       NoBfd \<Rightarrow> Inr (1, None, st)
     | ClosedBfd \<Rightarrow> Inl BfdUndefined
     | OpenBfd \<Rightarrow>
         let st1 = bfd_map_over_sections lib (st\<lparr>bfd_pc := bl_scan_vma lib (ptr_string addr), bfd_found := False\<rparr>) in
         if \<not> bfd_found st1 then Inr (1, None, st1)
         else let st2 = st1\<lparr>bfd_filename := map_option after_slash (bfd_filename st1)\<rparr>;
                  file = (case bfd_filename st2 of None \<Rightarrow> ''[unknown]'' | Some f \<Rightarrow> f)
              in Inr (0, Some (file, bfd_line st2, function_text lib (functionname st2)), st2))"

section \<open>Reading labels\<close>

text \<open>sscanf of a pointer: glibc reads ''(nil)'' and hexadecimal digits, with or without 0x.\<close>

definition is_hex_char :: "char \<Rightarrow> bool" where
  "is_hex_char c \<longleftrightarrow> is_digit_char c \<or> (of_char c :: nat) \<in> {97..102} \<or> (of_char c :: nat) \<in> {65..70}"

definition hex_digit :: "char \<Rightarrow> nat" where
  "hex_digit c = (let n = of_char c in if n \<le> 57 then n - 48 else if n \<le> 70 then n - 55 else n - 87)"

definition scan_pointer :: "string \<Rightarrow> 64 word option" where
  "scan_pointer str =
    (let s1 = dropWhile is_space_char str;
         s2 = (if is_prefix ''0x'' s1 \<or> is_prefix ''0X'' s1 then drop 2 s1 else s1);
         ds = takeWhile is_hex_char s2
     in if is_prefix ''(nil)'' s1 then Some 0
        else if ds = [] then None
        else Some (of_nat (min (2 ^ 64 - 1) (foldl (\<lambda>n c. 16 * n + hex_digit c) 0 ds))))"

text \<open>sscanf with the format ":%p".\<close>

definition scan_gcc_label :: "string \<Rightarrow> 64 word option" where
  "scan_gcc_label l = (case l of [] \<Rightarrow> None | c # cs \<Rightarrow> if c = CHR '':'' then scan_pointer cs else None)"

text \<open>sscanf with the format "%c%d:%p".\<close>

definition scan_int_rest :: "string \<Rightarrow> (int \<times> string) option" where
  "scan_int_rest str =
    (let s1 = dropWhile is_space_char str;
         (neg, s2) = (case s1 of
             [] \<Rightarrow> (False, [])
           | c # cs \<Rightarrow> if c = CHR ''-'' then (True, cs)
                      else if c = CHR ''+'' then (False, cs) else (False, c # cs));
         ds = takeWhile is_digit_char s2
     in if ds = [] then None
        else Some (if neg then - int (undec ds) else int (undec ds), dropWhile is_digit_char s2))"

definition scan_path_label :: "string \<Rightarrow> (char \<times> int \<times> 64 word) option" where
  "scan_path_label l =
    (case l of [] \<Rightarrow> None
     | t # rest \<Rightarrow>
         (case scan_int_rest rest of None \<Rightarrow> None
          | Some (num, rest2) \<Rightarrow> map_option (\<lambda>addr. (t, num, addr)) (scan_gcc_label rest2)))"

section \<open>resolve_symbols\<close>

text \<open>The texts for a function and for a loop.\<close>

definition place_text :: "64 word \<Rightarrow> string \<times> nat \<times> string \<Rightarrow> string" where
  "place_text addr = (\<lambda>(file, line, func).
     '' at '' @ ptr_string addr @ '', File: '' @ file @ '', Function: '' @ func @ '', Line: '' @ dec line)"

definition function_label :: "64 word \<Rightarrow> string \<times> nat \<times> string \<Rightarrow> string" where
  "function_label addr loc = ''Function '' @ snd (snd loc) @ place_text addr loc"

definition loop_label :: "int \<Rightarrow> 64 word \<Rightarrow> string \<times> nat \<times> string \<Rightarrow> string" where
  "loop_label num addr loc = ''Loop '' @ dec_int num @ place_text addr loc"

text \<open>Ends: in BFD, variables that a failed look-up has not set, a text longer than the label.\<close>

datatype sym_end = SymBfd bfd_end | SymUnset | SymOverflow string

definition relabel ::
  "bfd_lib \<Rightarrow> 64 word \<Rightarrow> (string \<times> nat \<times> string \<Rightarrow> string) \<Rightarrow> bfdst \<Rightarrow> sym_end + (string \<times> bfdst)" where
  "relabel lib addr text st =
    (case bfd_find_src_loc lib addr st of
       Inl e \<Rightarrow> Inl (SymBfd e)
     | Inr (rc, None, st') \<Rightarrow> Inl SymUnset
     | Inr (rc, Some loc, st') \<Rightarrow>
         if length (text loc) \<ge> MAX_LABEL_SIZE then Inl (SymOverflow (text loc)) else Inr (text loc, st'))"

definition resolve_pathscale :: "bfd_lib \<Rightarrow> pglob \<Rightarrow> string \<times> bfdst \<Rightarrow> sym_end + (string \<times> bfdst)" where
  "resolve_pathscale lib g = (\<lambda>(label, st).
     if pathscale_prof g = PATHSCALE_NONE then Inr (label, st)
     else case scan_path_label label of
       None \<Rightarrow> Inr (label, st)
     | Some (t, num, addr) \<Rightarrow>
         relabel lib addr (if t = CHR ''C'' then function_label addr else loop_label num addr) st)"

definition resolve_gcc :: "bfd_lib \<Rightarrow> pglob \<Rightarrow> string \<times> bfdst \<Rightarrow> sym_end + (string \<times> bfdst)" where
  "resolve_gcc lib g = (\<lambda>(label, st).
     if \<not> gcc_prof g then Inr (label, st)
     else case scan_gcc_label label of
       None \<Rightarrow> Inr (label, st)
     | Some addr \<Rightarrow> relabel lib addr (function_label addr) st)"

definition resolve_caliper :: "bfd_lib \<Rightarrow> pglob \<Rightarrow> nat \<Rightarrow> perthread \<times> bfdst \<Rightarrow> sym_end + (perthread \<times> bfdst)" where
  "resolve_caliper lib g j = (\<lambda>(t, st).
     if cal_used (pt_data t ! j) > 0
     then rbind (resolve_pathscale lib g (cal_label (pt_data t ! j), st)) (\<lambda>s1.
          rbind (resolve_gcc lib g s1) (\<lambda>(label, st').
            Inr (upd_cal (int j) (\<lambda>c. c\<lparr>cal_label := label\<rparr>) t, st')))
     else Inr (t, st))"

fun resolve_from :: "bfd_lib \<Rightarrow> pglob \<Rightarrow> nat list \<Rightarrow> perthread \<times> bfdst \<Rightarrow> sym_end + (perthread \<times> bfdst)" where
  "resolve_from lib g [] s = Inr s"
| "resolve_from lib g (j # js) s = rbind (resolve_caliper lib g j s) (resolve_from lib g js)"

definition resolve_symbols :: "bfd_lib \<Rightarrow> pglob \<Rightarrow> perthread \<Rightarrow> bfdst \<Rightarrow> sym_end + (perthread \<times> bfdst)" where
  "resolve_symbols lib g t st = resolve_from lib g [1..<nat (max_caliper_entries t)] (t, st)"

section \<open>gather_papi_thread_data_ptrs\<close>

fun resolve_threads :: "bfd_lib \<Rightarrow> nat list \<Rightarrow> pglob \<times> bfdst \<Rightarrow> sym_end + (pglob \<times> bfdst)" where
  "resolve_threads lib [] s = Inr s"
| "resolve_threads lib (i # is) (g, st) =
    rbind (resolve_symbols lib g (thread_heap g ! i) st) (\<lambda>(t, st').
      resolve_threads lib is (g\<lparr>thread_heap := (thread_heap g)[i := t]\<rparr>, st'))"

text \<open>What the open returns is not looked at.\<close>

definition gather_papi_thread_data_ptrs ::
  "build \<Rightarrow> bfd_lib \<Rightarrow> string option \<Rightarrow> pglob \<times> bfdst \<Rightarrow> sym_end + (pglob \<times> bfdst)" where
  "gather_papi_thread_data_ptrs b lib fullname = (\<lambda>(g, st).
     if have_binutils b \<and> (gcc_prof g \<or> pathscale_prof g \<noteq> PATHSCALE_NONE)
     then case bfd_open_executable lib fullname st of
            Inl e \<Rightarrow> Inl (SymBfd e)
          | Inr (_, st1) \<Rightarrow>
              rbind (resolve_threads lib (map snd (all_threads g)) (g, st1)) (\<lambda>(g2, st2).
                case bfd_close_executable st2 of
                  Inl e \<Rightarrow> Inl (SymBfd e)
                | Inr st3 \<Rightarrow> Inr (g2, st3))
     else Inr (g, st))"

end
