(* ===== verification/PcFacts.thy ===== *)
theory PcFacts
  imports PcLookup PathFacts
begin

text \<open>
  The labels of the compiler hooks are read back as they were written, the look-up finds the
  first section that holds the address and knows its line, and where the resolution of labels
  is undefined.
\<close>

section \<open>Reading what was printed\<close>

lemma hex_char_cases:
  assumes "c < 16"
  shows "is_hex_char (hex_char c) \<and> hex_digit (hex_char c) = c \<and> hex_char c \<noteq> CHR '':''"
proof (cases "c > 9")
  case True
  then have "of_char (hex_char c) = 87 + c" using assms by (simp add: hex_char_def)
  then show ?thesis using True assms
    by (auto simp: is_hex_char_def hex_digit_def Let_def dest!: arg_cong [where f = "of_char :: char \<Rightarrow> nat"])
next
  case False
  then have "of_char (hex_char c) = 48 + c" by (simp add: hex_char_def)
  then show ?thesis using False
    by (auto simp: is_hex_char_def hex_digit_def is_digit_char_def Let_def dest!: arg_cong [where f = "of_char :: char \<Rightarrow> nat"])
qed

definition read_hex :: "string \<Rightarrow> nat" where
  "read_hex ds = foldl (\<lambda>n c. 16 * n + hex_digit c) 0 ds"

lemma hex_loop_step:
  "hex_loop v [] = (if v div 16 = 0 then [hex_char (v mod 16)] else hex_loop (v div 16) [] @ [hex_char (v mod 16)])"
  by (subst hex_loop.simps) (simp add: Let_def hex_loop_append [of "v div 16" "[hex_char (v mod 16)]"])

lemma hex_loop_read:
  "(\<forall>c\<in>set (hex_loop v []). is_hex_char c) \<and> read_hex (hex_loop v []) = v \<and> hex_loop v [] \<noteq> []"
proof (induction v rule: less_induct)
  case (less v)
  have d: "is_hex_char (hex_char (v mod 16))" "hex_digit (hex_char (v mod 16)) = v mod 16"
    using hex_char_cases [of "v mod 16"] by simp_all
  show ?case
  proof (cases "v div 16 = 0")
    case True
    then have "v mod 16 = v" by simp
    then show ?thesis using d True by (simp add: hex_loop_step [of v] read_hex_def)
  next
    case False
    then have "v div 16 < v" by (cases v) auto
    then show ?thesis using less.IH [of "v div 16"] d False by (auto simp: hex_loop_step [of v] read_hex_def)
  qed
qed

lemma scan_ptr_string: "scan_pointer (ptr_string a) = Some a"
proof (cases "a = 0")
  case True
  then show ?thesis by (simp add: scan_pointer_def ptr_string_def is_space_char_def)
next
  case False
  let ?h = "hex_loop (unat a) []"
  have t: "takeWhile is_hex_char ?h = ?h" using hex_loop_read [of "unat a"] by (simp add: takeWhile_eq_all_conv)
  have r: "foldl (\<lambda>n c. 16 * n + hex_digit c) 0 ?h = unat a" using hex_loop_read [of "unat a"] by (simp add: read_hex_def)
  have "unat a \<le> 2 ^ 64 - 1" using unsigned_less [of a, where 'a = nat] by simp
  then have m: "min (2 ^ 64 - 1) (unat a) = unat a" by simp
  show ?thesis
    using False hex_loop_read [of "unat a"] m
    by (simp add: scan_pointer_def ptr_string_def is_space_char_def Let_def t r)
qed

lemma scan_gcc_hook_label: "scan_gcc_label (CHR '':'' # ptr_string a) = Some a"
  by (simp add: scan_gcc_label_def scan_ptr_string)

lemma dec_digits: "c \<in> set (dec n) \<Longrightarrow> is_digit_char c"
  using dec_chars by (simp add: is_digit_char_def)

lemma digit_not_special: "is_digit_char c \<Longrightarrow> c \<noteq> CHR ''-'' \<and> c \<noteq> CHR ''+'' \<and> \<not> is_space_char c"
  by (auto simp: is_digit_char_def is_space_char_def)

lemma scan_dec_int:
  assumes "rest = [] \<or> \<not> is_digit_char (hd rest)"
  shows "scan_int_rest (dec_int k @ rest) = Some (k, rest)"
proof -
  have digits: "takeWhile is_digit_char (dec n @ rest) = dec n" "dropWhile is_digit_char (dec n @ rest) = rest" for n
    using assms by (cases rest; simp add: takeWhile_append2 dropWhile_append2 dec_digits)+
  obtain c cs where c: "dec (nat k) = c # cs" by (cases "dec (nat k)") auto
  then have c': "is_digit_char c" using dec_digits [of c "nat k"] by simp
  show ?thesis
  proof (cases "k < 0")
    case True
    then show ?thesis using digits
      by (simp add: scan_int_rest_def dec_int_def is_space_char_def Let_def)
  next
    case False
    moreover have "undec (c # cs) = nat k" using undec_dec [of "nat k"] c by simp
    ultimately show ?thesis using digits [of "nat k"] c digit_not_special [OF c']
      by (simp add: scan_int_rest_def dec_int_def Let_def split: prod.splits)
  qed
qed

lemma scan_path_hook_label: "scan_path_label (point_label [t] k a) = Some (t, k, a)"
proof -
  have n: "\<not> is_digit_char CHR '':''" by (simp add: is_digit_char_def)
  show ?thesis
    using scan_dec_int [of "CHR '':'' # ptr_string a" k] n
    by (simp add: scan_path_label_def point_label_def scan_gcc_hook_label)
qed

text \<open>A label of gcc is not taken for one of pathscale.\<close>

lemma scan_path_gcc_label: "scan_path_label (CHR '':'' # ptr_string a) = None"
proof (cases "a = 0")
  case True
  then show ?thesis by (simp add: scan_path_label_def scan_int_rest_def ptr_string_def is_space_char_def is_digit_char_def)
next
  case False
  have "scan_int_rest (ptr_string a) = Some (0, CHR ''x'' # hex_loop (unat a) [])"
    using False by (simp add: scan_int_rest_def ptr_string_def is_space_char_def is_digit_char_def undec.simps)
  then show ?thesis by (simp add: scan_path_label_def scan_gcc_label_def)
qed

section \<open>The section of an address\<close>

definition section_hit :: "bfd_lib \<Rightarrow> 64 word \<Rightarrow> nat \<times> bfd_section \<Rightarrow> (string option \<times> string option \<times> nat) option" where
  "section_hit lib a = (\<lambda>(k, sec).
     if sec_alloc sec \<and> sec_vma sec \<le> a \<and> a < sec_vma sec + sec_size sec then bl_nearest lib k (a - sec_vma sec) else None)"

text \<open>The first section in the order of the file that holds the address and has a line for it.\<close>

definition first_hit :: "bfd_lib \<Rightarrow> 64 word \<Rightarrow> (string option \<times> string option \<times> nat) option" where
  "first_hit lib a =
    (case List.map_filter (section_hit lib a) (zip [0..<length (bl_sections lib)] (bl_sections lib)) of
       [] \<Rightarrow> None | h # hs \<Rightarrow> Some h)"

lemma find_address_step:
  assumes "\<not> bfd_found st"
  shows "find_address_in_section lib ks st =
    (case section_hit lib (bfd_pc st) ks of None \<Rightarrow> st
     | Some (file, func, l) \<Rightarrow> st\<lparr>bfd_found := True, bfd_filename := file, functionname := func, bfd_line := l\<rparr>)"
  using assms by (cases ks; cases st) (auto simp: find_address_in_section_def section_hit_def split: option.splits)

lemma fold_found: "bfd_found st \<Longrightarrow> fold (find_address_in_section lib) kss st = st"
  by (induction kss) (auto simp: find_address_in_section_def)

lemma fold_sections:
  assumes "\<not> bfd_found st"
  shows "fold (find_address_in_section lib) kss st =
    (case List.map_filter (section_hit lib (bfd_pc st)) kss of [] \<Rightarrow> st
     | (file, func, l) # _ \<Rightarrow> st\<lparr>bfd_found := True, bfd_filename := file, functionname := func, bfd_line := l\<rparr>)"
proof (induction kss)
  case Nil
  show ?case by simp
next
  case (Cons ks kss)
  show ?case
  proof (cases "section_hit lib (bfd_pc st) ks")
    case None
    then show ?thesis using Cons by (simp add: find_address_step [OF assms])
  next
    case (Some h)
    then show ?thesis by (cases h) (simp add: find_address_step [OF assms] fold_found)
  qed
qed

text \<open>The answer for a hit: the name without its path, and a name for what is not known.\<close>

definition located :: "bfd_lib \<Rightarrow> string option \<times> string option \<times> nat \<Rightarrow> string \<times> nat \<times> string" where
  "located lib = (\<lambda>(file, func, l).
     (case file of None \<Rightarrow> ''[unknown]'' | Some f \<Rightarrow> after_slash f, l, function_text lib func))"

lemma src_loc_open:
  assumes "abfd st = OpenBfd" "a \<noteq> 0" "bl_scan_vma lib (ptr_string a) = a"
  shows "\<exists>st'. abfd st' = OpenBfd \<and> bfd_find_src_loc lib a st =
    (case first_hit lib a of None \<Rightarrow> Inr (1, None, st') | Some h \<Rightarrow> Inr (0, Some (located lib h), st'))"
proof -
  let ?st = "st\<lparr>bfd_pc := a, bfd_found := False\<rparr>"
  have f: "\<not> bfd_found ?st" by simp
  note m = fold_sections [OF f, of lib "zip [0..<length (bl_sections lib)] (bl_sections lib)"]
  show ?thesis
    using assms m
    by (auto simp: bfd_find_src_loc_def bfd_map_over_sections_def first_hit_def located_def Let_def
        split: list.splits option.splits prod.splits)
qed

section \<open>Labels\<close>

lemma function_label_length:
  "length (function_label a (file, line, func)) =
    41 + 2 * length func + length (ptr_string a) + length file + length (dec line)"
  by (simp add: function_label_def place_text_def)

lemma ptr_string_length: "length (ptr_string a) \<le> 18"
  using hex_word_length [of a] by (simp add: ptr_string_def)

lemma dec_int_length:
  assumes "- (2 ^ 31) \<le> k" "k < 2 ^ 31"
  shows "length (dec_int k) \<le> 11"
proof -
  have "length (dec (nat k)) \<le> 10" "length (dec (nat (- k))) \<le> 10"
    using assms by (intro dec_length_le; simp)+
  then show ?thesis by (simp add: dec_int_def)
qed

lemma relabel_open:
  assumes "abfd st = OpenBfd" "a \<noteq> 0" "bl_scan_vma lib (ptr_string a) = a"
  shows "\<exists>st'. abfd st' = OpenBfd \<and> relabel lib a mk st =
    (case first_hit lib a of None \<Rightarrow> Inl SymUnset
     | Some h \<Rightarrow> let new = mk (located lib h) in
         if length new \<ge> MAX_LABEL_SIZE then Inl (SymOverflow new) else Inr (new, st'))"
  using src_loc_open [OF assms] by (auto simp: relabel_def Let_def split: option.splits)

lemma new_labels_done: "scan_gcc_label (function_label a loc) = None" "scan_gcc_label (loop_label k a loc) = None"
  by (simp_all add: scan_gcc_label_def function_label_def loop_label_def)

lemma resolved_gcc:
  assumes "gcc_prof g"
  shows "rbind (resolve_pathscale lib g ('':'' @ ptr_string a, st)) (resolve_gcc lib g) = relabel lib a (function_label a) st"
  using assms by (simp add: resolve_pathscale_def resolve_gcc_def scan_path_gcc_label scan_gcc_hook_label)

lemma resolved_path:
  assumes "pathscale_prof g \<noteq> PATHSCALE_NONE" "\<And>loc. scan_gcc_label (mk loc) = None"
    and "scan_path_label l = Some (t, k, a)" "mk = (if t = CHR ''C'' then function_label a else loop_label k a)"
  shows "rbind (resolve_pathscale lib g (l, st)) (resolve_gcc lib g) = relabel lib a mk st"
proof -
  have p: "resolve_pathscale lib g (l, st) = relabel lib a mk st"
    using assms(1,3) by (simp add: resolve_pathscale_def assms(4))
  have "(\<exists>e. relabel lib a mk st = Inl e) \<or> (\<exists>loc st'. relabel lib a mk st = Inr (mk loc, st'))"
    by (auto simp: relabel_def split: sum.splits option.splits)
  then show ?thesis unfolding p by (elim disjE exE) (simp_all add: resolve_gcc_def assms(2))
qed

lemma relabel_closed:
  assumes "abfd st \<noteq> OpenBfd"
  shows "\<exists>e. relabel lib a mk st = Inl e"
  using assms by (cases "abfd st") (auto simp: relabel_def bfd_find_src_loc_def)

text \<open>With no open descriptor what is not an end leaves everything as it is.\<close>

lemma resolve_closed:
  assumes "abfd st \<noteq> OpenBfd"
  shows "resolve_caliper lib g j (t, st) = Inr (t', st') \<Longrightarrow> st' = st"
    and "resolve_from lib g js (t, st) = Inr (t', st') \<Longrightarrow> st' = st"
    and "resolve_threads lib is (g, st) = Inr (g', st') \<Longrightarrow> st' = st"
proof -
  have r: "relabel lib a mk st \<noteq> Inr x" for a mk x
    using relabel_closed [OF assms, of lib a mk] by auto
  have c: "st' = st" if "resolve_caliper lib g j (t, st) = Inr (t', st')" for g j t t' st'
    using that r by (auto simp: resolve_caliper_def resolve_pathscale_def resolve_gcc_def split: if_splits option.splits)
  then show "resolve_caliper lib g j (t, st) = Inr (t', st') \<Longrightarrow> st' = st" .
  have f: "st' = st" if "resolve_from lib g js (t, st) = Inr (t', st')" for g js t t' st'
    using that
  proof (induction js arbitrary: t)
    case (Cons j js)
    then obtain t1 st1 where "resolve_caliper lib g j (t, st) = Inr (t1, st1)" "resolve_from lib g js (t1, st1) = Inr (t', st')"
      by auto
    then show ?case using c Cons.IH by blast
  qed simp
  then show "resolve_from lib g js (t, st) = Inr (t', st') \<Longrightarrow> st' = st" .
  show "resolve_threads lib is (g, st) = Inr (g', st') \<Longrightarrow> st' = st"
  proof (induction "is" arbitrary: g)
    case (Cons i "is")
    then obtain t1 st1 g1 where "resolve_symbols lib g (thread_heap g ! i) st = Inr (t1, st1)"
      "resolve_threads lib is (g1, st1) = Inr (g', st')" by auto
    then show ?case using f Cons.IH unfolding resolve_symbols_def by blast
  qed simp
qed

lemma open_zero_closed:
  assumes "bfd_open_executable lib fullname st = Inr (0, st1)" "abfd st = NoBfd"
  shows "abfd st1 \<noteq> OpenBfd"
  using assms
  by (auto simp: bfd_open_executable_def open_failed_def bfd_warn_def Let_def split: option.splits if_splits list.splits)

section \<open>Properties\<close>

text \<open>C36: the labels of the compiler hooks are read back.  What papiex_start keeps of the
  label that the gcc hook gives a caliper, sscanf reads as the address of the function, and what
  it keeps of a label of a loop or a call as its kind, its number and its address, whatever
  these are; neither is cut by the size of a label.\<close>
theorem hook_labels_read_back:
  assumes "cal_label c = []" "p \<noteq> 0" "- (2 ^ 31) \<le> k" "k < 2 ^ 31"
  shows "scan_gcc_label (cal_label (start_label p (Some ('':'' @ ptr_string a)) c)) = Some a \<and>
    scan_path_label (cal_label (start_label p (Some ('':'' @ ptr_string a)) c)) = None \<and>
    scan_path_label (cal_label (start_label p (Some (point_label [t] k a)) c)) = Some (t, k, a)"
proof -
  have "length ('':'' @ ptr_string a) \<le> MAX_LABEL_SIZE - 1" "length (point_label [t] k a) \<le> MAX_LABEL_SIZE - 1"
    using ptr_string_length [of a] dec_int_length [OF assms(3,4)] by (simp_all add: MAX_LABEL_SIZE_def point_label_def)
  then show ?thesis
    using assms(1,2) by (simp add: start_label_def scan_gcc_hook_label scan_path_gcc_label scan_path_hook_label)
qed

theorem hook_labels_read_back_witness:
  "scan_path_label (cal_label (start_label 3 (Some (point_label ''L'' 12 4195638)) zero_caliper)) = Some (CHR ''L'', 12, 4195638)"
proof -
  have z: "cal_label zero_caliper = []" by (simp add: zero_caliper_def)
  show ?thesis using hook_labels_read_back [OF z, of 3 12 4195638 "CHR ''L''"] by simp
qed

text \<open>C37: what becomes of an instrumented function or loop at the end of the process.  With
  the executable open, the label of a used caliper that a compiler hook wrote is replaced by
  the text with the file, the function and the line BFD knows for the first section that holds
  the address, if it knows one and the text is shorter than the label.  An address BFD knows
  nothing of makes the code read variables nothing has set, and a longer text overflows the
  label.\<close>
theorem hook_calipers_resolved:
  assumes "abfd st = OpenBfd" "a \<noteq> 0" "bl_scan_vma lib (ptr_string a) = a" "0 < cal_used (pt_data t ! j)"
    and "(gcc_prof g \<and> cal_label (pt_data t ! j) = '':'' @ ptr_string a \<and> mk = function_label a) \<or>
      (pathscale_prof g \<noteq> PATHSCALE_NONE \<and> cal_label (pt_data t ! j) = point_label ''C'' k a \<and> mk = function_label a) \<or>
      (pathscale_prof g \<noteq> PATHSCALE_NONE \<and> cal_label (pt_data t ! j) = point_label ''L'' k a \<and> mk = loop_label k a)"
  shows "case first_hit lib a of
      None \<Rightarrow> resolve_caliper lib g j (t, st) = Inl SymUnset
    | Some h \<Rightarrow>
        if length (mk (located lib h)) \<ge> MAX_LABEL_SIZE
        then resolve_caliper lib g j (t, st) = Inl (SymOverflow (mk (located lib h)))
        else \<exists>st'. abfd st' = OpenBfd \<and> resolve_caliper lib g j (t, st) =
          Inr (upd_cal (int j) (\<lambda>c. c\<lparr>cal_label := mk (located lib h)\<rparr>) t, st')"
proof -
  obtain st' where st': "abfd st' = OpenBfd" "relabel lib a mk st =
    (case first_hit lib a of None \<Rightarrow> Inl SymUnset
     | Some h \<Rightarrow> let new = mk (located lib h) in
         if length new \<ge> MAX_LABEL_SIZE then Inl (SymOverflow new) else Inr (new, st'))"
    using relabel_open [OF assms(1-3)] by blast
  let ?after = "rbind (resolve_pathscale lib g (cal_label (pt_data t ! j), st)) (resolve_gcc lib g)"
  have "?after = relabel lib a mk st"
    using assms(5)
  proof (elim disjE conjE)
    assume "gcc_prof g" "cal_label (pt_data t ! j) = '':'' @ ptr_string a" "mk = function_label a"
    then show ?thesis using resolved_gcc by simp
  next
    assume "pathscale_prof g \<noteq> PATHSCALE_NONE" "cal_label (pt_data t ! j) = point_label ''C'' k a" "mk = function_label a"
    then show ?thesis
      using resolved_path [of g mk "point_label ''C'' k a" "CHR ''C''" k a] new_labels_done by (simp add: scan_path_hook_label)
  next
    assume "pathscale_prof g \<noteq> PATHSCALE_NONE" "cal_label (pt_data t ! j) = point_label ''L'' k a" "mk = loop_label k a"
    then show ?thesis
      using resolved_path [of g mk "point_label ''L'' k a" "CHR ''L''" k a] new_labels_done by (simp add: scan_path_hook_label)
  qed
  moreover have "resolve_caliper lib g j (t, st) =
      rbind ?after (\<lambda>(label, st'). Inr (upd_cal (int j) (\<lambda>c. c\<lparr>cal_label := label\<rparr>) t, st'))"
    using assms(4) by (cases "resolve_pathscale lib g (cal_label (pt_data t ! j), st)") (simp_all add: resolve_caliper_def)
  ultimately show ?thesis using st' by (auto simp: Let_def split: option.splits)
qed

text \<open>C38: when the executable cannot be read.  With instrumented code and an executable that
  BFD does not open, has no symbols for or takes for an archive, the end of the process never
  gets past the resolution of labels: the result of the open is not looked at, and the
  descriptor is then used or closed when it is closed already or was never opened.\<close>
theorem failed_open_ends_process:
  assumes "have_binutils b" "gcc_prof g \<or> pathscale_prof g \<noteq> PATHSCALE_NONE" "abfd st = NoBfd"
    and "bfd_open_executable lib fullname st = Inr (0, st1)"
  shows "\<exists>e. gather_papi_thread_data_ptrs b lib fullname (g, st) = Inl e"
proof (cases "resolve_threads lib (map snd (all_threads g)) (g, st1)")
  case (Inl e)
  then show ?thesis using assms by (simp add: gather_papi_thread_data_ptrs_def)
next
  case (Inr gs)
  obtain g2 st2 where gs: "gs = (g2, st2)" by (cases gs)
  note c = open_zero_closed [OF assms(4,3)]
  have "st2 = st1" using resolve_closed(3) [OF c] Inr gs by blast
  then have "\<exists>e. bfd_close_executable st2 = Inl e" using c by (cases "abfd st1") (auto simp: bfd_close_executable_def)
  then show ?thesis using assms Inr gs by (auto simp: gather_papi_thread_data_ptrs_def)
qed

text \<open>An executable with one section of code, and one that is stripped.\<close>

definition sample_bfd :: "bool \<Rightarrow> bfd_lib" where
  "sample_bfd syms = \<lparr>bl_openr = (\<lambda>_. True), bl_archive = False, bl_object = True, bl_matching = None,
     bl_has_syms = syms, bl_storage = 64, bl_symcount = 7,
     bl_sections = [\<lparr>sec_alloc = False, sec_vma = 0, sec_size = 8192\<rparr>, \<lparr>sec_alloc = True, sec_vma = 4096, sec_size = 512\<rparr>],
     bl_nearest = (\<lambda>k off. if off < 256 then Some (Some ''/src/a.c'', Some ''f'', 3) else Some (Some ''/src/solver.c'', Some ''conjugate_gradient'', 120)),
     bl_scan_vma = (\<lambda>s. case scan_pointer s of None \<Rightarrow> 0 | Some a \<Rightarrow> a), bl_demangle = (\<lambda>_. None)\<rparr>"

theorem failed_open_ends_process_witness:
  "\<exists>e. gather_papi_thread_data_ptrs \<lparr>profiling_support = True, have_binutils = True\<rparr> (sample_bfd False) (Some ''/bin/app'')
     ((pglob_start \<lparr>profiling_support = True, have_binutils = True\<rparr>)\<lparr>gcc_prof := True\<rparr>, bfdst_start) = Inl e"
proof -
  obtain st1 where o: "bfd_open_executable (sample_bfd False) (Some ''/bin/app'') bfdst_start = Inr (0, st1)"
    by (simp add: bfd_open_executable_def sample_bfd_def open_failed_def)
  show ?thesis by (rule failed_open_ends_process [OF _ _ _ o]) (simp_all add: bfdst_start_def)
qed

theorem hook_calipers_resolved_witness:
  "\<exists>st'. resolve_caliper (sample_bfd True) (sample_glob\<lparr>gcc_prof := True\<rparr>) 1
     (upd_cal 1 (\<lambda>c. c\<lparr>cal_label := '':'' @ ptr_string 4100, cal_used := 2\<rparr>) sample_thread, bfdst_start\<lparr>abfd := OpenBfd\<rparr>) =
     Inr (upd_cal 1 (\<lambda>c. c\<lparr>cal_label := ''Function f at 0x1004, File: a.c, Function: f, Line: 3''\<rparr>)
       (upd_cal 1 (\<lambda>c. c\<lparr>cal_label := '':'' @ ptr_string 4100, cal_used := 2\<rparr>) sample_thread), st') \<and>
   resolve_caliper (sample_bfd True) (sample_glob\<lparr>gcc_prof := True\<rparr>) 1
     (upd_cal 1 (\<lambda>c. c\<lparr>cal_label := '':'' @ ptr_string 4400, cal_used := 2\<rparr>) sample_thread, bfdst_start\<lparr>abfd := OpenBfd\<rparr>) =
     Inl (SymOverflow ''Function conjugate_gradient at 0x1130, File: solver.c, Function: conjugate_gradient, Line: 120'')"
proof -
  let ?t = "\<lambda>a. upd_cal 1 (\<lambda>c. c\<lparr>cal_label := '':'' @ ptr_string a, cal_used := 2\<rparr>) sample_thread"
  have t: "cal_used (pt_data (?t a) ! 1) = 2" "cal_label (pt_data (?t a) ! 1) = '':'' @ ptr_string a" for a
    by (simp_all add: upd_cal_def sample_thread_parts)
  have scan: "bl_scan_vma (sample_bfd True) (ptr_string a) = a" for a by (simp add: sample_bfd_def scan_ptr_string)
  have hit: "first_hit (sample_bfd True) 4100 = Some (Some ''/src/a.c'', Some ''f'', 3)"
    "first_hit (sample_bfd True) 4400 = Some (Some ''/src/solver.c'', Some ''conjugate_gradient'', 120)"
    by (simp_all add: first_hit_def section_hit_def sample_bfd_def List.map_filter_simps upt_rec)
  have new: "function_label 4100 (located (sample_bfd True) (Some ''/src/a.c'', Some ''f'', 3)) =
      ''Function f at 0x1004, File: a.c, Function: f, Line: 3''"
    "function_label 4400 (located (sample_bfd True) (Some ''/src/solver.c'', Some ''conjugate_gradient'', 120)) =
      ''Function conjugate_gradient at 0x1130, File: solver.c, Function: conjugate_gradient, Line: 120''"
    by (simp_all add: function_label_def place_text_def located_def function_text_def sample_bfd_def ptr_string_def
        hex_loop_step hex_char_def dec.simps digit.simps char_of_def bit_0)
  have lbl: "(gcc_prof (sample_glob\<lparr>gcc_prof := True\<rparr>) \<and> cal_label (pt_data (?t a) ! 1) = '':'' @ ptr_string a \<and>
        function_label a = function_label a) \<or> X" for a X by (simp only: t) simp
  have o: "abfd (bfdst_start\<lparr>abfd := OpenBfd\<rparr>) = OpenBfd" by simp
  have u: "0 < cal_used (pt_data (?t a) ! 1)" for a by (simp only: t)
  have nz: "(4100 :: 64 word) \<noteq> 0" "(4400 :: 64 word) \<noteq> 0" by simp_all
  note r = hook_calipers_resolved [OF o _ scan u lbl]
  show ?thesis using r [OF nz(1)] r [OF nz(2)] by (simp del: One_nat_def add: hit new MAX_LABEL_SIZE_def) blast
qed

end
