(* ===== verification/MpiWrap.thy ===== *)
theory MpiWrap
  imports CaliperFacts
begin

text \<open>
  papiex/src/mpiwrap_special.c: the wrappers of MPI_Barrier and of the MPI_Wait calls, which
  add the cycles of a call to the counts of the calling thread, and their Fortran versions,
  which convert handles.  The MPI library and its conversions are parameters; arrays behind
  pointers are functions from positions, so that a write outside shows.
\<close>

section \<open>The thread's structure\<close>

text \<open>The replacements of PAPI_get_thr_specific and PAPI_set_thr_specific in papiex.c, which
  always return PAPI_OK.\<close>

definition get_thread_data :: "nat \<Rightarrow> pglob \<Rightarrow> nat option" where
  "get_thread_data self g = thread_data g self"

definition set_thread_data :: "nat \<Rightarrow> nat option \<Rightarrow> pglob \<Rightarrow> pglob" where
  "set_thread_data self p g = g\<lparr>thread_data := (thread_data g)(self := p)\<rparr>"

section \<open>The state of the wrapper library\<close>

datatype mpi_fn = FnBarrier | FnWait | FnWaitall | FnWaitany | FnWaitsome

text \<open>Which of the pointers to the real functions are set.\<close>

record mpiw =
  papiex_mpiprof_gate :: int
  real_mpi :: "mpi_fn \<Rightarrow> bool"

definition mpiw_start :: mpiw where
  "mpiw_start = \<lparr>papiex_mpiprof_gate = 0, real_mpi = (\<lambda>_. False)\<rparr>"

text \<open>An end of the process: exit after an error of dlsym, abort, no memory for an array.\<close>

datatype wrap_end = DlErrorExit mpi_fn | WrapAbort | NoMemory int

text \<open>What a call meets: the answers of dlerror and dlsym, the cycle counter before and
  after, what else changes the state while the call runs, which arrays of a size malloc
  gives, and what new memory and a status on the stack hold.\<close>

record ('r, 's) wrap_env =
  we_dlerror :: bool
  we_found :: bool
  we_start :: clonglong
  we_end :: clonglong
  we_during :: "mpiw \<times> pglob \<Rightarrow> mpiw \<times> pglob"
  we_malloc_requests :: "int \<Rightarrow> bool"
  we_malloc_statuses :: "int \<Rightarrow> bool"
  we_junk_requests :: "nat \<Rightarrow> 'r"
  we_junk_status :: 's
  we_junk_statuses :: "nat \<Rightarrow> 's"

definition resolve_real :: "mpi_fn \<Rightarrow> ('r, 's) wrap_env \<Rightarrow> mpiw \<Rightarrow> wrap_end + mpiw" where
  "resolve_real f env w =
    (if real_mpi w f then Inr w
     else if we_dlerror env then Inl (DlErrorExit f)
     else if \<not> we_found env then Inl WrapAbort
     else Inr (w\<lparr>real_mpi := (real_mpi w)(f := True)\<rparr>))"

definition add_mpi_time :: "clonglong \<Rightarrow> perthread \<Rightarrow> perthread" where
  "add_mpi_time d t = t\<lparr>papiex_mpiprof := papiex_mpiprof t + d, papiex_mpisyncprof := papiex_mpisyncprof t + d\<rparr>"

text \<open>The gate is read again after the call.\<close>

definition charge :: "nat option \<Rightarrow> clonglong \<Rightarrow> mpiw \<times> pglob \<Rightarrow> mpiw \<times> pglob" where
  "charge thread d = (\<lambda>(w, g).
     case thread of
       None \<Rightarrow> (w, g)
     | Some i \<Rightarrow>
         if papiex_mpiprof_gate w = 0 then (w, g)
         else (w, g\<lparr>thread_heap := (thread_heap g)[i := add_mpi_time d (thread_heap g ! i)]\<rparr>))"

text \<open>The body the five wrappers have in common, around what the real function returns.\<close>

definition wrapped :: "mpi_fn \<Rightarrow> ('r, 's) wrap_env \<Rightarrow> nat \<Rightarrow> 'o \<Rightarrow> mpiw \<times> pglob \<Rightarrow> wrap_end + ('o \<times> mpiw \<times> pglob)" where
  "wrapped f env self result = (\<lambda>(w, g).
     let gate = (papiex_mpiprof_gate w \<noteq> 0);
         thread = (if gate then get_thread_data self g else None);
         localstart = (if gate then we_start env else 0)
     in rbind (resolve_real f env w) (\<lambda>w1.
          Inr (result, charge thread (we_end env - localstart) (we_during env (w1, g)))))"

section \<open>The C interface\<close>

text \<open>A real function takes the arguments and returns its code with what it leaves in them.\<close>

type_synonym ('r, 's) real_wait = "'r \<Rightarrow> 's \<Rightarrow> int \<times> 'r \<times> 's"
type_synonym ('r, 's) real_waitall = "int \<Rightarrow> (nat \<Rightarrow> 'r) \<Rightarrow> (nat \<Rightarrow> 's) \<Rightarrow> int \<times> (nat \<Rightarrow> 'r) \<times> (nat \<Rightarrow> 's)"
type_synonym ('r, 's) real_waitany = "int \<Rightarrow> (nat \<Rightarrow> 'r) \<Rightarrow> int \<Rightarrow> 's \<Rightarrow> int \<times> (nat \<Rightarrow> 'r) \<times> int \<times> 's"
type_synonym ('r, 's) real_waitsome =
  "int \<Rightarrow> (nat \<Rightarrow> 'r) \<Rightarrow> int \<Rightarrow> (nat \<Rightarrow> int) \<Rightarrow> (nat \<Rightarrow> 's) \<Rightarrow>
   int \<times> (nat \<Rightarrow> 'r) \<times> int \<times> (nat \<Rightarrow> int) \<times> (nat \<Rightarrow> 's)"

definition MPI_Barrier ::
  "('c \<Rightarrow> int) \<Rightarrow> ('r, 's) wrap_env \<Rightarrow> nat \<Rightarrow> 'c \<Rightarrow> mpiw \<times> pglob \<Rightarrow> wrap_end + (int \<times> mpiw \<times> pglob)" where
  "MPI_Barrier real env self comm s = wrapped FnBarrier env self (real comm) s"

definition MPI_Wait ::
  "('r, 's) real_wait \<Rightarrow> ('r, 's) wrap_env \<Rightarrow> nat \<Rightarrow> 'r \<Rightarrow> 's \<Rightarrow> mpiw \<times> pglob \<Rightarrow>
   wrap_end + ((int \<times> 'r \<times> 's) \<times> mpiw \<times> pglob)" where
  "MPI_Wait real env self in_request status s = wrapped FnWait env self (real in_request status) s"

definition MPI_Waitall ::
  "('r, 's) real_waitall \<Rightarrow> ('r, 's) wrap_env \<Rightarrow> nat \<Rightarrow> int \<Rightarrow> (nat \<Rightarrow> 'r) \<Rightarrow> (nat \<Rightarrow> 's) \<Rightarrow> mpiw \<times> pglob \<Rightarrow>
   wrap_end + ((int \<times> (nat \<Rightarrow> 'r) \<times> (nat \<Rightarrow> 's)) \<times> mpiw \<times> pglob)" where
  "MPI_Waitall real env self count requests statuses s =
     wrapped FnWaitall env self (real count requests statuses) s"

definition MPI_Waitany ::
  "('r, 's) real_waitany \<Rightarrow> ('r, 's) wrap_env \<Rightarrow> nat \<Rightarrow> int \<Rightarrow> (nat \<Rightarrow> 'r) \<Rightarrow> int \<Rightarrow> 's \<Rightarrow> mpiw \<times> pglob \<Rightarrow>
   wrap_end + ((int \<times> (nat \<Rightarrow> 'r) \<times> int \<times> 's) \<times> mpiw \<times> pglob)" where
  "MPI_Waitany real env self count requests index status s =
     wrapped FnWaitany env self (real count requests index status) s"

definition MPI_Waitsome ::
  "('r, 's) real_waitsome \<Rightarrow> ('r, 's) wrap_env \<Rightarrow> nat \<Rightarrow> int \<Rightarrow> (nat \<Rightarrow> 'r) \<Rightarrow> int \<Rightarrow> (nat \<Rightarrow> int) \<Rightarrow> (nat \<Rightarrow> 's) \<Rightarrow>
   mpiw \<times> pglob \<Rightarrow> wrap_end + ((int \<times> (nat \<Rightarrow> 'r) \<times> int \<times> (nat \<Rightarrow> int) \<times> (nat \<Rightarrow> 's)) \<times> mpiw \<times> pglob)" where
  "MPI_Waitsome real env self count requests outcount indices statuses s =
     wrapped FnWaitsome env self (real count requests outcount indices statuses) s"

section \<open>The Fortran interface\<close>

text \<open>A handle or a status of Fortran is made of integers.\<close>

type_synonym mpi_fint = int

record ('r, 's) mpi_conv =
  request_f2c :: "mpi_fint \<Rightarrow> 'r"
  request_c2f :: "'r \<Rightarrow> mpi_fint"
  status_c2f :: "'s \<Rightarrow> mpi_fint list"

definition MPI_SUCCESS :: int where "MPI_SUCCESS = 0"

text \<open>The pointer to the Fortran handle is cast to one to a C handle: what it then reads is
  the argument.\<close>

definition mpi_barrier_fortran ::
  "('c \<Rightarrow> int) \<Rightarrow> ('r, 's) wrap_env \<Rightarrow> nat \<Rightarrow> 'c \<Rightarrow> mpiw \<times> pglob \<Rightarrow> wrap_end + (int \<times> mpiw \<times> pglob)" where
  "mpi_barrier_fortran real env self comm s = MPI_Barrier real env self comm s"

text \<open>Results: the error code with the request and the status.\<close>

definition mpi_wait_fortran ::
  "('r, 's) mpi_conv \<Rightarrow> ('r, 's) real_wait \<Rightarrow> ('r, 's) wrap_env \<Rightarrow> nat \<Rightarrow> mpi_fint \<Rightarrow> mpiw \<times> pglob \<Rightarrow>
   wrap_end + ((int \<times> mpi_fint \<times> mpi_fint list) \<times> mpiw \<times> pglob)" where
  "mpi_wait_fortran cv real env self req s =
     rbind (MPI_Wait real env self (request_f2c cv req) (we_junk_status env) s)
       (\<lambda>((rc, r, st), s'). Inr ((rc, request_c2f cv r, status_c2f cv st), s'))"

text \<open>The array of C requests, which holds its old contents after its end.\<close>

definition requests_to_c :: "('r, 's) mpi_conv \<Rightarrow> ('r, 's) wrap_env \<Rightarrow> int \<Rightarrow> (nat \<Rightarrow> mpi_fint) \<Rightarrow> nat \<Rightarrow> 'r" where
  "requests_to_c cv env count requests =
    (\<lambda>i. if int i < count then request_f2c cv (requests i) else we_junk_requests env i)"

definition allocate :: "(int \<Rightarrow> bool) \<Rightarrow> int \<Rightarrow> wrap_end + unit" where
  "allocate malloc count = (if malloc count then Inr () else Inl (NoMemory count))"

text \<open>The loop of MPI_Waitall copies every request and every status back.\<close>

fun waitall_back ::
  "('r, 's) mpi_conv \<Rightarrow> (nat \<Rightarrow> 'r) \<Rightarrow> (nat \<Rightarrow> 's) \<Rightarrow> nat list \<Rightarrow> (nat \<Rightarrow> mpi_fint) \<times> (nat \<Rightarrow> mpi_fint list) \<Rightarrow>
   (nat \<Rightarrow> mpi_fint) \<times> (nat \<Rightarrow> mpi_fint list)" where
  "waitall_back cv rs sts [] a = a"
| "waitall_back cv rs sts (i # is) (requests, statuses) =
    waitall_back cv rs sts is (requests(i := request_c2f cv (rs i)), statuses(i := status_c2f cv (sts i)))"

definition mpi_waitall_fortran ::
  "('r, 's) mpi_conv \<Rightarrow> ('r, 's) real_waitall \<Rightarrow> ('r, 's) wrap_env \<Rightarrow> nat \<Rightarrow> int \<Rightarrow> (nat \<Rightarrow> mpi_fint) \<Rightarrow> (nat \<Rightarrow> mpi_fint list) \<Rightarrow>
   mpiw \<times> pglob \<Rightarrow> wrap_end + ((int \<times> (nat \<Rightarrow> mpi_fint) \<times> (nat \<Rightarrow> mpi_fint list)) \<times> mpiw \<times> pglob)" where
  "mpi_waitall_fortran cv real env self count requests statuses s =
     rbind (allocate (we_malloc_requests env) count) (\<lambda>_.
     rbind (allocate (we_malloc_statuses env) count) (\<lambda>_.
     rbind (MPI_Waitall real env self count (requests_to_c cv env count requests) (we_junk_statuses env) s)
       (\<lambda>((rc, rs, sts), s').
          Inr ((rc, waitall_back cv rs sts [0..<nat count] (requests, statuses)), s'))))"

text \<open>The index counts from one in Fortran.\<close>

definition mpi_waitany_fortran ::
  "('r, 's) mpi_conv \<Rightarrow> ('r, 's) real_waitany \<Rightarrow> ('r, 's) wrap_env \<Rightarrow> nat \<Rightarrow> int \<Rightarrow> (nat \<Rightarrow> mpi_fint) \<Rightarrow> int \<Rightarrow> mpi_fint list \<Rightarrow>
   mpiw \<times> pglob \<Rightarrow> wrap_end + ((int \<times> (nat \<Rightarrow> mpi_fint) \<times> int \<times> mpi_fint list) \<times> mpiw \<times> pglob)" where
  "mpi_waitany_fortran cv real env self count requests index status s =
     rbind (allocate (we_malloc_requests env) count) (\<lambda>_.
     rbind (MPI_Waitany real env self count (requests_to_c cv env count requests) index (we_junk_status env) s)
       (\<lambda>((rc, rs, index', st), s').
          Inr (if rc = MPI_SUCCESS
               then if index' \<ge> 0
                    then ((rc, requests(nat index' := request_c2f cv (rs (nat index'))), index' + 1, status_c2f cv st), s')
                    else ((rc, requests, index', status_c2f cv st), s')
               else ((rc, requests, index', status), s'))))"

text \<open>The search of MPI_Waitsome for an index among the completed ones.\<close>

fun index_among :: "(nat \<Rightarrow> int) \<Rightarrow> nat \<Rightarrow> nat list \<Rightarrow> bool" where
  "index_among indices i [] = False"
| "index_among indices i (j # js) = (if indices j = int i then True else index_among indices i js)"

definition waitsome_back_at ::
  "('r, 's) mpi_conv \<Rightarrow> (nat \<Rightarrow> 'r) \<Rightarrow> int \<Rightarrow> (nat \<Rightarrow> int) \<Rightarrow> nat \<Rightarrow> (nat \<Rightarrow> mpi_fint) \<Rightarrow> nat \<Rightarrow> mpi_fint" where
  "waitsome_back_at cv rs outcount indices i requests =
    (if int i < outcount
     then if indices i \<ge> 0
          then requests(nat (indices i) := request_c2f cv (rs (nat (indices i)))) else requests
     else if index_among indices i [0..<nat outcount] then requests
     else requests(i := request_c2f cv (rs i)))"

text \<open>The second loop: the statuses, and indices that count from one.\<close>

definition waitsome_finish_at ::
  "('r, 's) mpi_conv \<Rightarrow> (nat \<Rightarrow> 's) \<Rightarrow> nat \<Rightarrow> (nat \<Rightarrow> int) \<times> (nat \<Rightarrow> mpi_fint list) \<Rightarrow> (nat \<Rightarrow> int) \<times> (nat \<Rightarrow> mpi_fint list)" where
  "waitsome_finish_at cv sts i = (\<lambda>(indices, statuses).
     (if indices i \<ge> 0 then indices(i := indices i + 1) else indices, statuses(i := status_c2f cv (sts i))))"

definition mpi_waitsome_fortran ::
  "('r, 's) mpi_conv \<Rightarrow> ('r, 's) real_waitsome \<Rightarrow> ('r, 's) wrap_env \<Rightarrow> nat \<Rightarrow> int \<Rightarrow> (nat \<Rightarrow> mpi_fint) \<Rightarrow> int \<Rightarrow> (nat \<Rightarrow> int) \<Rightarrow>
   (nat \<Rightarrow> mpi_fint list) \<Rightarrow> mpiw \<times> pglob \<Rightarrow>
   wrap_end + ((int \<times> (nat \<Rightarrow> mpi_fint) \<times> int \<times> (nat \<Rightarrow> int) \<times> (nat \<Rightarrow> mpi_fint list)) \<times> mpiw \<times> pglob)" where
  "mpi_waitsome_fortran cv real env self count requests outcount indices statuses s =
     rbind (allocate (we_malloc_requests env) count) (\<lambda>_.
     rbind (allocate (we_malloc_statuses env) count) (\<lambda>_.
     rbind (MPI_Waitsome real env self count (requests_to_c cv env count requests) outcount indices (we_junk_statuses env) s)
       (\<lambda>((rc, rs, outcount', indices', sts), s').
          Inr ((rc, fold (waitsome_back_at cv rs outcount' indices') [0..<nat count] requests, outcount',
                fold (waitsome_finish_at cv sts) [0..<nat outcount'] (indices', statuses)), s'))))"

end
