(* ===== verification/MpiWrapFacts.thy ===== *)
theory MpiWrapFacts
  imports MpiWrap
begin

text \<open>
  Where the time of the wrapped MPI calls goes, and how the Fortran wrappers agree with the C
  calls they make.
\<close>

section \<open>Loops that write positions\<close>

text \<open>A loop that writes at the position the index names, always the value of that position.\<close>

lemma fold_writes:
  assumes "\<And>i a. i \<in> set is \<Longrightarrow> f i a = (case target i of None \<Rightarrow> a | Some q \<Rightarrow> a(q := v q))"
  shows "fold f is a p = (if \<exists>i\<in>set is. target i = Some p then v p else a p)"
  using assms
proof (induction "is" arbitrary: a)
  case (Cons i "is")
  have "f i a p = (if target i = Some p then v p else a p)"
    using Cons.prems by (auto split: option.splits)
  moreover have "fold f is (f i a) p = (if \<exists>i\<in>set is. target i = Some p then v p else f i a p)"
    using Cons by simp
  ultimately show ?case by auto
qed simp

lemma waitall_back_eq:
  "waitall_back cv rs sts is (requests, statuses) =
    (\<lambda>p. if p \<in> set is then request_c2f cv (rs p) else requests p,
     \<lambda>p. if p \<in> set is then status_c2f cv (sts p) else statuses p)"
  by (induction "is" arbitrary: requests statuses) (auto simp: fun_eq_iff)

lemma index_among_iff: "index_among indices i js \<longleftrightarrow> (\<exists>j\<in>set js. indices j = int i)"
  by (induction js) auto

definition waitsome_target :: "int \<Rightarrow> (nat \<Rightarrow> int) \<Rightarrow> nat \<Rightarrow> nat option" where
  "waitsome_target outcount indices i =
    (if int i < outcount then if indices i \<ge> 0 then Some (nat (indices i)) else None
     else if index_among indices i [0..<nat outcount] then None else Some i)"

lemma waitsome_back_eq:
  "fold (waitsome_back_at cv rs outcount indices) is requests p =
    (if \<exists>i\<in>set is. waitsome_target outcount indices i = Some p then request_c2f cv (rs p) else requests p)"
  by (rule fold_writes) (auto simp: waitsome_back_at_def waitsome_target_def)

lemma waitsome_finish_eq:
  "fold (waitsome_finish_at cv sts) [0..<n] (indices, statuses) =
    (\<lambda>j. if j < n \<and> indices j \<ge> 0 then indices j + 1 else indices j,
     \<lambda>j. if j < n then status_c2f cv (sts j) else statuses j)"
  by (induction n) (auto simp: waitsome_finish_at_def fun_eq_iff less_Suc_eq)

section \<open>The Fortran wrappers\<close>

lemma fortran_waitall:
  assumes "mpi_waitall_fortran cv real env self count requests statuses s = Inr ((rc, requests', statuses'), s')"
  obtains rs sts where
    "MPI_Waitall real env self count (requests_to_c cv env count requests) (we_junk_statuses env) s = Inr ((rc, rs, sts), s')"
    "requests' = (\<lambda>i. if int i < count then request_c2f cv (rs i) else requests i)"
    "statuses' = (\<lambda>i. if int i < count then status_c2f cv (sts i) else statuses i)"
  using assms
  by (force simp: mpi_waitall_fortran_def waitall_back_eq fun_eq_iff zless_nat_eq_int_zless)

text \<open>After an MPI_Waitany that failed the index is not counted from one.\<close>

lemma fortran_waitany:
  assumes "mpi_waitany_fortran cv real env self count requests index status s = Inr ((rc, requests', index', status'), s')"
  obtains rs ix st where
    "MPI_Waitany real env self count (requests_to_c cv env count requests) index (we_junk_status env) s = Inr ((rc, rs, ix, st), s')"
    "index' = (if rc = MPI_SUCCESS \<and> ix \<ge> 0 then ix + 1 else ix)"
    "requests' = (\<lambda>i. if rc = MPI_SUCCESS \<and> ix = int i then request_c2f cv (rs i) else requests i)"
    "status' = (if rc = MPI_SUCCESS then status_c2f cv st else status)"
proof -
  obtain rs ix st s1 where c:
    "MPI_Waitany real env self count (requests_to_c cv env count requests) index (we_junk_status env) s = Inr ((rc, rs, ix, st), s1)"
    "s1 = s'"
    using assms by (auto simp: mpi_waitany_fortran_def split: if_splits)
  show ?thesis
    by (rule that [OF c(1) [unfolded c(2)]])
      (use assms c in \<open>auto simp: mpi_waitany_fortran_def fun_eq_iff nat_eq_iff2 split: if_splits\<close>)
qed

text \<open>What MPI says of the requests that MPI_Waitsome completes: no more than there are, in
  range, and the others are left alone.  MPI_UNDEFINED is a negative count.\<close>

definition waitsome_completes ::
  "int \<Rightarrow> (nat \<Rightarrow> 'r) \<Rightarrow> int \<times> (nat \<Rightarrow> 'r) \<times> int \<times> (nat \<Rightarrow> int) \<times> (nat \<Rightarrow> 's) \<Rightarrow> bool" where
  "waitsome_completes count before = (\<lambda>(rc, after, outcount, indices, statuses).
     outcount \<le> count \<and> (\<forall>j<nat outcount. 0 \<le> indices j \<and> indices j < count) \<and>
     (\<forall>i<nat count. (\<forall>j<nat outcount. indices j \<noteq> int i) \<longrightarrow> after i = before i))"

lemma waitsome_targets:
  assumes "outcount \<le> count" "\<forall>j<nat outcount. 0 \<le> indices j \<and> indices j < count"
  shows "(\<exists>i\<in>set [0..<nat count]. waitsome_target outcount indices i = Some p) \<longleftrightarrow>
    int p < count \<and> (outcount \<le> int p \<or> (\<exists>j<nat outcount. indices j = int p))"
    (is "?l \<longleftrightarrow> ?r")
proof
  assume ?l
  then obtain i where "int i < count" "waitsome_target outcount indices i = Some p"
    by (auto simp: zless_nat_eq_int_zless)
  moreover have "\<exists>j<nat outcount. indices j = int p" if "int i < outcount" "indices i \<ge> 0" "nat (indices i) = p"
    using that by (intro exI [of _ i]) (auto simp: zless_nat_eq_int_zless)
  ultimately show ?r using assms by (auto simp: waitsome_target_def split: if_splits)
next
  assume r: ?r
  show ?l
  proof (cases "\<exists>j<nat outcount. indices j = int p")
    case True
    then obtain j where "j < nat outcount" "indices j = int p" by blast
    then show ?l using assms by (intro bexI [of _ j]) (auto simp: waitsome_target_def)
  next
    case False
    then show ?l using r by (intro bexI [of _ p]) (auto simp: waitsome_target_def index_among_iff)
  qed
qed

lemma waitsome_back_all:
  assumes "outcount \<le> count" "\<forall>j<nat outcount. 0 \<le> indices j \<and> indices j < count"
  shows "fold (waitsome_back_at cv rs outcount indices) [0..<nat count] requests p =
    (if int p < count \<and> (outcount \<le> int p \<or> (\<exists>j<nat outcount. indices j = int p))
     then request_c2f cv (rs p) else requests p)"
  by (simp only: waitsome_back_eq waitsome_targets [OF assms])

section \<open>The time of the calls\<close>

text \<open>What else runs during a call touches neither the gate nor this thread's structure.\<close>

definition leaves :: "nat \<Rightarrow> ('r, 's) wrap_env \<Rightarrow> bool" where
  "leaves i env \<longleftrightarrow> (\<forall>w g. \<exists>w' h. we_during env (w, g) = (w', g\<lparr>thread_heap := h\<rparr>) \<and>
     papiex_mpiprof_gate w' = papiex_mpiprof_gate w \<and>
     length h = length (thread_heap g) \<and> h ! i = thread_heap g ! i)"

text \<open>A thread's MPI calls and its calls on calipers, in their order.\<close>

datatype ('r, 's) thread_step = MpiStep mpi_fn "('r, 's) wrap_env" | CalStep cal_op

fun run_step :: "nat \<Rightarrow> ('r, 's) thread_step \<Rightarrow> mpiw \<times> pglob \<Rightarrow> (wrap_end + papiex_error) + (mpiw \<times> pglob)" where
  "run_step self (MpiStep f env) s =
    (case wrapped f env self () s of Inl e \<Rightarrow> Inl (Inl e) | Inr (_, s') \<Rightarrow> Inr s')"
| "run_step self (CalStep op) (w, g) =
    (case with_thread self (run_op g op) g of Inl e \<Rightarrow> Inl (Inr e) | Inr g' \<Rightarrow> Inr (w, g'))"

fun run_steps :: "nat \<Rightarrow> ('r, 's) thread_step list \<Rightarrow> mpiw \<times> pglob \<Rightarrow> (wrap_end + papiex_error) + (mpiw \<times> pglob)" where
  "run_steps self [] s = Inr s"
| "run_steps self (k # ks) s = rbind (run_step self k s) (run_steps self ks)"

fun step_time :: "('r, 's) thread_step \<Rightarrow> clonglong" where
  "step_time (MpiStep f env) = we_end env - we_start env"
| "step_time (CalStep op) = 0"

text \<open>A step that neither changes this thread from outside nor calls on caliper 0.\<close>

fun step_ok :: "nat \<Rightarrow> ('r, 's) thread_step \<Rightarrow> bool" where
  "step_ok i (MpiStep f env) = leaves i env"
| "step_ok i (CalStep op) = (nat (op_point op) \<noteq> 0)"

lemma add_mpi_time_parts [simp]:
  "pt_data (add_mpi_time d t) = pt_data t" "papiex_mpiprof (add_mpi_time d t) = papiex_mpiprof t + d"
  "papiex_mpisyncprof (add_mpi_time d t) = papiex_mpisyncprof t + d"
  "max_caliper_entries (add_mpi_time d t) = max_caliper_entries t"
  by (simp_all add: add_mpi_time_def)

text \<open>The thread's part of a state: the MPI time, its other counts and caliper 0.\<close>

definition grown :: "clonglong \<Rightarrow> perthread \<Rightarrow> perthread \<Rightarrow> bool" where
  "grown d t t' \<longleftrightarrow> papiex_mpiprof t' = papiex_mpiprof t + d \<and> papiex_mpisyncprof t' = papiex_mpisyncprof t + d \<and>
     pt_data t' ! 0 = pt_data t ! 0 \<and> max_caliper_entries t' = max_caliper_entries t \<and>
     length (pt_data t') = length (pt_data t)"

lemma grown_trans: "grown d t t' \<Longrightarrow> grown e t' t'' \<Longrightarrow> grown (d + e) t t''"
  by (simp add: grown_def add.assoc)

lemma upd_cal_prof [simp]:
  "papiex_mpiprof (upd_cal p f t) = papiex_mpiprof t" "papiex_mpisyncprof (upd_cal p f t) = papiex_mpisyncprof t"
  by (simp_all add: upd_cal_def)

lemma run_op_prof:
  assumes "run_op g op t = Inr t'"
  shows "papiex_mpiprof t' = papiex_mpiprof t" "papiex_mpisyncprof t' = papiex_mpisyncprof t"
  using assms by (cases op; auto simp: cal_start_def cal_stop_def cal_accum_def Let_def split: if_splits)+

text \<open>The state of one thread that profiles MPI.\<close>

definition profiles :: "nat \<Rightarrow> nat \<Rightarrow> mpiw \<times> pglob \<Rightarrow> bool" where
  "profiles self i = (\<lambda>(w, g). papiex_mpiprof_gate w \<noteq> 0 \<and> thread_data g self = Some i \<and>
     i < length (thread_heap g) \<and> eventcnt g \<noteq> 0)"

lemma step_grows:
  assumes "profiles self i (w, g)" "step_ok i k" "run_step self k (w, g) = Inr (w', g')"
  shows "\<exists>h. g' = g\<lparr>thread_heap := h\<rparr> \<and> profiles self i (w', g') \<and>
    grown (step_time k) (thread_heap g ! i) (h ! i)"
proof (cases k)
  case (MpiStep f env)
  obtain w1 where w1: "resolve_real f env w = Inr w1"
    using assms(3) MpiStep by (cases "resolve_real f env w") (auto simp: wrapped_def Let_def)
  then have gate1: "papiex_mpiprof_gate w1 = papiex_mpiprof_gate w"
    by (auto simp: resolve_real_def split: if_splits)
  have "leaves i env" using assms(2) MpiStep by simp
  then obtain w2 h where d: "we_during env (w1, g) = (w2, g\<lparr>thread_heap := h\<rparr>)"
    "papiex_mpiprof_gate w2 = papiex_mpiprof_gate w1" "length h = length (thread_heap g)" "h ! i = thread_heap g ! i"
    unfolding leaves_def by blast
  have "(w', g') = charge (Some i) (we_end env - we_start env) (w2, g\<lparr>thread_heap := h\<rparr>)"
    using assms(1,3) MpiStep w1 d(1) by (simp add: wrapped_def profiles_def get_thread_data_def Let_def)
  then have "w' = w2" "g' = g\<lparr>thread_heap := h[i := add_mpi_time (step_time k) (h ! i)]\<rparr>"
    using assms(1) d gate1 MpiStep by (simp_all add: charge_def profiles_def)
  then show ?thesis using assms(1) d gate1 by (auto simp: profiles_def grown_def)
next
  case (CalStep op)
  obtain t where t: "run_op g op (thread_heap g ! i) = Inr t" "g' = g\<lparr>thread_heap := (thread_heap g)[i := t]\<rparr>" "w' = w"
    using assms(1,3) CalStep by (auto simp: with_thread_def profiles_def split: sum.splits)
  note f = cal_step_frame [OF t(1)]
  show ?thesis using assms(1,2) CalStep t f run_op_prof [OF t(1)] by (auto simp: profiles_def grown_def)
qed

lemma steps_grow:
  assumes "profiles self i (w, g)" "\<forall>k\<in>set ks. step_ok i k" "run_steps self ks (w, g) = Inr (w', g')"
  shows "\<exists>h. g' = g\<lparr>thread_heap := h\<rparr> \<and> profiles self i (w', g') \<and>
    grown (sum_list (map step_time ks)) (thread_heap g ! i) (h ! i)"
  using assms
proof (induction ks arbitrary: w g)
  case Nil
  have "g = g\<lparr>thread_heap := thread_heap g\<rparr>" by (cases g) simp
  then show ?case using Nil by (intro exI [of _ "thread_heap g"]) (simp add: grown_def)
next
  case (Cons k ks)
  obtain w1 g1 where 1: "run_step self k (w, g) = Inr (w1, g1)" "run_steps self ks (w1, g1) = Inr (w', g')"
    using Cons.prems(3) by auto
  obtain h1 where a: "g1 = g\<lparr>thread_heap := h1\<rparr>" "profiles self i (w1, g1)"
    "grown (step_time k) (thread_heap g ! i) (h1 ! i)"
    using step_grows [OF Cons.prems(1) _ 1(1)] Cons.prems(2) by auto
  obtain h2 where b: "g' = g1\<lparr>thread_heap := h2\<rparr>" "profiles self i (w', g')"
    "grown (sum_list (map step_time ks)) (thread_heap g1 ! i) (h2 ! i)"
    using Cons.IH [OF a(2) _ 1(2)] Cons.prems(2) by auto
  show ?case using a b grown_trans [of "step_time k" "thread_heap g ! i" "h1 ! i"] by auto
qed

text \<open>What papiex_start and papiex_stop of caliper 0 do with the MPI time.\<close>

lemma start_notes_mpi:
  assumes "cal_start g r 0 l t = Inr t'" "pt_data t \<noteq> []" "is_mpied g" "\<not> no_mpi_prof g" "0 < max_caliper_entries t"
  shows "tmp_mpiprof (pt_data t' ! 0) = papiex_mpiprof t" "tmp_mpisyncprof (pt_data t' ! 0) = papiex_mpisyncprof t"
    "mpiprof (pt_data t' ! 0) = mpiprof (pt_data t ! 0)" "mpisyncprof (pt_data t' ! 0) = mpisyncprof (pt_data t ! 0)"
    "papiex_mpiprof t' = papiex_mpiprof t" "papiex_mpisyncprof t' = papiex_mpisyncprof t"
    "pt_data t' \<noteq> []" "max_caliper_entries t' = max_caliper_entries t"
  using assms
  by (auto simp: cal_start_def start_clocks_def start_read_def start_label_def Let_def split: if_splits option.splits)

lemma stop_adds_mpi:
  assumes "cal_stop g r 0 t = Inr t'" "pt_data t \<noteq> []" "is_mpied g" "\<not> no_mpi_prof g" "0 < max_caliper_entries t"
    and "read_status g r"
  shows "mpiprof (pt_data t' ! 0) = mpiprof (pt_data t ! 0) + (papiex_mpiprof t - tmp_mpiprof (pt_data t ! 0))"
    "mpisyncprof (pt_data t' ! 0) = mpisyncprof (pt_data t ! 0) + (papiex_mpisyncprof t - tmp_mpisyncprof (pt_data t ! 0))"
    "papiex_mpiprof t' = papiex_mpiprof t"
  using assms
  by (auto simp: cal_stop_def stop_clocks_def add_counters_def Let_def split: if_splits)

section \<open>Properties\<close>

text \<open>C35: the Fortran MPI_Waitsome agrees with the C one.  Whatever requests MPI completes,
  as long as it does so as MPI says and the conversions of the handles are inverse, the
  wrapper ends as the C wrapper on the converted requests does: every request up to the count
  is the conversion of the C request, though the loops write only some of them and in the order
  of the indices; the completed indices count from one and their statuses are converted; and
  nothing after the count or after the completed ones is written.\<close>
theorem fortran_waitsome_agrees:
  assumes "we_malloc_requests env count" "we_malloc_statuses env count"
    and "\<forall>i<nat count. request_c2f cv (request_f2c cv (requests i)) = requests i"
    and "waitsome_completes count (requests_to_c cv env count requests)
      (real count (requests_to_c cv env count requests) outcount indices (we_junk_statuses env))"
  shows "mpi_waitsome_fortran cv real env self count requests outcount indices statuses s =
    rbind (MPI_Waitsome real env self count (requests_to_c cv env count requests) outcount indices (we_junk_statuses env) s)
      (\<lambda>((rc, rs, oc, ix, sts), s').
         Inr ((rc, \<lambda>i. if int i < count then request_c2f cv (rs i) else requests i, oc,
               \<lambda>j. if int j < oc then ix j + 1 else ix j,
               \<lambda>j. if int j < oc then status_c2f cv (sts j) else statuses j), s'))"
proof -
  obtain rc rs oc ix sts where r:
    "real count (requests_to_c cv env count requests) outcount indices (we_junk_statuses env) = (rc, rs, oc, ix, sts)"
    by (cases "real count (requests_to_c cv env count requests) outcount indices (we_junk_statuses env)") auto
  have c: "oc \<le> count" "\<forall>j<nat oc. 0 \<le> ix j \<and> ix j < count"
    "\<forall>i<nat count. (\<forall>j<nat oc. ix j \<noteq> int i) \<longrightarrow> rs i = requests_to_c cv env count requests i"
    using assms(4) r by (auto simp: waitsome_completes_def)
  have a: "fold (waitsome_back_at cv rs oc ix) [0..<nat count] requests =
      (\<lambda>i. if int i < count then request_c2f cv (rs i) else requests i)"
    using assms(3) c(3)
    by (auto simp: fun_eq_iff waitsome_back_all [OF c(1,2)] requests_to_c_def zless_nat_eq_int_zless)
  have b: "fold (waitsome_finish_at cv sts) [0..<nat oc] (ix, statuses) =
      (\<lambda>j. if int j < oc then ix j + 1 else ix j, \<lambda>j. if int j < oc then status_c2f cv (sts j) else statuses j)"
    using c(2) by (auto simp: waitsome_finish_eq fun_eq_iff zless_nat_eq_int_zless)
  show ?thesis
    by (cases "resolve_real FnWaitsome env (fst s)"; cases s)
      (simp_all add: mpi_waitsome_fortran_def MPI_Waitsome_def allocate_def assms(1,2) wrapped_def r a b Let_def)
qed

definition sample_conv :: "(nat, nat) mpi_conv" where
  "sample_conv = \<lparr>request_f2c = nat, request_c2f = int, status_c2f = (\<lambda>st. [int st])\<rparr>"

definition sample_wrap_env :: "clonglong \<Rightarrow> (nat, nat) wrap_env" where
  "sample_wrap_env d = \<lparr>we_dlerror = False, we_found = True, we_start = 1000, we_end = 1000 + d, we_during = id,
     we_malloc_requests = (\<lambda>_. True), we_malloc_statuses = (\<lambda>_. True), we_junk_requests = (\<lambda>_. 99),
     we_junk_status = 0, we_junk_statuses = (\<lambda>_. 0)\<rparr>"

text \<open>Requests 2 and 0 complete and become the null request 0.\<close>

definition sample_waitsome :: "(nat, nat) real_waitsome" where
  "sample_waitsome count rs outcount indices sts =
     (MPI_SUCCESS, rs(2 := 0, 0 := 0), 2, indices(0 := 2, 1 := 0), sts(0 := 7, 1 := 8))"

theorem fortran_waitsome_agrees_witness:
  "\<exists>requests indices statuses s'.
     mpi_waitsome_fortran sample_conv sample_waitsome (sample_wrap_env 5) 7 3 (\<lambda>i. 10 + int i) 0 (\<lambda>_. 0) (\<lambda>_. [])
       (mpiw_start, sample_glob) = Inr ((0, requests, 2, indices, statuses), s') \<and>
     map requests [0..<4] = [0, 11, 0, 13] \<and> map indices [0..<2] = [3, 1] \<and> map statuses [0..<2] = [[7], [8]]"
proof -
  have c: "waitsome_completes 3 (requests_to_c sample_conv (sample_wrap_env 5) 3 (\<lambda>i. 10 + int i))
      (sample_waitsome 3 (requests_to_c sample_conv (sample_wrap_env 5) 3 (\<lambda>i. 10 + int i)) 0 (\<lambda>_. 0)
        (we_junk_statuses (sample_wrap_env 5)))"
    by (auto simp: waitsome_completes_def sample_waitsome_def less_Suc_eq numeral_eq_Suc)
  have e: "we_malloc_requests (sample_wrap_env 5) 3" "we_malloc_statuses (sample_wrap_env 5) 3"
    "\<forall>i<nat 3. request_c2f sample_conv (request_f2c sample_conv (10 + int i)) = 10 + int i"
    by (simp_all add: sample_wrap_env_def sample_conv_def)
  show ?thesis
    unfolding fortran_waitsome_agrees [where real = sample_waitsome, OF e c]
    by (simp add: sample_wrap_env_def sample_conv_def MPI_Waitsome_def wrapped_def resolve_real_def mpiw_start_def
        sample_waitsome_def requests_to_c_def charge_def MPI_SUCCESS_def numeral_eq_Suc)
qed

text \<open>C34: the MPI time of a thread reaches its measurements.  While MPI is profiled and
  whatever other threads do during the calls, the time a thread's caliper 0 shows between its
  start and its stop grows by the sum of the durations of all the wrapped calls it made in
  between, in 64 bits, in the same way for synchronisation, with any calls on its other calipers
  among them; and the thread's running count grows by the same.\<close>
theorem mpi_time_reaches_caliper:
  assumes "profiles self i (w, g)" "is_mpied g" "\<not> no_mpi_prof g"
    and "pt_data (thread_heap g ! i) \<noteq> []" "0 < max_caliper_entries (thread_heap g ! i)"
    and "\<forall>k\<in>set ks. step_ok i k" "read_status g r1"
    and "papiex_start self r0 0 l g = Inr g1" "run_steps self ks (w, g1) = Inr (w', g2)"
    and "papiex_stop self r1 0 g2 = Inr g3"
  shows "mpiprof (pt_data (thread_heap g3 ! i) ! 0) =
      mpiprof (pt_data (thread_heap g ! i) ! 0) + sum_list (map step_time ks) \<and>
    mpisyncprof (pt_data (thread_heap g3 ! i) ! 0) =
      mpisyncprof (pt_data (thread_heap g ! i) ! 0) + sum_list (map step_time ks) \<and>
    papiex_mpiprof (thread_heap g3 ! i) = papiex_mpiprof (thread_heap g ! i) + sum_list (map step_time ks)"
proof -
  have rd: "thread_data g self = Some i" "eventcnt g \<noteq> 0" "i < length (thread_heap g)"
    using assms(1) by (auto simp: profiles_def)
  obtain t1 where t1: "cal_start g r0 0 l (thread_heap g ! i) = Inr t1" "g1 = g\<lparr>thread_heap := (thread_heap g)[i := t1]\<rparr>"
    using with_thread_run [OF assms(8) [unfolded papiex_start_def] rd(1,2)] .
  note a = start_notes_mpi [OF t1(1) assms(4,2,3,5)]
  have "profiles self i (w, g1)" using assms(1) t1(2) by (simp add: profiles_def)
  from steps_grow [OF this assms(6,9)] obtain h where h: "g2 = g1\<lparr>thread_heap := h\<rparr>" "profiles self i (w', g2)"
    "grown (sum_list (map step_time ks)) t1 (h ! i)"
    using t1(2) rd(3) by auto
  have rd2: "thread_data g2 self = Some i" "eventcnt g2 \<noteq> 0" "i < length (thread_heap g2)"
    using h(2) by (auto simp: profiles_def)
  obtain t3 where t3: "cal_stop g2 r1 0 (thread_heap g2 ! i) = Inr t3" "g3 = g2\<lparr>thread_heap := (thread_heap g2)[i := t3]\<rparr>"
    using with_thread_run [OF assms(10) [unfolded papiex_stop_def] rd2(1,2)] .
  have e: "thread_heap g2 ! i = h ! i" "thread_heap g3 ! i = t3" using h(1) t3(2) rd2(3) by simp_all
  have "pt_data (h ! i) \<noteq> []" using h(3) a(7) by (auto simp: grown_def)
  then have "mpiprof (pt_data t3 ! 0) = mpiprof (pt_data (h ! i) ! 0) + (papiex_mpiprof (h ! i) - tmp_mpiprof (pt_data (h ! i) ! 0))"
    "mpisyncprof (pt_data t3 ! 0) = mpisyncprof (pt_data (h ! i) ! 0) + (papiex_mpisyncprof (h ! i) - tmp_mpisyncprof (pt_data (h ! i) ! 0))"
    "papiex_mpiprof t3 = papiex_mpiprof (h ! i)"
    using stop_adds_mpi [OF t3(1)] e(1) h(1,3) t1(2) assms(2,3,5,7) a(8) by (auto simp: grown_def)
  then show ?thesis using a h(3) e(2) by (simp add: grown_def)
qed

text \<open>A barrier and a wait of 5 and 7 cycles.\<close>

definition sample_mpi_glob :: pglob where
  "sample_mpi_glob = sample_glob\<lparr>is_mpied := True, no_mpi_prof := False, thread_heap := [sample_thread],
     thread_data := (\<lambda>s. if s = 7 then Some 0 else None)\<rparr>"

definition sample_steps :: "(nat, nat) thread_step list" where
  "sample_steps = [MpiStep FnBarrier (sample_wrap_env 5), CalStep (OpStart 1 None (sample_reading 3)),
     MpiStep FnWait (sample_wrap_env 7)]"

lemma sample_mpi_parts:
  "thread_heap sample_mpi_glob = [sample_thread]" "thread_data sample_mpi_glob = (\<lambda>s. if s = 7 then Some 0 else None)"
  "eventcnt sample_mpi_glob = 2" "is_mpied sample_mpi_glob" "\<not> no_mpi_prof sample_mpi_glob"
  "read_status sample_mpi_glob (sample_reading n)"
  "length (pt_data sample_thread) = 32" "max_caliper_entries sample_thread = 32" "max_caliper_used sample_thread = 0"
  "k < 32 \<Longrightarrow> pt_data sample_thread ! k = zero_caliper"
  by (simp_all add: sample_mpi_glob_def sample_glob_def pglob_start_def eventcnt_def read_status_def does_read_def
      sample_reading_def sample_thread_def zero_perthread_def PAPIEX_MAX_CALIPERS_def)

theorem mpi_time_reaches_caliper_witness:
  "\<exists>g1 w' g2 g3. papiex_start 7 (sample_reading 1) 0 None sample_mpi_glob = Inr g1 \<and>
     run_steps 7 sample_steps (mpiw_start\<lparr>papiex_mpiprof_gate := 1\<rparr>, g1) = Inr (w', g2) \<and>
     papiex_stop 7 (sample_reading 9) 0 g2 = Inr g3 \<and> mpiprof (pt_data (thread_heap g3 ! 0) ! 0) = 12"
proof -
  have run: "\<exists>g1 w' g2 g3. papiex_start 7 (sample_reading 1) 0 None sample_mpi_glob = Inr g1 \<and>
     run_steps 7 sample_steps (mpiw_start\<lparr>papiex_mpiprof_gate := 1\<rparr>, g1) = Inr (w', g2) \<and>
     papiex_stop 7 (sample_reading 9) 0 g2 = Inr g3"
    by (simp add: sample_steps_def papiex_start_def papiex_stop_def with_thread_def cal_start_def cal_stop_def Let_def
        sample_mpi_parts wrapped_def resolve_real_def mpiw_start_def charge_def get_thread_data_def sample_wrap_env_def
        upd_cal_def add_mpi_time_def zero_caliper_def)
  have p: "profiles 7 0 (mpiw_start\<lparr>papiex_mpiprof_gate := 1\<rparr>, sample_mpi_glob)"
    by (simp add: profiles_def sample_mpi_parts mpiw_start_def)
  have l: "leaves 0 (sample_wrap_env d)" for d
    by (auto simp: leaves_def sample_wrap_env_def intro!: exI [of _ "thread_heap g" for g])
  have ok: "\<forall>k\<in>set sample_steps. step_ok 0 k" by (simp add: sample_steps_def l)
  have t: "sum_list (map step_time sample_steps) = 12" by (simp add: sample_steps_def sample_wrap_env_def)
  have c: "pt_data (thread_heap sample_mpi_glob ! 0) \<noteq> []" "0 < max_caliper_entries (thread_heap sample_mpi_glob ! 0)"
    "mpiprof (pt_data (thread_heap sample_mpi_glob ! 0) ! 0) = 0"
    by (simp_all add: sample_mpi_parts zero_caliper_def flip: length_0_conv)
  show ?thesis
    using run mpi_time_reaches_caliper [OF p sample_mpi_parts(4,5) c(1,2) ok sample_mpi_parts(6)] t c(3) by fastforce
qed

end
