(* ===== verification/ReportText.thy ===== *)
theory ReportText
  imports PapiexState GccHooks
begin

text \<open>
  papiex.c: the pieces of output the fprintf calls write, and pretty_print.  A number printed
  through a floating conversion is kept as the expression of C that computes it, because
  floating point and its formatting belong to the C library; integers printed as long long are
  exact.  NO_PRETTY_PRINT is not defined.
\<close>

section \<open>Pieces of output\<close>

text \<open>Flt is the conversion of a long long, NonNeg the replacement of NaN and of negative values
  by 0 in pretty_printf, Mhz the clock of the processor.\<close>

datatype fexp =
    Flt clonglong
  | Lit int
  | Mhz
  | Mul fexp fexp
  | Div fexp fexp
  | Sub fexp fexp
  | NonNeg fexp

text \<open>Left16 is "%-16lld" of a long long, Right16 is "%16lld"; Num has the format and the
  value; Trap is the end of the process by a division of integers by zero.\<close>

datatype out =
    Str string
  | Left16 clonglong
  | Right16 clonglong
  | Num string fexp
  | Trap

definition NEWLINE :: char where "NEWLINE = CHR 0x0A"
definition TAB :: char where "TAB = CHR 0x09"

definition pad_right :: "nat \<Rightarrow> string \<Rightarrow> string" where
  "pad_right n s = s @ replicate (n - length s) (CHR '' '')"

definition pad_left :: "nat \<Rightarrow> string \<Rightarrow> string" where
  "pad_left n s = replicate (n - length s) (CHR '' '') @ s"

text \<open>The text of a piece, given that of floating numbers.\<close>

fun render :: "(string \<Rightarrow> fexp \<Rightarrow> string) \<Rightarrow> out \<Rightarrow> string" where
  "render fl (Str s) = s"
| "render fl (Left16 v) = pad_right 16 (dec_int (sint v))"
| "render fl (Right16 v) = pad_left 16 (dec_int (sint v))"
| "render fl (Num fmt e) = fl fmt e"
| "render fl Trap = []"

definition line :: "string \<Rightarrow> out" where "line s = Str (s @ [NEWLINE])"

text \<open>fprintf "%-16lld text" with a newline.\<close>

definition left_line :: "clonglong \<Rightarrow> string \<Rightarrow> out list" where
  "left_line v s = [Left16 v, line ('' '' @ s)]"

section \<open>pretty_print\<close>

definition PAD_LENGTH :: nat where "PAD_LENGTH = 46"

datatype printed = TYPE_FLOAT fexp | TYPE_LONG fexp | TYPE_STRING string

definition terse :: "pglob \<Rightarrow> bool" where "terse g \<longleftrightarrow> quiet g \<or> papiex_nextgen g"

text \<open>The count of pretty_print is a double, also for the long ones.\<close>

definition pretty_print :: "pglob \<Rightarrow> string \<Rightarrow> printed \<Rightarrow> bool \<Rightarrow> bool \<Rightarrow> out list" where
  "pretty_print g desc count make_indented no_newline =
    (let pad_len = (if make_indented then PAD_LENGTH - 4 else PAD_LENGTH);
         ndesc = take (PAD_LENGTH - 2) desc
     in (if make_indented then [Str ''    ''] else []) @
        (if terse g
         then (case count of
                 TYPE_LONG c \<Rightarrow> [Num ''%-16lld'' c, Str ('' '' @ ndesc)]
               | TYPE_FLOAT c \<Rightarrow> [Num ''%-16.2f'' c, Str ('' '' @ ndesc)]
               | TYPE_STRING s \<Rightarrow> [])
         else Str (ndesc @ '' '') # Str (replicate (pad_len - (length ndesc + 1)) (CHR ''.'')) #
              (case count of
                 TYPE_LONG c \<Rightarrow> [Num (if no_scientific g then '' %16lld'' else '' %16g'') c]
               | TYPE_FLOAT c \<Rightarrow> [Num '' %16.2f'' c]
               | TYPE_STRING s \<Rightarrow> [Str ('' '' @ pad_left 16 s)])) @
        (if no_newline then [] else [line []]))"

definition pretty_printf :: "pglob \<Rightarrow> string \<Rightarrow> nat \<Rightarrow> fexp \<Rightarrow> out list" where
  "pretty_printf g desc index count = pretty_print g desc (TYPE_FLOAT (NonNeg count)) (index \<noteq> 0) False"

definition pretty_printl :: "pglob \<Rightarrow> string \<Rightarrow> nat \<Rightarrow> clonglong \<Rightarrow> out list" where
  "pretty_printl g desc index count = pretty_print g desc (TYPE_LONG (Flt count)) (index \<noteq> 0) False"

section \<open>Named lines\<close>

text \<open>fprintf "%-30s: %s" with a newline, and "%-30s: %d".\<close>

definition named :: "string \<Rightarrow> string \<Rightarrow> out" where
  "named name s = line (pad_right 30 name @ '': '' @ s)"

definition named_int :: "string \<Rightarrow> int \<Rightarrow> out" where
  "named_int name i = named name (dec_int i)"

text \<open>The digits of "%x" of an int.\<close>

definition hex_int :: "int \<Rightarrow> string" where
  "hex_int i = hex_loop (nat (i mod 2 ^ 32)) []"

end
