(* ===== verification/EventInfo.thy ===== *)
theory EventInfo
  imports ReportText
begin

text \<open>
  What papiex and its driver print about the machine, the events and the process: eventinfo.c,
  memory.c, the heading and the usage in papiex.c, and the options -i, -l, -L and -V of main.c.
  PAPI, getrusage and the environment are parameters.  An error that ends the program is the
  piece Trap, after which nothing is printed; a walk over events that PAPI never ends is None.
\<close>

unbundle bit_operations_syntax

section \<open>eventinfo.c\<close>

record event_info =
  ei_symbol :: string
  ei_short :: string
  ei_long :: string
  ei_note :: string
  ei_derived :: string
  ei_postfix :: string
  ei_count :: nat
  ei_name :: "nat \<Rightarrow> string"
  ei_code :: "nat \<Rightarrow> int"

text \<open>The mask of preset codes, PAPI_get_event_info, and the walks of PAPI_enum_event: the unit
  masks of a native event, the available presets and the native events.\<close>

record papi_events =
  pv_preset :: "int \<Rightarrow> bool"
  pv_info :: "int \<Rightarrow> event_info option"
  pv_umask :: "int \<Rightarrow> int option"
  pv_first_preset :: int
  pv_next_preset :: "int \<Rightarrow> int option"
  pv_first_native :: int
  pv_next_native :: "int \<Rightarrow> int option"

definition is_derived :: "event_info \<Rightarrow> string" where
  "is_derived info =
    (if ei_derived info = [] then ''No''
     else if ei_derived info = ''NOT_DERIVED'' then ''No''
     else if ei_derived info = ''DERIVED_CMPD'' then ''No''
     else ''Yes'')"

definition named_if :: "string \<Rightarrow> string \<Rightarrow> out list" where
  "named_if name s = (if s \<noteq> [] then [named name s] else [])"

definition print_notes :: "papi_events \<Rightarrow> int \<Rightarrow> event_info \<Rightarrow> bool \<Rightarrow> out list" where
  "print_notes pv code info verbose =
    (if \<not> verbose then [named (ei_symbol info) (ei_long info)]
     else named (if pv_preset pv code then ''Preset Event'' else ''Native Event'') (ei_symbol info) #
          named_if ''Short Description'' (ei_short info) @
          named_if ''Long Description'' (ei_long info) @
          named_if ''Notes'' (ei_note info) @
          (if pv_preset pv code
           then [named ''Derived'' (is_derived info), named ''Derived type'' (ei_derived info),
                 named ''Postfix processing string'' (ei_postfix info)] else []))"

text \<open>The loop over the registers of an event.\<close>

definition register_lines :: "event_info \<Rightarrow> out list" where
  "register_lines info = concat (map (\<lambda>k.
     [named (''Register name['' @ dec k @ '']'') (ei_name info k),
      named (''Register code['' @ dec k @ '']'') (''0x'' @ pad_right 10 (hex_int (ei_code info k)))]) [0..<ei_count info])"

text \<open>The loop over the native events of a preset.\<close>

fun native_lines :: "papi_events \<Rightarrow> event_info \<Rightarrow> nat list \<Rightarrow> out list" where
  "native_lines pv info [] = []"
| "native_lines pv info (j # js) =
    named (''Native name['' @ dec j @ '']'') (ei_name info j) #
    (case pv_info pv (ei_code info j) of
       None \<Rightarrow> [Trap]
     | Some n \<Rightarrow> named_int ''Number of register values'' (int (ei_count n)) # register_lines n @
         named ''Native event description'' (ei_long n) # native_lines pv info js)"

text \<open>The loop over the unit masks of a native event.\<close>

partial_function (option) umask_lines :: "papi_events \<Rightarrow> bool \<Rightarrow> int \<Rightarrow> out list option" where
  "umask_lines pv verbose code =
    (case pv_umask pv code of
       None \<Rightarrow> Some []
     | Some c \<Rightarrow>
         (case pv_info pv c of
            None \<Rightarrow> Some [Trap]
          | Some info \<Rightarrow>
              Option.bind (umask_lines pv verbose c) (\<lambda>rest.
                Some (print_notes pv c info verbose @ register_lines info @ rest))))"

declare umask_lines.simps [code]

definition papiex_dump_event_info :: "papi_events \<Rightarrow> int \<Rightarrow> bool \<Rightarrow> out list option" where
  "papiex_dump_event_info pv code verbose =
    (case pv_info pv code of
       None \<Rightarrow> Some [Trap]
     | Some info \<Rightarrow>
         if \<not> verbose then Some (print_notes pv code info verbose)
         else if pv_preset pv code
         then Some (print_notes pv code info verbose @ native_lines pv info [0..<ei_count info])
         else if CHR '':'' \<in> set (ei_symbol info)
         then Some (print_notes pv code info verbose @ register_lines info)
         else Option.bind (umask_lines pv verbose code) (\<lambda>rest.
                Some (print_notes pv code info verbose @ register_lines info @ rest)))"

section \<open>memory.c\<close>

record dmem_info =
  dm_peak :: clonglong
  dm_high_water_mark :: clonglong
  dm_text :: clonglong
  dm_library :: clonglong
  dm_heap :: clonglong
  dm_stack :: clonglong
  dm_shared :: clonglong
  dm_locked :: clonglong

text \<open>PAPI_get_dmem_info returns its error code or fills the structure.\<close>

definition papiex_dump_memory_info :: "pglob \<Rightarrow> int + dmem_info \<Rightarrow> out list" where
  "papiex_dump_memory_info g answer =
    (case answer of
       Inl retval \<Rightarrow> [Str (''PAPI_get_dmem_info failed with error code: '' @ dec_int retval)]
     | Inr m \<Rightarrow>
         pretty_printl g ''[PROCESS] Mem. virtual peak KB'' 0 (dm_peak m) @
         pretty_printl g ''[PROCESS] Mem. resident peak KB'' 0 (dm_high_water_mark m) @
         pretty_printl g ''[PROCESS] Mem. text KB'' 0 (dm_text m) @
         pretty_printl g ''[PROCESS] Mem. library KB'' 0 (dm_library m) @
         pretty_printl g ''[PROCESS] Mem. heap KB'' 0 (dm_heap m) @
         pretty_printl g ''[PROCESS] Mem. stack KB'' 0 (dm_stack m) @
         pretty_printl g ''[PROCESS] Mem. shared KB'' 0 (dm_shared m) @
         pretty_printl g ''[PROCESS] Mem. locked KB'' 0 (dm_locked m))"

section \<open>Names of domains and granularities\<close>

text \<open>The domains in the order of their bits.\<close>

definition domain_names :: "(papi_domain \<times> string) list" where
  "domain_names = [(DomUser, ''User''), (DomKernel, ''Kernel''), (DomOther, ''Other''), (DomSupervisor, ''Supervisor'')]"

text \<open>strcat after a comma, unless the string is empty.\<close>

definition cat_comma :: "string \<Rightarrow> string \<Rightarrow> string" where
  "cat_comma buf s = buf @ (if buf \<noteq> [] then '','' else []) @ s"

definition stringify_domain :: "papi_domain set \<Rightarrow> string" where
  "stringify_domain d =
    (let s1 = (if DomUser \<in> d then ''User'' else []);
         s2 = (if DomKernel \<in> d then cat_comma s1 ''Kernel'' else s1);
         s3 = (if DomOther \<in> d then cat_comma s2 ''Other'' else s2)
     in if DomSupervisor \<in> d then cat_comma s3 ''Supervisor'' else s3)"

text \<open>strcpy after a bar, when something was copied before.\<close>

fun join_bars :: "string list \<Rightarrow> string \<Rightarrow> nat \<Rightarrow> string" where
  "join_bars [] buf did = buf"
| "join_bars (s # ss) buf did = join_bars ss (buf @ (if did > 0 then ''|'' else []) @ s) (did + 1)"

definition stringify_all_domains :: "papi_domain set \<Rightarrow> string" where
  "stringify_all_domains ds =
     join_bars (map (\<lambda>(d, name). stringify_domain {d}) (filter (\<lambda>(d, name). d \<in> ds) domain_names)) [] 0"

datatype granularity = GrnThr | GrnProc | GrnProcg | GrnSysCpu | GrnSys | GrnUnknown int

fun stringify_granularity :: "granularity \<Rightarrow> string" where
  "stringify_granularity GrnThr = ''PAPI_GRN_THR''"
| "stringify_granularity GrnProc = ''PAPI_GRN_PROC''"
| "stringify_granularity GrnProcg = ''PAPI_GRN_PROCG''"
| "stringify_granularity GrnSysCpu = ''PAPI_GRN_SYS_CPU''"
| "stringify_granularity GrnSys = ''PAPI_GRN_SYS''"
| "stringify_granularity (GrnUnknown i) = ''Unrecognized granularity!''"

text \<open>The granularities set, in the order of PAPI's bits.\<close>

definition stringify_all_granularities :: "granularity list \<Rightarrow> string" where
  "stringify_all_granularities gs = join_bars (map stringify_granularity gs) [] 0"

section \<open>Names of flags\<close>

text \<open>The values of Linux; a name is added when a bit of its mask is set, which of the access
  modes only O_WRONLY and O_RDWR can be.  The last bar is cut off.\<close>

definition open_flag_names :: "(int \<times> string) list" where
  "open_flag_names = [(0, ''O_RDONLY''), (1, ''O_WRONLY''), (2, ''O_RDWR''), (64, ''O_CREAT''), (128, ''O_EXCL''),
     (256, ''O_NOCTTY''), (512, ''O_TRUNC''), (1024, ''O_APPEND''), (2048, ''O_NONBLOCK''), (2048, ''O_NDELAY''),
     (1052672, ''O_SYNC''), (1052672, ''O_FSYNC''), (8192, ''O_ASYNC'')]"

definition flags_text :: "string \<Rightarrow> (int \<times> string) list \<Rightarrow> int \<Rightarrow> string" where
  "flags_text sep names flags = concat (map (\<lambda>(mask, name). if flags AND mask \<noteq> 0 then name @ sep else []) names)"

definition open_flags2str :: "int \<Rightarrow> string" where
  "open_flags2str flags = butlast (flags_text ''|'' open_flag_names flags)"

text \<open>The bits of the owner, the group and the others; writing by the owner is left out, and
  the last bar stays.\<close>

definition mode_names :: "(int \<times> string) list" where
  "mode_names = [(448, ''S_IRWXU''), (256, ''S_IRUSR''), (64, ''S_IXUSR''), (56, ''S_IRWXG''), (32, ''S_IRGRP''),
     (16, ''S_IWGRP''), (8, ''S_IXGRP''), (7, ''S_IRWXO''), (4, ''S_IROTH''), (2, ''S_IWOTH''), (1, ''S_IXOTH'')]"

definition mode2string :: "int \<Rightarrow> string" where
  "mode2string mode = flags_text '' | '' mode_names mode"

section \<open>The heading and the usage\<close>

text \<open>What the heading takes from the build, the process and the system.\<close>

record exec_info =
  xi_tool :: string
  xi_version :: string
  xi_build :: string
  xi_fullname :: string
  xi_processor :: string
  xi_options :: string
  xi_parent :: int
  xi_pid :: int

definition print_executable_info :: "exec_info \<Rightarrow> pglob \<Rightarrow> out list" where
  "print_executable_info xi g =
    [named (xi_tool xi @ '' version'') (xi_version xi), named (xi_tool xi @ '' build'') (xi_build xi),
     named ''Executable'' (xi_fullname xi), named ''Arguments'' (process_args g),
     named ''Processor'' (xi_processor xi), Str (pad_right 30 ''Clockrate (MHz)'' @ '': ''), Num ''%f'' Mhz, line [],
     named ''Hostname'' (hostname g), named ''Options'' (xi_options xi), named ''Domain'' (stringify_domain (domain g)),
     named_int ''Parent process id'' (xi_parent xi), named_int ''Process id'' (xi_pid xi)]"

record rusage_info =
  ru_maxrss :: clonglong
  ru_ixrss :: clonglong
  ru_idrss :: clonglong
  ru_isrss :: clonglong
  ru_minflt :: clonglong
  ru_majflt :: clonglong
  ru_nswap :: clonglong
  ru_inblock :: clonglong
  ru_oublock :: clonglong
  ru_msgsnd :: clonglong
  ru_msgrcv :: clonglong
  ru_nsignals :: clonglong
  ru_nvcsw :: clonglong
  ru_nivcsw :: clonglong

definition print_rusage_stats :: "pglob \<Rightarrow> rusage_info \<Rightarrow> out list" where
  "print_rusage_stats g ru =
     pretty_printl g ''Max resident'' 0 (ru_maxrss ru) @ pretty_printl g ''Shared'' 0 (ru_ixrss ru) @
     pretty_printl g ''Data'' 0 (ru_idrss ru) @ pretty_printl g ''Stack'' 0 (ru_isrss ru) @
     pretty_printl g ''Min faults'' 0 (ru_minflt ru) @ pretty_printl g ''Page faults'' 0 (ru_majflt ru) @
     pretty_printl g ''Swaps'' 0 (ru_nswap ru) @ pretty_printl g ''Block dev inputs'' 0 (ru_inblock ru) @
     pretty_printl g ''Block dev outputs'' 0 (ru_oublock ru) @ pretty_printl g ''Msgs sent'' 0 (ru_msgsnd ru) @
     pretty_printl g ''Msgs received'' 0 (ru_msgrcv ru) @ pretty_printl g ''Signals'' 0 (ru_nsignals ru) @
     pretty_printl g ''Voluntary yields'' 0 (ru_nvcsw ru) @ pretty_printl g ''Preemptions'' 0 (ru_nivcsw ru)"

text \<open>print_banner; MAILBUGS may be undefined, and the line is then empty.\<close>

definition print_banner :: "exec_info \<Rightarrow> string option \<Rightarrow> out list" where
  "print_banner xi mail =
    (let email = (case mail of None \<Rightarrow> [] | Some m \<Rightarrow> ''Send bug reports to '' @ m)
     in [line (xi_tool xi @ '':''),
         line (xi_tool xi @ '': '' @ xi_version xi @ '' (Build '' @ xi_build xi @ '')''),
         line (xi_tool xi @ '': '' @ email)])"

section \<open>The options of the driver that inform\<close>

record substrate_info =
  ss_name :: "string option"
  ss_version :: "string option"
  ss_support_version :: "string option"
  ss_kernel_version :: "string option"
  ss_num_cntrs :: int
  ss_num_preset_events :: int
  ss_default_domain :: "int \<times> papi_domain set"
  ss_available_domains :: "int \<times> papi_domain set"
  ss_default_granularity :: "int \<times> granularity"
  ss_available_granularities :: "int \<times> granularity list"
  ss_hardware_intr_sig :: int
  ss_hardware_intr :: bool
  ss_precise_intr :: bool
  ss_posix1b_timers :: bool
  ss_kernel_profile :: bool
  ss_kernel_multiplex :: bool
  ss_fast_counter_read :: bool
  ss_fast_real_timer :: bool
  ss_fast_virtual_timer :: bool

definition named_option :: "string \<Rightarrow> string option \<Rightarrow> out list" where
  "named_option name s = (case s of None \<Rightarrow> [] | Some t \<Rightarrow> named_if name t)"

definition yes_no :: "bool \<Rightarrow> string" where
  "yes_no b = (if b then ''Yes'' else ''No'')"

definition named_hex :: "string \<Rightarrow> int \<Rightarrow> string \<Rightarrow> out" where
  "named_hex name i s = named name (''0x'' @ hex_int i @ '' ('' @ s @ '')'')"

text \<open>PAPI_DEF_MPX_NS is defined.\<close>

definition dump_substrate_info :: "substrate_info option \<Rightarrow> out list" where
  "dump_substrate_info info =
    (case info of
       None \<Rightarrow> [line ''Error obtaining substrate information from PAPI'', line ''PAPI_get_substrate_info returned NULL'']
     | Some ss \<Rightarrow>
         named_option ''Substrate name'' (ss_name ss) @ named_option ''Substrate version'' (ss_version ss) @
         named_option ''Support lib version'' (ss_support_version ss) @
         named_option ''Kernel driver version'' (ss_kernel_version ss) @
         [named_int ''Num. counters'' (ss_num_cntrs ss), named_int ''Num. preset events'' (ss_num_preset_events ss),
          named_hex ''Default domain'' (fst (ss_default_domain ss)) (stringify_all_domains (snd (ss_default_domain ss))),
          named_hex ''Available domains'' (fst (ss_available_domains ss)) (stringify_all_domains (snd (ss_available_domains ss))),
          named_hex ''Default granularity'' (fst (ss_default_granularity ss)) (stringify_granularity (snd (ss_default_granularity ss))),
          named_hex ''Available granularities'' (fst (ss_available_granularities ss))
            (stringify_all_granularities (snd (ss_available_granularities ss))),
          named_int ''Hardware intr sig'' (ss_hardware_intr_sig ss),
          named ''Hardware intr'' (yes_no (ss_hardware_intr ss)), named ''Precise intr'' (yes_no (ss_precise_intr ss)),
          named ''Posix1b timers'' (yes_no (ss_posix1b_timers ss)), named ''Kernel profile'' (yes_no (ss_kernel_profile ss)),
          named ''Kernel multiplex'' (yes_no (ss_kernel_multiplex ss)),
          named ''Fast counter read'' (yes_no (ss_fast_counter_read ss)),
          named ''Fast real timer'' (yes_no (ss_fast_real_timer ss)),
          named ''Fast virtual timer'' (yes_no (ss_fast_virtual_timer ss))])"

text \<open>PAPI's description of the hardware.\<close>

record hardware =
  hd_papi_version :: "int \<times> int \<times> int \<times> int"
  hd_vendor_string :: string
  hd_vendor_code :: int
  hd_model_string :: string
  hd_model_code :: int
  hd_cpuid :: "int \<times> int \<times> int"
  hd_revision :: fexp
  hd_max_mhz :: int
  hd_min_mhz :: int
  hd_totalcpus :: int
  hd_sockets :: int
  hd_cores :: int
  hd_threads :: int
  hd_nnodes :: int
  hd_ncpu :: int
  hd_virtualized :: bool
  hd_virtual_vendor :: string
  hd_max_hwctrs :: int

definition named_positive :: "string \<Rightarrow> int \<Rightarrow> out list" where
  "named_positive name i = (if i > 0 then [named_int name i] else [])"

definition do_i_option :: "hardware \<Rightarrow> substrate_info option \<Rightarrow> out list" where
  "do_i_option hw ss =
    (let (major, minor, revision, increment) = hd_papi_version hw; (family, model, stepping) = hd_cpuid hw in
     [named ''PAPI Version'' (dec_int major @ ''.'' @ dec_int minor @ ''.'' @ dec_int revision @ ''.'' @ dec_int increment),
      named ''Vendor string and code'' (hd_vendor_string hw @ '' ('' @ dec_int (hd_vendor_code hw) @ '')''),
      named ''Model string and code'' (hd_model_string hw @ '' ('' @ dec_int (hd_model_code hw) @ '')'')] @
     (if family > 0
      then [named ''CPUID Info'' (''Family: '' @ dec_int family @ ''  Model: '' @ dec_int model @ ''  Stepping: '' @ dec_int stepping)]
      else []) @
     [Str (pad_right 30 ''CPU Revision'' @ '': ''), Num ''%f'' (hd_revision hw), line [],
      named_int ''CPU Max Megahertz'' (hd_max_mhz hw), named_int ''CPU Min Megahertz'' (hd_min_mhz hw),
      named_int (''Total # of CPU'' @ [CHR 0x27] @ ''s'') (hd_totalcpus hw)] @
     named_positive ''Sockets'' (hd_sockets hw) @ named_positive ''Cores per Socket'' (hd_cores hw) @
     named_positive ''# Hdw Threads per core'' (hd_threads hw) @ named_positive ''NUMA Nodes'' (hd_nnodes hw) @
     [named_int ''CPUs per Node'' (hd_ncpu hw), named ''Running in a VM'' (if hd_virtualized hw then ''yes'' else ''no'')] @
     (if hd_virtualized hw then [named ''VM Vendor'' (hd_virtual_vendor hw)] else []) @
     [named_int ''Number Hardware Counters'' (hd_max_hwctrs hw),
      named_int ''Papiex Max Multiplex Counters'' (int PAPIEX_MAX_COUNTERS)] @
     dump_substrate_info ss)"

text \<open>fprintf "%-30s %s": a line of a list of events.\<close>

definition listed :: "event_info \<Rightarrow> out" where
  "listed info = line (pad_right 30 (ei_symbol info) @ '' '' @ ei_long info)"

text \<open>The do loops: a code is shown when PAPI has information of it, a preset when it counts.\<close>

partial_function (option) list_events ::
  "(int \<Rightarrow> event_info option) \<Rightarrow> (int \<Rightarrow> int option) \<Rightarrow> bool \<Rightarrow> int \<Rightarrow> out list option" where
  "list_events get nxt counted code =
    (let here = (case get code of
                   None \<Rightarrow> []
                 | Some info \<Rightarrow> if counted \<and> ei_count info = 0 then [] else [listed info])
     in case nxt code of
          None \<Rightarrow> Some here
        | Some c \<Rightarrow> Option.bind (list_events get nxt counted c) (\<lambda>rest. Some (here @ rest)))"

declare list_events.simps [code]

text \<open>-l lists all the events, -L describes one.\<close>

definition do_L_option :: "papi_events \<Rightarrow> (string \<Rightarrow> int option) \<Rightarrow> string option \<Rightarrow> out list option" where
  "do_L_option pv name_to_code event =
    (case event of
       Some e \<Rightarrow>
         (case name_to_code e of
            None \<Rightarrow> Some [Trap]
          | Some code \<Rightarrow> papiex_dump_event_info pv code True)
     | None \<Rightarrow>
         Option.bind (list_events (pv_info pv) (pv_next_preset pv) True (pv_first_preset pv)) (\<lambda>presets.
         Option.bind (list_events (pv_info pv) (pv_next_native pv) False (pv_first_native pv)) (\<lambda>natives.
           Some ([line ''Preset events:'', line [], line ''Preset                         Description''] @ presets @
                 [line [], line ''Native events:'', line [], line ''Native                         Description''] @ natives))))"

text \<open>The version of the library, three numbers, and of its header.\<close>

definition version_text :: "int \<times> int \<times> int \<Rightarrow> string" where
  "version_text = (\<lambda>(major, minor, revision). dec_int major @ ''.'' @ dec_int minor @ ''.'' @ dec_int revision)"

definition do_V_option :: "string option \<Rightarrow> string \<Rightarrow> exec_info \<Rightarrow> int \<times> int \<times> int \<Rightarrow> int \<times> int \<times> int \<Rightarrow> out list" where
  "do_V_option perftools name xi lib header =
    (case perftools of None \<Rightarrow> [] | Some v \<Rightarrow> [line (''PerfTools version '' @ v)]) @
    [line (name @ '' driver version '' @ xi_version xi), line (''PAPI library version '' @ version_text lib),
     line (''PAPI header version '' @ version_text header), line (''Build '' @ xi_build xi)]"

section \<open>Facts\<close>

text \<open>A walk that ends: the codes it visits after the first.\<close>

fun walks :: "(int \<Rightarrow> int option) \<Rightarrow> int \<Rightarrow> int list \<Rightarrow> bool" where
  "walks nxt c [] = (nxt c = None)"
| "walks nxt c (d # ds) = (nxt c = Some d \<and> walks nxt d ds)"

definition full_entry :: "papi_events \<Rightarrow> int \<Rightarrow> event_info \<Rightarrow> out list" where
  "full_entry pv code info = print_notes pv code info True @ register_lines info"

lemma umask_lines_walk:
  assumes "walks (pv_umask pv) c cs" "\<forall>d\<in>set cs. pv_info pv d = Some (f d)"
  shows "umask_lines pv True c = Some (concat (map (\<lambda>d. full_entry pv d (f d)) cs))"
  using assms
proof (induction cs arbitrary: c)
  case Nil
  then show ?case by (subst umask_lines.simps) simp
next
  case (Cons d ds)
  then show ?case by (subst umask_lines.simps) (simp add: full_entry_def)
qed

lemma list_events_walk:
  assumes "walks nxt c cs"
  shows "list_events get nxt counted c = Some (concat (map (\<lambda>d. case get d of None \<Rightarrow> []
    | Some info \<Rightarrow> if counted \<and> ei_count info = 0 then [] else [listed info]) (c # cs)))"
  using assms
proof (induction cs arbitrary: c)
  case Nil
  then show ?case by (subst list_events.simps) (auto split: option.splits)
next
  case (Cons d ds)
  then show ?case by (subst list_events.simps) (auto simp: Let_def split: option.splits)
qed

text \<open>The names of a set of domains are separated by commas and read back.\<close>

definition names_of :: "papi_domain set \<Rightarrow> string list" where
  "names_of d = map snd (filter (\<lambda>(x, name). x \<in> d) domain_names)"

lemma stringify_domain_join: "stringify_domain d = join_with (CHR '','') (names_of d)"
  by (cases "DomUser \<in> d"; cases "DomKernel \<in> d"; cases "DomOther \<in> d"; cases "DomSupervisor \<in> d";
      simp add: stringify_domain_def names_of_def domain_names_def cat_comma_def)

lemma domain_read_back: "strtoks {CHR '',''} (stringify_domain d) = names_of d"
  unfolding stringify_domain_join
  by (rule strtoks_join) (auto simp: names_of_def domain_names_def split: if_splits)

lemma in_names_of:
  "''User'' \<in> set (names_of d) \<longleftrightarrow> DomUser \<in> d" "''Kernel'' \<in> set (names_of d) \<longleftrightarrow> DomKernel \<in> d"
  "''Other'' \<in> set (names_of d) \<longleftrightarrow> DomOther \<in> d" "''Supervisor'' \<in> set (names_of d) \<longleftrightarrow> DomSupervisor \<in> d"
  by (simp_all add: names_of_def domain_names_def)

lemma stringify_domain_inj: "stringify_domain d = stringify_domain e \<longleftrightarrow> d = e"
proof
  assume "stringify_domain d = stringify_domain e"
  then have n: "names_of d = names_of e" by (metis domain_read_back)
  have "x \<in> d \<longleftrightarrow> x \<in> e" for x
    using in_names_of [of d] in_names_of [of e] n by (cases x) simp_all
  then show "d = e" by blast
qed simp

section \<open>Properties\<close>

text \<open>The list of events.  When PAPI's walks over the presets and over the native events end,
  the option -l ends too, and lists in their order exactly the presets of the first walk that
  PAPI has information of and that have a counter, and all the native events of the second that
  PAPI has information of.  The option -L with a native event that names no unit mask describes
  the event and then every unit mask of its walk.\<close>
lemma event_listings:
  assumes "walks (pv_next_preset pv) (pv_first_preset pv) ps" "walks (pv_next_native pv) (pv_first_native pv) ns"
    and "name_to_code e = Some code" "\<not> pv_preset pv code" "pv_info pv code = Some info" "CHR '':'' \<notin> set (ei_symbol info)"
    and "walks (pv_umask pv) code us" "\<forall>u\<in>set us. pv_info pv u = Some (f u)"
  shows "do_L_option pv name_to_code None = Some
      ([line ''Preset events:'', line [], line ''Preset                         Description''] @
       map listed (filter (\<lambda>i. ei_count i \<noteq> 0) (List.map_filter (pv_info pv) (pv_first_preset pv # ps))) @
       [line [], line ''Native events:'', line [], line ''Native                         Description''] @
       map listed (List.map_filter (pv_info pv) (pv_first_native pv # ns))) \<and>
    do_L_option pv name_to_code (Some e) =
      Some (full_entry pv code info @ concat (map (\<lambda>u. full_entry pv u (f u)) us))"
proof -
  have l: "concat (map (\<lambda>d. case get d of None \<Rightarrow> [] | Some i \<Rightarrow> if b \<and> ei_count i = 0 then [] else [listed i]) cs) =
      map listed (filter (\<lambda>i. b \<longrightarrow> ei_count i \<noteq> 0) (List.map_filter get cs))" for get b and cs :: "int list"
    by (induction cs) (auto simp: List.map_filter_simps split: option.splits)
  have "do_L_option pv name_to_code None = Some
      ([line ''Preset events:'', line [], line ''Preset                         Description''] @
       map listed (filter (\<lambda>i. True \<longrightarrow> ei_count i \<noteq> 0) (List.map_filter (pv_info pv) (pv_first_preset pv # ps))) @
       [line [], line ''Native events:'', line [], line ''Native                         Description''] @
       map listed (filter (\<lambda>i. False \<longrightarrow> ei_count i \<noteq> 0) (List.map_filter (pv_info pv) (pv_first_native pv # ns))))"
    unfolding l [symmetric] by (simp add: do_L_option_def list_events_walk [OF assms(1)] list_events_walk [OF assms(2)])
  moreover have "do_L_option pv name_to_code (Some e) =
      Some (full_entry pv code info @ concat (map (\<lambda>u. full_entry pv u (f u)) us))"
    using assms(3-6) by (simp add: do_L_option_def papiex_dump_event_info_def umask_lines_walk [OF assms(7,8)] full_entry_def)
  ultimately show ?thesis by simp
qed

text \<open>Two presets, one of which has no counter, and a native event with a unit mask.\<close>

definition sample_event :: "string \<Rightarrow> nat \<Rightarrow> event_info" where
  "sample_event s n = \<lparr>ei_symbol = s, ei_short = [], ei_long = ''text'', ei_note = [], ei_derived = [], ei_postfix = [],
     ei_count = n, ei_name = (\<lambda>_. ''R''), ei_code = (\<lambda>_. 26)\<rparr>"

definition sample_papi_events :: papi_events where
  "sample_papi_events = \<lparr>pv_preset = (\<lambda>c. c < 0),
     pv_info = (\<lambda>c. if c = -2 then Some (sample_event ''PAPI_TOT_CYC'' 1) else if c = -1 then Some (sample_event ''PAPI_FP_OPS'' 0)
       else if c = 10 then Some (sample_event ''L1D'' 1) else if c = 11 then Some (sample_event ''L1D:REPL'' 1) else None),
     pv_umask = (\<lambda>c. if c = 10 then Some 11 else None), pv_first_preset = -2,
     pv_next_preset = (\<lambda>c. if c = -2 then Some (-1) else None), pv_first_native = 10, pv_next_native = (\<lambda>_. None)\<rparr>"

lemma listings_of_sample:
  "do_L_option sample_papi_events (\<lambda>_. Some 10) None = Some
     [line ''Preset events:'', line [], line ''Preset                         Description'',
      listed (sample_event ''PAPI_TOT_CYC'' 1), line [], line ''Native events:'', line [],
      line ''Native                         Description'', listed (sample_event ''L1D'' 1)]"
proof -
  let ?pv = sample_papi_events
  have w: "walks (pv_next_preset ?pv) (pv_first_preset ?pv) [-1]" "walks (pv_next_native ?pv) (pv_first_native ?pv) []"
    "\<not> pv_preset ?pv 10" "pv_info ?pv 10 = Some (sample_event ''L1D'' 1)" "CHR '':'' \<notin> set (ei_symbol (sample_event ''L1D'' 1))"
    "walks (pv_umask ?pv) 10 [11]" "\<forall>u\<in>set [11]. pv_info ?pv u = Some (sample_event ''L1D:REPL'' 1)"
    by (simp_all add: sample_papi_events_def sample_event_def)
  show ?thesis
    using event_listings [OF w(1,2) _ w(3-7), of "\<lambda>_. Some 10"]
    by (simp add: sample_papi_events_def sample_event_def List.map_filter_simps)
qed

end
