(* ===== verification/Report.thy ===== *)
theory Report
  imports PapiexStats EventInfo
begin

text \<open>
  papiex.c: what is printed of a thread and of a process, as the sequence of pieces the
  fprintf calls write.  FULL_CALIPER_DATA is not defined.
\<close>

section \<open>Events\<close>

fun get_event_index :: "string \<Rightarrow> string list \<Rightarrow> int" where
  "get_event_index name [] = -1"
| "get_event_index name (e # es) =
    (if e = name then 0 else let i = get_event_index name es in if i < 0 then -1 else i + 1)"

definition has_event :: "pglob \<Rightarrow> string \<Rightarrow> bool" where
  "has_event g e \<longleftrightarrow> get_event_index e (eventnames g) \<ge> 0"

definition get_event_count :: "pglob \<Rightarrow> string \<Rightarrow> perthread \<Rightarrow> nat \<Rightarrow> clonglong" where
  "get_event_count g e t index =
    (let i = get_event_index e (eventnames g) in if i \<ge> 0 then counters (pt_data t ! index) (nat i) else -1)"

text \<open>mhz_known: the processor's clock is positive.\<close>

definition get_real_usec :: "bool \<Rightarrow> perthread \<Rightarrow> nat \<Rightarrow> fexp" where
  "get_real_usec mhz_known t index =
    (if index = 0 then Flt (real_usec (pt_data t ! 0))
     else if mhz_known then Div (Flt (real_cyc (pt_data t ! index))) Mhz
     else Lit 0)"

definition print_event_count :: "pglob \<Rightarrow> string \<Rightarrow> string \<Rightarrow> perthread \<Rightarrow> nat \<Rightarrow> out list" where
  "print_event_count g desc event t index =
    (let i = get_event_index event (eventnames g);
         pad_len = (if index > 0 then PAD_LENGTH - 4 else PAD_LENGTH);
         indent = (if index > 0 then [Str ''    ''] else []);
         c = counters (pt_data t ! index) (nat i)
     in if i \<ge> 0
        then (if quiet g then indent @ [Left16 c, Str ('' '' @ desc)]
              else pretty_print g desc (TYPE_LONG (Flt c)) (index \<noteq> 0) True @
                   (if index > 0
                    then [Num (TAB # ''[%5.1f%%]'') (Div (Mul (Lit 100) (Flt c)) (Flt (counters (pt_data t ! 0) (nat i))))]
                    else [])) @ [line []]
        else if papiex_debug g > 0
        then indent @ [Str (desc @ '' ''), Str (replicate (pad_len - (length desc + 1)) (CHR ''.'')),
                       line ''       Not Available'']
        else [])"


section \<open>Derived statistics\<close>

text \<open>Each block of print_derived_stats prints and, in the first pass, adds descriptions.\<close>

datatype derived = Out "out list" | Desc string string

record print_env =
  pe_wall_usec :: clonglong
  pe_mhz_known :: bool
  pe_events :: papi_events
  pe_exec :: exec_info
  pe_tid :: nat
  pe_ctime :: "int \<Rightarrow> string"
  pe_rusage :: rusage_info
  pe_dmem :: "int + dmem_info"

datatype scope = THR_SCOPE | PROC_SCOPE | JOB_SCOPE

text \<open>The metric is printed when the events are counted.\<close>

definition metric_if :: "bool \<Rightarrow> pglob \<Rightarrow> nat \<Rightarrow> string \<Rightarrow> fexp \<Rightarrow> (string \<times> string) list \<Rightarrow> derived list" where
  "metric_if ok g index desc e descs =
    (if ok then Out (pretty_printf g desc index e) # map (\<lambda>(m, t). Desc m t) descs else [])"

definition all_events :: "pglob \<Rightarrow> string list \<Rightarrow> bool" where
  "all_events g es \<longleftrightarrow> list_all (has_event g) es"

definition heading :: "pglob \<Rightarrow> nat \<Rightarrow> string \<Rightarrow> out list" where
  "heading g index s = (if quiet g then [] else (if index \<noteq> 0 then [Str ''    ''] else []) @ [line s])"

definition blank :: "pglob \<Rightarrow> out list" where
  "blank g = (if quiet g then [] else [line []])"

definition derived_time :: "print_env \<Rightarrow> pglob \<Rightarrow> perthread \<Rightarrow> nat \<Rightarrow> scope \<Rightarrow> derived list" where
  "derived_time env g t index scope =
    (let cnt = (\<lambda>e. Flt (get_event_count g e t index));
         metric = (\<lambda>es. metric_if (all_events g es) g index)
     in metric_if (index = 0 \<and> scope \<noteq> THR_SCOPE \<and> has_event g ''PAPI_FP_OPS'') g index ''MFLOPS Aggregate (wallclock)''
       (Div (cnt ''PAPI_FP_OPS'') (Flt (pe_wall_usec env)))
       [(''MFLOPS Aggregate (wallclock)'', ''Aggregate flops across tasks/threads per _wallclock_ second''),
        ([], ''= PAPI_FP_OPS/WALL_CLOCK_USEC'')] @
     metric [''PAPI_FP_OPS''] ''MFLOPS'' (Div (cnt ''PAPI_FP_OPS'') (get_real_usec (pe_mhz_known env) t index)) [(''MFLOPS'', ''PAPI_FP_OPS / Real usecs'')] @
     metric [''PAPI_TOT_INS'', ''PAPI_TOT_CYC''] ''IPC'' (Div (cnt ''PAPI_TOT_INS'') (cnt ''PAPI_TOT_CYC'')) [(''IPC'', ''PAPI_TOT_INS / PAPI_TOT_CYC'')] @
     [Out (blank g @ heading g index ''Time:'')] @
     metric_if (index = 0 \<and> scope \<noteq> THR_SCOPE) g index ''Wallclock (sec)'' (Div (Flt (pe_wall_usec env)) (Lit 1000000))
       [(''Wallclock (sec)'', ''Wallclock time in seconds'')] @
     metric [''PAPI_TOT_CYC''] ''Running Time in Domain %'' (Div (Mul (Lit 100) (cnt ''PAPI_TOT_CYC'')) (Flt (real_cyc (pt_data t ! index)))) [(''Running Time in Domain %'', ''100 * PAPI_TOT_CYC / Real cycles'')])"

definition derived_instructions :: "print_env \<Rightarrow> pglob \<Rightarrow> perthread \<Rightarrow> nat \<Rightarrow> scope \<Rightarrow> derived list" where
  "derived_instructions env g t index scope =
    (let cnt = (\<lambda>e. Flt (get_event_count g e t index));
         metric = (\<lambda>es. metric_if (all_events g es) g index)
     in [Out (blank g @ heading g index ''Instructions:'')] @
     (if all_events g [''PAPI_TOT_INS'', ''PAPI_LST_INS'']
      then metric [''PAPI_TOT_INS'', ''PAPI_LST_INS''] ''Memory Instructions %'' (Div (Mul (Lit 100) (cnt ''PAPI_LST_INS'')) (cnt ''PAPI_TOT_INS'')) []
      else metric [''PAPI_TOT_INS'', ''PAPI_LD_INS'', ''PAPI_SR_INS''] ''Memory Instructions %'' (Div (Mul (Lit 100) (Flt (get_event_count g ''PAPI_LD_INS'' t index + get_event_count g ''PAPI_SR_INS'' t index)))
          (cnt ''PAPI_TOT_INS'')) []) @
     (if all_events g [''PAPI_TOT_INS'', ''PAPI_FP_INS'']
      then metric [''PAPI_TOT_INS'', ''PAPI_FP_INS''] ''FP Instructions %'' (Div (Mul (Lit 100) (cnt ''PAPI_FP_INS'')) (cnt ''PAPI_TOT_INS'')) []
      else metric [''PAPI_TOT_INS'', ''PAPI_FP_OPS''] ''FP Instructions (approx) %'' (Div (Mul (Lit 100) (cnt ''PAPI_FP_OPS'')) (cnt ''PAPI_TOT_INS'')) [(''FP Instructions (approx) %'', ''100 * PAPI_FP_OPS / PAPI_TOT_CYC'')]) @
     metric [''PAPI_TOT_INS'', ''PAPI_BR_INS''] ''Branch Instructions %'' (Div (Mul (Lit 100) (cnt ''PAPI_BR_INS'')) (cnt ''PAPI_TOT_INS'')) [] @
     metric [''PAPI_TOT_INS'', ''PAPI_INT_INS''] ''Integer Instructions %'' (Div (Mul (Lit 100) (cnt ''PAPI_INT_INS'')) (cnt ''PAPI_TOT_INS'')) [])"

definition derived_memory :: "print_env \<Rightarrow> pglob \<Rightarrow> perthread \<Rightarrow> nat \<Rightarrow> scope \<Rightarrow> derived list" where
  "derived_memory env g t index scope =
    (let cnt = (\<lambda>e. Flt (get_event_count g e t index));
         metric = (\<lambda>es. metric_if (all_events g es) g index)
     in [Out (blank g @ heading g index ''Memory:'')] @
     metric [''PAPI_LD_INS'', ''PAPI_SR_INS''] ''Loads/Stores ratio'' (Div (cnt ''PAPI_LD_INS'') (cnt ''PAPI_SR_INS'')) [] @
     metric [''PAPI_L1_DCM'', ''PAPI_TOT_INS''] ''L1 D-cache Misses Per Thousand Ins.'' (Mul (Lit 1000) (Div (cnt ''PAPI_L1_DCM'') (cnt ''PAPI_TOT_INS''))) [] @
     (if all_events g [''PAPI_LST_INS'', ''PAPI_L1_DCM'']
      then metric [''PAPI_LST_INS'', ''PAPI_L1_DCM''] ''L1 D-cache hit %'' (Sub (Lit 100) (Mul (Lit 100) (Div (cnt ''PAPI_L1_DCM'') (cnt ''PAPI_LST_INS'')))) []
      else metric [''PAPI_L1_DCA'', ''PAPI_L1_DCM''] ''L1 D-cache hit %'' (Sub (Lit 100) (Mul (Lit 100) (Div (cnt ''PAPI_L1_DCM'') (cnt ''PAPI_L1_DCA'')))) []) @
     metric [''PAPI_TOT_INS'', ''PAPI_L1_ICM''] ''L1 I-cache hit %'' (Sub (Lit 100) (Mul (Lit 100) (Div (cnt ''PAPI_L1_ICM'') (cnt ''PAPI_TOT_INS'')))) [] @
     metric [''PAPI_L2_DCA'', ''PAPI_L2_DCM''] ''L2 D-cache hit %'' (Sub (Lit 100) (Mul (Lit 100) (Div (cnt ''PAPI_L2_DCM'') (cnt ''PAPI_L2_DCA'')))) [] @
     metric [''PAPI_L2_ICA'', ''PAPI_L2_ICM''] ''L2 I-cache hit %'' (Sub (Lit 100) (Mul (Lit 100) (Div (cnt ''PAPI_L2_ICM'') (cnt ''PAPI_L2_ICA'')))) [] @
     metric [''PAPI_LST_INS'', ''PAPI_TLB_DM''] ''D-TLB hit %'' (Sub (Lit 100) (Mul (Lit 100) (Div (cnt ''PAPI_TLB_DM'') (cnt ''PAPI_LST_INS'')))) [] @
     metric [''PAPI_TOT_INS'', ''PAPI_TLB_IM''] ''I-TLB hit %'' (Sub (Lit 100) (Mul (Lit 100) (Div (cnt ''PAPI_TLB_IM'') (cnt ''PAPI_TOT_INS'')))) [])"

definition derived_stalls :: "print_env \<Rightarrow> pglob \<Rightarrow> perthread \<Rightarrow> nat \<Rightarrow> scope \<Rightarrow> derived list" where
  "derived_stalls env g t index scope =
    (let cnt = (\<lambda>e. Flt (get_event_count g e t index));
         metric = (\<lambda>es. metric_if (all_events g es) g index)
     in [Out (blank g @ heading g index ''Stalls:'')] @
     metric [''PAPI_TOT_CYC'', ''PAPI_RES_STL''] ''Stall Cycles %'' (Mul (Lit 100) (Div (cnt ''PAPI_RES_STL'') (cnt ''PAPI_TOT_CYC''))) [] @
     metric [''PAPI_TOT_CYC'', ''PAPI_MEM_SCY''] ''Memory Stall Cycles %'' (Mul (Lit 100) (Div (cnt ''PAPI_MEM_SCY'') (cnt ''PAPI_TOT_CYC''))) [] @
     metric [''PAPI_TOT_CYC'', ''PAPI_FP_STAL''] ''FP Stall Cycles %'' (Mul (Lit 100) (Div (cnt ''PAPI_FP_STAL'') (cnt ''PAPI_TOT_CYC''))) [] @
     [Out (blank g)] @
     metric [''PAPI_FP_OPS'', ''PAPI_L1_DCM''] ''FLOPS per D-cache miss'' (Div (cnt ''PAPI_FP_OPS'') (cnt ''PAPI_L1_DCM'')) [] @
     metric [''PAPI_FP_OPS'', ''PAPI_LST_INS''] ''Computational Intensity (FLOP/load-store)'' (Div (cnt ''PAPI_FP_OPS'') (cnt ''PAPI_LST_INS'')) [] @
     metric [''PAPI_BR_INS'', ''PAPI_BR_MSP''] ''Branch Misprediction %'' (Mul (Lit 100) (Div (cnt ''PAPI_BR_MSP'') (cnt ''PAPI_BR_INS''))) [] @
     metric [''PAPI_TOT_CYC'', ''PAPI_FUL_ICY''] ''Full Issue Cycles %'' (Mul (Lit 100) (Div (cnt ''PAPI_FUL_ICY'') (cnt ''PAPI_TOT_CYC''))) [] @
     metric [''PAPI_TOT_CYC'', ''PAPI_STL_ICY''] ''No Issue Cycles %'' (Mul (Lit 100) (Div (cnt ''PAPI_STL_ICY'') (cnt ''PAPI_TOT_CYC''))) [] @
     metric [''PAPI_TOT_CYC'', ''PAPI_FPU_IDL''] ''FPU Idle Cycles %'' (Mul (Lit 100) (Div (cnt ''PAPI_FPU_IDL'') (cnt ''PAPI_TOT_CYC''))) [] @
     metric [''PAPI_TOT_CYC'', ''PAPI_LSU_IDL''] ''LSU Idle Cycles %'' (Mul (Lit 100) (Div (cnt ''PAPI_LSU_IDL'') (cnt ''PAPI_TOT_CYC''))) [])"

text \<open>The share of the real cycles that a profile takes, 0 where there are none.\<close>

definition share :: "perthread \<Rightarrow> clonglong \<Rightarrow> fexp" where
  "share t prof = (let r = real_cyc (pt_data t ! 0) in if r \<noteq> 0 then Div (Mul (Lit 100) (Flt prof)) (Flt r) else Lit 0)"

definition derived_profiles :: "pglob \<Rightarrow> perthread \<Rightarrow> nat \<Rightarrow> derived list" where
  "derived_profiles g t index =
    (if index = 0
     then metric_if (\<not> no_mpi_prof g \<and> is_mpied g) g index ''MPI cycles %'' (share t (papiex_mpiprof t))
            [(''MPI cycles %'', ''100 * Real cycles in MPI / Real cycles'')] @
          metric_if (\<not> no_mpi_prof g \<and> is_mpied g) g index ''MPI Sync cycles %'' (share t (papiex_mpisyncprof t))
            [(''MPI Sync cycles %'', ''100 * Real cycles in MPI / Real cycles'')] @
          metric_if (\<not> no_io_prof g) g index ''IO cycles %'' (share t (papiex_ioprof t))
            [(''IO cycles %'', ''100 * Real cycles in I/O / Real cycles'')] @
          metric_if (\<not> no_threadsync_prof g) g index ''Thr Sync cycles %'' (share t (papiex_threadsyncprof t))
            [(''Thr Sync cycles %'', ''100 * Real cycles in I/O / Real cycles'')] @
          [Desc ''Virtual'' ''Counted only when process (or kernel on behalf of procss) executing on CPU'',
           Desc ''Real'' ''Always counted, unhalted time'']
     else [])"

text \<open>The descriptions collected so far and the number of passes.\<close>

record prst =
  derived_events_desc :: string
  not_first_pass :: nat

definition prst_start :: prst where
  "prst_start = \<lparr>derived_events_desc = NEWLINE # ''Derived event descriptions:'' @ [NEWLINE], not_first_pass = 0\<rparr>"

definition add_derived_desc :: "string \<Rightarrow> string \<Rightarrow> string" where
  "add_derived_desc m t = pad_right 30 m @ '': '' @ t @ [NEWLINE]"

fun outs_of :: "derived list \<Rightarrow> out list" where
  "outs_of [] = []"
| "outs_of (Out os # ds) = os @ outs_of ds"
| "outs_of (Desc m t # ds) = outs_of ds"

fun descs_of :: "derived list \<Rightarrow> string" where
  "descs_of [] = []"
| "descs_of (Out os # ds) = descs_of ds"
| "descs_of (Desc m t # ds) = add_derived_desc m t @ descs_of ds"

definition print_derived_stats ::
  "print_env \<Rightarrow> pglob \<Rightarrow> perthread \<Rightarrow> nat \<Rightarrow> scope \<Rightarrow> prst \<Rightarrow> out list \<times> prst" where
  "print_derived_stats env g t index scope s =
    (if no_derived_stats g then ([], s)
     else let ds = [Out (heading g index ''Derived Metrics:'' @ heading g index ''---------------:'')] @
                derived_time env g t index scope @ derived_instructions env g t index scope @
                derived_memory env g t index scope @ derived_stalls env g t index scope @
                derived_profiles g t index @ [Out [line []]]
          in (outs_of ds,
              s\<lparr>derived_events_desc := derived_events_desc s @ (if not_first_pass s = 0 then descs_of ds else []),
                not_first_pass := not_first_pass s + 1\<rparr>))"

section \<open>The statistics of a thread\<close>

definition PAPIEX_MPX_MIN_SAMPLES :: int where "PAPIEX_MPX_MIN_SAMPLES = 10"

text \<open>Whether the thread ran too short for its multiplexed counts; None divides by zero.\<close>

definition too_short :: "pglob \<Rightarrow> perthread \<Rightarrow> bool option" where
  "too_short g t =
    (if \<not> multiplex g then Some False
     else if mpx_interval g = 0 then None
     else Some (sint (virt_usec (pt_data t ! 0)) \<le> (1000000 * PAPIEX_MPX_MIN_SAMPLES) sdiv mpx_interval g))"

definition warning_values :: "pglob \<Rightarrow> perthread \<Rightarrow> fexp \<times> fexp" where
  "warning_values g t = (Div (Flt (virt_usec (pt_data t ! 0))) (Lit 1000000),
     Div (Lit PAPIEX_MPX_MIN_SAMPLES) (Lit (mpx_interval g)))"

definition mpx_warning :: "pglob \<Rightarrow> perthread \<Rightarrow> out list" where
  "mpx_warning g t =
    (case too_short g t of None \<Rightarrow> [Trap] | Some False \<Rightarrow> []
     | Some True \<Rightarrow> let (ran, need) = warning_values g t in
        [line ''*********************** WARNING *****************************'',
         Str ''This thread ran for '', Num ''%4.2f'' ran, line '' secs (CPU time) which is less than'',
         Str ''the time ('', Num ''%4.2f'' need,
         line ('' secs) needed to get the minimum '' @ dec_int PAPIEX_MPX_MIN_SAMPLES @ '' samples.''),
         line ''This makes the numbers suspect. You can try to either disable'',
         line ''multiplexing (no -m or -a), or increase the multiplexing frequency'',
         line (''from the current value of '' @ dec_int (mpx_interval g) @ '' by using the -m<frequency> flag.''),
         line ''*************************************************************'', line []])"

definition pretty_events :: "(string \<times> string) list" where
  "pretty_events = [
   (''Cycles'', ''PAPI_TOT_CYC''),
   (''Total Resource Stalls'', ''PAPI_RES_STL''),
   (''Memory Stall Cycles'', ''PAPI_MEM_SCY''),
   (''FP Stall Cycles'', ''PAPI_FP_STAL''),
   (''FP Operations'', ''PAPI_FP_OPS''),
   (''Instructions Completed'', ''PAPI_TOT_INS''),
   (''FP Instructions'', ''PAPI_FP_INS''),
   (''Integer Instructions'', ''PAPI_INT_INS''),
   (''FMA Instructions'', ''PAPI_FMA_INS''),
   (''Vector Instructions'', ''PAPI_VEC_INS''),
   (''Load-Store Instructions'', ''PAPI_LST_INS''),
   (''Load Instructions'', ''PAPI_LD_INS''),
   (''Store Instructions'', ''PAPI_SR_INS''),
   (''Store Conditionals Issued'', ''PAPI_CSR_TOT''),
   (''Store Conditionals Failed'', ''PAPI_CSR_FAL''),
   (''Branch Instructions'', ''PAPI_BR_INS''),
   (''Conditional Branch Instructions'', ''PAPI_BR_CN''),
   (''Mispredicted Branches'', ''PAPI_BR_MSP''),
   (''L1 Data Cache Accesses'', ''PAPI_L1_DCA''),
   (''L1 Data Cache Misses'', ''PAPI_L1_DCM''),
   (''L1 Instruction Cache Misses'', ''PAPI_L1_ICM''),
   (''L2 Data Cache Accesses'', ''PAPI_L2_DCA''),
   (''L2 Data Cache Misses'', ''PAPI_L2_DCM''),
   (''L2 Instruction Cache Accesses'', ''PAPI_L2_ICA''),
   (''L2 Instruction Cache Misses'', ''PAPI_L2_ICM''),
   (''Cache Line Invalidation Requests'', ''PAPI_CA_INV''),
   (''Data TLB Misses'', ''PAPI_TLB_DM''),
   (''Instruction TLB Misses'', ''PAPI_TLB_IM''),
   (''FPU Idle Cycles'', ''PAPI_FPU_IDL''),
   (''LSU Idle Cycles'', ''PAPI_LSU_IDL''),
   (''Cycles with No Issue'', ''PAPI_STL_ICY''),
   (''Cycles with Full Issue'', ''PAPI_FUL_ICY'')]"

definition print_pretty_stats ::
  "print_env \<Rightarrow> pglob \<Rightarrow> perthread \<Rightarrow> nat \<Rightarrow> scope \<Rightarrow> prst \<Rightarrow> out list \<times> prst" where
  "print_pretty_stats env g t index scope s =
    (let top = (if index = 0 then mpx_warning g t
                else [line (''    '' @ (if cal_label (pt_data t ! index) \<noteq> [] then cal_label (pt_data t ! index)
                                      else ''Caliper '' @ dec index))]);
         (derived, s1) = print_derived_stats env g t index scope s
     in (top @ derived @ (if multiplex g then heading g index ''Multiplex Counts:'' else []) @
           concat (map (\<lambda>(desc, e). print_event_count g desc e t index) pretty_events) @ [line []], s1))"

text \<open>The thread and its used calipers, in their order.\<close>

definition used_calipers :: "perthread \<Rightarrow> nat list" where
  "used_calipers t = filter (\<lambda>j. cal_used (pt_data t ! j) > 0) [1..<nat (max_caliper_entries t)]"

definition print_all_pretty_stats ::
  "print_env \<Rightarrow> pglob \<Rightarrow> perthread \<Rightarrow> scope \<Rightarrow> prst \<Rightarrow> out list \<times> prst" where
  "print_all_pretty_stats env g t scope s =
    fold (\<lambda>j (os, s). let (os', s') = print_pretty_stats env g t j scope s in (os @ os', s'))
      (used_calipers t) (print_pretty_stats env g t 0 scope s)"

section \<open>The counters\<close>

definition caliper_name :: "perthread \<Rightarrow> nat \<Rightarrow> string" where
  "caliper_name t j = (let l = cal_label (pt_data t ! j) in if l = [] then dec j else l)"

definition terse_warning :: "pglob \<Rightarrow> perthread \<Rightarrow> out list" where
  "terse_warning g t =
    (case too_short g t of None \<Rightarrow> [Trap] | Some False \<Rightarrow> []
     | Some True \<Rightarrow> let (ran, need) = warning_values g t in
        [line [], line ''--- WARNING ---'',
         Str ''This thread ran for '', Num ''%4.2f'' ran, line '' secs (CPU time), which is less than the time'',
         Str ''('', Num ''%4.2f'' need,
         line ('' secs) needed to get the minimum '' @ dec_int PAPIEX_MPX_MIN_SAMPLES @ '' samples. The numbers are suspect.''),
         line ''Try the run without multiplex (without -a and -m) or increase the multiplex'',
         line (''frequency. You can increase the frequency from the current '' @ dec_int (mpx_interval g) @ '' by specifying''),
         line ''-m<interval> to get more samples.'', line []])"

definition terse_thread :: "print_env \<Rightarrow> pglob \<Rightarrow> perthread \<Rightarrow> out list" where
  "terse_thread env g t =
    (let c = pt_data t ! 0 in
     left_line (pe_wall_usec env) ''[PROCESS] Wallclock usecs'' @
     left_line (real_usec c) ''Real usecs'' @ left_line (real_cyc c) ''Real cycles'' @
     left_line (virt_usec c) ''Virtual usecs'' @ left_line (virt_cyc c) ''Virtual cycles'' @
     (if \<not> no_mpi_prof g \<and> is_mpied g
      then left_line (papiex_mpiprof t) ''MPI cycles'' @ left_line (papiex_mpisyncprof t) ''MPI Sync cycles'' else []) @
     (if \<not> no_io_prof g then left_line (papiex_ioprof t) ''IO cycles'' else []) @
     (if \<not> no_threadsync_prof g then left_line (papiex_threadsyncprof t) ''Thr Sync cycles'' else []) @
     concat (map (\<lambda>i. left_line (counters c i) (eventnames g ! i)) [0..<eventcnt g]))"

text \<open>The uses are a float cast to long long.\<close>

definition terse_caliper :: "pglob \<Rightarrow> perthread \<Rightarrow> nat \<Rightarrow> out list" where
  "terse_caliper g t j =
    (let c = pt_data t ! j; name = ''['' @ caliper_name t j @ ''] '' in
     line [] # left_line (of_nat j) (''[LABEL] '' @ cal_label c) @
     left_line (of_nat (cal_used c)) (name @ ''Measurements'') @
     left_line (real_cyc c) (name @ ''Real cycles'') @
     concat (map (\<lambda>i. left_line (counters c i) (name @ eventnames g ! i)) [0..<eventcnt g]))"

definition pretty_thread :: "pglob \<Rightarrow> perthread \<Rightarrow> out list" where
  "pretty_thread g t =
    (let c = pt_data t ! 0 in
     pretty_printl g ''Real usecs'' 0 (real_usec c) @ pretty_printl g ''Real cycles'' 0 (real_cyc c) @
     pretty_printl g ''Virtual usecs'' 0 (virt_usec c) @ pretty_printl g ''Virtual cycles'' 0 (virt_cyc c) @
     (if \<not> no_mpi_prof g \<and> is_mpied g
      then pretty_printl g ''MPI cycles'' 0 (papiex_mpiprof t) @
           pretty_printl g ''MPI Sync cycles'' 0 (papiex_mpisyncprof t) else []) @
     (if \<not> no_io_prof g then pretty_printl g ''IO cycles'' 0 (papiex_ioprof t) else []) @
     (if \<not> no_threadsync_prof g then pretty_printl g ''Thr Sync cycles'' 0 (papiex_threadsyncprof t) else []) @
     concat (map (\<lambda>i. pretty_printl g (eventnames g ! i) 0 (counters c i)) [0..<eventcnt g]))"

definition pretty_caliper :: "pglob \<Rightarrow> perthread \<Rightarrow> nat \<Rightarrow> out list" where
  "pretty_caliper g t j =
    (let c = pt_data t ! j in
     line [] # line (''    '' @ (if cal_label c = [] then ''Caliper '' @ dec j else cal_label c)) #
     pretty_printl g ''Executions'' 1 (of_nat (cal_used c)) @ pretty_printl g ''Real cycles'' 1 (real_cyc c) @
     concat (map (\<lambda>i. pretty_print g (eventnames g ! i) (TYPE_LONG (Flt (counters c i))) True True @
         [Num '' [%5.1f%%]'' (Div (Mul (Lit 100) (Flt (counters c i))) (Flt (counters (pt_data t ! 0) i))), line []])
       [0..<eventcnt g]))"

text \<open>The short description, which takes no walk over events.\<close>

definition event_lines :: "print_env \<Rightarrow> int \<Rightarrow> out list" where
  "event_lines env code =
    (case papiex_dump_event_info (pe_events env) code False of None \<Rightarrow> [] | Some os \<Rightarrow> os)"

definition print_counters :: "print_env \<Rightarrow> pglob \<Rightarrow> perthread \<Rightarrow> prst \<Rightarrow> out list" where
  "print_counters env g t s =
    (if terse g
     then terse_warning g t @ terse_thread env g t @ concat (map (terse_caliper g t) (used_calipers t))
     else pretty_thread g t @ concat (map (pretty_caliper g t) (used_calipers t))) @
    (if quiet g then []
     else [line [], line ''Event descriptions:''] @ concat (map (\<lambda>i. event_lines env (eventcodes g i)) [0..<eventcnt g]) @
          [Str (derived_events_desc s)])"

text \<open>ctime ends its text with a newline.\<close>

definition thread_heading :: "print_env \<Rightarrow> pglob \<Rightarrow> perthread \<Rightarrow> out list" where
  "thread_heading env g t =
     print_executable_info (pe_exec env) g @
     (if is_mpied g then [named_int ''Mpi Rank'' (myrank g)] else []) @
     (if papiex_threaded g then [named ''Thread id'' (dec (pe_tid env))] else []) @
     [Str (pad_right 30 ''Start'' @ '': '' @ pe_ctime env (pt_stamp t)),
      Str (pad_right 30 ''Finish'' @ '': '' @ pe_ctime env (pt_finish t)), line []]"

definition print_thread_stats :: "print_env \<Rightarrow> pglob \<Rightarrow> perthread \<Rightarrow> scope \<Rightarrow> prst \<Rightarrow> out list \<times> prst" where
  "print_thread_stats env g t scope s =
    (let (stats, s1) = (if papiex_nextgen g then ([], s) else print_all_pretty_stats env g t scope s)
     in ((if quiet g then [] else thread_heading env g t) @ stats @
         (if rusage g then print_rusage_stats g (pe_rusage env) else []) @
         (if memory g then papiex_dump_memory_info g (pe_dmem env) else []) @
         print_counters env g t s1, s1))"

section \<open>Least, largest and mean values\<close>

text \<open>A row of print_min_max_mean_cv in quiet mode, and in the other.  The coefficient of
  variation is a plain quotient, or 0 for a mean that is not positive.\<close>

definition quiet_row :: "string \<Rightarrow> clonglong \<Rightarrow> clonglong \<Rightarrow> clonglong \<Rightarrow> clonglong \<Rightarrow> string \<Rightarrow> out list" where
  "quiet_row before mn mx mean sd after =
    [Str before, Right16 mn, Str [TAB], Right16 mx, Str [TAB], Right16 mean, Str [TAB],
     Num ''%16.2f'' (Div (Flt sd) (Flt mean)), line after]"

definition pretty_row :: "bool \<Rightarrow> string \<Rightarrow> clonglong \<Rightarrow> clonglong \<Rightarrow> clonglong \<Rightarrow> clonglong \<Rightarrow> out list" where
  "pretty_row guarded name mn mx mean sd =
    [Str (pad_right 30 name @ '': ''), Num ''%12g'' (Flt mn), Str [TAB], Num ''%12g'' (Flt mx), Str [TAB],
     Num ''%12g'' (Flt mean), Str [TAB],
     Num ''%8.2f'' (if \<not> guarded \<or> sint mean > 0 then Div (Flt sd) (Flt mean) else Lit 0), line []]"

text \<open>One row of a value of the threads.\<close>

definition quiet_value ::
  "perthread \<Rightarrow> perthread \<Rightarrow> perthread \<Rightarrow> perthread \<Rightarrow> string \<Rightarrow> (perthread \<Rightarrow> clonglong) \<Rightarrow> out list" where
  "quiet_value mn mx mean sd name f = quiet_row [] (f mn) (f mx) (f mean) (f sd) (TAB # name)"

definition pretty_value ::
  "perthread \<Rightarrow> perthread \<Rightarrow> perthread \<Rightarrow> perthread \<Rightarrow> bool \<Rightarrow> string \<Rightarrow> (perthread \<Rightarrow> clonglong) \<Rightarrow> out list" where
  "pretty_value mn mx mean sd guarded name f = pretty_row guarded name (f mn) (f mx) (f mean) (f sd)"

definition point0 :: "(caliper \<Rightarrow> 'a) \<Rightarrow> perthread \<Rightarrow> 'a" where
  "point0 f t = f (pt_data t ! 0)"

text \<open>The rows under a caliper take the counters of caliper 0.\<close>

definition print_min_max_mean_cv ::
  "pglob \<Rightarrow> perthread \<Rightarrow> perthread \<Rightarrow> perthread \<Rightarrow> perthread \<Rightarrow> out list" where
  "print_min_max_mean_cv g mn mx mean sd =
    (let qv = quiet_value mn mx mean sd; pv = pretty_value mn mx mean sd;
         mpi = (\<not> no_mpi_prof g \<and> is_mpied g); names = map (\<lambda>k. (k, eventnames g ! k)) [0..<eventcnt g];
         used = map (\<lambda>j. (j, cal_label (pt_data mean ! j))) (filter (\<lambda>j. cal_used (pt_data mean ! j) > 0) [1..<PAPIEX_MAX_CALIPERS])
     in line [] #
        (if quiet g
         then qv ''Real cycles'' (point0 real_cyc) @ qv ''Real usecs'' (point0 real_usec) @
              qv ''Virtual cycles'' (point0 virt_cyc) @ qv ''Virtual usecs'' (point0 virt_usec) @
              (if mpi then qv ''MPI cycles'' papiex_mpiprof @ qv ''MPI Sync cycles'' papiex_mpisyncprof else []) @
              (if \<not> no_io_prof g then qv ''IO cycles'' papiex_ioprof else []) @
              (if \<not> no_threadsync_prof g then qv ''Thr Sync cycles'' papiex_threadsyncprof else []) @
              concat (map (\<lambda>(k, e). qv e (\<lambda>t. point0 counters t k)) names) @
              concat (map (\<lambda>(j, label). [line [], line (''Caliper '' @ dec j @ '', '' @ label @ '':'')] @
                concat (map (\<lambda>(k, e). quiet_row (e @ '':'' @ [TAB]) (point0 counters mn k) (point0 counters mx k)
                  (point0 counters mean k) (point0 counters sd k) []) names)) used)
         else [line [], line ''Program Statistics:'',
               line (pad_right 30 ''Event'' @ '': '' @ pad_left 12 ''Min'' @ TAB # pad_left 12 ''Max'' @ TAB # pad_left 12 ''Mean'' @
                 TAB # pad_left 8 ''COV'')] @
              pv False ''Real usecs'' (point0 real_usec) @ pv False ''Real cycles'' (point0 real_cyc) @
              pv False ''Virtual usecs'' (point0 virt_usec) @ pv False ''Virtual cycles'' (point0 virt_cyc) @
              (if mpi then pv True ''MPI cycles'' papiex_mpiprof @ pv True ''MPI Sync cycles'' papiex_mpisyncprof else []) @
              (if \<not> no_io_prof g then pv True ''IO cycles'' papiex_ioprof else []) @
              (if \<not> no_threadsync_prof g then pv True ''Thr Sync cycles'' papiex_threadsyncprof else []) @
              concat (map (\<lambda>(k, e). pv True e (\<lambda>t. point0 counters t k)) names) @
              concat (map (\<lambda>(j, label). [line [], line (''Caliper '' @ dec j @ '': '' @ label)] @
                concat (map (\<lambda>(k, e). pv True e (\<lambda>t. point0 counters t k)) names)) used) @
              [line []]))"

end
