(* ===== verification/ReportFacts.thy ===== *)
theory ReportFacts
  imports Report CaliperFacts
begin

text \<open>
  Facts and properties of the output: the terse report read back, and what the rows of the
  calipers in the process statistics are.
\<close>

section \<open>Reading the terse report\<close>

fun lines_of :: "string \<Rightarrow> string list" where
  "lines_of [] = []"
| "lines_of (c # cs) =
    (if c = NEWLINE then [] # lines_of cs
     else case lines_of cs of [] \<Rightarrow> [[c]] | l # ls \<Rightarrow> (c # l) # ls)"

definition read_int :: "string \<Rightarrow> int" where
  "read_int s = (case s of c # cs \<Rightarrow> if c = CHR ''-'' then - int (undec cs) else int (undec s) | [] \<Rightarrow> 0)"

text \<open>A value, blanks and a name; a blank line has no value.\<close>

definition read_line :: "string \<Rightarrow> (int \<times> string) option" where
  "read_line l =
    (let num = takeWhile (\<lambda>c. c \<noteq> CHR '' '') l; rest = dropWhile (\<lambda>c. c \<noteq> CHR '' '') l
     in if num = [] then None else Some (read_int num, dropWhile (\<lambda>c. c = CHR '' '') rest))"

definition read_report :: "string \<Rightarrow> (int \<times> string) list" where
  "read_report text = List.map_filter read_line (lines_of text)"

lemma lines_of_line: "NEWLINE \<notin> set l \<Longrightarrow> lines_of (l @ NEWLINE # r) = l # lines_of r"
  by (induction l) auto

lemma dec_int_chars: "c \<in> set (dec_int i) \<Longrightarrow> c \<noteq> CHR '' '' \<and> c \<noteq> NEWLINE"
  using dec_chars by (auto simp: dec_int_def NEWLINE_def split: if_splits) fastforce+

lemma read_dec_int: "read_int (dec_int i) = i"
proof (cases "i < 0")
  case True
  then show ?thesis by (simp add: dec_int_def read_int_def)
next
  case False
  obtain c cs where d: "dec (nat i) = c # cs" by (cases "dec (nat i)") simp_all
  then have "48 \<le> (of_char c :: nat)" using dec_chars [of c "nat i"] by simp
  then have "c \<noteq> CHR ''-''" by auto
  then show ?thesis using False d undec_dec [of "nat i"] by (simp add: dec_int_def read_int_def)
qed

definition line_text :: "clonglong \<times> string \<Rightarrow> string" where
  "line_text e = pad_right 16 (dec_int (sint (fst e))) @ '' '' @ snd e"

text \<open>The name of an entry, of one line that does not begin with a blank.\<close>

definition name_ok :: "string \<Rightarrow> bool" where
  "name_ok s \<longleftrightarrow> s \<noteq> [] \<and> hd s \<noteq> CHR '' '' \<and> NEWLINE \<notin> set s"

lemma read_line_text:
  assumes "name_ok s"
  shows "read_line (line_text (v, s)) = Some (sint v, s)"
proof -
  let ?d = "dec_int (sint v)" and ?b = "replicate (16 - length (dec_int (sint v))) (CHR '' '') @ '' ''"
  have l: "line_text (v, s) = ?d @ ?b @ s" by (simp add: line_text_def pad_right_def)
  have d: "\<forall>c\<in>set ?d. c \<noteq> CHR '' ''" using dec_int_chars by blast
  obtain b where b: "?b @ s = CHR '' '' # b" by (cases "16 - length (dec_int (sint v))") auto
  have "takeWhile (\<lambda>c. c \<noteq> CHR '' '') (?d @ ?b @ s) = ?d" unfolding b using d by (subst takeWhile_append2) auto
  moreover have "dropWhile (\<lambda>c. c \<noteq> CHR '' '') (?d @ ?b @ s) = ?b @ s"
    using d b by (subst dropWhile_append2) auto
  moreover have "dropWhile (\<lambda>c. c = CHR '' '') (?b @ s) = s"
  proof -
    have "dropWhile (\<lambda>c. c = CHR '' '') (?b @ s) = dropWhile (\<lambda>c. c = CHR '' '') s"
      by (subst dropWhile_append2) auto
    then show ?thesis using assms by (cases s) (auto simp: name_ok_def)
  qed
  moreover have "?d \<noteq> []" by (simp add: dec_int_def)
  ultimately show ?thesis unfolding l read_line_def Let_def by (simp add: read_dec_int)
qed

lemma line_text_no_newline: "name_ok s \<Longrightarrow> NEWLINE \<notin> set (line_text (v, s))"
  using dec_int_chars [of NEWLINE "sint v"] by (auto simp: line_text_def pad_right_def name_ok_def NEWLINE_def)

text \<open>Blocks of output: an entry, or a blank line.\<close>

fun block :: "(clonglong \<times> string) option \<Rightarrow> out list" where
  "block None = [line []]"
| "block (Some e) = left_line (fst e) (snd e)"

lemma read_blocks:
  assumes "\<forall>e\<in>set (List.map_filter id bs). name_ok (snd e)"
  shows "read_report (concat (map (render fl) (concat (map block bs)))) =
    map (\<lambda>(v, s). (sint v, s)) (List.map_filter id bs)"
  using assms
proof (induction bs)
  case Nil
  then show ?case by (simp add: read_report_def List.map_filter_def)
next
  case (Cons b bs)
  let ?rest = "concat (map (render fl) (concat (map block bs)))"
  have IH: "List.map_filter read_line (lines_of ?rest) = map (\<lambda>(v, s). (sint v, s)) (List.map_filter id bs)"
    using Cons by (auto simp: List.map_filter_def read_report_def split: option.splits)
  show ?case
  proof (cases b)
    case None
    have "lines_of ([] @ NEWLINE # ?rest) = [] # lines_of ?rest" by (rule lines_of_line) simp
    then show ?thesis using None IH by (simp add: read_report_def line_def List.map_filter_def read_line_def)
  next
    case (Some e)
    obtain v s where e: "e = (v, s)" by (cases e)
    have ok: "name_ok s" using Cons.prems Some e by (simp add: List.map_filter_def)
    have "concat (map (render fl) (concat (map block (b # bs)))) = line_text (v, s) @ NEWLINE # ?rest"
      using Some e by (simp add: left_line_def line_def line_text_def)
    then show ?thesis
      using lines_of_line [OF line_text_no_newline [OF ok]] read_line_text [OF ok] IH Some e
      by (simp add: read_report_def List.map_filter_def)
  qed
qed

section \<open>What the report lists\<close>

definition thread_entries :: "print_env \<Rightarrow> pglob \<Rightarrow> perthread \<Rightarrow> (clonglong \<times> string) list" where
  "thread_entries env g t =
    (let c = pt_data t ! 0 in
     [(pe_wall_usec env, ''[PROCESS] Wallclock usecs''), (real_usec c, ''Real usecs''), (real_cyc c, ''Real cycles''),
      (virt_usec c, ''Virtual usecs''), (virt_cyc c, ''Virtual cycles'')] @
     (if \<not> no_mpi_prof g \<and> is_mpied g
      then [(papiex_mpiprof t, ''MPI cycles''), (papiex_mpisyncprof t, ''MPI Sync cycles'')] else []) @
     (if \<not> no_io_prof g then [(papiex_ioprof t, ''IO cycles'')] else []) @
     (if \<not> no_threadsync_prof g then [(papiex_threadsyncprof t, ''Thr Sync cycles'')] else []) @
     map (\<lambda>i. (counters c i, eventnames g ! i)) [0..<eventcnt g])"

definition caliper_entries :: "pglob \<Rightarrow> perthread \<Rightarrow> nat \<Rightarrow> (clonglong \<times> string) list" where
  "caliper_entries g t j =
    (let c = pt_data t ! j; name = ''['' @ caliper_name t j @ ''] '' in
     [(of_nat j, ''[LABEL] '' @ cal_label c), (of_nat (cal_used c), name @ ''Measurements''),
      (real_cyc c, name @ ''Real cycles'')] @ map (\<lambda>i. (counters c i, name @ eventnames g ! i)) [0..<eventcnt g])"

lemma blocks_of_entries: "concat (map block (map Some es)) = concat (map (\<lambda>(v, s). left_line v s) es)"
  by (induction es) auto

lemma terse_thread_blocks: "terse_thread env g t = concat (map block (map Some (thread_entries env g t)))"
  unfolding blocks_of_entries by (simp add: terse_thread_def thread_entries_def Let_def o_def)

lemma terse_caliper_blocks: "terse_caliper g t j = concat (map block (None # map Some (caliper_entries g t j)))"
proof -
  have "concat (map block (None # map Some (caliper_entries g t j))) =
      line [] # concat (map (\<lambda>(v, s). left_line v s) (caliper_entries g t j))"
    using blocks_of_entries [of "caliper_entries g t j"] by simp
  then show ?thesis by (simp add: terse_caliper_def caliper_entries_def Let_def o_def left_line_def)
qed

definition report_blocks :: "print_env \<Rightarrow> pglob \<Rightarrow> perthread \<Rightarrow> (clonglong \<times> string) option list" where
  "report_blocks env g t = map Some (thread_entries env g t) @
     concat (map (\<lambda>j. None # map Some (caliper_entries g t j)) (used_calipers t))"

lemma filter_Some [simp]: "List.map_filter id (map Some es) = es"
  by (simp add: List.map_filter_def o_def)

lemma filter_append: "List.map_filter f (xs @ ys) = List.map_filter f xs @ List.map_filter f ys"
  by (simp add: List.map_filter_def)

lemma report_entries:
  "List.map_filter id (report_blocks env g t) =
     thread_entries env g t @ concat (map (caliper_entries g t) (used_calipers t))"
proof -
  have "List.map_filter id (concat (map (\<lambda>j. None # map Some (caliper_entries g t j)) js)) =
      concat (map (caliper_entries g t) js)" for js
  proof (induction js)
    case (Cons j js)
    then show ?case using filter_Some [of "caliper_entries g t j"] by (simp add: List.map_filter_def o_def)
  qed (simp add: List.map_filter_def)
  then show ?thesis by (simp add: report_blocks_def filter_append)
qed

lemma terse_blocks:
  "terse_thread env g t @ concat (map (terse_caliper g t) (used_calipers t)) = concat (map block (report_blocks env g t))"
proof -
  have "concat (map (terse_caliper g t) js) =
      concat (map block (concat (map (\<lambda>j. None # map Some (caliper_entries g t j)) js)))" for js
    by (induction js) (simp_all add: terse_caliper_blocks)
  then show ?thesis by (simp add: report_blocks_def terse_thread_blocks)
qed

text \<open>Names that fit on their line.\<close>

definition names_ok :: "pglob \<Rightarrow> perthread \<Rightarrow> bool" where
  "names_ok g t \<longleftrightarrow> (\<forall>e\<in>set (eventnames g). name_ok e) \<and> (\<forall>c\<in>set (pt_data t). NEWLINE \<notin> set (cal_label c))"

lemma dec_no_newline: "NEWLINE \<notin> set (dec n)"
  using dec_chars [of NEWLINE n] by (auto simp: NEWLINE_def)

lemma entries_ok:
  assumes "names_ok g t" "cal_size_ok t" "e \<in> set (List.map_filter id (report_blocks env g t))"
  shows "name_ok (snd e)"
proof -
  have ev: "name_ok (eventnames g ! i)" if "i < eventcnt g" for i
    using assms(1) that by (simp add: names_ok_def eventcnt_def)
  have lab: "NEWLINE \<notin> set (caliper_name t j)" "NEWLINE \<notin> set (cal_label (pt_data t ! j))" if "j \<in> set (used_calipers t)" for j
  proof -
    have "j < length (pt_data t)" using that assms(2) by (auto simp: used_calipers_def cal_size_ok_def)
    then show "NEWLINE \<notin> set (cal_label (pt_data t ! j))" using assms(1) by (simp add: names_ok_def)
    then show "NEWLINE \<notin> set (caliper_name t j)" by (simp add: caliper_name_def Let_def dec_no_newline)
  qed
  have fixed: "name_ok ''[PROCESS] Wallclock usecs''" "name_ok ''Real usecs''" "name_ok ''Real cycles''" "name_ok ''Virtual usecs''"
    "name_ok ''Virtual cycles''" "name_ok ''MPI cycles''" "name_ok ''MPI Sync cycles''" "name_ok ''IO cycles''"
    "name_ok ''Thr Sync cycles''" by (simp_all add: name_ok_def NEWLINE_def)
  consider "e \<in> set (thread_entries env g t)" | j where "j \<in> set (used_calipers t)" "e \<in> set (caliper_entries g t j)"
    using assms(3) by (auto simp: report_entries)
  then show ?thesis
  proof cases
    case 1
    then show ?thesis using ev fixed by (auto simp: thread_entries_def Let_def split: if_splits)
  next
    case 2
    then show ?thesis using ev lab [OF 2(1)] by (auto simp: caliper_entries_def Let_def name_ok_def NEWLINE_def)
  qed
qed

section \<open>Properties\<close>

text \<open>C31: the terse report is read back.  Where the events fit on a line and the counts are
  not multiplexed, the text of the counters in quiet or nextgen mode is a body that, taken line
  by line as value and name, gives every value of the thread and of each used caliper as it is
  in memory, and no other value; and after it, in quiet mode nothing, and in the nextgen mode
  (quiet, which no option sets, apart) exactly an empty line, the heading, the descriptions of
  the events of the event set in their order, and those of the derived events.\<close>
theorem terse_report_read_back:
  assumes "terse g" "\<not> multiplex g" "names_ok g t" "cal_size_ok t"
  shows "\<exists>body. concat (map (render fl) (print_counters env g t s)) = body @
      concat (map (render fl) (if quiet g then [] else [line [], line ''Event descriptions:''] @
        concat (map (\<lambda>i. event_lines env (eventcodes g i)) [0..<eventcnt g]) @ [Str (derived_events_desc s)])) \<and>
    read_report body = map (\<lambda>(v, name). (sint v, name))
      (thread_entries env g t @ concat (map (caliper_entries g t) (used_calipers t)))"
proof -
  let ?body = "concat (map (render fl) (concat (map block (report_blocks env g t))))"
  let ?rest = "concat (map (render fl) (if quiet g then [] else [line [], line ''Event descriptions:''] @
      concat (map (\<lambda>i. event_lines env (eventcodes g i)) [0..<eventcnt g]) @ [Str (derived_events_desc s)]))"
  have "print_counters env g t s = concat (map block (report_blocks env g t)) @
      (if quiet g then [] else [line [], line ''Event descriptions:''] @
        concat (map (\<lambda>i. event_lines env (eventcodes g i)) [0..<eventcnt g]) @ [Str (derived_events_desc s)])"
    using assms(1,2) by (simp add: print_counters_def terse_warning_def too_short_def terse_blocks [symmetric])
  then have "concat (map (render fl) (print_counters env g t s)) = ?body @ ?rest" by simp
  moreover have "read_report ?body = map (\<lambda>(v, s). (sint v, s)) (List.map_filter id (report_blocks env g t))"
    by (rule read_blocks) (use entries_ok [OF assms(3,4)] in blast)
  ultimately show ?thesis by (intro exI [where x = ?body]) (simp add: report_entries)
qed

text \<open>Threads that agree on their own values and caliper 0.\<close>

definition same_point0 :: "perthread \<Rightarrow> perthread \<Rightarrow> bool" where
  "same_point0 t t' \<longleftrightarrow> pt_data t' ! 0 = pt_data t ! 0 \<and> papiex_mpiprof t' = papiex_mpiprof t \<and>
     papiex_mpisyncprof t' = papiex_mpisyncprof t \<and> papiex_ioprof t' = papiex_ioprof t \<and>
     papiex_threadsyncprof t' = papiex_threadsyncprof t"

text \<open>The process statistics of the calipers are those of caliper 0.  Whatever least, largest
  and mean values and deviations the other calipers have, the same rows are printed: only
  which calipers were used, and their labels, are looked at.\<close>
lemma caliper_rows_repeat_caliper0:
  assumes "same_point0 mn mn'" "same_point0 mx mx'" "same_point0 mean mean'" "same_point0 sd sd'"
    and "\<forall>j<PAPIEX_MAX_CALIPERS. (cal_used (pt_data mean' ! j) > 0) = (cal_used (pt_data mean ! j) > 0) \<and>
      cal_label (pt_data mean' ! j) = cal_label (pt_data mean ! j)"
  shows "print_min_max_mean_cv g mn' mx' mean' sd' = print_min_max_mean_cv g mn mx mean sd"
proof -
  have q: "quiet_value mn' mx' mean' sd' n f = quiet_value mn mx mean sd n f"
    "pretty_value mn' mx' mean' sd' b n f = pretty_value mn mx mean sd b n f"
    if "f mn' = f mn" "f mx' = f mx" "f mean' = f mean" "f sd' = f sd" for n b f
    using that by (simp_all add: quiet_value_def pretty_value_def)
  have p: "point0 f t' = point0 f t" if "same_point0 t t'" for f :: "caliper \<Rightarrow> 'a" and t t'
    using that by (simp add: same_point0_def point0_def)
  note eq = p [OF assms(1)] p [OF assms(2)] p [OF assms(3)] p [OF assms(4)]
  have th: "f mn' = f mn" "f mx' = f mx" "f mean' = f mean" "f sd' = f sd"
    if "f \<in> {papiex_mpiprof, papiex_mpisyncprof, papiex_ioprof, papiex_threadsyncprof}" for f
    using that assms(1-4) by (auto simp: same_point0_def)
  have "filter (\<lambda>j. cal_used (pt_data mean' ! j) > 0) [1..<PAPIEX_MAX_CALIPERS] =
      filter (\<lambda>j. cal_used (pt_data mean ! j) > 0) [1..<PAPIEX_MAX_CALIPERS]"
    by (rule filter_cong) (use assms(5) in auto)
  then have u: "map (\<lambda>j. (j, cal_label (pt_data mean' ! j))) (filter (\<lambda>j. cal_used (pt_data mean' ! j) > 0) [1..<PAPIEX_MAX_CALIPERS]) =
      map (\<lambda>j. (j, cal_label (pt_data mean ! j))) (filter (\<lambda>j. cal_used (pt_data mean ! j) > 0) [1..<PAPIEX_MAX_CALIPERS])"
    by (intro map_cong) (use assms(5) in auto)
  have c: "quiet_value mn' mx' mean' sd' n (\<lambda>t. point0 counters t k) = quiet_value mn mx mean sd n (\<lambda>t. point0 counters t k)"
    "pretty_value mn' mx' mean' sd' b n (\<lambda>t. point0 counters t k) = pretty_value mn mx mean sd b n (\<lambda>t. point0 counters t k)" for n b k
    by (rule q; simp add: eq)+
  have v: "quiet_value mn' mx' mean' sd' n (point0 f) = quiet_value mn mx mean sd n (point0 f)"
    "pretty_value mn' mx' mean' sd' b n (point0 f) = pretty_value mn mx mean sd b n (point0 f)" for n b and f :: "caliper \<Rightarrow> clonglong"
    by (rule q; rule eq)+
  have w: "quiet_value mn' mx' mean' sd' n f = quiet_value mn mx mean sd n f"
    "pretty_value mn' mx' mean' sd' b n f = pretty_value mn mx mean sd b n f"
    if "f \<in> {papiex_mpiprof, papiex_mpisyncprof, papiex_ioprof, papiex_threadsyncprof}" for n b f
    by (rule q; rule th [OF that])+
  show ?thesis
    unfolding print_min_max_mean_cv_def Let_def u c v eq
    by (simp add: w)
qed

definition sample_counted :: "clonglong \<Rightarrow> perthread" where
  "sample_counted n = sample_thread\<lparr>pt_data := (pt_data sample_thread)
     [1 := zero_caliper\<lparr>cal_label := ''loop'', cal_used := 2, counters := (\<lambda>_. n)\<rparr>]\<rparr>"

definition sample_report_env :: print_env where
  "sample_report_env = \<lparr>pe_wall_usec = 100, pe_mhz_known = True, 
     pe_events = \<lparr>pv_preset = (\<lambda>_. True), pv_info = (\<lambda>_. None), pv_umask = (\<lambda>_. None), pv_first_preset = 0,
       pv_next_preset = (\<lambda>_. None), pv_first_native = 0, pv_next_native = (\<lambda>_. None)\<rparr>,
     pe_exec = \<lparr>xi_tool = ''papiex'', xi_version = ''1'', xi_build = [], xi_fullname = [], xi_processor = [],
       xi_options = [], xi_parent = 1, xi_pid = 2\<rparr>,
     pe_tid = 0, pe_ctime = (\<lambda>_. []),
     pe_rusage = \<lparr>ru_maxrss = 0, ru_ixrss = 0, ru_idrss = 0, ru_isrss = 0, ru_minflt = 0, ru_majflt = 0, ru_nswap = 0,
       ru_inblock = 0, ru_oublock = 0, ru_msgsnd = 0, ru_msgrcv = 0, ru_nsignals = 0, ru_nvcsw = 0, ru_nivcsw = 0\<rparr>,
     pe_dmem = Inl 1\<rparr>"

definition sample_nextgen :: pglob where "sample_nextgen = sample_glob\<lparr>papiex_nextgen := True\<rparr>"

lemma sample_report_facts:
  "terse sample_nextgen" "\<not> multiplex sample_nextgen" "names_ok sample_nextgen (sample_counted n)"
  "cal_size_ok (sample_counted n)" "eventcnt sample_nextgen = 2"
  by (auto simp: sample_nextgen_def sample_glob_def pglob_start_def terse_def names_ok_def name_ok_def NEWLINE_def
      sample_counted_def sample_thread_def zero_perthread_def zero_caliper_def cal_size_ok_def eventcnt_def
      set_conv_nth nth_list_update PAPIEX_MAX_CALIPERS_def less_Suc_eq)

theorem terse_report_read_back_witness:
  "\<exists>body rest. concat (map (render (\<lambda>_ _. [])) (print_counters sample_report_env sample_nextgen (sample_counted 7) prst_start)) =
      body @ rest \<and> (7, ''[loop] PAPI_TOT_CYC'') \<in> set (read_report body)"
proof -
  obtain body where b: "\<exists>rest. concat (map (render (\<lambda>_ _. [])) (print_counters sample_report_env sample_nextgen (sample_counted 7) prst_start)) =
      body @ rest" "read_report body = map (\<lambda>(v, name). (sint v, name)) (thread_entries sample_report_env sample_nextgen (sample_counted 7) @
        concat (map (caliper_entries sample_nextgen (sample_counted 7)) (used_calipers (sample_counted 7))))"
    using terse_report_read_back [OF sample_report_facts(1-4), of "\<lambda>_ _. []" sample_report_env 7 prst_start] by blast
  have c: "pt_data (sample_counted 7) ! 1 = zero_caliper\<lparr>cal_label := ''loop'', cal_used := 2, counters := (\<lambda>_. 7)\<rparr>"
    "max_caliper_entries (sample_counted 7) = 32"
    by (simp_all add: sample_counted_def sample_thread_def zero_perthread_def PAPIEX_MAX_CALIPERS_def)
  then have u: "1 \<in> set (used_calipers (sample_counted 7))" by (simp add: used_calipers_def)
  have "eventnames sample_nextgen ! 0 = ''PAPI_TOT_CYC''" by (simp add: sample_nextgen_def sample_glob_def)
  then have "(7, ''[loop] PAPI_TOT_CYC'') \<in> set (caliper_entries sample_nextgen (sample_counted 7) 1)"
    using c sample_report_facts(5) by (simp add: caliper_entries_def caliper_name_def Let_def zero_caliper_def upt_rec)
  then have "(sint (7 :: clonglong), ''[loop] PAPI_TOT_CYC'') \<in> set (read_report body)" unfolding b(2) using u by force
  then show ?thesis using b(1) by auto
qed

end
