(* ===== verification/ProcessReport.thy ===== *)
theory ProcessReport
  imports ReportFacts
begin

text \<open>
  papiex.c, print_process_stats: the standard deviations over the threads and the summary of
  the process that is printed and written to process_summary.txt.  Arithmetic on double is a
  parameter; of IEEE arithmetic the properties use that x - x, 0 * 0 and 0 + 0 are 0.  The uses
  are floats, whose sum and quotient are rounded as Float32 has it.
\<close>

section \<open>The standard deviations\<close>

record 'd fpu =
  fp_zero :: 'd
  fp_of_ll :: "clonglong \<Rightarrow> 'd"
  fp_to_ll :: "'d \<Rightarrow> clonglong"
  fp_add :: "'d \<Rightarrow> 'd \<Rightarrow> 'd"
  fp_sub :: "'d \<Rightarrow> 'd \<Rightarrow> 'd"
  fp_mul :: "'d \<Rightarrow> 'd \<Rightarrow> 'd"
  fp_div :: "'d \<Rightarrow> nat \<Rightarrow> 'd"
  fp_sqrt :: "'d \<Rightarrow> 'd"
  fp_pos :: "'d \<Rightarrow> bool"
  fp_nonzero :: "'d \<Rightarrow> bool"

definition sqdiff_ll :: "'d fpu \<Rightarrow> clonglong \<Rightarrow> clonglong \<Rightarrow> 'd" where
  "sqdiff_ll f a b = (let r = fp_sub f (fp_of_ll f a) (fp_of_ll f b) in fp_mul f r r)"

text \<open>One member of squared_sums: the threads' values against the mean, in their order.\<close>

definition squared_sum :: "'d fpu \<Rightarrow> clonglong \<Rightarrow> clonglong list \<Rightarrow> 'd" where
  "squared_sum f mean vs = foldl (\<lambda>acc v. fp_add f acc (sqdiff_ll f mean v)) (fp_zero f) vs"

definition deviation :: "'d fpu \<Rightarrow> nat \<Rightarrow> 'd \<Rightarrow> clonglong" where
  "deviation f n s = fp_to_ll f (fp_sqrt f (fp_div f s n))"

text \<open>The deviation of a value of the threads; that of a profile only when the sum is not 0.\<close>

definition dev_of :: "'d fpu \<Rightarrow> perthread \<Rightarrow> perthread list \<Rightarrow> (perthread \<Rightarrow> clonglong) \<Rightarrow> clonglong" where
  "dev_of f mean thrs v = deviation f (length thrs) (squared_sum f (v mean) (map v thrs))"

definition dev_of_prof :: "'d fpu \<Rightarrow> bool \<Rightarrow> perthread \<Rightarrow> perthread list \<Rightarrow> (perthread \<Rightarrow> clonglong) \<Rightarrow> clonglong" where
  "dev_of_prof f taken mean thrs v =
    (if taken \<and> fp_nonzero f (squared_sum f (v mean) (map v thrs)) then dev_of f mean thrs v else 0)"

text \<open>The uses are converted to long long before they are squared: the mean is the
  rounded quotient of a float and an int, truncated.  Only threads that used the caliper count, but all divide.\<close>

definition uses_squared :: "'d fpu \<Rightarrow> perthread \<Rightarrow> perthread list \<Rightarrow> nat \<Rightarrow> 'd" where
  "uses_squared f sums thrs j =
    squared_sum f (of_nat (float_div_trunc (cal_used (pt_data sums ! j)) (length thrs)))
      (map (\<lambda>t. of_nat (cal_used (pt_data t ! j))) (filter (\<lambda>t. cal_used (pt_data t ! j) > 0) thrs))"

definition stddev_point :: "'d fpu \<Rightarrow> pglob \<Rightarrow> perthread \<Rightarrow> perthread \<Rightarrow> perthread list \<Rightarrow> nat \<Rightarrow> perthread \<Rightarrow> perthread" where
  "stddev_point f g sums mean thrs j sd =
    (let users = filter (\<lambda>t. cal_used (pt_data t ! j) > 0) thrs;
         dev = (\<lambda>v. deviation f (length thrs) (squared_sum f (v (pt_data mean ! j)) (map (\<lambda>t. v (pt_data t ! j)) users)))
     in if fp_pos f (uses_squared f sums thrs j)
        then upd_cal (int j) (\<lambda>c. c\<lparr>real_cyc := dev real_cyc,
               counters := (\<lambda>k. if k < eventcnt g then dev (\<lambda>c. counters c k) else counters c k)\<rparr>) sd
        else sd)"

definition stddev_data :: "'d fpu \<Rightarrow> pglob \<Rightarrow> perthread \<Rightarrow> perthread \<Rightarrow> perthread list \<Rightarrow> perthread" where
  "stddev_data f g sums mean thrs =
    (let dev = dev_of f mean thrs;
         mpi = (\<not> no_mpi_prof g \<and> is_mpied g);
         sd0 = zero_perthread\<lparr>papiex_mpiprof := dev_of_prof f mpi mean thrs papiex_mpiprof,
           papiex_mpisyncprof := dev_of_prof f mpi mean thrs papiex_mpisyncprof,
           papiex_ioprof := dev_of_prof f (\<not> no_io_prof g) mean thrs papiex_ioprof,
           papiex_threadsyncprof := dev_of_prof f (\<not> no_threadsync_prof g) mean thrs papiex_threadsyncprof\<rparr>;
         sd1 = upd_cal 0 (\<lambda>c. c\<lparr>real_usec := dev (point0 real_usec), real_cyc := dev (point0 real_cyc),
           virt_usec := dev (point0 virt_usec), virt_cyc := dev (point0 virt_cyc),
           counters := (\<lambda>k. if k < eventcnt g then dev (\<lambda>t. point0 counters t k) else counters c k)\<rparr>) sd0
     in fold (stddev_point f g sums mean thrs) [1..<PAPIEX_MAX_CALIPERS] sd1)"

section \<open>The summary\<close>

text \<open>The mean of the uses is a float of which only the sign is printed: that of the sum.\<close>

definition mean_uses :: "perthread \<Rightarrow> perthread \<Rightarrow> perthread" where
  "mean_uses sums mean = mean\<lparr>pt_data :=
     map (\<lambda>j. (pt_data mean ! j)\<lparr>cal_used := cal_used (pt_data sums ! j)\<rparr>) [0..<length (pt_data mean)]\<rparr>"

text \<open>The times of the process, the text of a call of ctime each.\<close>

definition summary_heading :: "print_env \<Rightarrow> string \<Rightarrow> string \<Rightarrow> pglob \<Rightarrow> nat \<Rightarrow> out list" where
  "summary_heading env start finish g nthreads =
    print_executable_info (pe_exec env) g @
    [named_int ''Num. of threads'' (int nthreads), Str (pad_right 30 ''Start'' @ '': '' @ start),
     Str (pad_right 30 ''Finish'' @ '': '' @ finish)]"

definition summary_text ::
  "'d fpu \<Rightarrow> print_env \<Rightarrow> string \<Rightarrow> string \<Rightarrow> pglob \<Rightarrow> perthread list \<Rightarrow>
   perthread \<times> perthread \<times> perthread \<times> perthread \<Rightarrow> prst \<Rightarrow> out list \<times> prst" where
  "summary_text f env start finish g thrs = (\<lambda>(sums, mean, least, most) s.
    (let (stats, s1) = print_all_pretty_stats env g sums PROC_SCOPE s
     in ((if quiet g then [] else summary_heading env start finish g (length thrs)) @ [line []] @ stats @
         print_min_max_mean_cv g least most (mean_uses sums mean) (stddev_data f g sums mean thrs) @
         [line ''Cumulative Process Counts:''] @ print_counters env g sums s1, s1)))"

text \<open>What is written to the stream and to the file: a process that is not threaded has the
  report of its one thread.\<close>

record summary_output =
  so_stream :: "out list"
  so_file :: "(string \<times> out list) option"

datatype stream = StdErr | OutFile

definition print_summary ::
  "'d fpu \<Rightarrow> print_env \<Rightarrow> string \<Rightarrow> string \<Rightarrow> stream option \<Rightarrow> (string \<Rightarrow> bool) \<Rightarrow> pglob \<Rightarrow> perthread list \<Rightarrow> prst \<Rightarrow>
   papiex_error + (summary_output \<times> prst)" where
  "print_summary f env start finish output0 can_open g thrs s =
    (let output = (if output0 = Some StdErr \<and> write_only g then None else output0);
         nothing = \<lparr>so_stream = [], so_file = None\<rparr>; path = proc_stats_path g @ ''/process_summary.txt''
     in if papiex_nextgen g then Inr (nothing, s)
        else if \<not> papiex_threaded g
        then (if output \<noteq> None \<and> \<not> is_mpied g
              then let (os, s1) = print_thread_stats env g (hd thrs) PROC_SCOPE s in Inr (nothing\<lparr>so_stream := os\<rparr>, s1)
              else Inr (nothing, s))
        else (case process_summary g thrs of
                None \<Rightarrow> Inr (nothing, s)
              | Some summary \<Rightarrow>
                  let (os, s1) = (if output \<noteq> None \<and> \<not> (output = Some StdErr \<and> is_mpied g)
                                  then summary_text f env start finish g thrs summary s else ([], s))
                  in if no_write g then Inr (nothing\<lparr>so_stream := os\<rparr>, s1)
                     else if length path \<ge> PATH_MAX then Inl PathTooLong
                     else if \<not> can_open path then Inl (OutputFailed path)
                     else let (fs, s2) = summary_text f env start finish g thrs summary s1
                          in Inr (\<lparr>so_stream = os, so_file = Some (path, fs)\<rparr>, s2)))"

section \<open>Facts\<close>

text \<open>A loop over calipers changes each entry once, by its own step.\<close>

lemma fold_points:
  assumes "\<And>i t. length (pt_data (F i t)) = length (pt_data t)"
    and "\<And>i t. i \<noteq> j \<Longrightarrow> pt_data (F i t) ! j = pt_data t ! j"
    and "\<And>t t'. length (pt_data t) = length (pt_data t') \<Longrightarrow> pt_data t ! j = pt_data t' ! j \<Longrightarrow>
      pt_data (F j t) ! j = pt_data (F j t') ! j"
    and "distinct is"
  shows "pt_data (fold F is t) ! j = (if j \<in> set is then pt_data (F j t) ! j else pt_data t ! j) \<and>
    length (pt_data (fold F is t)) = length (pt_data t)"
  using assms(4)
proof (induction "is" arbitrary: t)
  case (Cons i "is")
  have l: "length (pt_data (fold F is (F i t))) = length (pt_data t)" using Cons assms(1) by simp
  show ?case
  proof (cases "i = j")
    case True
    then show ?thesis using Cons l by simp
  next
    case False
    have "pt_data (F j (F i t)) ! j = pt_data (F j t) ! j" by (rule assms(3)) (use False assms(1,2) in simp_all)
    then show ?thesis using Cons l False assms(2) by simp
  qed
qed simp

lemma sum_point_entry:
  assumes "0 < j"
  shows "pt_data (fold (sum_point g t) [1..<n] s) ! j = (if j < n then pt_data (sum_point g t j s) ! j else pt_data s ! j)"
    and "length (pt_data (fold (sum_point g t) [1..<n] s)) = length (pt_data s)"
proof -
  have o: "length (pt_data (sum_point g t i s)) = length (pt_data s)"
    "i \<noteq> j \<Longrightarrow> pt_data (sum_point g t i s) ! j = pt_data s ! j" for i s
    by (auto simp: sum_point_def Let_def split: prod.split)
  have e: "pt_data (sum_point g t j s) ! j = pt_data (sum_point g t j s') ! j"
    if "length (pt_data s) = length (pt_data s')" "pt_data s ! j = pt_data s' ! j" for s s'
    using that by (cases "j < length (pt_data s)")
      (auto simp: sum_point_def upd_cal_def Let_def not_less list_update_beyond split: prod.split)
  have "distinct [1..<n]" by simp
  note f = fold_points [of "sum_point g t" j "[1..<n]" s, OF o e this]
  show "pt_data (fold (sum_point g t) [1..<n] s) ! j = (if j < n then pt_data (sum_point g t j s) ! j else pt_data s ! j)"
    using f assms by (simp only: set_upt atLeastLessThan_iff) simp
  show "length (pt_data (fold (sum_point g t) [1..<n] s)) = length (pt_data s)" using f by (rule conjunct2)
qed

lemma sum_point0_entry:
  assumes "0 < j"
  shows "pt_data (sum_point0 g t s) ! j = pt_data s ! j" "length (pt_data (sum_point0 g t s)) = length (pt_data s)"
  using assms by (simp_all add: sum_point0_def Let_def)

text \<open>The sum of a caliper whose label agrees.\<close>

definition uses :: "nat \<Rightarrow> perthread \<Rightarrow> nat" where "uses j t = cal_used (pt_data t ! j)"

definition summed :: "nat \<Rightarrow> string \<Rightarrow> nat \<Rightarrow> perthread list \<Rightarrow> caliper \<Rightarrow> bool" where
  "summed n l j ts c \<longleftrightarrow> cal_used c = foldl float_add 0 (map (uses j) (filter (\<lambda>t. uses j t > 0) ts)) \<and>
     real_cyc c = sum_list (map (\<lambda>t. if uses j t > 0 then real_cyc (pt_data t ! j) else 0) ts) \<and>
     (\<forall>k<n. counters c k = sum_list (map (\<lambda>t. if uses j t > 0 then counters (pt_data t ! j) k else 0) ts)) \<and>
     cal_label c = (if \<exists>t\<in>set ts. uses j t > 0 then l else [])"

lemma sum_thread_entry:
  assumes "0 < j" "j < length (pt_data s)" "j < nat (max_caliper_entries t)"
    and "uses j t > 0 \<longrightarrow> cal_label (pt_data t ! j) = l" "summed (eventcnt g) l j ts (pt_data s ! j)"
  shows "summed (eventcnt g) l j (ts @ [t]) (pt_data (sum_thread g t s) ! j)"
proof -
  let ?s = "sum_point0 g t s"
  have e: "pt_data (sum_thread g t s) ! j = pt_data (sum_point g t j ?s) ! j"
    using sum_point_entry(1) [OF assms(1)] assms(3) by (simp add: sum_thread_def)
  show ?thesis
  proof (cases "uses j t > 0")
    case False
    then have "pt_data (sum_point g t j ?s) ! j = pt_data s ! j"
      using sum_point0_entry [OF assms(1)] by (simp add: sum_point_def uses_def)
    then show ?thesis using False e assms(5) by (simp add: summed_def)
  next
    case True
    have "match_caliper_label (cal_label (pt_data s ! j)) l = (0, l)"
      using assms(5) by (auto simp: match_caliper_label_def summed_def)
    then have "pt_data (sum_point g t j ?s) ! j = cal_combine (+) (eventcnt g) (pt_data t ! j)
        ((pt_data s ! j)\<lparr>cal_label := l, cal_used := float_add (cal_used (pt_data s ! j)) (uses j t)\<rparr>)"
      using True assms(2,4) sum_point0_entry [OF assms(1)] by (simp add: sum_point_def uses_def Let_def upd_cal_def)
    then show ?thesis using True e assms(5) by (auto simp: summed_def cal_combine_def)
  qed
qed

lemma sums_entry:
  assumes "0 < j" "j < PAPIEX_MAX_CALIPERS" "\<forall>t\<in>set ts. j < nat (max_caliper_entries t)"
    and "\<forall>t\<in>set ts. uses j t > 0 \<longrightarrow> cal_label (pt_data t ! j) = l"
  shows "summed (eventcnt g) l j ts (pt_data (process_data_sums g ts) ! j) \<and>
    length (pt_data (process_data_sums g ts)) = PAPIEX_MAX_CALIPERS"
  using assms(3,4)
proof (induction ts rule: rev_induct)
  case Nil
  then show ?case using assms(2)
    by (simp add: process_data_sums_def summed_def zero_perthread_def zero_caliper_def)
next
  case (snoc t ts)
  have s: "process_data_sums g (ts @ [t]) = sum_thread g t (process_data_sums g ts)"
    by (simp add: process_data_sums_def)
  have "length (pt_data (sum_thread g t (process_data_sums g ts))) = length (pt_data (process_data_sums g ts))"
    using sum_point_entry(2) [OF assms(1)] sum_point0_entry [OF assms(1)] by (simp add: sum_thread_def)
  then show ?case using snoc sum_thread_entry [OF assms(1), of "process_data_sums g ts" t l g ts] assms(2) by (simp add: s)
qed

text \<open>Squares of no differences.\<close>

definition exact_zero :: "'d fpu \<Rightarrow> bool" where
  "exact_zero f \<longleftrightarrow> (\<forall>v. fp_sub f (fp_of_ll f v) (fp_of_ll f v) = fp_zero f) \<and>
     fp_mul f (fp_zero f) (fp_zero f) = fp_zero f \<and> fp_add f (fp_zero f) (fp_zero f) = fp_zero f \<and> \<not> fp_pos f (fp_zero f)"

lemma squared_sum_same:
  assumes "exact_zero f" "\<forall>v\<in>set vs. v = m"
  shows "squared_sum f m vs = fp_zero f"
  using assms(2) unfolding squared_sum_def
proof (induction vs)
  case (Cons v vs)
  then show ?case using assms(1) by (simp add: exact_zero_def sqdiff_ll_def)
qed simp

text \<open>Uses that add up to at most 2^24 are added exactly.\<close>

lemma float_sum_uses:
  assumes "sum_list (map (uses j) ts) \<le> 2 ^ 24"
  shows "foldl float_add 0 (map (uses j) (filter (\<lambda>t. uses j t > 0) ts)) = sum_list (map (uses j) ts)"
proof -
  have "sum_list (map (uses j) (filter (\<lambda>t. uses j t > 0) ts)) = sum_list (map (uses j) ts)"
    by (rule sum_list_map_filter) simp
  then show ?thesis using float_sum_exact [of 0] assms by simp
qed

section \<open>Properties\<close>

text \<open>C39: calipers are summed over the threads.  In the classic mode of a threaded process, the
  entry of the summary for a caliper above 0 that all threads that used it gave the same label
  has that label.  Its cycles and its counters are the sums over these threads, modulo 2^64.  Its
  uses, a float, are their sum in the order of the threads, rounded to a float after each addition: the
  exact sum as long as that is at most 2^24.\<close>
theorem calipers_summed_over_threads:
  assumes "process_summary g thrs = Some (sums, mean, least, most)" "0 < j" "j < PAPIEX_MAX_CALIPERS"
    and "\<forall>t\<in>set thrs. j < nat (max_caliper_entries t)"
    and "\<forall>t\<in>set thrs. uses j t > 0 \<longrightarrow> cal_label (pt_data t ! j) = l"
  shows "uses j sums = foldl float_add 0 (map (uses j) (filter (\<lambda>t. uses j t > 0) thrs)) \<and>
    (sum_list (map (uses j) thrs) \<le> 2 ^ 24 \<longrightarrow> uses j sums = sum_list (map (uses j) thrs)) \<and>
    real_cyc (pt_data sums ! j) = sum_list (map (\<lambda>t. if uses j t > 0 then real_cyc (pt_data t ! j) else 0) thrs) \<and>
    (\<forall>k<eventcnt g. counters (pt_data sums ! j) k =
      sum_list (map (\<lambda>t. if uses j t > 0 then counters (pt_data t ! j) k else 0) thrs)) \<and>
    cal_label (pt_data sums ! j) = (if \<exists>t\<in>set thrs. uses j t > 0 then l else [])"
proof -
  have "sums = process_data_sums g thrs"
    using assms(1) by (auto simp: process_summary_def Let_def split: if_splits)
  then have s: "summed (eventcnt g) l j thrs (pt_data sums ! j)" using sums_entry [OF assms(2-5), of g] by simp
  moreover have "uses j sums = sum_list (map (uses j) thrs)" if "sum_list (map (uses j) thrs) \<le> 2 ^ 24"
    using s that float_sum_uses by (simp add: summed_def uses_def [of j sums])
  ultimately show ?thesis by (simp add: summed_def uses_def [of j sums])
qed

text \<open>Deviations that are lost.  When all threads use a caliper equally often, which is
  the usual case, and their uses add up exactly, the squared differences of the uses add up to 0, and the code then takes the
  caliper for one that was not used: its deviations are 0 however much the cycles and the
  counters of the threads differ.\<close>
lemma even_uses_lose_deviation:
  assumes "exact_zero f" "0 < j" "j < PAPIEX_MAX_CALIPERS" "thrs \<noteq> []" "length thrs * u \<le> 2 ^ 24"
    and "\<forall>t\<in>set thrs. j < nat (max_caliper_entries t) \<and> uses j t = u \<and> cal_label (pt_data t ! j) = l"
  shows "real_cyc (pt_data (stddev_data f g (process_data_sums g thrs) mean thrs) ! j) = 0 \<and>
    counters (pt_data (stddev_data f g (process_data_sums g thrs) mean thrs) ! j) k = 0"
proof -
  let ?sums = "process_data_sums g thrs"
  have s: "summed (eventcnt g) l j thrs (pt_data ?sums ! j)" using sums_entry [OF assms(2,3)] assms(6) by blast
  have "map (uses j) thrs = replicate (length thrs) u" using assms(6) by (simp add: map_replicate_const [symmetric])
  then have t: "sum_list (map (uses j) thrs) = u * length thrs" by (simp add: sum_list_replicate)
  then have "cal_used (pt_data ?sums ! j) = u * length thrs"
    using s float_sum_uses [of j thrs] assms(5) by (simp add: summed_def mult.commute)
  moreover have "u \<le> 2 ^ 24" by (rule order_trans [OF _ assms(5)]) (use assms(4) in \<open>cases thrs; simp\<close>)
  ultimately have m: "float_div_trunc (cal_used (pt_data ?sums ! j)) (length thrs) = u"
    using float_div_trunc_exact [of "length thrs" u] assms(4,5) by simp
  have z: "uses_squared f ?sums thrs j = fp_zero f"
    unfolding uses_squared_def m
    by (rule squared_sum_same [OF assms(1)]) (use assms(6) in \<open>auto simp: uses_def\<close>)
  then have same: "stddev_point f g ?sums mean thrs j sd = sd" for sd
    using assms(1) by (simp add: stddev_point_def exact_zero_def Let_def)
  have o: "length (pt_data (stddev_point f g ?sums mean thrs i sd)) = length (pt_data sd)"
    "i \<noteq> j \<Longrightarrow> pt_data (stddev_point f g ?sums mean thrs i sd) ! j = pt_data sd ! j" for i sd
    by (auto simp: stddev_point_def Let_def)
  have e: "pt_data (stddev_point f g ?sums mean thrs j sd) ! j = pt_data (stddev_point f g ?sums mean thrs j sd') ! j"
    if "pt_data sd ! j = pt_data sd' ! j" for sd sd' using that same by simp
  have d: "distinct [1..<PAPIEX_MAX_CALIPERS]" by simp
  have "pt_data (fold (stddev_point f g ?sums mean thrs) [1..<PAPIEX_MAX_CALIPERS] sd) ! j = pt_data sd ! j" for sd
    using conjunct1 [OF fold_points [of "stddev_point f g ?sums mean thrs" j "[1..<PAPIEX_MAX_CALIPERS]" sd, OF o e d]] same
    by (simp split: if_splits)
  then show ?thesis using assms(2,3)
    by (simp add: stddev_data_def Let_def zero_perthread_def zero_caliper_def)
qed

text \<open>Two threads that used a caliper once each, with different counts; rational numbers do for
  the arithmetic.\<close>

definition sample_fpu :: "int fpu" where
  "sample_fpu = \<lparr>fp_zero = 0, fp_of_ll = sint, fp_to_ll = word_of_int, fp_add = (+), fp_sub = (-), fp_mul = (*),
     fp_div = (\<lambda>a n. a div int n), fp_sqrt = id, fp_pos = (\<lambda>a. a > 0), fp_nonzero = (\<lambda>a. a \<noteq> 0)\<rparr>"

definition sample_user :: "clonglong \<Rightarrow> perthread" where
  "sample_user n = upd_cal 1 (\<lambda>c. c\<lparr>cal_label := ''loop'', cal_used := 1, real_cyc := n\<rparr>) sample_thread"

lemma sample_user_facts:
  "max_caliper_entries (sample_user n) = 32" "uses 1 (sample_user n) = 1" "cal_label (pt_data (sample_user n) ! 1) = ''loop''"
  "real_cyc (pt_data (sample_user n) ! 1) = n"
  by (simp_all add: sample_user_def upd_cal_def uses_def sample_thread_def zero_perthread_def PAPIEX_MAX_CALIPERS_def)

theorem calipers_summed_over_threads_witness:
  "\<exists>sums mean least most. process_summary classic_process [sample_user 7, sample_user 100] = Some (sums, mean, least, most) \<and>
     uses 1 sums = 2 \<and> real_cyc (pt_data sums ! 1) = 107"
proof -
  obtain sums mean least most where
    s: "process_summary classic_process [sample_user 7, sample_user 100] = Some (sums, mean, least, most)"
    by (simp add: process_summary_def classic_process_def pglob_start_def Let_def)
  have "(0 :: nat) < 1" "(1 :: nat) < PAPIEX_MAX_CALIPERS" by (simp_all add: PAPIEX_MAX_CALIPERS_def)
  moreover have "\<forall>t\<in>set [sample_user 7, sample_user 100]. 1 < nat (max_caliper_entries t)"
    "\<forall>t\<in>set [sample_user 7, sample_user 100]. uses 1 t > 0 \<longrightarrow> cal_label (pt_data t ! 1) = ''loop''"
    using sample_user_facts by (simp_all del: One_nat_def)
  ultimately show ?thesis
    using calipers_summed_over_threads [OF s, of 1 "''loop''"] s sample_user_facts by (simp del: One_nat_def)
qed

end
