(* ===== verification/TailQueue.thy ===== *)
theory TailQueue
  imports ListQueue
begin

text \<open>
  The tail queues of monitor/src/queue.h (the TAILQ macros), over the heap of
  ListQueue.  TAILQ_ENTRY has the layout of LIST_ENTRY and tqh_first that of
  lh_first, so \<open>tq_links\<close> is a heap of ListQueue; a queue head has besides the
  address of the last tqe_next.  TAILQ_LAST and TAILQ_PREV read an entry as if
  it were a queue head: the two structures have their fields in the same
  places, which \<open>second_field\<close> says.  The lists of the library use the LIST
  macros; these are the rest of the header for doubly linked nodes.  A
  dereference of a pointer that was never set is None; the trace fields are
  compiled out (QUEUE_MACRO_DEBUG is 0).
\<close>

section \<open>Heap\<close>

record ('q, 'a) theap =
  tq_links :: "('q, 'a) lheap"
  tqh_last :: "'q \<Rightarrow> ('q, 'a) loc option"

definition on_links :: "(('q, 'a) lheap \<Rightarrow> ('q, 'a) lheap) \<Rightarrow> ('q, 'a) theap \<Rightarrow> ('q, 'a) theap" where
  "on_links f h = h\<lparr>tq_links := f (tq_links h)\<rparr>"

definition set_last :: "'q \<Rightarrow> ('q, 'a) loc option \<Rightarrow> ('q, 'a) theap \<Rightarrow> ('q, 'a) theap" where
  "set_last q l h = h\<lparr>tqh_last := (tqh_last h)(q := l)\<rparr>"

lemma theap_simps [simp]:
  "tq_links (on_links f h) = f (tq_links h)" "tqh_last (on_links f h) = tqh_last h"
  "tq_links (set_last q l h) = tq_links h" "tqh_last (set_last q l h) = (tqh_last h)(q := l)"
  by (simp_all add: on_links_def set_last_def)

section \<open>The macros\<close>

definition TAILQ_INIT :: "'q \<Rightarrow> ('q, 'a) theap \<Rightarrow> ('q, 'a) theap" where
  "TAILQ_INIT q h = set_last q (Some (Head q)) (on_links (store (Head q) None) h)"

definition TAILQ_FIRST :: "'q \<Rightarrow> ('q, 'a) theap \<Rightarrow> 'a option" where
  "TAILQ_FIRST q h = load (tq_links h) (Head q)"

definition TAILQ_NEXT :: "'a \<Rightarrow> ('q, 'a) theap \<Rightarrow> 'a option" where
  "TAILQ_NEXT x h = load (tq_links h) (NextOf x)"

definition TAILQ_EMPTY :: "'q \<Rightarrow> ('q, 'a) theap \<Rightarrow> bool" where
  "TAILQ_EMPTY q h = (TAILQ_FIRST q h = None)"

definition TAILQ_INSERT_HEAD :: "'q \<Rightarrow> 'a \<Rightarrow> ('q, 'a) theap \<Rightarrow> ('q, 'a) theap" where
  "TAILQ_INSERT_HEAD q x h =
    (let h1 = on_links (store (NextOf x) (TAILQ_FIRST q h)) h;
         h2 = (case TAILQ_NEXT x h1 of
                 Some _ \<Rightarrow> (case TAILQ_FIRST q h1 of
                   None \<Rightarrow> h1
                 | Some f \<Rightarrow> on_links (set_prev f (Some (NextOf x))) h1)
               | None \<Rightarrow> set_last q (Some (NextOf x)) h1);
         h3 = on_links (store (Head q) (Some x)) h2
     in on_links (set_prev x (Some (Head q))) h3)"

definition TAILQ_INSERT_TAIL :: "'q \<Rightarrow> 'a \<Rightarrow> ('q, 'a) theap \<Rightarrow> ('q, 'a) theap option" where
  "TAILQ_INSERT_TAIL q x h =
    (let h1 = on_links (store (NextOf x) None) h;
         h2 = on_links (set_prev x (tqh_last h1 q)) h1
     in case tqh_last h2 q of
          None \<Rightarrow> None
        | Some l \<Rightarrow> Some (set_last q (Some (NextOf x)) (on_links (store l (Some x)) h2)))"

definition TAILQ_INSERT_AFTER :: "'q \<Rightarrow> 'a \<Rightarrow> 'a \<Rightarrow> ('q, 'a) theap \<Rightarrow> ('q, 'a) theap" where
  "TAILQ_INSERT_AFTER q y x h =
    (let h1 = on_links (store (NextOf x) (TAILQ_NEXT y h)) h;
         h2 = (case TAILQ_NEXT x h1 of
                 Some n \<Rightarrow> on_links (set_prev n (Some (NextOf x))) h1
               | None \<Rightarrow> set_last q (Some (NextOf x)) h1);
         h3 = on_links (store (NextOf y) (Some x)) h2
     in on_links (set_prev x (Some (NextOf y))) h3)"

definition TAILQ_INSERT_BEFORE :: "'a \<Rightarrow> 'a \<Rightarrow> ('q, 'a) theap \<Rightarrow> ('q, 'a) theap option" where
  "TAILQ_INSERT_BEFORE y x h =
    (let h1 = on_links (set_prev x (le_prev (tq_links h) y)) h;
         h2 = on_links (store (NextOf x) (Some y)) h1
     in case le_prev (tq_links h2) y of
          None \<Rightarrow> None
        | Some l \<Rightarrow> Some (on_links (set_prev y (Some (NextOf x))) (on_links (store l (Some x)) h2)))"

definition TAILQ_REMOVE :: "'q \<Rightarrow> 'a \<Rightarrow> ('q, 'a) theap \<Rightarrow> ('q, 'a) theap option" where
  "TAILQ_REMOVE q x h =
    (let h1 = (case TAILQ_NEXT x h of
                 Some n \<Rightarrow> on_links (set_prev n (le_prev (tq_links h) x)) h
               | None \<Rightarrow> set_last q (le_prev (tq_links h) x) h)
     in case le_prev (tq_links h1) x of
          None \<Rightarrow> None
        | Some l \<Rightarrow> Some (on_links (store l (TAILQ_NEXT x h1)) h1))"

definition TAILQ_CONCAT :: "'q \<Rightarrow> 'q \<Rightarrow> ('q, 'a) theap \<Rightarrow> ('q, 'a) theap option" where
  "TAILQ_CONCAT q1 q2 h =
    (if TAILQ_EMPTY q2 h then Some h
     else case tqh_last h q1 of
       None \<Rightarrow> None
     | Some l \<Rightarrow>
         let h1 = on_links (store l (TAILQ_FIRST q2 h)) h
         in case TAILQ_FIRST q2 h1 of
              None \<Rightarrow> None
            | Some f \<Rightarrow>
                let h2 = on_links (set_prev f (tqh_last h1 q1)) h1;
                    h3 = set_last q1 (tqh_last h2 q2) h2
                in Some (TAILQ_INIT q2 h3))"

text \<open>The word after the pointer at an address: tqh_last behind tqh_first, tqe_prev behind tqe_next.\<close>

fun second_field :: "('q, 'a) theap \<Rightarrow> ('q, 'a) loc \<Rightarrow> ('q, 'a) loc option" where
  "second_field h (Head q) = tqh_last h q"
| "second_field h (NextOf x) = le_prev (tq_links h) x"

definition deref_second :: "('q, 'a) theap \<Rightarrow> ('q, 'a) loc option \<Rightarrow> 'a option option" where
  "deref_second h v =
    (case v of None \<Rightarrow> None
     | Some l \<Rightarrow> map_option (load (tq_links h)) (second_field h l))"

definition TAILQ_LAST :: "'q \<Rightarrow> ('q, 'a) theap \<Rightarrow> 'a option option" where
  "TAILQ_LAST q h = deref_second h (tqh_last h q)"

definition TAILQ_PREV :: "'a \<Rightarrow> ('q, 'a) theap \<Rightarrow> 'a option option" where
  "TAILQ_PREV x h = deref_second h (le_prev (tq_links h) x)"

text \<open>The loops: the nodes visited, or for the safe forms the heap the bodies leave; None when
  the fuel runs out, a bad pointer is followed or a body fails.\<close>

fun TAILQ_FOREACH :: "nat \<Rightarrow> ('q, 'a) theap \<Rightarrow> 'a option \<Rightarrow> 'a list option" where
  "TAILQ_FOREACH 0 h v = None"
| "TAILQ_FOREACH (Suc n) h None = Some []"
| "TAILQ_FOREACH (Suc n) h (Some x) = map_option (Cons x) (TAILQ_FOREACH n h (TAILQ_NEXT x h))"

fun TAILQ_FOREACH_SAFE ::
  "nat \<Rightarrow> ('a \<Rightarrow> ('q, 'a) theap \<Rightarrow> ('q, 'a) theap option) \<Rightarrow> 'a option \<Rightarrow>
   ('q, 'a) theap \<Rightarrow> ('q, 'a) theap option" where
  "TAILQ_FOREACH_SAFE 0 body v h = None"
| "TAILQ_FOREACH_SAFE (Suc n) body None h = Some h"
| "TAILQ_FOREACH_SAFE (Suc n) body (Some x) h =
    (let tvar = TAILQ_NEXT x h
     in case body x h of None \<Rightarrow> None | Some h' \<Rightarrow> TAILQ_FOREACH_SAFE n body tvar h')"

fun foreach_reverse :: "nat \<Rightarrow> ('q, 'a) theap \<Rightarrow> 'a option option \<Rightarrow> 'a list option" where
  "foreach_reverse 0 h v = None"
| "foreach_reverse (Suc n) h None = None"
| "foreach_reverse (Suc n) h (Some None) = Some []"
| "foreach_reverse (Suc n) h (Some (Some x)) =
     map_option (Cons x) (foreach_reverse n h (TAILQ_PREV x h))"

definition TAILQ_FOREACH_REVERSE :: "nat \<Rightarrow> 'q \<Rightarrow> ('q, 'a) theap \<Rightarrow> 'a list option" where
  "TAILQ_FOREACH_REVERSE n q h = foreach_reverse n h (TAILQ_LAST q h)"

fun foreach_reverse_safe ::
  "nat \<Rightarrow> ('a \<Rightarrow> ('q, 'a) theap \<Rightarrow> ('q, 'a) theap option) \<Rightarrow> 'a option option \<Rightarrow>
   ('q, 'a) theap \<Rightarrow> ('q, 'a) theap option" where
  "foreach_reverse_safe 0 body v h = None"
| "foreach_reverse_safe (Suc n) body None h = None"
| "foreach_reverse_safe (Suc n) body (Some None) h = Some h"
| "foreach_reverse_safe (Suc n) body (Some (Some x)) h =
    (case TAILQ_PREV x h of
       None \<Rightarrow> None
     | Some tvar \<Rightarrow>
         (case body x h of None \<Rightarrow> None | Some h' \<Rightarrow> foreach_reverse_safe n body (Some tvar) h'))"

definition TAILQ_FOREACH_REVERSE_SAFE ::
  "nat \<Rightarrow> ('a \<Rightarrow> ('q, 'a) theap \<Rightarrow> ('q, 'a) theap option) \<Rightarrow> 'q \<Rightarrow>
   ('q, 'a) theap \<Rightarrow> ('q, 'a) theap option" where
  "TAILQ_FOREACH_REVERSE_SAFE n body q h = foreach_reverse_safe n body (TAILQ_LAST q h) h"

section \<open>The links are those of the LIST macros\<close>

lemma set_prev_store: "set_prev x p (store l v h) = store l v (set_prev x p h)"
  by (cases l) (simp_all add: set_prev_def store.simps)

lemma tailq_links:
  "tq_links (TAILQ_INIT q h) = LIST_INIT q (tq_links h)"
  "tq_links (TAILQ_INSERT_HEAD q x h) = LIST_INSERT_HEAD q x (tq_links h)"
  "tq_links (TAILQ_INSERT_AFTER q y x h) = LIST_INSERT_AFTER y x (tq_links h)"
  by (auto simp: TAILQ_INIT_def LIST_INIT_def TAILQ_INSERT_HEAD_def LIST_INSERT_HEAD_def
      TAILQ_INSERT_AFTER_def LIST_INSERT_AFTER_def TAILQ_NEXT_def TAILQ_FIRST_def Let_def queue_simps
      split: option.splits)

lemma tailq_last:
  "tqh_last (TAILQ_INIT q h) = (tqh_last h)(q := Some (Head q))"
  "tqh_last (TAILQ_INSERT_HEAD q x h) =
     (if load (tq_links h) (Head q) = None then (tqh_last h)(q := Some (NextOf x)) else tqh_last h)"
  "tqh_last (TAILQ_INSERT_AFTER q y x h) =
     (if load (tq_links h) (NextOf y) = None then (tqh_last h)(q := Some (NextOf x)) else tqh_last h)"
  by (auto simp: TAILQ_INIT_def TAILQ_INSERT_HEAD_def TAILQ_INSERT_AFTER_def TAILQ_NEXT_def
      TAILQ_FIRST_def Let_def queue_simps split: option.splits)

lemma tailq_insert_before:
  "TAILQ_INSERT_BEFORE y x h = map_option (\<lambda>k. h\<lparr>tq_links := k\<rparr>) (LIST_INSERT_BEFORE y x (tq_links h))"
  by (auto simp: TAILQ_INSERT_BEFORE_def LIST_INSERT_BEFORE_def Let_def on_links_def split: option.splits)

lemma tailq_remove:
  assumes "LIST_REMOVE x (tq_links h) = Some k"
  shows "\<exists>h'. TAILQ_REMOVE q x h = Some h' \<and> tq_links h' = k \<and>
    tqh_last h' = (if load (tq_links h) (NextOf x) = None
                   then (tqh_last h)(q := le_prev (tq_links h) x) else tqh_last h)"
  using assms
  by (auto simp: TAILQ_REMOVE_def LIST_REMOVE_def TAILQ_NEXT_def Let_def queue_simps split: option.splits)

section \<open>Abstraction\<close>

definition tailqs_rep :: "('q, 'a) theap \<Rightarrow> ('q \<Rightarrow> 'a list) \<Rightarrow> bool" where
  "tailqs_rep h Q \<longleftrightarrow>
     lists_rep (tq_links h) Q \<and> (\<forall>q. tqh_last h q = Some (end_loc (Head q) (Q q)))"

lemma tailqs_repD:
  "tailqs_rep h Q \<Longrightarrow> lists_rep (tq_links h) Q"
  "tailqs_rep h Q \<Longrightarrow> tqh_last h q = Some (end_loc (Head q) (Q q))"
  by (simp_all add: tailqs_rep_def)

lemma rep_load_end:
  "lists_rep h Q \<Longrightarrow> load h (end_loc (Head q) (Q q)) = None"
  using chain_append [of h "Head q" "Q q" "[]"] lists_repD(1) [of h Q q] by simp

lemma tq_init: "lists_rep (tq_links h) Q \<Longrightarrow> \<forall>p. p \<noteq> q \<longrightarrow> tqh_last h p = Some (end_loc (Head p) (Q p)) \<Longrightarrow>
    tailqs_rep (TAILQ_INIT q h) (Q(q := []))"
  by (simp add: tailqs_rep_def tailq_links tailq_last rep_init)

lemma tq_insert_head:
  assumes "tailqs_rep h Q" "\<And>q'. x \<notin> set (Q q')"
  shows "tailqs_rep (TAILQ_INSERT_HEAD q x h) (Q(q := x # Q q))"
proof -
  note rep = tailqs_repD(1) [OF assms(1)]
  have "load (tq_links h) (Head q) = None \<longleftrightarrow> Q q = []"
    using rep_first [OF rep, of q] by (simp split: list.splits)
  then show ?thesis
    using rep_insert_head [OF rep assms(2), of q] tailqs_repD(2) [OF assms(1)]
    by (auto simp: tailqs_rep_def tailq_links tailq_last end_loc_def)
qed

lemma tq_insert_after:
  assumes "tailqs_rep h Q" "Q q = as @ y # bs" "\<And>q'. x \<notin> set (Q q')"
  shows "tailqs_rep (TAILQ_INSERT_AFTER q y x h) (Q(q := as @ y # x # bs))"
proof -
  note rep = tailqs_repD(1) [OF assms(1)]
  have "load (tq_links h) (NextOf y) = None \<longleftrightarrow> bs = []"
    using chain_next [of "tq_links h" "Head q" as y bs] lists_repD(1) [OF rep, of q] assms(2)
    by (simp split: list.splits)
  then show ?thesis
    using rep_insert_after [OF rep assms(2,3)] tailqs_repD(2) [OF assms(1)] assms(2)
    by (auto simp: tailqs_rep_def tailq_links tailq_last end_loc_def)
qed

lemma tq_insert_before:
  assumes "tailqs_rep h Q" "Q q = as @ y # bs" "\<And>q'. x \<notin> set (Q q')"
  shows "\<exists>h'. TAILQ_INSERT_BEFORE y x h = Some h' \<and> tailqs_rep h' (Q(q := as @ x # y # bs))"
proof -
  obtain k where "LIST_INSERT_BEFORE y x (tq_links h) = Some k" "lists_rep k (Q(q := as @ x # y # bs))"
    using rep_insert_before [OF tailqs_repD(1) [OF assms(1)] assms(2,3)] by blast
  then show ?thesis
    using tailqs_repD(2) [OF assms(1)] assms(2)
    by (auto simp: tailqs_rep_def tailq_insert_before end_loc_def)
qed

lemma tq_remove:
  assumes "tailqs_rep h Q" "x \<in> set (Q q)"
  shows "\<exists>h'. TAILQ_REMOVE q x h = Some h' \<and> tailqs_rep h' (Q(q := remove1 x (Q q)))"
proof -
  note rep = tailqs_repD(1) [OF assms(1)]
  obtain as bs where split: "Q q = as @ x # bs" using assms(2) by (meson split_list)
  then have rem: "remove1 x (Q q) = as @ bs" using lists_repD(2) [OF rep, of q] by simp
  have ch: "chain (tq_links h) (Head q) (as @ x # bs)" using lists_repD(1) [OF rep, of q] split by simp
  obtain k where k: "LIST_REMOVE x (tq_links h) = Some k" "lists_rep k (Q(q := remove1 x (Q q)))"
    using rep_remove [OF rep assms(2)] by blast
  obtain h' where h': "TAILQ_REMOVE q x h = Some h'" "tq_links h' = k"
    "tqh_last h' = (if load (tq_links h) (NextOf x) = None
                    then (tqh_last h)(q := le_prev (tq_links h) x) else tqh_last h)"
    using tailq_remove [OF k(1)] by blast
  have "tqh_last h' p = Some (end_loc (Head p) ((Q(q := as @ bs)) p))" for p
    using h'(3) chain_next [OF ch] chain_prev_mem [OF ch] tailqs_repD(2) [OF assms(1), of p] split
    by (auto simp: end_loc_def split: list.splits)
  then show ?thesis using k(2) h'(1,2) rem by (auto simp: tailqs_rep_def)
qed

text \<open>At the end of a list the tail macro does what the LIST macros do there.\<close>

definition link_at :: "('q, 'a) loc \<Rightarrow> 'a \<Rightarrow> ('q, 'a) lheap \<Rightarrow> ('q, 'a) lheap" where
  "link_at l x h = store l (Some x) (set_prev x (Some l) (store (NextOf x) None h))"

lemma rep_insert_end:
  assumes rep: "lists_rep h Q" and new: "\<And>q'. x \<notin> set (Q q')"
  shows "lists_rep (link_at (end_loc (Head q) (Q q)) x h) (Q(q := Q q @ [x]))"
proof (cases "Q q" rule: rev_cases)
  case Nil
  have "LIST_INSERT_HEAD q x h = link_at (Head q) x h"
    using rep_first [OF rep, of q] Nil
    by (simp add: LIST_INSERT_HEAD_def link_at_def Let_def queue_simps set_prev_store)
  then show ?thesis using rep_insert_head [OF rep new, of q] Nil by simp
next
  case (snoc as y)
  have "load h (NextOf y) = None" using rep_load_end [OF rep, of q] snoc by (simp add: end_loc_def)
  then have "LIST_INSERT_AFTER y x h = link_at (NextOf y) x h"
    by (simp add: LIST_INSERT_AFTER_def link_at_def Let_def queue_simps set_prev_store)
  then show ?thesis using rep_insert_after [OF rep _ new, of q as y "[]"] snoc by (simp add: end_loc_def)
qed

lemma tq_insert_tail:
  assumes "tailqs_rep h Q" "\<And>q'. x \<notin> set (Q q')"
  shows "\<exists>h'. TAILQ_INSERT_TAIL q x h = Some h' \<and> tailqs_rep h' (Q(q := Q q @ [x]))"
  using rep_insert_end [OF tailqs_repD(1) [OF assms(1)] assms(2), of q] tailqs_repD(2) [OF assms(1)]
  by (auto simp: TAILQ_INSERT_TAIL_def Let_def tailqs_rep_def link_at_def end_loc_def)

text \<open>Concatenation: the second sequence hangs behind the first, and its head is empty.\<close>

lemma rep_concat:
  assumes rep: "lists_rep h Q" and ne: "q1 \<noteq> q2" and q2: "Q q2 = f # fs"
    and l: "l = end_loc (Head q1) (Q q1)"
  shows "lists_rep (store (Head q2) None (set_prev f (Some l) (store l (Some f) h)))
    (Q(q1 := Q q1 @ Q q2, q2 := []))"
proof (rule lists_repI)
  let ?h = "store (Head q2) None (set_prev f (Some l) (store l (Some f) h))"
  note ch = lists_repD(1) [OF rep] and dis = lists_repD(2) [OF rep]
  have apart: "z \<in> set (Q q) \<Longrightarrow> q \<noteq> q' \<Longrightarrow> z \<notin> set (Q q')" for z q q'
    using lists_repD(3) [OF rep, of q q' z] by simp
  have l_in: "l = Head q1 \<or> l \<in> NextOf ` set (Q q1)" using l end_loc_mem by fastforce
  fix p
  show "chain ?h (Head p) ((Q(q1 := Q q1 @ Q q2, q2 := [])) p)"
  proof (cases "p = q1")
    case True
    have "linked h (Head q1) (Q q1)" using ch [of q1] chain_append [of h "Head q1" "Q q1" "[]"] by simp
    then have "linked ?h (Head q1) (Q q1)"
      by (rule linked_frame) (use dis apart [of _ q1 q2] ne q2 l in \<open>auto simp: queue_simps\<close>)
    moreover have "chain ?h (NextOf f) fs"
      by (rule chain_frame [where h = h])
        (use ch [of q2] dis [of q2] apart [of _ q2 q1] ne q2 l_in in \<open>auto simp: queue_simps\<close>)
    moreover have "l \<noteq> Head q2" using l_in ne by auto
    ultimately show ?thesis using True ne q2 l by (simp add: chain_append queue_simps)
  next
    case False
    show ?thesis
    proof (cases "p = q2")
      case other: False
      have "chain ?h (Head p) (Q p)"
        by (rule chain_frame [OF ch [of p]])
          (use apart [of _ p q1] apart [of _ p q2] False other q2 l_in in \<open>auto simp: queue_simps\<close>)
      then show ?thesis using False other by simp
    qed (simp add: queue_simps)
  qed
qed (use rep ne in \<open>auto simp: lists_rep_def\<close>)

lemma tq_concat:
  assumes "tailqs_rep h Q" "q1 \<noteq> q2"
  shows "\<exists>h'. TAILQ_CONCAT q1 q2 h = Some h' \<and> tailqs_rep h' (Q(q1 := Q q1 @ Q q2, q2 := []))"
proof -
  note rep = tailqs_repD(1) [OF assms(1)]
  show ?thesis
  proof (cases "Q q2")
    case Nil
    then have "Q(q1 := Q q1 @ Q q2, q2 := []) = Q" by (auto simp: fun_eq_iff)
    then show ?thesis
      using rep_first [OF rep, of q2] assms Nil by (simp add: TAILQ_CONCAT_def TAILQ_EMPTY_def TAILQ_FIRST_def)
  next
    case (Cons f fs)
    let ?l = "end_loc (Head q1) (Q q1)"
    have first: "load (tq_links h) (Head q2) = Some f" using rep_first [OF rep, of q2] Cons by simp
    have last: "tqh_last h q1 = Some ?l" "tqh_last h q2 = Some (end_loc (Head q2) (Q q2))"
      using tailqs_repD(2) [OF assms(1)] by auto
    have ends: "?l \<noteq> Head q2" using end_loc_mem [of "Head q1" "Q q1"] assms(2) by auto
    let ?h' = "TAILQ_INIT q2 (set_last q1 (tqh_last h q2)
      (on_links (set_prev f (Some ?l)) (on_links (store ?l (Some f)) h)))"
    have run: "TAILQ_CONCAT q1 q2 h = Some ?h'"
      using first last ends
      by (simp add: TAILQ_CONCAT_def TAILQ_EMPTY_def TAILQ_FIRST_def Let_def queue_simps)
    have "tq_links ?h' = store (Head q2) None (set_prev f (Some ?l) (store ?l (Some f) (tq_links h)))"
      "tqh_last ?h' = (tqh_last h)(q1 := tqh_last h q2, q2 := Some (Head q2))"
      by (simp_all add: TAILQ_INIT_def)
    then obtain h' where h': "TAILQ_CONCAT q1 q2 h = Some h'"
      "tq_links h' = store (Head q2) None (set_prev f (Some ?l) (store ?l (Some f) (tq_links h)))"
      "tqh_last h' = (tqh_last h)(q1 := tqh_last h q2, q2 := Some (Head q2))"
      using run by blast
    have "lists_rep (tq_links h') (Q(q1 := Q q1 @ Q q2, q2 := []))"
      using rep_concat [OF rep assms(2) Cons refl] h'(2) by simp
    moreover have "tqh_last h' p = Some (end_loc (Head p) ((Q(q1 := Q q1 @ Q q2, q2 := [])) p))" for p
      using h'(3) last tailqs_repD(2) [OF assms(1), of p] Cons by (simp add: end_loc_def)
    ultimately show ?thesis using h'(1) by (auto simp: tailqs_rep_def)
  qed
qed

section \<open>Reading a queue from either end\<close>

lemma tq_deref_prefix:
  assumes "tailqs_rep h Q" "Q q = as @ bs"
  shows "deref_second h (Some (end_loc (Head q) as)) = Some (if as = [] then None else Some (last as))"
proof (cases as rule: rev_cases)
  case Nil
  then show ?thesis
    using rep_load_end [OF tailqs_repD(1) [OF assms(1)], of q] tailqs_repD(2) [OF assms(1), of q]
    by (simp add: deref_second_def)
next
  case (snoc cs y)
  have ch: "chain (tq_links h) (Head q) (cs @ y # bs)"
    using lists_repD(1) [OF tailqs_repD(1) [OF assms(1)], of q] assms(2) snoc by simp
  then have "load (tq_links h) (end_loc (Head q) cs) = Some y" "le_prev (tq_links h) y = Some (end_loc (Head q) cs)"
    by (simp_all add: chain_append)
  then show ?thesis using snoc by (simp add: deref_second_def end_loc_def)
qed

lemma tq_last:
  "tailqs_rep h Q \<Longrightarrow> TAILQ_LAST q h = Some (if Q q = [] then None else Some (last (Q q)))"
  using tq_deref_prefix [of h Q q "Q q" "[]"] tailqs_repD(2) [of h Q q] by (simp add: TAILQ_LAST_def)

lemma tq_prev:
  assumes "tailqs_rep h Q" "Q q = as @ x # bs"
  shows "TAILQ_PREV x h = Some (if as = [] then None else Some (last as))"
proof -
  have "le_prev (tq_links h) x = Some (end_loc (Head q) as)"
    using chain_prev_mem [of "tq_links h" "Head q" as x bs] lists_repD(1) [OF tailqs_repD(1) [OF assms(1)], of q]
      assms(2) by (simp add: end_loc_def)
  then show ?thesis using tq_deref_prefix [OF assms] by (simp add: TAILQ_PREV_def)
qed

lemma tq_foreach:
  assumes "tailqs_rep h Q" "length (Q q) < n"
  shows "TAILQ_FOREACH n h (TAILQ_FIRST q h) = Some (Q q)"
proof -
  have "TAILQ_FOREACH m h v = LIST_FOREACH m (tq_links h) v" for m v
    by (induction m "tq_links h" v rule: LIST_FOREACH.induct) (simp_all add: TAILQ_NEXT_def)
  then show ?thesis
    using rep_foreach [OF tailqs_repD(1) [OF assms(1)] assms(2)] by (simp add: TAILQ_FIRST_def)
qed

lemma foreach_reverse_prefix:
  assumes "tailqs_rep h Q"
  shows "Q q = as @ bs \<Longrightarrow> length as < n \<Longrightarrow>
    foreach_reverse n h (Some (if as = [] then None else Some (last as))) = Some (rev as)"
proof (induction as arbitrary: bs n rule: rev_induct)
  case Nil
  then show ?case by (cases n) auto
next
  case (snoc x as)
  then obtain m where "n = Suc m" "length as < m" by (cases n) auto
  then show ?case using snoc.IH [of "x # bs" m] snoc.prems tq_prev [OF assms, of q as x bs] by simp
qed

lemma tq_foreach_reverse:
  "tailqs_rep h Q \<Longrightarrow> length (Q q) < n \<Longrightarrow> TAILQ_FOREACH_REVERSE n q h = Some (rev (Q q))"
  using foreach_reverse_prefix [of h Q q "Q q" "[]" n] tq_last [of h Q q]
  by (simp add: TAILQ_FOREACH_REVERSE_def)

text \<open>The safe loops let their body remove the node it is given: both empty the queue.\<close>

lemma foreach_safe_remove:
  "tailqs_rep h Q \<Longrightarrow> Q q = as \<Longrightarrow> length as < n \<Longrightarrow>
   \<exists>h'. TAILQ_FOREACH_SAFE n (TAILQ_REMOVE q) (TAILQ_FIRST q h) h = Some h' \<and> tailqs_rep h' (Q(q := []))"
proof (induction as arbitrary: h Q n)
  case Nil
  then have "TAILQ_FIRST q h = None" "Q(q := []) = Q"
    using rep_first [OF tailqs_repD(1), of h Q q] by (auto simp: TAILQ_FIRST_def)
  with Nil show ?case by (cases n) auto
next
  case (Cons x as)
  obtain m where m: "n = Suc m" "length as < m" using Cons.prems(3) by (cases n) auto
  note ch = lists_repD(1) [OF tailqs_repD(1) [OF Cons.prems(1)], of q]
  have first: "TAILQ_FIRST q h = Some x" using ch Cons.prems(2) by (simp add: TAILQ_FIRST_def)
  obtain h1 where h1: "TAILQ_REMOVE q x h = Some h1" "tailqs_rep h1 (Q(q := as))"
    using tq_remove [OF Cons.prems(1), of x q] Cons.prems(2) by auto
  have "TAILQ_NEXT x h = TAILQ_FIRST q h1"
    using chain_next [of "tq_links h" "Head q" "[]" x as] ch Cons.prems(2) rep_first [OF tailqs_repD(1) [OF h1(2)], of q]
    by (simp add: TAILQ_NEXT_def TAILQ_FIRST_def)
  then show ?case using Cons.IH [OF h1(2) fun_upd_same m(2)] first h1(1) m(1) by (simp del: fun_upd_apply)
qed

lemma foreach_reverse_safe_remove:
  "tailqs_rep h Q \<Longrightarrow> Q q = as \<Longrightarrow> length as < n \<Longrightarrow>
   \<exists>h'. TAILQ_FOREACH_REVERSE_SAFE n (TAILQ_REMOVE q) q h = Some h' \<and> tailqs_rep h' (Q(q := []))"
  unfolding TAILQ_FOREACH_REVERSE_SAFE_def
proof (induction as arbitrary: h Q n rule: rev_induct)
  case Nil
  then have "TAILQ_LAST q h = Some None" "Q(q := []) = Q" using tq_last [of h Q q] by auto
  with Nil show ?case by (cases n) auto
next
  case (snoc x as)
  obtain m where m: "n = Suc m" "length as < m" using snoc.prems(3) by (cases n) auto
  have dis: "distinct (as @ [x])"
    using lists_repD(2) [OF tailqs_repD(1) [OF snoc.prems(1)], of q] snoc.prems(2) by simp
  have last: "TAILQ_LAST q h = Some (Some x)" using tq_last [OF snoc.prems(1), of q] snoc.prems(2) by simp
  obtain h1 where h1: "TAILQ_REMOVE q x h = Some h1" "tailqs_rep h1 (Q(q := as))"
    using tq_remove [OF snoc.prems(1), of x q] snoc.prems(2) dis by (auto simp: remove1_append)
  have "TAILQ_PREV x h = TAILQ_LAST q h1"
    using tq_prev [OF snoc.prems(1), of q as x "[]"] tq_last [OF h1(2), of q] snoc.prems(2) by simp
  moreover obtain v where "TAILQ_LAST q h1 = Some v" using tq_last [OF h1(2), of q] by simp
  ultimately show ?case using snoc.IH [OF h1(2) fun_upd_same m(2)] last h1(1) m(1) by (simp del: fun_upd_apply)
qed

section \<open>Refinement\<close>

datatype ('q, 'a) tailq_op =
    TInit 'q
  | TInsertHead 'q 'a
  | TInsertTail 'q 'a
  | TInsertAfter 'q 'a 'a
  | TInsertBefore 'a 'a
  | TRemove 'q 'a
  | TConcat 'q 'q

fun tailq_macro :: "('q, 'a) tailq_op \<Rightarrow> ('q, 'a) theap \<Rightarrow> ('q, 'a) theap option" where
  "tailq_macro (TInit q) h = Some (TAILQ_INIT q h)"
| "tailq_macro (TInsertHead q x) h = Some (TAILQ_INSERT_HEAD q x h)"
| "tailq_macro (TInsertTail q x) h = TAILQ_INSERT_TAIL q x h"
| "tailq_macro (TInsertAfter q y x) h = Some (TAILQ_INSERT_AFTER q y x h)"
| "tailq_macro (TInsertBefore y x) h = TAILQ_INSERT_BEFORE y x h"
| "tailq_macro (TRemove q x) h = TAILQ_REMOVE q x h"
| "tailq_macro (TConcat q1 q2) h = TAILQ_CONCAT q1 q2 h"

text \<open>The specification again are the sequences of the heads; the macros that name a head
  must be given the right one.\<close>

inductive tailq_spec :: "('q, 'a) tailq_op \<Rightarrow> ('q \<Rightarrow> 'a list) \<Rightarrow> ('q \<Rightarrow> 'a list) \<Rightarrow> bool" where
  "tailq_spec (TInit q) Q (Q(q := []))"
| "(\<And>q'. x \<notin> set (Q q')) \<Longrightarrow> tailq_spec (TInsertHead q x) Q (Q(q := x # Q q))"
| "(\<And>q'. x \<notin> set (Q q')) \<Longrightarrow> tailq_spec (TInsertTail q x) Q (Q(q := Q q @ [x]))"
| "Q q = as @ y # bs \<Longrightarrow> (\<And>q'. x \<notin> set (Q q')) \<Longrightarrow>
   tailq_spec (TInsertAfter q y x) Q (Q(q := as @ y # x # bs))"
| "Q q = as @ y # bs \<Longrightarrow> (\<And>q'. x \<notin> set (Q q')) \<Longrightarrow>
   tailq_spec (TInsertBefore y x) Q (Q(q := as @ x # y # bs))"
| "x \<in> set (Q q) \<Longrightarrow> tailq_spec (TRemove q x) Q (Q(q := remove1 x (Q q)))"
| "q1 \<noteq> q2 \<Longrightarrow> tailq_spec (TConcat q1 q2) Q (Q(q1 := Q q1 @ Q q2, q2 := []))"

lemma tailq_macro_simulates:
  assumes "tailq_spec op Q Q'" "tailqs_rep h Q"
  shows "\<exists>h'. tailq_macro op h = Some h' \<and> tailqs_rep h' Q'"
  using assms
  by (cases rule: tailq_spec.cases)
    (auto intro: tq_init tailqs_repD tq_insert_head tq_insert_tail tq_insert_after tq_insert_before
      tq_remove tq_concat)

interpretation tm: op_refinement tailqs_rep tailq_macro tailq_spec
  by unfold_locales (rule tailq_macro_simulates)

lemma tail_queues_refine:
  assumes "spec_run tailq_spec ops Q Q'" "tailqs_rep h Q" "length (Q' q) < n"
  shows "\<exists>h'. run_macros tailq_macro ops h = Some h' \<and> tailqs_rep h' Q' \<and> TAILQ_EMPTY q h' = (Q' q = []) \<and>
    TAILQ_LAST q h' = Some (if Q' q = [] then None else Some (last (Q' q))) \<and>
    TAILQ_FOREACH n h' (TAILQ_FIRST q h') = Some (Q' q) \<and>
    TAILQ_FOREACH_REVERSE n q h' = Some (rev (Q' q))"
proof -
  obtain h' where h': "run_macros tailq_macro ops h = Some h'" "tailqs_rep h' Q'"
    using tm.runs_simulate [OF assms(1,2)] by blast
  have "TAILQ_EMPTY q h' = (Q' q = [])"
    using rep_first [OF tailqs_repD(1) [OF h'(2)], of q] by (simp add: TAILQ_EMPTY_def TAILQ_FIRST_def split: list.splits)
  then show ?thesis
    using h' tq_last [OF h'(2), of q] tq_foreach [OF h'(2) assms(3)] tq_foreach_reverse [OF h'(2) assms(3)] by blast
qed

end
