(* ===== verification/SingleQueue.thy ===== *)
theory SingleQueue
  imports TailQueue
begin

text \<open>
  The singly linked lists and tail queues of monitor/src/queue.h (the SLIST and
  STAILQ macros), over the same heap: an entry has only a next pointer, so
  le_prev is not used, and stqh_last is the address a tail queue keeps.  A heap
  stands for sequences when some choice of back pointers makes it a heap of
  ListQueue, so that what is proved there carries over.  The searches of the
  REMOVE macros are run with fuel; following NULL, which they do when the node
  is not on the list, is None.
\<close>

section \<open>Lists\<close>

definition SLIST_INIT :: "'q \<Rightarrow> ('q, 'a) lheap \<Rightarrow> ('q, 'a) lheap" where
  "SLIST_INIT q h = store (Head q) None h"

definition SLIST_EMPTY :: "'q \<Rightarrow> ('q, 'a) lheap \<Rightarrow> bool" where
  "SLIST_EMPTY q h = (load h (Head q) = None)"

definition SLIST_FIRST :: "'q \<Rightarrow> ('q, 'a) lheap \<Rightarrow> 'a option" where
  "SLIST_FIRST q h = load h (Head q)"

definition SLIST_NEXT :: "'a \<Rightarrow> ('q, 'a) lheap \<Rightarrow> 'a option" where
  "SLIST_NEXT x h = load h (NextOf x)"

definition SLIST_INSERT_AFTER :: "'a \<Rightarrow> 'a \<Rightarrow> ('q, 'a) lheap \<Rightarrow> ('q, 'a) lheap" where
  "SLIST_INSERT_AFTER y x h =
    (let h1 = store (NextOf x) (SLIST_NEXT y h) h in store (NextOf y) (Some x) h1)"

definition SLIST_INSERT_HEAD :: "'q \<Rightarrow> 'a \<Rightarrow> ('q, 'a) lheap \<Rightarrow> ('q, 'a) lheap" where
  "SLIST_INSERT_HEAD q x h =
    (let h1 = store (NextOf x) (SLIST_FIRST q h) h in store (Head q) (Some x) h1)"

definition SLIST_REMOVE_HEAD :: "'q \<Rightarrow> ('q, 'a) lheap \<Rightarrow> ('q, 'a) lheap option" where
  "SLIST_REMOVE_HEAD q h =
    (case SLIST_FIRST q h of
       None \<Rightarrow> None
     | Some f \<Rightarrow> Some (store (Head q) (SLIST_NEXT f h) h))"

text \<open>The while loop of the REMOVE macros: the node before x, from curelm on.\<close>

fun find_before :: "nat \<Rightarrow> ('q, 'a) lheap \<Rightarrow> 'a option \<Rightarrow> 'a \<Rightarrow> 'a option" where
  "find_before 0 h cur x = None"
| "find_before (Suc n) h None x = None"
| "find_before (Suc n) h (Some c) x =
    (if SLIST_NEXT c h \<noteq> Some x then find_before n h (SLIST_NEXT c h) x else Some c)"

definition SLIST_REMOVE :: "nat \<Rightarrow> 'q \<Rightarrow> 'a \<Rightarrow> ('q, 'a) lheap \<Rightarrow> ('q, 'a) lheap option" where
  "SLIST_REMOVE n q x h =
    (if SLIST_FIRST q h = Some x then SLIST_REMOVE_HEAD q h
     else case find_before n h (SLIST_FIRST q h) x of
       None \<Rightarrow> None
     | Some c \<Rightarrow>
         (case SLIST_NEXT c h of
            None \<Rightarrow> None
          | Some y \<Rightarrow> Some (store (NextOf c) (SLIST_NEXT y h) h)))"

fun SLIST_FOREACH :: "nat \<Rightarrow> ('q, 'a) lheap \<Rightarrow> 'a option \<Rightarrow> 'a list option" where
  "SLIST_FOREACH 0 h v = None"
| "SLIST_FOREACH (Suc n) h None = Some []"
| "SLIST_FOREACH (Suc n) h (Some x) = map_option (Cons x) (SLIST_FOREACH n h (SLIST_NEXT x h))"

fun SLIST_FOREACH_SAFE ::
  "nat \<Rightarrow> ('a \<Rightarrow> ('q, 'a) lheap \<Rightarrow> ('q, 'a) lheap option) \<Rightarrow> 'a option \<Rightarrow>
   ('q, 'a) lheap \<Rightarrow> ('q, 'a) lheap option" where
  "SLIST_FOREACH_SAFE 0 body v h = None"
| "SLIST_FOREACH_SAFE (Suc n) body None h = Some h"
| "SLIST_FOREACH_SAFE (Suc n) body (Some x) h =
    (let tvar = SLIST_NEXT x h
     in case body x h of None \<Rightarrow> None | Some h' \<Rightarrow> SLIST_FOREACH_SAFE n body tvar h')"

text \<open>SLIST_FOREACH_PREVPTR: every node with the address of the pointer to it.\<close>

fun SLIST_FOREACH_PREVPTR :: "nat \<Rightarrow> ('q, 'a) lheap \<Rightarrow> ('q, 'a) loc \<Rightarrow> (('q, 'a) loc \<times> 'a) list option" where
  "SLIST_FOREACH_PREVPTR 0 h varp = None"
| "SLIST_FOREACH_PREVPTR (Suc n) h varp =
    (case load h varp of
       None \<Rightarrow> Some []
     | Some x \<Rightarrow> map_option (Cons (varp, x)) (SLIST_FOREACH_PREVPTR n h (NextOf x)))"

section \<open>Tail queues\<close>

definition STAILQ_FIRST :: "'q \<Rightarrow> ('q, 'a) theap \<Rightarrow> 'a option" where
  "STAILQ_FIRST q h = load (tq_links h) (Head q)"

definition STAILQ_NEXT :: "'a \<Rightarrow> ('q, 'a) theap \<Rightarrow> 'a option" where
  "STAILQ_NEXT x h = load (tq_links h) (NextOf x)"

definition STAILQ_EMPTY :: "'q \<Rightarrow> ('q, 'a) theap \<Rightarrow> bool" where
  "STAILQ_EMPTY q h = (STAILQ_FIRST q h = None)"

definition STAILQ_INIT :: "'q \<Rightarrow> ('q, 'a) theap \<Rightarrow> ('q, 'a) theap" where
  "STAILQ_INIT q h = set_last q (Some (Head q)) (on_links (store (Head q) None) h)"

definition STAILQ_CONCAT :: "'q \<Rightarrow> 'q \<Rightarrow> ('q, 'a) theap \<Rightarrow> ('q, 'a) theap option" where
  "STAILQ_CONCAT q1 q2 h =
    (if STAILQ_EMPTY q2 h then Some h
     else case tqh_last h q1 of
       None \<Rightarrow> None
     | Some l \<Rightarrow>
         let h1 = on_links (store l (STAILQ_FIRST q2 h)) h;
             h2 = set_last q1 (tqh_last h1 q2) h1
         in Some (STAILQ_INIT q2 h2))"

definition STAILQ_INSERT_AFTER :: "'q \<Rightarrow> 'a \<Rightarrow> 'a \<Rightarrow> ('q, 'a) theap \<Rightarrow> ('q, 'a) theap" where
  "STAILQ_INSERT_AFTER q y x h =
    (let h1 = on_links (store (NextOf x) (STAILQ_NEXT y h)) h;
         h2 = (if STAILQ_NEXT x h1 = None then set_last q (Some (NextOf x)) h1 else h1)
     in on_links (store (NextOf y) (Some x)) h2)"

definition STAILQ_INSERT_HEAD :: "'q \<Rightarrow> 'a \<Rightarrow> ('q, 'a) theap \<Rightarrow> ('q, 'a) theap" where
  "STAILQ_INSERT_HEAD q x h =
    (let h1 = on_links (store (NextOf x) (STAILQ_FIRST q h)) h;
         h2 = (if STAILQ_NEXT x h1 = None then set_last q (Some (NextOf x)) h1 else h1)
     in on_links (store (Head q) (Some x)) h2)"

definition STAILQ_INSERT_TAIL :: "'q \<Rightarrow> 'a \<Rightarrow> ('q, 'a) theap \<Rightarrow> ('q, 'a) theap option" where
  "STAILQ_INSERT_TAIL q x h =
    (let h1 = on_links (store (NextOf x) None) h
     in case tqh_last h1 q of
          None \<Rightarrow> None
        | Some l \<Rightarrow> Some (set_last q (Some (NextOf x)) (on_links (store l (Some x)) h1)))"

text \<open>The entry an address lies in: STAILQ_LAST subtracts the offset of the field.\<close>

fun entry_of :: "('q, 'a) loc \<Rightarrow> 'a option" where
  "entry_of (NextOf x) = Some x"
| "entry_of (Head q) = None"

definition STAILQ_LAST :: "'q \<Rightarrow> ('q, 'a) theap \<Rightarrow> 'a option" where
  "STAILQ_LAST q h =
    (if STAILQ_EMPTY q h then None
     else case tqh_last h q of None \<Rightarrow> None | Some l \<Rightarrow> entry_of l)"

definition STAILQ_REMOVE_HEAD :: "'q \<Rightarrow> ('q, 'a) theap \<Rightarrow> ('q, 'a) theap option" where
  "STAILQ_REMOVE_HEAD q h =
    (case STAILQ_FIRST q h of
       None \<Rightarrow> None
     | Some f \<Rightarrow>
         let h1 = on_links (store (Head q) (STAILQ_NEXT f h)) h
         in Some (if STAILQ_FIRST q h1 = None then set_last q (Some (Head q)) h1 else h1))"

definition STAILQ_REMOVE_HEAD_UNTIL :: "'q \<Rightarrow> 'a \<Rightarrow> ('q, 'a) theap \<Rightarrow> ('q, 'a) theap" where
  "STAILQ_REMOVE_HEAD_UNTIL q x h =
    (let h1 = on_links (store (Head q) (STAILQ_NEXT x h)) h
     in if STAILQ_FIRST q h1 = None then set_last q (Some (Head q)) h1 else h1)"

definition STAILQ_REMOVE :: "nat \<Rightarrow> 'q \<Rightarrow> 'a \<Rightarrow> ('q, 'a) theap \<Rightarrow> ('q, 'a) theap option" where
  "STAILQ_REMOVE n q x h =
    (if STAILQ_FIRST q h = Some x then STAILQ_REMOVE_HEAD q h
     else case find_before n (tq_links h) (STAILQ_FIRST q h) x of
       None \<Rightarrow> None
     | Some c \<Rightarrow>
         (case STAILQ_NEXT c h of
            None \<Rightarrow> None
          | Some y \<Rightarrow>
              let h1 = on_links (store (NextOf c) (STAILQ_NEXT y h)) h
              in Some (if STAILQ_NEXT c h1 = None then set_last q (Some (NextOf c)) h1 else h1)))"

fun STAILQ_FOREACH :: "nat \<Rightarrow> ('q, 'a) theap \<Rightarrow> 'a option \<Rightarrow> 'a list option" where
  "STAILQ_FOREACH 0 h v = None"
| "STAILQ_FOREACH (Suc n) h None = Some []"
| "STAILQ_FOREACH (Suc n) h (Some x) = map_option (Cons x) (STAILQ_FOREACH n h (STAILQ_NEXT x h))"

fun STAILQ_FOREACH_SAFE ::
  "nat \<Rightarrow> ('a \<Rightarrow> ('q, 'a) theap \<Rightarrow> ('q, 'a) theap option) \<Rightarrow> 'a option \<Rightarrow>
   ('q, 'a) theap \<Rightarrow> ('q, 'a) theap option" where
  "STAILQ_FOREACH_SAFE 0 body v h = None"
| "STAILQ_FOREACH_SAFE (Suc n) body None h = Some h"
| "STAILQ_FOREACH_SAFE (Suc n) body (Some x) h =
    (let tvar = STAILQ_NEXT x h
     in case body x h of None \<Rightarrow> None | Some h' \<Rightarrow> STAILQ_FOREACH_SAFE n body tvar h')"

section \<open>Abstraction\<close>

definition slists_rep :: "('q, 'a) lheap \<Rightarrow> ('q \<Rightarrow> 'a list) \<Rightarrow> bool" where
  "slists_rep h Q \<longleftrightarrow> (\<exists>p. lists_rep (h\<lparr>le_prev := p\<rparr>) Q)"

lemma slists_repI:
  assumes "lists_rep k Q" "\<And>l. load h l = load k l"
  shows "slists_rep h Q"
proof -
  have "lh_first k = lh_first h" "le_next k = le_next h"
    using assms(2) [of "Head _"] assms(2) [of "NextOf _"] by (auto simp: load.simps fun_eq_iff)
  then have "k = h\<lparr>le_prev := le_prev k\<rparr>" by (cases k; cases h) simp
  then show ?thesis using assms(1) unfolding slists_rep_def by metis
qed

lemma slists_repE:
  assumes "slists_rep h Q"
  obtains k where "lists_rep k Q" "\<And>l. load h l = load k l"
proof -
  obtain p where p: "lists_rep (h\<lparr>le_prev := p\<rparr>) Q" using assms by (auto simp: slists_rep_def)
  have "load h l = load (h\<lparr>le_prev := p\<rparr>) l" for l by (cases l) (simp_all add: load.simps)
  then show thesis using that [OF p] by blast
qed

lemma sl_first: "slists_rep h Q \<Longrightarrow> load h (Head q) = (case Q q of [] \<Rightarrow> None | x # _ \<Rightarrow> Some x)"
  by (metis slists_repE rep_first)

lemma sl_next:
  assumes "slists_rep h Q" "Q q = as @ x # bs"
  shows "load h (NextOf x) = (case bs of [] \<Rightarrow> None | b # _ \<Rightarrow> Some b)"
proof -
  obtain k where k: "lists_rep k Q" "\<And>l. load h l = load k l" by (rule slists_repE [OF assms(1)]) blast
  then show ?thesis
    using chain_next [of k "Head q" as x bs] lists_repD(1) [OF k(1), of q] assms(2) by simp
qed

lemma sl_distinct: "slists_rep h Q \<Longrightarrow> distinct (Q q)"
  by (metis slists_repE lists_repD(2))

lemma sl_apart: "slists_rep h Q \<Longrightarrow> q \<noteq> q' \<Longrightarrow> x \<in> set (Q q) \<Longrightarrow> x \<notin> set (Q q')"
  by (metis slists_repE lists_repD(3))

text \<open>The pointer at the end of a prefix leads to the rest.\<close>

lemma sl_load_end:
  assumes "slists_rep h Q" "Q q = as @ bs"
  shows "load h (end_loc (Head q) as) = (case bs of [] \<Rightarrow> None | b # _ \<Rightarrow> Some b)"
proof (cases as rule: rev_cases)
  case Nil
  then show ?thesis using sl_first [OF assms(1), of q] assms(2) by simp
next
  case (snoc cs y)
  then show ?thesis using sl_next [OF assms(1), of q cs y bs] assms(2) by (simp add: end_loc_def)
qed

section \<open>The list macros implement their operations\<close>

lemma sl_init:
  assumes "slists_rep h Q"
  shows "slists_rep (SLIST_INIT q h) (Q(q := []))"
proof -
  obtain k where k: "lists_rep k Q" "\<And>l. load h l = load k l" by (rule slists_repE [OF assms]) blast
  show ?thesis
    by (rule slists_repI [OF rep_init [OF k(1)]]) (simp add: SLIST_INIT_def LIST_INIT_def queue_simps k(2))
qed

lemma sl_insert_head:
  assumes "slists_rep h Q" "\<And>q'. x \<notin> set (Q q')"
  shows "slists_rep (SLIST_INSERT_HEAD q x h) (Q(q := x # Q q))"
proof -
  obtain k where k: "lists_rep k Q" "\<And>l. load h l = load k l" by (rule slists_repE [OF assms(1)]) blast
  show ?thesis
    by (rule slists_repI [OF rep_insert_head [OF k(1) assms(2)]])
      (auto simp: SLIST_INSERT_HEAD_def SLIST_FIRST_def queue_simps k(2))
qed

lemma sl_insert_after:
  assumes "slists_rep h Q" "Q q = as @ y # bs" "\<And>q'. x \<notin> set (Q q')"
  shows "slists_rep (SLIST_INSERT_AFTER y x h) (Q(q := as @ y # x # bs))"
proof -
  obtain k where k: "lists_rep k Q" "\<And>l. load h l = load k l" by (rule slists_repE [OF assms(1)]) blast
  show ?thesis
    by (rule slists_repI [OF rep_insert_after [OF k(1) assms(2,3)]])
      (auto simp: SLIST_INSERT_AFTER_def SLIST_NEXT_def queue_simps k(2))
qed

text \<open>Taking a node off is one store: the pointer to it gets its successor.\<close>

lemma sl_unlink:
  assumes "slists_rep h Q" "Q q = as @ x # bs" "l = end_loc (Head q) as"
  shows "slists_rep (store l (load h (NextOf x)) h) (Q(q := as @ bs))"
proof -
  obtain k where k: "lists_rep k Q" "\<And>l. load h l = load k l" by (rule slists_repE [OF assms(1)]) blast
  have dis: "distinct (as @ x # bs)" using lists_repD(2) [OF k(1), of q] assms(2) by simp
  then have rem: "remove1 x (Q q) = as @ bs" using assms(2) by simp
  have prev: "le_prev k x = Some l"
    using chain_prev_mem [of k "Head q" as x bs] lists_repD(1) [OF k(1), of q] assms(2,3)
    by (simp add: end_loc_def)
  have "load k (NextOf x) \<noteq> Some x"
    using sl_next [OF assms(1,2)] dis k(2) by (auto split: list.splits)
  then obtain k' where k': "LIST_REMOVE x k = Some k'"
    "\<And>m. load k' m = (if m = l then load k (NextOf x) else load k m)"
    using remove_some [OF prev] by metis
  have "lists_rep k' (Q(q := as @ bs))"
    using rep_remove [OF k(1), of x q] assms(2) k'(1) rem by auto
  then show ?thesis by (rule slists_repI) (simp add: queue_simps k'(2) k(2))
qed

lemma sl_remove_head:
  assumes "slists_rep h Q" "Q q = x # xs"
  shows "\<exists>h'. SLIST_REMOVE_HEAD q h = Some h' \<and> slists_rep h' (Q(q := xs))"
  using sl_unlink [OF assms(1), of q "[]" x xs] sl_first [OF assms(1), of q] assms(2)
  by (simp add: SLIST_REMOVE_HEAD_def SLIST_FIRST_def SLIST_NEXT_def)

lemma find_before_rep:
  assumes "slists_rep h Q"
  shows "Q q = cs @ as @ y # x # bs \<Longrightarrow> length as < n \<Longrightarrow>
    find_before n h (Some (hd (as @ [y]))) x = Some y"
proof (induction as arbitrary: cs n)
  case Nil
  then show ?case using sl_next [OF assms, of q cs y "x # bs"] by (cases n) (auto simp: SLIST_NEXT_def)
next
  case (Cons a as)
  obtain m where m: "n = Suc m" "length as < m" using Cons.prems(2) by (cases n) auto
  have "distinct (cs @ a # as @ y # x # bs)" using sl_distinct [OF assms, of q] Cons.prems(1) by simp
  moreover have "SLIST_NEXT a h = Some (hd (as @ [y]))"
    using sl_next [OF assms, of q cs a "as @ y # x # bs"] Cons.prems(1)
    by (cases as) (auto simp: SLIST_NEXT_def)
  ultimately have "SLIST_NEXT a h = Some (hd (as @ [y])) \<and> hd (as @ [y]) \<noteq> x" by (cases as) auto
  then show ?case using Cons.IH [of "cs @ [a]" m] Cons.prems(1) m by simp
qed

text \<open>Where the node is not the first, the loop stops at the one before it.\<close>

lemma find_before_first:
  assumes "slists_rep h Q" "Q q = as @ y # x # bs" "length as < n"
  shows "load h (Head q) \<noteq> Some x" "find_before n h (load h (Head q)) x = Some y"
    "load h (NextOf y) = Some x"
proof -
  have f: "load h (Head q) = Some (hd (as @ [y]))"
    using sl_first [OF assms(1), of q] assms(2) by (cases as) auto
  show "load h (Head q) \<noteq> Some x"
    using f sl_distinct [OF assms(1), of q] assms(2) by (cases as) auto
  show "find_before n h (load h (Head q)) x = Some y"
    using find_before_rep [OF assms(1), of q "[]" as y x bs n] assms(2,3) f by simp
  show "load h (NextOf y) = Some x"
    using sl_next [OF assms(1), of q as y "x # bs"] assms(2) by simp
qed

lemma sl_remove:
  assumes "slists_rep h Q" "x \<in> set (Q q)" "length (Q q) \<le> n"
  shows "\<exists>h'. SLIST_REMOVE n q x h = Some h' \<and> slists_rep h' (Q(q := remove1 x (Q q)))"
proof -
  obtain as bs where split: "Q q = as @ x # bs" using assms(2) by (meson split_list)
  have rem: "remove1 x (Q q) = as @ bs" using sl_distinct [OF assms(1), of q] split by simp
  show ?thesis
  proof (cases as rule: rev_cases)
    case Nil
    then show ?thesis
      using sl_remove_head [OF assms(1), of q x bs] sl_first [OF assms(1), of q] split
      by (simp add: SLIST_REMOVE_def SLIST_FIRST_def)
  next
    case (snoc cs y)
    then have "SLIST_REMOVE n q x h = Some (store (NextOf y) (load h (NextOf x)) h)"
      using find_before_first [OF assms(1), of q cs y x bs n] split assms(3)
      by (simp add: SLIST_REMOVE_def SLIST_FIRST_def SLIST_NEXT_def)
    then show ?thesis
      using sl_unlink [OF assms(1) split refl] rem snoc by (simp add: end_loc_def)
  qed
qed

section \<open>The loops\<close>

lemma sl_foreach:
  assumes "slists_rep h Q" "length (Q q) < n"
  shows "SLIST_FOREACH n h (SLIST_FIRST q h) = Some (Q q)"
proof -
  obtain k where k: "lists_rep k Q" "\<And>l. load h l = load k l" by (rule slists_repE [OF assms(1)]) blast
  have "SLIST_FOREACH m h v = LIST_FOREACH m k v" for m v
  proof (induction m arbitrary: v)
    case (Suc m)
    then show ?case by (cases v) (simp_all add: SLIST_NEXT_def k(2))
  qed simp
  then show ?thesis using rep_foreach [OF k(1) assms(2)] k(2) by (simp add: SLIST_FIRST_def)
qed

text \<open>The addresses SLIST_FOREACH_PREVPTR gives are those of the pointers to the nodes.\<close>

lemma prevptr_suffix:
  assumes "slists_rep h Q"
  shows "Q q = as @ bs \<Longrightarrow> length bs < n \<Longrightarrow>
    \<exists>ls. SLIST_FOREACH_PREVPTR n h (end_loc (Head q) as) = Some (zip ls bs) \<and>
      length ls = length bs \<and> (\<forall>i<length bs. load h (ls ! i) = Some (bs ! i))"
proof (induction bs arbitrary: as n)
  case Nil
  then show ?case using sl_load_end [OF assms, of q as "[]"] by (cases n) auto
next
  case (Cons b bs)
  obtain m where m: "n = Suc m" "length bs < m" using Cons.prems(2) by (cases n) auto
  have here: "load h (end_loc (Head q) as) = Some b"
    using sl_load_end [OF assms, of q as "b # bs"] Cons.prems(1) by simp
  obtain ls where "SLIST_FOREACH_PREVPTR m h (NextOf b) = Some (zip ls bs)"
    "length ls = length bs" "\<forall>i<length bs. load h (ls ! i) = Some (bs ! i)"
    using Cons.IH [of "as @ [b]" m] Cons.prems(1) m(2) by (auto simp: end_loc_def)
  then show ?case
    using here m(1) by (intro exI [of _ "end_loc (Head q) as # ls"]) (auto simp: less_Suc_eq_0_disj)
qed

section \<open>The tail queue macros implement their operations\<close>

definition stailqs_rep :: "('q, 'a) theap \<Rightarrow> ('q \<Rightarrow> 'a list) \<Rightarrow> bool" where
  "stailqs_rep h Q \<longleftrightarrow>
     slists_rep (tq_links h) Q \<and> (\<forall>q. tqh_last h q = Some (end_loc (Head q) (Q q)))"

lemma stailqs_repD:
  "stailqs_rep h Q \<Longrightarrow> slists_rep (tq_links h) Q"
  "stailqs_rep h Q \<Longrightarrow> tqh_last h q = Some (end_loc (Head q) (Q q))"
  by (simp_all add: stailqs_rep_def)

lemma stailqs_repI:
  "tailqs_rep k Q \<Longrightarrow> (\<And>l. load (tq_links h) l = load (tq_links k) l) \<Longrightarrow> tqh_last h = tqh_last k \<Longrightarrow>
   stailqs_rep h Q"
  using slists_repI by (auto simp: tailqs_rep_def stailqs_rep_def)

lemma stailqs_repE:
  assumes "stailqs_rep h Q"
  obtains k where "tailqs_rep k Q" "\<And>l. load (tq_links h) l = load (tq_links k) l" "tqh_last h = tqh_last k"
proof -
  obtain k where k: "lists_rep k Q" "\<And>l. load (tq_links h) l = load k l"
    by (rule slists_repE [OF stailqs_repD(1) [OF assms]]) blast
  then have "tailqs_rep (h\<lparr>tq_links := k\<rparr>) Q" using stailqs_repD(2) [OF assms] by (simp add: tailqs_rep_def)
  then show thesis using that k(2) by fastforce
qed

lemma st_init:
  assumes "stailqs_rep h Q"
  shows "stailqs_rep (STAILQ_INIT q h) (Q(q := []))"
proof -
  obtain k where k: "tailqs_rep k Q" "\<And>l. load (tq_links h) l = load (tq_links k) l" "tqh_last h = tqh_last k"
    by (rule stailqs_repE [OF assms]) blast
  have "tailqs_rep (TAILQ_INIT q k) (Q(q := []))"
    by (rule tq_init) (use k(1) in \<open>auto simp: tailqs_rep_def\<close>)
  then show ?thesis
    by (rule stailqs_repI) (simp_all add: STAILQ_INIT_def TAILQ_INIT_def queue_simps k(2,3))
qed

lemma st_insert_head:
  assumes "stailqs_rep h Q" "\<And>q'. x \<notin> set (Q q')"
  shows "stailqs_rep (STAILQ_INSERT_HEAD q x h) (Q(q := x # Q q))"
proof -
  obtain k where k: "tailqs_rep k Q" "\<And>l. load (tq_links h) l = load (tq_links k) l" "tqh_last h = tqh_last k"
    by (rule stailqs_repE [OF assms(1)]) blast
  show ?thesis
    by (rule stailqs_repI [OF tq_insert_head [OF k(1) assms(2)]])
      (auto simp: STAILQ_INSERT_HEAD_def STAILQ_FIRST_def STAILQ_NEXT_def Let_def tailq_links tailq_last
        queue_simps k(2,3))
qed

lemma st_insert_after:
  assumes "stailqs_rep h Q" "Q q = as @ y # bs" "\<And>q'. x \<notin> set (Q q')"
  shows "stailqs_rep (STAILQ_INSERT_AFTER q y x h) (Q(q := as @ y # x # bs))"
proof -
  obtain k where k: "tailqs_rep k Q" "\<And>l. load (tq_links h) l = load (tq_links k) l" "tqh_last h = tqh_last k"
    by (rule stailqs_repE [OF assms(1)]) blast
  show ?thesis
    by (rule stailqs_repI [OF tq_insert_after [OF k(1) assms(2,3)]])
      (auto simp: STAILQ_INSERT_AFTER_def STAILQ_NEXT_def Let_def tailq_links tailq_last queue_simps k(2,3))
qed

lemma st_insert_tail:
  assumes "stailqs_rep h Q" "\<And>q'. x \<notin> set (Q q')"
  shows "\<exists>h'. STAILQ_INSERT_TAIL q x h = Some h' \<and> stailqs_rep h' (Q(q := Q q @ [x]))"
proof -
  obtain k where k: "tailqs_rep k Q" "\<And>l. load (tq_links h) l = load (tq_links k) l" "tqh_last h = tqh_last k"
    by (rule stailqs_repE [OF assms(1)]) blast
  obtain k' where k': "TAILQ_INSERT_TAIL q x k = Some k'" "tailqs_rep k' (Q(q := Q q @ [x]))"
    using tq_insert_tail [OF k(1) assms(2)] by blast
  obtain h' where "STAILQ_INSERT_TAIL q x h = Some h'" "\<And>l. load (tq_links h') l = load (tq_links k') l"
    "tqh_last h' = tqh_last k'"
    using k'(1) tailqs_repD(2) [OF k(1), of q] k(2,3)
    by (auto simp: STAILQ_INSERT_TAIL_def TAILQ_INSERT_TAIL_def Let_def queue_simps)
  then show ?thesis using stailqs_repI [OF k'(2)] by blast
qed

lemma st_concat:
  assumes "stailqs_rep h Q" "q1 \<noteq> q2"
  shows "\<exists>h'. STAILQ_CONCAT q1 q2 h = Some h' \<and> stailqs_rep h' (Q(q1 := Q q1 @ Q q2, q2 := []))"
proof -
  obtain k where k: "tailqs_rep k Q" "\<And>l. load (tq_links h) l = load (tq_links k) l" "tqh_last h = tqh_last k"
    by (rule stailqs_repE [OF assms(1)]) blast
  obtain k' where k': "TAILQ_CONCAT q1 q2 k = Some k'" "tailqs_rep k' (Q(q1 := Q q1 @ Q q2, q2 := []))"
    using tq_concat [OF k(1) assms(2)] by blast
  have "\<exists>h'. STAILQ_CONCAT q1 q2 h = Some h' \<and> (\<forall>l. load (tq_links h') l = load (tq_links k') l) \<and>
    tqh_last h' = tqh_last k'"
    using k'(1) tailqs_repD(2) [OF k(1), of q1] k(2,3)
    by (auto simp: STAILQ_CONCAT_def TAILQ_CONCAT_def STAILQ_EMPTY_def TAILQ_EMPTY_def STAILQ_FIRST_def
        TAILQ_FIRST_def STAILQ_INIT_def TAILQ_INIT_def Let_def queue_simps split: if_splits option.splits)
  then show ?thesis using stailqs_repI [OF k'(2)] by blast
qed

text \<open>Unlinking a node, where the last pointer follows when nothing is behind it.\<close>

definition st_unlinked :: "'q \<Rightarrow> ('q, 'a) loc \<Rightarrow> 'a option \<Rightarrow> ('q, 'a) theap \<Rightarrow> ('q, 'a) theap" where
  "st_unlinked q l v h =
    (let h1 = on_links (store l v) h in if v = None then set_last q (Some l) h1 else h1)"

lemma st_unlink:
  assumes "stailqs_rep h Q" "Q q = as @ x # bs" "l = end_loc (Head q) as"
  shows "stailqs_rep (st_unlinked q l (load (tq_links h) (NextOf x)) h) (Q(q := as @ bs))"
  using sl_unlink [OF stailqs_repD(1) [OF assms(1)] assms(2,3)]
    sl_next [OF stailqs_repD(1) [OF assms(1)] assms(2)] stailqs_repD(2) [OF assms(1)] assms(2,3)
  by (auto simp: stailqs_rep_def st_unlinked_def Let_def end_loc_def split: list.splits)

lemma st_remove_head:
  assumes "stailqs_rep h Q" "Q q = x # xs"
  shows "\<exists>h'. STAILQ_REMOVE_HEAD q h = Some h' \<and> stailqs_rep h' (Q(q := xs))"
  using st_unlink [OF assms(1), of q "[]" x xs] sl_first [OF stailqs_repD(1) [OF assms(1)], of q] assms(2)
  by (simp add: STAILQ_REMOVE_HEAD_def STAILQ_FIRST_def STAILQ_NEXT_def st_unlinked_def Let_def queue_simps)

lemma st_remove:
  assumes "stailqs_rep h Q" "x \<in> set (Q q)" "length (Q q) \<le> n"
  shows "\<exists>h'. STAILQ_REMOVE n q x h = Some h' \<and> stailqs_rep h' (Q(q := remove1 x (Q q)))"
proof -
  note rep = stailqs_repD(1) [OF assms(1)]
  obtain as bs where split: "Q q = as @ x # bs" using assms(2) by (meson split_list)
  have rem: "remove1 x (Q q) = as @ bs" using sl_distinct [OF rep, of q] split by simp
  show ?thesis
  proof (cases as rule: rev_cases)
    case Nil
    then show ?thesis
      using st_remove_head [OF assms(1), of q x bs] sl_first [OF rep, of q] split
      by (simp add: STAILQ_REMOVE_def STAILQ_FIRST_def)
  next
    case (snoc cs y)
    then have "STAILQ_REMOVE n q x h = Some (st_unlinked q (NextOf y) (load (tq_links h) (NextOf x)) h)"
      using find_before_first [OF rep, of q cs y x bs n] split assms(3)
      by (simp add: STAILQ_REMOVE_def STAILQ_FIRST_def STAILQ_NEXT_def st_unlinked_def Let_def queue_simps)
    then show ?thesis using st_unlink [OF assms(1) split refl] rem snoc by (simp add: end_loc_def)
  qed
qed

lemma sl_drop_until:
  "slists_rep h Q \<Longrightarrow> Q q = as @ x # bs \<Longrightarrow>
   slists_rep (store (Head q) (load h (NextOf x)) h) (Q(q := bs))"
proof (induction as arbitrary: h Q)
  case Nil
  then show ?case using sl_unlink [of h Q q "[]" x bs] by (simp del: fun_upd_apply)
next
  case (Cons a as)
  let ?h1 = "store (Head q) (load h (NextOf a)) h"
  have "slists_rep ?h1 (Q(q := as @ x # bs))"
    using sl_unlink [OF Cons.prems(1), of q "[]" a "as @ x # bs"] Cons.prems(2) by simp
  then have "slists_rep (store (Head q) (load ?h1 (NextOf x)) ?h1) (Q(q := bs))"
    using Cons.IH [of ?h1 "Q(q := as @ x # bs)"] by (simp del: fun_upd_apply add: fun_upd_same)
  then obtain k where "lists_rep k (Q(q := bs))"
    "\<And>l. load (store (Head q) (load ?h1 (NextOf x)) ?h1) l = load k l" by (rule slists_repE) blast
  moreover have "load (store (Head q) (load h (NextOf x)) h) l =
      load (store (Head q) (load ?h1 (NextOf x)) ?h1) l" for l
    by (simp add: queue_simps)
  ultimately show ?case by (metis slists_repI)
qed

lemma st_remove_head_until:
  assumes "stailqs_rep h Q" "Q q = as @ x # bs"
  shows "stailqs_rep (STAILQ_REMOVE_HEAD_UNTIL q x h) (Q(q := bs))"
  using sl_drop_until [OF stailqs_repD(1) [OF assms(1)] assms(2)]
    sl_next [OF stailqs_repD(1) [OF assms(1)] assms(2)] stailqs_repD(2) [OF assms(1)] assms(2)
  by (auto simp: stailqs_rep_def STAILQ_REMOVE_HEAD_UNTIL_def STAILQ_FIRST_def STAILQ_NEXT_def Let_def
      end_loc_def queue_simps split: list.splits)

lemma st_last:
  assumes "stailqs_rep h Q"
  shows "STAILQ_LAST q h = (if Q q = [] then None else Some (last (Q q)))"
  using sl_first [OF stailqs_repD(1) [OF assms], of q] stailqs_repD(2) [OF assms, of q]
  by (auto simp: STAILQ_LAST_def STAILQ_EMPTY_def STAILQ_FIRST_def end_loc_def split: list.splits)

lemma st_foreach:
  assumes "stailqs_rep h Q" "length (Q q) < n"
  shows "STAILQ_FOREACH n h (STAILQ_FIRST q h) = Some (Q q)"
proof -
  have "STAILQ_FOREACH m h v = SLIST_FOREACH m (tq_links h) v" for m v
    by (induction m "tq_links h" v rule: SLIST_FOREACH.induct) (simp_all add: STAILQ_NEXT_def SLIST_NEXT_def)
  then show ?thesis
    using sl_foreach [OF stailqs_repD(1) [OF assms(1)] assms(2)] by (simp add: STAILQ_FIRST_def SLIST_FIRST_def)
qed

section \<open>Refinement\<close>

datatype ('q, 'a) stailq_op =
    SInit 'q
  | SInsertHead 'q 'a
  | SInsertTail 'q 'a
  | SInsertAfter 'q 'a 'a
  | SRemoveHead 'q
  | SRemove 'q 'a
  | SRemoveUntil 'q 'a
  | SConcat 'q 'q

text \<open>The macros, with fuel for the searches; and their specification, where at most as many
  nodes as the fuel may be on a queue that is searched.\<close>

fun stailq_macro :: "nat \<Rightarrow> ('q, 'a) stailq_op \<Rightarrow> ('q, 'a) theap \<Rightarrow> ('q, 'a) theap option" where
  "stailq_macro n (SInit q) h = Some (STAILQ_INIT q h)"
| "stailq_macro n (SInsertHead q x) h = Some (STAILQ_INSERT_HEAD q x h)"
| "stailq_macro n (SInsertTail q x) h = STAILQ_INSERT_TAIL q x h"
| "stailq_macro n (SInsertAfter q y x) h = Some (STAILQ_INSERT_AFTER q y x h)"
| "stailq_macro n (SRemoveHead q) h = STAILQ_REMOVE_HEAD q h"
| "stailq_macro n (SRemove q x) h = STAILQ_REMOVE n q x h"
| "stailq_macro n (SRemoveUntil q x) h = Some (STAILQ_REMOVE_HEAD_UNTIL q x h)"
| "stailq_macro n (SConcat q1 q2) h = STAILQ_CONCAT q1 q2 h"

inductive stailq_spec ::
  "nat \<Rightarrow> ('q, 'a) stailq_op \<Rightarrow> ('q \<Rightarrow> 'a list) \<Rightarrow> ('q \<Rightarrow> 'a list) \<Rightarrow> bool" for n where
  "stailq_spec n (SInit q) Q (Q(q := []))"
| "(\<And>q'. x \<notin> set (Q q')) \<Longrightarrow> stailq_spec n (SInsertHead q x) Q (Q(q := x # Q q))"
| "(\<And>q'. x \<notin> set (Q q')) \<Longrightarrow> stailq_spec n (SInsertTail q x) Q (Q(q := Q q @ [x]))"
| "Q q = as @ y # bs \<Longrightarrow> (\<And>q'. x \<notin> set (Q q')) \<Longrightarrow>
   stailq_spec n (SInsertAfter q y x) Q (Q(q := as @ y # x # bs))"
| "Q q = x # xs \<Longrightarrow> stailq_spec n (SRemoveHead q) Q (Q(q := xs))"
| "x \<in> set (Q q) \<Longrightarrow> length (Q q) \<le> n \<Longrightarrow> stailq_spec n (SRemove q x) Q (Q(q := remove1 x (Q q)))"
| "Q q = as @ x # bs \<Longrightarrow> stailq_spec n (SRemoveUntil q x) Q (Q(q := bs))"
| "q1 \<noteq> q2 \<Longrightarrow> stailq_spec n (SConcat q1 q2) Q (Q(q1 := Q q1 @ Q q2, q2 := []))"

lemma stailq_macro_simulates:
  assumes "stailq_spec n op Q Q'" "stailqs_rep h Q"
  shows "\<exists>h'. stailq_macro n op h = Some h' \<and> stailqs_rep h' Q'"
  using assms
  by (cases rule: stailq_spec.cases)
    (auto intro: st_init st_insert_head st_insert_tail st_insert_after st_remove_head st_remove
      st_remove_head_until st_concat)

interpretation sm: op_refinement stailqs_rep "stailq_macro n" "stailq_spec n"
  by unfold_locales (rule stailq_macro_simulates)

lemma simple_queues_refine:
  assumes "spec_run (stailq_spec m) ops Q Q'" "stailqs_rep h Q" "length (Q' q) < n"
  shows "\<exists>h'. run_macros (stailq_macro m) ops h = Some h' \<and> stailqs_rep h' Q' \<and>
    STAILQ_EMPTY q h' = (Q' q = []) \<and>
    STAILQ_LAST q h' = (if Q' q = [] then None else Some (last (Q' q))) \<and>
    STAILQ_FOREACH n h' (STAILQ_FIRST q h') = Some (Q' q)"
proof -
  obtain h' where h': "run_macros (stailq_macro m) ops h = Some h'" "stailqs_rep h' Q'"
    using sm.runs_simulate [OF assms(1,2)] by blast
  have "STAILQ_EMPTY q h' = (Q' q = [])"
    using sl_first [OF stailqs_repD(1) [OF h'(2)], of q]
    by (simp add: STAILQ_EMPTY_def STAILQ_FIRST_def split: list.splits)
  then show ?thesis using h' st_last [OF h'(2)] st_foreach [OF h'(2) assms(3)] by blast
qed

text \<open>A node that is not on the list: the search of the REMOVE macros follows NULL.\<close>

lemma remove_absent_follows_null:
  assumes "slists_rep h Q" "x \<notin> set (Q q)"
  shows "SLIST_REMOVE n q x h = None"
proof -
  have "find_before m h (load h (end_loc (Head q) as)) x = None" if "Q q = as @ bs" for m as bs
    using that
  proof (induction bs arbitrary: as m)
    case Nil
    then show ?case using sl_load_end [OF assms(1), of q as "[]"] by (cases m) auto
  next
    case (Cons b bs)
    have here: "load h (end_loc (Head q) as) = Some b"
      using sl_load_end [OF assms(1), of q as "b # bs"] Cons.prems by simp
    have "load h (NextOf b) \<noteq> Some x"
      using sl_next [OF assms(1), of q as b bs] Cons.prems assms(2) by (auto split: list.splits)
    then show ?case
      using here Cons.IH [of "as @ [b]"] Cons.prems by (cases m) (simp_all add: SLIST_NEXT_def end_loc_def)
  qed
  from this [of "[]" "Q q"] show ?thesis
    using sl_first [OF assms(1), of q] assms(2) by (auto simp: SLIST_REMOVE_def SLIST_FIRST_def split: list.splits)
qed

end
