(* ===== verification/DefaultCallbacks.thy ===== *)
theory DefaultCallbacks
  imports Client
begin

text \<open>
  What the default weak callbacks of monitor/src/callback.c write.  They do nothing but print
  with the MONITOR_DEBUG macros of common.h when the debug variable is set; the results
  of those that have one are in Client.  The text goes to the standard error output; what
  printf makes of a pointer is a parameter, and a null argument of the process and MPI
  callbacks is None.
\<close>

section \<open>Debug output\<close>

record debug =
  monitor_debug :: bool
  dbg_pid :: int
  dbg_tid :: int
  dbg_ptr :: "cptr \<Rightarrow> string"

definition newline :: string where "newline = [CHR 0x0A]"

definition MONITOR_DEBUG_ARGS :: "debug \<Rightarrow> string \<Rightarrow> string \<Rightarrow> string" where
  "MONITOR_DEBUG_ARGS d func msg =
    (if monitor_debug d
     then ''monitor debug ['' @ dec_int (dbg_pid d) @ '','' @ dec_int (dbg_tid d) @ ''] '' @ func @
       '': '' @ msg @ newline
     else [])"

definition MONITOR_WARN_ARGS :: "debug \<Rightarrow> string \<Rightarrow> string \<Rightarrow> string" where
  "MONITOR_WARN_ARGS d func msg =
    ''monitor warning ['' @ dec_int (dbg_pid d) @ '','' @ dec_int (dbg_tid d) @ ''] '' @ func @
      '': '' @ msg @ newline"

definition is_default :: string where "is_default = ''(default callback)''"

section \<open>The callbacks\<close>

definition default_init_library_text :: "debug \<Rightarrow> string" where
  "default_init_library_text d = MONITOR_DEBUG_ARGS d ''monitor_init_library'' is_default"

definition default_fini_library_text :: "debug \<Rightarrow> string" where
  "default_fini_library_text d = MONITOR_DEBUG_ARGS d ''monitor_fini_library'' is_default"

definition default_pre_fork_text :: "debug \<Rightarrow> string" where
  "default_pre_fork_text d = MONITOR_DEBUG_ARGS d ''monitor_pre_fork'' is_default"

definition default_post_fork_text :: "debug \<Rightarrow> int \<Rightarrow> string" where
  "default_post_fork_text d child = MONITOR_DEBUG_ARGS d ''monitor_post_fork''
    (is_default @ '' child = '' @ dec_int child)"

definition default_init_process_text :: "debug \<Rightarrow> int \<Rightarrow> int option \<Rightarrow> cptr \<Rightarrow> string" where
  "default_init_process_text d ppid argc argv = MONITOR_DEBUG_ARGS d ''monitor_init_process''
    (is_default @ '' parent = '' @ dec_int ppid @ '', argc = '' @
     dec_int (case argc of None \<Rightarrow> 0 | Some n \<Rightarrow> n) @ '', argv = '' @ dbg_ptr d argv)"

definition default_fini_process_text :: "debug \<Rightarrow> int \<Rightarrow> string" where
  "default_fini_process_text d how = MONITOR_DEBUG_ARGS d ''monitor_fini_process''
    (is_default @ '' how = '' @ dec_int how)"

definition default_begin_process_exit_text :: "debug \<Rightarrow> int \<Rightarrow> string" where
  "default_begin_process_exit_text d how = MONITOR_DEBUG_ARGS d ''monitor_begin_process_exit''
    (is_default @ '' how = '' @ dec_int how)"

definition default_thread_pre_create_text :: "debug \<Rightarrow> string" where
  "default_thread_pre_create_text d = MONITOR_DEBUG_ARGS d ''monitor_thread_pre_create'' is_default"

definition default_thread_post_create_text :: "debug \<Rightarrow> string" where
  "default_thread_post_create_text d = MONITOR_DEBUG_ARGS d ''monitor_thread_post_create'' is_default"

definition default_init_thread_support_text :: "debug \<Rightarrow> string" where
  "default_init_thread_support_text d = MONITOR_DEBUG_ARGS d ''monitor_init_thread_support'' is_default"

definition default_init_thread_text :: "debug \<Rightarrow> int \<Rightarrow> string" where
  "default_init_thread_text d tid = MONITOR_DEBUG_ARGS d ''monitor_init_thread''
    (is_default @ '' tid = '' @ dec_int tid)"

definition default_fini_thread_text :: "debug \<Rightarrow> string" where
  "default_fini_thread_text d = MONITOR_DEBUG_ARGS d ''monitor_fini_thread'' is_default"

definition default_reset_stacksize_text :: "debug \<Rightarrow> int \<Rightarrow> string" where
  "default_reset_stacksize_text d old_size = MONITOR_DEBUG_ARGS d ''monitor_reset_stacksize''
    (is_default @ '' stack size = '' @ dec_int old_size)"

definition default_pre_dlopen_text :: "debug \<Rightarrow> string" where
  "default_pre_dlopen_text d = MONITOR_DEBUG_ARGS d ''monitor_pre_dlopen'' is_default"

definition default_dlopen_text :: "debug \<Rightarrow> string \<Rightarrow> int \<Rightarrow> cptr \<Rightarrow> string" where
  "default_dlopen_text d path flags handle = MONITOR_DEBUG_ARGS d ''monitor_dlopen''
    (is_default @ '' path = '' @ path @ '', flags = '' @ dec_int flags @ '', handle = '' @ dbg_ptr d handle)"

definition default_dlclose_text :: "debug \<Rightarrow> cptr \<Rightarrow> string" where
  "default_dlclose_text d handle = MONITOR_DEBUG_ARGS d ''monitor_dlclose''
    (is_default @ '' handle = '' @ dbg_ptr d handle)"

definition default_post_dlclose_text :: "debug \<Rightarrow> string" where
  "default_post_dlclose_text d = MONITOR_DEBUG_ARGS d ''monitor_post_dlclose'' is_default"

definition default_mpi_pre_init_text :: "debug \<Rightarrow> string" where
  "default_mpi_pre_init_text d = MONITOR_DEBUG_ARGS d ''monitor_mpi_pre_init'' is_default"

text \<open>argc and argv are pointers of the application: with both, the arguments are listed; argv
  has at least argc strings.\<close>

record mpi_args =
  ma_argc_ptr :: cptr
  ma_argv_ptr :: cptr
  ma_argc_val :: int
  ma_argv_val :: "string list"

definition default_init_mpi_text :: "debug \<Rightarrow> mpi_args \<Rightarrow> string" where
  "default_init_mpi_text d a =
    (let out = MONITOR_DEBUG_ARGS d ''monitor_init_mpi''
           (is_default @ '' argc = '' @ dbg_ptr d (ma_argc_ptr a) @ '', argv = '' @ dbg_ptr d (ma_argv_ptr a))
     in if monitor_debug d \<and> ma_argc_ptr a \<noteq> NULL \<and> ma_argv_ptr a \<noteq> NULL \<and> ma_argc_val a > 0
        then out @ concat (map (\<lambda>i. MONITOR_DEBUG_ARGS d ''monitor_init_mpi''
               (''argv['' @ dec i @ ''] = '' @ ma_argv_val a ! i)) [0..<nat (ma_argc_val a)])
        else out)"

definition default_fini_mpi_text :: "debug \<Rightarrow> int \<Rightarrow> int \<Rightarrow> string" where
  "default_fini_mpi_text d comm_size rank = MONITOR_DEBUG_ARGS d ''monitor_fini_mpi''
    (is_default @ '' size = '' @ dec_int comm_size @ '', rank = '' @ dec_int rank)"

definition default_mpi_post_fini_text :: "debug \<Rightarrow> string" where
  "default_mpi_post_fini_text d = MONITOR_DEBUG_ARGS d ''monitor_mpi_post_fini'' is_default"

definition default_wrap_main_text :: "debug \<Rightarrow> string" where
  "default_wrap_main_text d = MONITOR_DEBUG_ARGS d ''monitor_wrap_main'' is_default"

section \<open>Facts\<close>

lemmas default_text_defs =
  default_init_library_text_def
  default_fini_library_text_def
  default_pre_fork_text_def
  default_post_fork_text_def
  default_init_process_text_def
  default_fini_process_text_def
  default_begin_process_exit_text_def
  default_thread_pre_create_text_def
  default_thread_post_create_text_def
  default_init_thread_support_text_def
  default_init_thread_text_def
  default_fini_thread_text_def
  default_reset_stacksize_text_def
  default_pre_dlopen_text_def
  default_dlopen_text_def
  default_dlclose_text_def
  default_post_dlclose_text_def
  default_mpi_pre_init_text_def
  default_init_mpi_text_def
  default_fini_mpi_text_def
  default_mpi_post_fini_text_def
  default_wrap_main_text_def

text \<open>Without the debug variable a client that overrides no callback prints nothing.\<close>

lemma default_callbacks_silent:
  assumes "\<not> monitor_debug d"
  shows "default_init_library_text d = []" "default_fini_library_text d = []"
    "default_pre_fork_text d = []" "default_post_fork_text d child = []"
    "default_init_process_text d ppid argc argv = []" "default_fini_process_text d how = []"
    "default_begin_process_exit_text d how = []" "default_thread_pre_create_text d = []"
    "default_thread_post_create_text d = []" "default_init_thread_support_text d = []"
    "default_init_thread_text d tid = []" "default_fini_thread_text d = []"
    "default_reset_stacksize_text d old_size = []" "default_pre_dlopen_text d = []"
    "default_dlopen_text d path flags handle = []" "default_dlclose_text d handle = []"
    "default_post_dlclose_text d = []" "default_mpi_pre_init_text d = []"
    "default_init_mpi_text d a = []" "default_fini_mpi_text d comm_size rank = []"
    "default_mpi_post_fini_text d = []" "default_wrap_main_text d = []"
  using assms by (simp_all add: default_text_defs MONITOR_DEBUG_ARGS_def)

text \<open>With it, the MPI callback prints its own line and one for every argument.\<close>

lemma default_init_mpi_lists_arguments:
  assumes "monitor_debug d" "ma_argc_ptr a \<noteq> NULL" "ma_argv_ptr a \<noteq> NULL"
    and "ma_argv_val a = args" "ma_argc_val a = int (length args)" "args \<noteq> []"
  shows "default_init_mpi_text d a =
    default_init_mpi_text d (a\<lparr>ma_argc_val := 0\<rparr>) @
    concat (map (\<lambda>(i, x). MONITOR_DEBUG_ARGS d ''monitor_init_mpi'' (''argv['' @ dec i @ ''] = '' @ x))
      (enumerate 0 args))"
proof -
  have "map (\<lambda>i. MONITOR_DEBUG_ARGS d ''monitor_init_mpi'' (''argv['' @ dec i @ ''] = '' @ args ! i)) [0..<length args] =
    map (\<lambda>(i, x). MONITOR_DEBUG_ARGS d ''monitor_init_mpi'' (''argv['' @ dec i @ ''] = '' @ x)) (enumerate 0 args)"
    by (rule nth_equalityI) (simp_all add: nth_enumerate_eq)
  then show ?thesis using assms by (simp add: default_init_mpi_text_def Let_def)
qed

end
