(* ===== verification/RealNames.thy ===== *)
theory RealNames
  imports Prelude
begin

text \<open>
  How libmonitor finds the functions it overrides: the macros MONITOR_RUN_ONCE,
  MONITOR_REQUIRE_DLSYM and MONITOR_GET_REAL_NAME of common.h and the functions that look up
  the names of a file (main.c, signal.c, pthread.c, fork.c, dlopen.c).  In a dynamic link the
  address is what dlsym(RTLD_NEXT) answers, and NULL ends the program with an error; in a static
  link it is the address of the symbol, with the prefix __real_ for an overridden one, as the
  linker has it.  Every file has its own variables, so a variable is a file and a name.  The
  other components take these functions as given; here is that they are found.
\<close>

section \<open>State\<close>

datatype src_file = MainC | SignalC | PthreadC | ForkC | DlopenC

type_synonym real_var = "src_file \<times> string"

record name_state =
  real_ptr :: "real_var \<Rightarrow> cptr"
  has_run :: "string \<Rightarrow> bool"
  dlsym_calls :: "string list"

definition name_start :: name_state where
  "name_start = \<lparr>real_ptr = (\<lambda>_. NULL), has_run = (\<lambda>_. False), dlsym_calls = []\<rparr>"

datatype linking =
    Dynamic "string \<Rightarrow> cptr"
  | Static "string \<Rightarrow> cptr"

datatype name_error = DlsymFailed string

text \<open>The options of the configuration that change the names.\<close>

record name_config =
  pthread_equal_is_fcn :: bool
  cleanup_push_is_fcn :: bool
  use_signals :: bool

section \<open>The macros\<close>

definition set_real :: "real_var \<Rightarrow> cptr \<Rightarrow> name_state \<Rightarrow> name_state" where
  "set_real var p s = s\<lparr>real_ptr := (real_ptr s)(var := p)\<rparr>"

definition MONITOR_REQUIRE_DLSYM ::
  "(string \<Rightarrow> cptr) \<Rightarrow> real_var \<Rightarrow> string \<Rightarrow> name_state \<Rightarrow> name_error + name_state" where
  "MONITOR_REQUIRE_DLSYM dlsym var name s =
    (if real_ptr s var = NULL then
       let s1 = set_real var (dlsym name) (s\<lparr>dlsym_calls := dlsym_calls s @ [name]\<rparr>)
       in if real_ptr s1 var = NULL then Inl (DlsymFailed name) else Inr s1
     else Inr s)"

fun MONITOR_GET_REAL_NAME :: "linking \<Rightarrow> real_var \<Rightarrow> string \<Rightarrow> name_state \<Rightarrow> name_error + name_state" where
  "MONITOR_GET_REAL_NAME (Static addr) var name s = Inr (set_real var (addr name) s)"
| "MONITOR_GET_REAL_NAME (Dynamic dlsym) var name s = MONITOR_REQUIRE_DLSYM dlsym var name s"

fun MONITOR_GET_REAL_NAME_WRAP ::
  "linking \<Rightarrow> real_var \<Rightarrow> string \<Rightarrow> name_state \<Rightarrow> name_error + name_state" where
  "MONITOR_GET_REAL_NAME_WRAP (Static addr) var name s = Inr (set_real var (addr (''__real_'' @ name)) s)"
| "MONITOR_GET_REAL_NAME_WRAP (Dynamic dlsym) var name s = MONITOR_REQUIRE_DLSYM dlsym var name s"

text \<open>The flag is set before the body runs: a body that fails is not run again.\<close>

definition MONITOR_RUN_ONCE ::
  "string \<Rightarrow> (name_state \<Rightarrow> name_error + name_state) \<Rightarrow> name_state \<Rightarrow> name_error + name_state" where
  "MONITOR_RUN_ONCE var body s =
    (if has_run s var then Inr s else body (s\<lparr>has_run := (has_run s)(var := True)\<rparr>))"

section \<open>The names of a file\<close>

text \<open>A look-up: whether the name is overridden, its variable and its symbol.\<close>

datatype name_use = Wrap real_var string | Plain real_var string

fun get_name :: "linking \<Rightarrow> name_use \<Rightarrow> name_state \<Rightarrow> name_error + name_state" where
  "get_name lk (Wrap var name) s = MONITOR_GET_REAL_NAME_WRAP lk var name s"
| "get_name lk (Plain var name) s = MONITOR_GET_REAL_NAME lk var name s"

fun get_names :: "linking \<Rightarrow> name_use list \<Rightarrow> name_state \<Rightarrow> name_error + name_state" where
  "get_names lk [] s = Inr s"
| "get_names lk (u # us) s = rbind (get_name lk u s) (get_names lk us)"

definition wrap_in :: "src_file \<Rightarrow> string \<Rightarrow> name_use" where
  "wrap_in f name = Wrap (f, ''real_'' @ name) name"

definition plain_in :: "src_file \<Rightarrow> string \<Rightarrow> name_use" where
  "plain_in f name = Plain (f, ''real_'' @ name) name"

text \<open>monitor_thread_name_init of pthread.c.\<close>

definition thread_names :: "name_config \<Rightarrow> name_use list" where
  "thread_names cf =
    [wrap_in PthreadC ''pthread_create'', plain_in PthreadC ''pthread_attr_init'',
     plain_in PthreadC ''pthread_attr_destroy'', plain_in PthreadC ''pthread_attr_getstacksize'',
     plain_in PthreadC ''pthread_attr_setstacksize''] @
    (if pthread_equal_is_fcn cf then [plain_in PthreadC ''pthread_equal''] else []) @
    [plain_in PthreadC ''pthread_key_create'', plain_in PthreadC ''pthread_key_delete'',
     plain_in PthreadC ''pthread_kill'', plain_in PthreadC ''pthread_self'',
     plain_in PthreadC ''pthread_getspecific'', plain_in PthreadC ''pthread_setspecific''] @
    (if cleanup_push_is_fcn cf
     then [plain_in PthreadC ''pthread_cleanup_push'', plain_in PthreadC ''pthread_cleanup_pop''] else []) @
    [plain_in PthreadC ''pthread_setcancelstate''] @
    (if use_signals cf
     then [wrap_in PthreadC ''sigaction'', wrap_in PthreadC ''pthread_sigmask'']
     else [plain_in PthreadC ''sigaction'', plain_in PthreadC ''pthread_sigmask'']) @
    [wrap_in PthreadC ''sigwaitinfo'', wrap_in PthreadC ''sigtimedwait'']"

definition monitor_thread_name_init ::
  "linking \<Rightarrow> name_config \<Rightarrow> name_state \<Rightarrow> name_error + name_state" where
  "monitor_thread_name_init lk cf = MONITOR_RUN_ONCE ''thread_name_init'' (get_names lk (thread_names cf))"

text \<open>The names of signal.c, part of monitor_signal_init.\<close>

definition signal_names :: "name_use list" where
  "signal_names = [wrap_in SignalC ''sigaction'', wrap_in SignalC ''sigprocmask'']"

definition signal_init_names :: "linking \<Rightarrow> name_state \<Rightarrow> name_error + name_state" where
  "signal_init_names lk = MONITOR_RUN_ONCE ''signal_init'' (get_names lk signal_names)"

text \<open>The names of main.c, part of monitor_normal_init; the order makes _exit the first.  The
  flag of monitor_early_init is set on the way.\<close>

definition early_init_flag :: "name_state \<Rightarrow> name_error + name_state" where
  "early_init_flag = MONITOR_RUN_ONCE ''early_init'' Inr"

fun real_main_name :: "linking \<Rightarrow> name_state \<Rightarrow> name_error + name_state" where
  "real_main_name (Static addr) s = Inr (set_real (MainC, ''real_main'') (addr ''__real_main'') s)"
| "real_main_name (Dynamic dlsym) s =
     MONITOR_REQUIRE_DLSYM dlsym (MainC, ''real_start_main'') ''__libc_start_main'' s"

definition normal_init_body :: "linking \<Rightarrow> name_config \<Rightarrow> name_state \<Rightarrow> name_error + name_state" where
  "normal_init_body lk cf s =
    rbind (early_init_flag s) (\<lambda>s1.
    rbind (get_name lk (Wrap (MainC, ''real_u_exit'') ''_exit'') s1) (\<lambda>s2.
    rbind (get_name lk (wrap_in MainC ''exit'') s2) (\<lambda>s3.
    rbind (real_main_name lk s3) (\<lambda>s4.
      if use_signals cf
      then rbind (get_name lk (wrap_in MainC ''sigprocmask'') s4) (signal_init_names lk)
      else get_name lk (plain_in MainC ''sigprocmask'') s4))))"

definition normal_init_names :: "linking \<Rightarrow> name_config \<Rightarrow> name_state \<Rightarrow> name_error + name_state" where
  "normal_init_names lk cf = MONITOR_RUN_ONCE ''normal_init'' (normal_init_body lk cf)"

text \<open>The init functions of fork.c and dlopen.c set their flag after the look-ups.\<close>

definition run_until_done ::
  "string \<Rightarrow> (name_state \<Rightarrow> name_error + name_state) \<Rightarrow> name_state \<Rightarrow> name_error + name_state" where
  "run_until_done var body s =
    (if has_run s var then Inr s
     else rbind (body s) (\<lambda>s1. Inr (s1\<lparr>has_run := (has_run s1)(var := True)\<rparr>)))"

definition fork_names :: "name_use list" where
  "fork_names = map (wrap_in ForkC)
     [''fork'', ''execv'', ''execvp'', ''execve'', ''sigaction'', ''sigprocmask'']"

definition monitor_fork_init :: "linking \<Rightarrow> name_state \<Rightarrow> name_error + name_state" where
  "monitor_fork_init lk =
     run_until_done ''fork_init'' (\<lambda>s. rbind (early_init_flag s) (get_names lk fork_names))"

definition dlopen_names :: "name_use list" where
  "dlopen_names = map (wrap_in DlopenC) [''dlopen'', ''dlclose'']"

definition dlopen_init_names :: "linking \<Rightarrow> name_state \<Rightarrow> name_error + name_state" where
  "dlopen_init_names lk = run_until_done ''dlopen_init'' (get_names lk dlopen_names)"

section \<open>Facts\<close>

fun use_var :: "name_use \<Rightarrow> real_var" where
  "use_var (Wrap var name) = var"
| "use_var (Plain var name) = var"

fun use_addr :: "linking \<Rightarrow> name_use \<Rightarrow> cptr" where
  "use_addr (Dynamic dlsym) (Wrap var name) = dlsym name"
| "use_addr (Dynamic dlsym) (Plain var name) = dlsym name"
| "use_addr (Static addr) (Wrap var name) = addr (''__real_'' @ name)"
| "use_addr (Static addr) (Plain var name) = addr name"

text \<open>A symbol's address is never NULL in a static link.\<close>

fun link_ok :: "linking \<Rightarrow> bool" where
  "link_ok (Dynamic dlsym) = True"
| "link_ok (Static addr) = (\<forall>n. addr n \<noteq> NULL)"

lemma get_name_frame:
  assumes "get_name lk u s = Inr s'"
  shows "var \<noteq> use_var u \<Longrightarrow> real_ptr s' var = real_ptr s var" "has_run s' = has_run s"
  using assms
  by (cases lk; cases u; auto simp: MONITOR_REQUIRE_DLSYM_def set_real_def Let_def split: if_splits)+

lemma get_name_sets:
  assumes "get_name lk u s = Inr s'" "link_ok lk"
    and "real_ptr s (use_var u) \<in> {NULL, use_addr lk u}"
  shows "real_ptr s' (use_var u) = use_addr lk u" "use_addr lk u \<noteq> NULL"
  using assms
  by (cases lk; cases u; auto simp: MONITOR_REQUIRE_DLSYM_def set_real_def Let_def split: if_splits)+

text \<open>A look-up fails only in a dynamic link, for a symbol that dlsym does not find.\<close>

lemma get_name_fails:
  "get_name lk u s = Inl e \<longleftrightarrow>
   (\<exists>dlsym name. lk = Dynamic dlsym \<and> e = DlsymFailed name \<and> u \<in> {Wrap (use_var u) name, Plain (use_var u) name} \<and>
      real_ptr s (use_var u) = NULL \<and> dlsym name = NULL)"
  by (cases lk; cases u) (auto simp: MONITOR_REQUIRE_DLSYM_def set_real_def Let_def)

text \<open>The variables of a list of look-ups that names each of them once.\<close>

definition ptrs_fit :: "linking \<Rightarrow> name_use list \<Rightarrow> name_state \<Rightarrow> bool" where
  "ptrs_fit lk us s \<longleftrightarrow> (\<forall>u\<in>set us. real_ptr s (use_var u) \<in> {NULL, use_addr lk u})"

lemma get_names_frame:
  "get_names lk us s = Inr s' \<Longrightarrow> var \<notin> use_var ` set us \<Longrightarrow> real_ptr s' var = real_ptr s var"
  "get_names lk us s = Inr s' \<Longrightarrow> has_run s' = has_run s"
  by (induction us arbitrary: s) (auto dest: get_name_frame)

lemma get_names_sets:
  "get_names lk us s = Inr s' \<Longrightarrow> link_ok lk \<Longrightarrow> ptrs_fit lk us s \<Longrightarrow> distinct (map use_var us) \<Longrightarrow>
   u \<in> set us \<Longrightarrow> real_ptr s' (use_var u) = use_addr lk u \<and> use_addr lk u \<noteq> NULL"
proof (induction us arbitrary: s)
  case (Cons v us)
  obtain s1 where s1: "get_name lk v s = Inr s1" "get_names lk us s1 = Inr s'" using Cons.prems(1) by auto
  have fit: "ptrs_fit lk us s1"
    unfolding ptrs_fit_def
  proof
    fix w assume w: "w \<in> set us"
    then have "use_var w \<noteq> use_var v" using Cons.prems(4) imageI [OF w, of use_var] by (metis distinct.simps(2) list.simps(9) set_map)
    then show "real_ptr s1 (use_var w) \<in> {NULL, use_addr lk w}"
      using Cons.prems(3) w get_name_frame(1) [OF s1(1)] by (simp add: ptrs_fit_def)
  qed
  show ?case
  proof (cases "u = v")
    case True
    have "real_ptr s' (use_var v) = real_ptr s1 (use_var v)"
      by (rule get_names_frame(1) [OF s1(2)]) (use Cons.prems(4) in auto)
    then show ?thesis
      using get_name_sets [OF s1(1) Cons.prems(2)] Cons.prems(3) True by (simp add: ptrs_fit_def)
  qed (use Cons.prems Cons.IH [OF s1(2) _ fit] in auto)
qed simp

text \<open>A list of look-ups fails exactly when one of its symbols is missing.\<close>

lemma get_names_fails:
  "ptrs_fit lk us s \<Longrightarrow> distinct (map use_var us) \<Longrightarrow> link_ok lk \<Longrightarrow> (\<And>u. u \<in> set us \<Longrightarrow> real_ptr s (use_var u) = NULL) \<Longrightarrow>
   (\<exists>e. get_names lk us s = Inl e) \<longleftrightarrow> (\<exists>u\<in>set us. use_addr lk u = NULL)"
proof (induction us arbitrary: s)
  case (Cons v us)
  have fresh: "real_ptr s (use_var v) = NULL" using Cons.prems(4) by simp
  show ?case
  proof (cases "get_name lk v s")
    case (Inl e)
    then have "use_addr lk v = NULL" by (cases lk; cases v) (auto simp: MONITOR_REQUIRE_DLSYM_def set_real_def Let_def split: if_splits)
    then show ?thesis using Inl by auto
  next
    case (Inr s1)
    have later: "real_ptr s1 (use_var w) = NULL" if "w \<in> set us" for w
    proof -
      have "use_var w \<noteq> use_var v" using Cons.prems(2) imageI [OF that, of use_var] by auto
      then show ?thesis using Cons.prems(4) [of w] that get_name_frame(1) [OF Inr] by simp
    qed
    moreover have "use_addr lk v \<noteq> NULL" using get_name_sets(2) [OF Inr Cons.prems(3)] fresh by simp
    ultimately show ?thesis
      using Inr Cons.IH [of s1] Cons.prems(2,3) by (auto simp: ptrs_fit_def)
  qed
qed simp

text \<open>The names of pthread.c: after the first call all its functions are there, and a later call
  does nothing.\<close>

lemma thread_names_distinct: "distinct (map use_var (thread_names cf))"
  by (cases "pthread_equal_is_fcn cf"; cases "cleanup_push_is_fcn cf"; cases "use_signals cf")
    (simp_all add: thread_names_def wrap_in_def plain_in_def)

lemma thread_names_found:
  assumes "monitor_thread_name_init lk cf s = Inr s'" "link_ok lk" "\<not> has_run s ''thread_name_init''"
    and "\<And>name. real_ptr s (PthreadC, name) = NULL" "u \<in> set (thread_names cf)"
  shows "real_ptr s' (use_var u) = use_addr lk u" "real_ptr s' (use_var u) \<noteq> NULL"
    and "monitor_thread_name_init lk cf s' = Inr s'"
proof -
  let ?s1 = "s\<lparr>has_run := (has_run s)(''thread_name_init'' := True)\<rparr>"
  have run: "get_names lk (thread_names cf) ?s1 = Inr s'"
    using assms(1,3) by (simp add: monitor_thread_name_init_def MONITOR_RUN_ONCE_def)
  have "fst (use_var w) = PthreadC" if "w \<in> set (thread_names cf)" for w
    using that by (auto simp: thread_names_def wrap_in_def plain_in_def split: if_splits)
  then have "ptrs_fit lk (thread_names cf) ?s1"
    using assms(4) by (simp add: ptrs_fit_def) (metis prod.collapse)
  then show "real_ptr s' (use_var u) = use_addr lk u" "real_ptr s' (use_var u) \<noteq> NULL"
    using get_names_sets [OF run assms(2) _ thread_names_distinct assms(5)] by auto
  show "monitor_thread_name_init lk cf s' = Inr s'"
    using get_names_frame(2) [OF run] by (simp add: monitor_thread_name_init_def MONITOR_RUN_ONCE_def)
qed

text \<open>_exit is looked up before everything else, so that an error after it can end the program.\<close>

lemma exit_found_first:
  assumes "normal_init_names (Dynamic dlsym) cf s = Inl (DlsymFailed name)" "real_ptr s (MainC, ''real_u_exit'') = NULL"
    and "dlsym ''_exit'' = NULL"
  shows "name = ''_exit''"
  using assms
  by (auto simp: normal_init_names_def normal_init_body_def MONITOR_RUN_ONCE_def early_init_flag_def
      MONITOR_REQUIRE_DLSYM_def set_real_def Let_def split: if_splits)

end
