(* ===== verification/WeakLink.thy ===== *)
theory WeakLink
  imports Fork Dlopen
begin

text \<open>
  The end of monitor/src/main.c: the weak definitions that stand in for pthread.c, dlopen.c
  and signal.c when a program is linked without them.  The functions of main.c, the exit
  overrides among them, and those of fork.c that call pthread.c are written over a module of
  thread functions, filled in by the linker with those of pthread.c (\<open>pthread_module\<close>, which
  gives the functions of Process and Fork) or with the weak ones.  The application is a program
  of the calls it makes, run over the same module, so that what it sees and how it ends
  may depend on the link.  The static entry __wrap_main is here too.
\<close>

section \<open>The weak definitions\<close>






definition weak_in_start_func_wide :: "fences \<Rightarrow> nat \<Rightarrow> bool" where
  "weak_in_start_func_wide fs addr = monitor_in_main_start_func_wide fs addr"

definition weak_in_start_func_narrow :: "fences \<Rightarrow> nat \<Rightarrow> bool" where
  "weak_in_start_func_narrow fs addr = monitor_in_main_start_func_narrow fs addr"

definition FAILURE :: int where "FAILURE = -1"

definition weak_real_dlopen :: "string \<Rightarrow> int \<Rightarrow> dlst \<Rightarrow> cptr \<times> dlst" where
  "weak_real_dlopen path flags s = (NULL, s)"

definition weak_real_dlclose :: "cptr \<Rightarrow> dlst \<Rightarrow> int \<times> dlst" where
  "weak_real_dlclose handle s = (FAILURE, s)"

definition weak_real_pthread_sigmask :: "sighow \<Rightarrow> sigset option \<Rightarrow> procst \<Rightarrow> int \<times> procst" where
  "weak_real_pthread_sigmask how sset s = (FAILURE, s)"

definition weak_sigaction :: "nat \<Rightarrow> cptr \<Rightarrow> int \<Rightarrow> procst \<Rightarrow> int \<times> procst" where
  "weak_sigaction sig handler flags s = (FAILURE, s)"

definition weak_unwind_thread_bottom_frame :: "nat \<Rightarrow> bool" where
  "weak_unwind_thread_bottom_frame addr = False"





section \<open>The functions of main.c over a module\<close>

record thread_module =
  md_get_tn :: "nat \<Rightarrow> procst \<Rightarrow> nid option"
  md_reset_thread_list :: "nat \<Rightarrow> procst \<Rightarrow> procst"
  md_thread_release :: "procst \<Rightarrow> procst"
  md_thread_shootdown :: "exit_env \<Rightarrow> nat \<Rightarrow> procst \<Rightarrow> (thread_error + procst) option"
  md_is_threaded :: "procst \<Rightarrow> int"
  md_get_user_data :: "nat \<Rightarrow> procst \<Rightarrow> cptr"
  md_get_thread_num :: "nat \<Rightarrow> procst \<Rightarrow> int"
  md_get_addr_thread_start :: "nat \<Rightarrow> procst \<Rightarrow> cptr"
  md_stack_bottom :: "nat \<Rightarrow> procst \<Rightarrow> cptr"


text \<open>monitor_thread_shootdown asks signal.c for its signal.\<close>

definition pthread_shootdown :: "exit_env \<Rightarrow> nat \<Rightarrow> procst \<Rightarrow> (thread_error + procst) option" where
  "pthread_shootdown ee self s =
    (let (sig, g) = (if monitor_has_used_threads (thr s) then Signal.monitor_shootdown_signal (sgn s)
                     else (0, sgn s))
     in map_option (\<lambda>r. rbind r (\<lambda>t. Inr (s\<lparr>thr := t, sgn := g\<rparr>)))
          (monitor_thread_shootdown sig (ee_sigaction_ok ee) self (ee_start ee) (ee_rounds ee) (thr s)))"

definition pthread_module :: thread_module where
  "pthread_module = \<lparr>md_get_tn = (\<lambda>self s. monitor_get_tn self (thr s)),
     md_reset_thread_list = (\<lambda>self. upd_thr (monitor_reset_thread_list self)),
     md_thread_release = upd_thr monitor_thread_release, md_thread_shootdown = pthread_shootdown,
     md_is_threaded = (\<lambda>s. monitor_is_threaded (thr s)),
     md_get_user_data = (\<lambda>self s. monitor_get_user_data self (thr s)),
     md_get_thread_num = (\<lambda>self s. monitor_get_thread_num self (thr s)),
     md_get_addr_thread_start = (\<lambda>self s. monitor_get_addr_thread_start self (thr s)),
     md_stack_bottom = (\<lambda>self s. monitor_stack_bottom self (thr s))\<rparr>"

definition linked_begin_process ::
  "thread_module \<Rightarrow> client \<Rightarrow> sigsys \<Rightarrow> nat \<Rightarrow> cptr \<Rightarrow> bool \<Rightarrow> procst \<Rightarrow> procst" where
  "linked_begin_process md cl ssys self user_data is_fork s =
    (let s1 = monitor_normal_init ssys s;
         s2 = (if is_fork then set_main_data user_data (md_reset_thread_list md self s1) else s1);
         s3 = s2\<lparr>monitor_fini_library_called := False, monitor_fini_process_done := False\<rparr>
     in if main_has_reached_main s3
        then md_thread_release md
               (set_main_data (cl_init_process cl user_data) (proc_emit (InitProcess user_data) s3))
        else s3)"

definition linked_end_process ::
  "thread_module \<Rightarrow> exit_env \<Rightarrow> nat \<Rightarrow> int \<Rightarrow> procst \<Rightarrow> (thread_error + procst) option" where
  "linked_end_process md ee self how s =
    (let tn = md_get_tn md self s;
         (prev, cookie) = compare_and_swap (monitor_end_process_cookie s) 0 1;
         s1 = s\<lparr>monitor_end_process_cookie := cookie\<rparr>
     in if prev = 0 then
          let s2 = (case tn of None \<Rightarrow> s1 | Some n \<Rightarrow> upd_thr (upd_node n (\<lambda>e. e\<lparr>tn_exit_win := True\<rparr>)) s1);
              s3 = proc_emit (BeginProcessExit how) s2
          in map_option (\<lambda>r. rbind r (\<lambda>s4.
                 let s5 = proc_emit ShootdownDone s4;
                     s6 = proc_emit (FiniProcess how (main_data s5)) s5
                 in Inr (s6\<lparr>monitor_fini_process_done := True\<rparr>)))
               (md_thread_shootdown md ee self s3)
        else if (case tn of None \<Rightarrow> False | Some n \<Rightarrow> tn_exit_win (nodes (thr s1) n))
        then Some (Inr (s1\<lparr>monitor_fini_process_done := True\<rparr>))
        else if monitor_fini_process_done s1 then Some (Inr (s1\<lparr>monitor_fini_process_done := True\<rparr>))
        else None)"

text \<open>The exit overrides.  _exit and _Exit have one body; in the dynamic case it runs the library's
  fini function first.\<close>

definition linked_exit ::
  "thread_module \<Rightarrow> sigsys \<Rightarrow> exit_env \<Rightarrow> nat \<Rightarrow> int \<Rightarrow> procst \<Rightarrow> (thread_error + procst) option" where
  "linked_exit md ssys ee self status s =
     map_option (\<lambda>r. rbind r (\<lambda>s1. Inr (proc_emit (RealExit status) s1)))
       (linked_end_process md ee self MONITOR_EXIT_NORMAL (monitor_normal_init ssys s))"

definition linked_u_exit ::
  "thread_module \<Rightarrow> bool \<Rightarrow> sigsys \<Rightarrow> exit_env \<Rightarrow> nat \<Rightarrow> int \<Rightarrow> procst \<Rightarrow> (thread_error + procst) option" where
  "linked_u_exit md dyn ssys ee self status s =
     map_option (\<lambda>r. rbind r (\<lambda>s1. Inr (proc_emit (RealUExit status)
         (if dyn then monitor_end_library_fcn s1 else s1))))
       (linked_end_process md ee self MONITOR_EXIT_NORMAL (monitor_normal_init ssys s))"

text \<open>fork of fork.c, the real fork of main.c, and the end of the exec functions.\<close>

definition linked_fork :: "thread_module \<Rightarrow> client \<Rightarrow> sigsys \<Rightarrow> nat \<Rightarrow> int \<Rightarrow> procst \<Rightarrow> int \<times> procst" where
  "linked_fork md cl ssys self ret s0 =
    (let s1 = upd_thr monitor_early_init s0;
         user_data = cl_pre_fork cl;
         s2 = proc_emit RealFork (proc_emit PreFork s1)
     in if ret \<noteq> 0 then (ret, proc_emit (PostFork ret user_data) s2)
        else (ret, linked_begin_process md cl ssys self user_data True s2))"

definition linked_real_fork :: "thread_module \<Rightarrow> int \<Rightarrow> nat \<Rightarrow> procst \<Rightarrow> int \<times> procst" where
  "linked_real_fork md ret self s =
    (let s1 = proc_emit RealFork s in (ret, if ret = 0 then md_reset_thread_list md self s1 else s1))"

definition linked_exec ::
  "thread_module \<Rightarrow> exit_env \<Rightarrow> nat \<Rightarrow> bool \<Rightarrow> process_event \<Rightarrow> int option \<Rightarrow> procst \<Rightarrow>
   (thread_error + (int option \<times> procst)) option" where
  "linked_exec md ee self is_exec ev real s =
     map_option (\<lambda>r. rbind r (\<lambda>s1.
       let s2 = proc_emit ev s1 in
       Inr (real, if real \<noteq> None \<and> is_exec then proc_emit ExecWarning s2 else s2)))
     (if is_exec
      then map_option (\<lambda>r. rbind r (\<lambda>s1. Inr (monitor_end_library_fcn s1)))
             (linked_end_process md ee self MONITOR_EXIT_EXEC s)
      else Some (Inr s))"

text \<open>The default action of signal.c's handler: it ends the process, unless the signal is one that
  is ignored or stops it.  The result says whether the signal was raised again.\<close>

definition linked_default_action ::
  "thread_module \<Rightarrow> bool \<Rightarrow> sigsys \<Rightarrow> exit_env \<Rightarrow> nat \<Rightarrow> nat \<Rightarrow> procst \<Rightarrow>
   (thread_error + (bool \<times> procst)) option" where
  "linked_default_action md dyn ssys ee self sig s =
    (if mse_noterm (mse sig (sgn s)) then Some (Inr (False, s))
     else if mse_stop (mse sig (sgn s)) then Some (Inr (False, s\<lparr>sgn := sig_emit (Raise SIGSTOP) (sgn s)\<rparr>))
     else map_option (\<lambda>r. rbind r (\<lambda>s1.
            let s2 = (if dyn then monitor_end_library_fcn s1 else s1);
                action = \<lparr>sa_handler = SIG_DFL, sa_flags = 0, sa_mask = {}\<rparr>;
                g = snd (real_sigprocmask SIG_SETMASK (Some {}) (snd (real_sigaction ssys sig (Some action) (sgn s2))))
            in if mse_noraise (mse sig g) then Inr (False, s2\<lparr>sgn := g\<rparr>)
               else Inr (True, s2\<lparr>sgn := sig_emit (Raise sig) g\<rparr>)))
          (linked_end_process md ee self MONITOR_EXIT_SIGNAL s))"

section \<open>The application\<close>

text \<open>An application that creates no threads is a program of the calls into libmonitor that it
  makes, and goes on with their answers: it asks the support functions, sets signals,
  forks, replaces itself, is hit by a signal it left at the default, exits, returns from main,
  or does none of these for ever.\<close>

datatype query = IsThreaded | ThreadNum | UserData | StackBottom | AddrThreadStart

datatype prog =
    Return int
  | CallExit int
  | CallUExit int
  | Hang
  | Ask query "int \<Rightarrow> prog"
  | CallSigaction int "sigact option" "int \<times> sigact option \<Rightarrow> prog"
  | CallSigprocmask sighow "sigset option" "sigset \<Rightarrow> prog"
  | RealSigprocmask sighow "sigset option" "sigset \<Rightarrow> prog"
  | CallFork int "int \<Rightarrow> prog"
  | CallRealFork int "int \<Rightarrow> prog"
  | CallExec bool process_event "int option" prog
  | Signalled nat prog

text \<open>How it ends.\<close>

datatype prog_end = Returned int | Exited int | UExited int | Replaced | Killed nat

definition ask :: "thread_module \<Rightarrow> nat \<Rightarrow> query \<Rightarrow> procst \<Rightarrow> int" where
  "ask md self q s =
    (case q of
       IsThreaded \<Rightarrow> md_is_threaded md s
     | ThreadNum \<Rightarrow> md_get_thread_num md self s
     | UserData \<Rightarrow> int (md_get_user_data md self s)
     | StackBottom \<Rightarrow> int (md_stack_bottom md self s)
     | AddrThreadStart \<Rightarrow> int (md_get_addr_thread_start md self s))"

definition run_then :: "('e + 'a) option \<Rightarrow> ('a \<Rightarrow> ('e + 'b) option) \<Rightarrow> ('e + 'b) option" where
  "run_then r f = (case r of None \<Rightarrow> None | Some (Inl e) \<Rightarrow> Some (Inl e) | Some (Inr x) \<Rightarrow> f x)"

definition on_sgn :: "(sigst \<Rightarrow> 'a \<times> sigst) \<Rightarrow> procst \<Rightarrow> 'a \<times> procst" where
  "on_sgn f s = (let (x, g) = f (sgn s) in (x, s\<lparr>sgn := g\<rparr>))"

primrec run_prog ::
  "thread_module \<Rightarrow> bool \<Rightarrow> client \<Rightarrow> sigsys \<Rightarrow> exit_env \<Rightarrow> nat \<Rightarrow> prog \<Rightarrow> procst \<Rightarrow>
   (thread_error + (prog_end \<times> procst)) option" where
  "run_prog md dyn cl ssys ee self (Return n) s = Some (Inr (Returned n, s))"
| "run_prog md dyn cl ssys ee self (CallExit n) s =
     run_then (linked_exit md ssys ee self n s) (\<lambda>s1. Some (Inr (Exited n, s1)))"
| "run_prog md dyn cl ssys ee self (CallUExit n) s =
     run_then (linked_u_exit md dyn ssys ee self n s) (\<lambda>s1. Some (Inr (UExited n, s1)))"
| "run_prog md dyn cl ssys ee self Hang s = None"
| "run_prog md dyn cl ssys ee self (Ask q k) s = run_prog md dyn cl ssys ee self (k (ask md self q s)) s"
| "run_prog md dyn cl ssys ee self (CallSigaction sig act k) s =
     (let (x, s1) = on_sgn (Signal.sigaction ssys sig act) s in run_prog md dyn cl ssys ee self (k x) s1)"
| "run_prog md dyn cl ssys ee self (CallSigprocmask how m k) s =
     (let (x, s1) = on_sgn (Signal.sigprocmask ssys how m) s in run_prog md dyn cl ssys ee self (k x) s1)"
| "run_prog md dyn cl ssys ee self (RealSigprocmask how m k) s =
     (let (x, s1) = monitor_real_sigprocmask ssys how m s in run_prog md dyn cl ssys ee self (k x) s1)"
| "run_prog md dyn cl ssys ee self (CallFork ret k) s =
     (let (x, s1) = linked_fork md cl ssys self ret s in run_prog md dyn cl ssys ee self (k x) s1)"
| "run_prog md dyn cl ssys ee self (CallRealFork ret k) s =
     (let (x, s1) = linked_real_fork md ret self s in run_prog md dyn cl ssys ee self (k x) s1)"
| "run_prog md dyn cl ssys ee self (CallExec is_exec ev real p) s =
     run_then (linked_exec md ee self is_exec ev real (upd_thr monitor_early_init s))
       (\<lambda>(x, s1). if x = None then Some (Inr (Replaced, s1)) else run_prog md dyn cl ssys ee self p s1)"
| "run_prog md dyn cl ssys ee self (Signalled sig p) s =
     run_then (linked_default_action md dyn ssys ee self sig s)
       (\<lambda>(x, s1). if x then Some (Inr (Killed sig, s1)) else run_prog md dyn cl ssys ee self p s1)"

section \<open>The faux main\<close>

text \<open>The call of main and what follows it.\<close>

definition linked_call_main ::
  "thread_module \<Rightarrow> bool \<Rightarrow> client \<Rightarrow> sigsys \<Rightarrow> exit_env \<Rightarrow> nat \<Rightarrow> prog \<Rightarrow> procst \<Rightarrow>
   (thread_error + (prog_end \<times> procst)) option" where
  "linked_call_main md dyn cl ssys ee self real_main s =
    run_then (run_prog md dyn cl ssys ee self real_main (proc_emit RealMain s)) (\<lambda>(out, s1).
      case out of
        Returned ret \<Rightarrow> map_option (\<lambda>r. rbind r (\<lambda>s2. Inr (Returned ret, s2)))
            (linked_end_process md ee self MONITOR_EXIT_NORMAL s1)
      | _ \<Rightarrow> Some (Inr (out, s1)))"

text \<open>wrapm is monitor_wrap_main in the static case, a program too: it may exit by itself or
  return, and then main is called.  In the dynamic case, None, it is not called.\<close>

definition linked_main ::
  "thread_module \<Rightarrow> client \<Rightarrow> sigsys \<Rightarrow> exit_env \<Rightarrow> nat \<Rightarrow> main_args \<Rightarrow> cptr \<Rightarrow>
   prog option \<Rightarrow> prog \<Rightarrow> procst \<Rightarrow> (thread_error + (prog_end \<times> procst)) option" where
  "linked_main md cl ssys ee self args bottom wrapm real_main s =
    (let s1 = (monitor_normal_init ssys s)\<lparr>main_args := args\<rparr>;
         s2 = upd_thr (upd_node MainTn (\<lambda>e. e\<lparr>tn_stack_bottom := bottom\<rparr>)) s1;
         s3 = linked_begin_process md cl ssys self NULL False (s2\<lparr>main_has_reached_main := True\<rparr>)
     in case wrapm of
          None \<Rightarrow> linked_call_main md True cl ssys ee self real_main s3
        | Some w \<Rightarrow> run_then (run_prog md False cl ssys ee self w (proc_emit WrapMain s3)) (\<lambda>(out, s4).
            case out of
              Returned ret \<Rightarrow> linked_call_main md False cl ssys ee self real_main s4
            | _ \<Rightarrow> Some (Inr (out, s4))))"

text \<open>The static entry, from which the system calls the faux main.\<close>

definition wrap_main_entry ::
  "thread_module \<Rightarrow> client \<Rightarrow> sigsys \<Rightarrow> exit_env \<Rightarrow> nat \<Rightarrow> main_args \<Rightarrow> cptr \<Rightarrow>
   prog \<Rightarrow> prog \<Rightarrow> procst \<Rightarrow> (thread_error + (prog_end \<times> procst)) option" where
  "wrap_main_entry md cl ssys ee self args bottom wrapm real_main s =
     linked_main md cl ssys ee self args bottom (Some wrapm) real_main (monitor_normal_init ssys s)"

section \<open>With pthread.c these are the functions of Process\<close>

lemma rbind_rbind: "rbind (rbind r f) g = rbind r (\<lambda>x. rbind (f x) g)"
  by (cases r) simp_all

lemma linked_begin_pthread:
  "linked_begin_process pthread_module = monitor_begin_process_fcn"
  by (intro ext) (simp add: linked_begin_process_def monitor_begin_process_fcn_def pthread_module_def Let_def)

lemma end_shootdown_linked:
  "end_shootdown ee self s =
   map_option (\<lambda>r. rbind r (\<lambda>v. Inr (proc_emit ShootdownDone v))) (pthread_shootdown ee self s)"
  by (simp add: end_shootdown_def pthread_shootdown_def option.map_comp comp_def rbind_rbind
      split: prod.splits)

lemma linked_end_pthread:
  "linked_end_process pthread_module = monitor_end_process_fcn"
  by (intro ext)
    (simp add: linked_end_process_def monitor_end_process_fcn_def end_race_def pthread_module_def
      end_shootdown_linked end_begin_exit_def end_fini_process_def end_resume_def Let_def
      compare_and_swap_def option.map_comp comp_def rbind_rbind split: option.splits)

lemma linked_exits_pthread:
  "linked_exit pthread_module = exit_override"
  "linked_u_exit pthread_module True = u_exit_override"
  "linked_u_exit pthread_module True = U_Exit_override"
  by (intro ext, simp add: linked_exit_def exit_override_def linked_u_exit_def u_exit_override_def
      U_Exit_override_def linked_end_pthread)+

lemma linked_fork_pthread:
  "linked_fork pthread_module = monitor_fork"
  "linked_real_fork pthread_module = monitor_real_fork"
  "linked_exec pthread_module = exec_tail"
proof -
  show "linked_fork pthread_module = monitor_fork"
    by (intro ext) (simp add: linked_fork_def monitor_fork_def linked_begin_pthread Let_def)
  show "linked_real_fork pthread_module = monitor_real_fork"
    by (intro ext) (simp add: linked_real_fork_def monitor_real_fork_def pthread_module_def Let_def)
  show "linked_exec pthread_module = exec_tail"
    by (intro ext) (simp add: linked_exec_def exec_tail_def linked_end_pthread)
qed

lemma run_then_simps [simp]:
  "run_then None f = None" "run_then (Some (Inl e)) f = Some (Inl e)" "run_then (Some (Inr x)) f = f x"
  by (simp_all add: run_then_def)

text \<open>The faux main of Process, over a main that returns or does not end.\<close>

definition returns_of :: "(thread_error + (prog_end \<times> procst)) option \<Rightarrow> (int \<times> procst) option" where
  "returns_of r = (case r of Some (Inr (Returned ret, s)) \<Rightarrow> Some (ret, s) | _ \<Rightarrow> None)"

lemma linked_main_pthread:
  "libc_start_main cl ssys ee self args bottom
      (\<lambda>u. returns_of (run_prog pthread_module True cl ssys ee self p u)) s = Some r \<Longrightarrow>
   linked_main pthread_module cl ssys ee self args bottom None p s = Some (map_sum id (map_prod Returned id) r)"
  by (auto simp: libc_start_main_def monitor_main_def main_enter_def linked_main_def linked_call_main_def linked_begin_pthread
      linked_end_pthread returns_of_def Let_def split: option.splits sum.splits prog_end.splits)
    (case_tac z; simp)

section \<open>A program that creates no threads\<close>

text \<open>The main thread's node is as the loader or monitor_early_init left it where it matters.\<close>

definition threadless :: "procst \<Rightarrow> bool" where
  "threadless s \<longleftrightarrow> \<not> monitor_has_used_threads (thr s) \<and> tn_tid (nodes (thr s) MainTn) = 0 \<and>
     tn_start_routine (nodes (thr s) MainTn) = NULL"

text \<open>monitor_thread_release leaves one mark, in a variable only pthread.c reads.\<close>

definition released :: "procst \<Rightarrow> procst" where
  "released s = upd_thr (\<lambda>t. t\<lparr>thr_has_reached_main := True\<rparr>) s"

lemma released_frame [simp]:
  "monitor_has_used_threads (thr (released s)) = monitor_has_used_threads (thr s)"
  "monitor_end_process_cookie (released s) = monitor_end_process_cookie s"
  "monitor_fini_process_done (released s) = monitor_fini_process_done s"
  "main_has_reached_main (released s) = main_has_reached_main s"
  "nodes (thr (released s)) = nodes (thr s)"
  "sgn (released s) = sgn s"
  "main_data (released s) = main_data s"
  "proc_trace (released s) = proc_trace s"
  by (simp_all add: released_def main_data_def)





subsection \<open>What keeps it threadless\<close>

lemma threadless_frame [simp]:
  "threadless (proc_emit e s) = threadless s"
  "threadless (released s) = threadless s"
  "threadless (s\<lparr>sgn := g\<rparr>) = threadless s"
  "threadless (s\<lparr>monitor_end_process_cookie := c\<rparr>) = threadless s"
  "threadless (s\<lparr>monitor_fini_process_done := d\<rparr>) = threadless s"
  "threadless (s\<lparr>monitor_fini_library_called := b\<rparr>) = threadless s"
  "threadless (s\<lparr>main_args := a\<rparr>) = threadless s"
  "threadless (s\<lparr>main_has_reached_main := m\<rparr>) = threadless s"
  "threadless (monitor_end_library_fcn s) = threadless s"
  "threadless (set_main_data v s) = threadless s"
  by (simp_all add: threadless_def monitor_end_library_fcn_def set_main_data_def upd_thr_def upd_node_def)











subsection \<open>The two links\<close>















section \<open>Where the links differ\<close>

text \<open>The client's access to the real pthread_sigmask is the one support function that fails
  without pthread.c, although the process may well block signals: the weak one blocks nothing
  and answers FAILURE, that of pthread.c sets the mask.\<close>

lemma weak_sigmask_fails:
  assumes "sig \<notin> proc_mask (sgn s)"
  shows "weak_real_pthread_sigmask SIG_BLOCK (Some {sig}) s = (FAILURE, s) \<and>
    sig \<in> proc_mask (snd (monitor_real_pthread_sigmask SIG_BLOCK (Some {sig}) (sgn s))) \<and>
    sig \<notin> proc_mask (sgn (snd (weak_real_pthread_sigmask SIG_BLOCK (Some {sig}) s)))"
  using assms by (simp add: weak_real_pthread_sigmask_def monitor_real_pthread_sigmask_def real_sigprocmask_def)

section \<open>Properties\<close>






end
