(* ===== verification/DriverUsage.thy ===== *)
theory DriverUsage
  imports Driver EventInfo
begin

text \<open>
  main.c of papiex: the text of the option -h, and the functions of the file that name the
  domains and the granularities of PAPI, which papiex.c has too.  What the options -i, -l, -L
  and -V print is in EventInfo, what the options do in Driver.
\<close>

section \<open>The usage text\<close>

abbreviation NL :: string where "NL \<equiv> [NEWLINE]"
abbreviation TB :: string where "TB \<equiv> [TAB]"

definition PAPIEX_SHARED_LIBS :: string where
  "PAPIEX_SHARED_LIBS = ''libpapiex.so libmonitor.so libpapi.so''"

definition print_common_opts :: string where
  "print_common_opts =
     '' -d'' @ TB @ TB @ ''Enable debugging output, use repeatedly for more output.'' @ NL @
     '' -h'' @ TB @ TB @ ''Print this message.'' @ NL @
     '' -i'' @ TB @ TB @ ''Print information about the host machine.'' @ NL @
     '' -s'' @ TB @ TB @ ''Dump the shell environment variables and exit.'' @ NL @
     '' -V'' @ TB @ TB @ ''Print version information.'' @ NL"

definition print_common_output_opts :: "string \<Rightarrow> string" where
  "print_common_output_opts tool_name =
     '' -q'' @ TB @ TB @ ''Quiet mode; Suitable for parsing with other tools.'' @ NL @
     '' -n'' @ TB @ TB @ ''Do not write to files, write to stderr. Opposite of -w'' @ NL @
     TB @ TB @ ''This is ignored unless --classic is used.'' @ NL @
     '' -w'' @ TB @ TB @ ''Do not write to stderr, write to files. Opposite of -n'' @ NL @
     TB @ TB @ ''This is ignored unless --classic is used.'' @ NL @
     '' -f <dir>'' @ TB @ ''Send output to <dir>/<cmd>.'' @ tool_name @ ''.<host>.<pid>.<generation>'' @ NL @
     '' -p <prefix>'' @ TB @ ''Send output to <prefix><cmd>.'' @ tool_name @ ''.<host>.<pid>.<generation>.'' @ NL @
     '' -o <file>'' @ TB @ ''Send output to <file>.  If <file> exists, a suffix will'' @ NL @
     TB @ TB @ ''be appended, and the old file will not be overwritten.'' @ NL @
     TB @ TB @ ''It is recommended that -o is NOT used for runs where multiple'' @ NL @
     TB @ TB @ ''files are created (use -f instead in such situations).'' @ NL @
     NL @ TB @ TB @ ''*** The options -n, -p, -f and -o are mutually exclusive. ***'' @ NL @ NL"

definition print_common_papi_opts :: string where
  "print_common_papi_opts =
     '' -e event'' @ TB @ ''Monitor this event. May be repeated.'' @ NL @
     '' -l'' @ TB @ TB @ ''Print a terse listing of all the available events to count.'' @ NL @
     '' -L event'' @ TB @ ''Print a full description of this event.'' @ NL @
     '' -m<interval>'' @ TB @ ''Enable counter multiplexing. Silently ignored if unavailable.'' @ NL @
     TB @ TB @ ''The 'interval' is in Hz, and is optional (defaults to 10).'' @ NL @
     '' -U'' @ TB @ TB @ ''Monitor user mode events (default).'' @ NL @
     '' -K'' @ TB @ TB @ ''Monitor kernel mode events'' @ NL @
     '' -I'' @ TB @ TB @ ''Monitor transient (interrupt) mode events.'' @ NL @
     '' -S'' @ TB @ TB @ ''Monitor supervisor mode events.'' @ NL @
     '' --test'' @ TB @ ''Test events for availability and compatibility and exit.'' @ NL @
     '' --skip-unavailable-events Skip events that are unavailable.'' @ NL"

definition print_common_instr_opts :: "build \<Rightarrow> string" where
  "print_common_instr_opts b =
     (if have_binutils b then '' -G --gnu'' @ TB @ ''Enable GNU compiler instrumentation.'' @ NL @
     '' -Q --pathscale[=loop,func,all]'' @ TB @ ''Enable Pathscale compiler instrumentation.'' @ NL else [])"

text \<open>The address for bug reports, when the build has one.\<close>

definition print_copyright :: "string option \<Rightarrow> string" where
  "print_copyright mail =
     NL @
     ''This is OPEN SOURCE SOFTWARE written by Philip J. Mucci and Tushar Mohan.'' @ NL @
     ''This software is covered by the MIT License (https://opensource.org/licenses/MIT)'' @ NL @
     (case mail of None \<Rightarrow> [] | Some bugs \<Rightarrow> NL @ ''Please send all bug reports to: '' @ bugs @ NL)"

definition usage_heading :: "build \<Rightarrow> string" where
  "usage_heading b =
     ''Usage:'' @ NL @
     ''papiex [-dhisVqnwlUKISEGQarx] [--classic] [-f output-dir] [-p prefix] [-o output-file]'' @ NL @
     ''       [-e papi_event] [--test] [-m<interval>] [-L papi_event].. '' @ NL @
     (if have_binutils b then ''       [--gnu] [--pathscale[=loop,func,all]'' @ NL else []) @
     (if profiling_support b then ''       [--no-io-prof] [--no-threadsync-prof] [--no-mpi-prof]'' @ NL else []) @
     ''       [--no-mpi-gather] [--no-summary] [--no-derived] [--no-scientific] [--no-ld-path]'' @ NL @
     ''       [--no-compat-check] [--spec=spec-file] [--csv]'' @ NL @
     ''       -- <cmd> <cmd options>'' @ NL @ NL"

definition usage_more :: "build \<Rightarrow> string" where
  "usage_more b =
     '' --csv'' @ TB @ TB @ ''Print machine-readable CSV output.'' @ NL @
     TB @ TB @ ''This option will silently ignore --classic.'' @ NL @
     '' -a'' @ TB @ TB @ ''Monitor 'useful' events automatically (-m and -x are implicit).'' @ NL @
     '' -r'' @ TB @ TB @ ''Report getrusage() information.'' @ NL @
     '' -x'' @ TB @ TB @ ''Report memory usage information.'' @ NL @
     '' --classic'' @ TB @ ''Force papiex to run in the old classic mode.'' @ NL @
     (if profiling_support b then '' --no-io-prof'' @ TB @ ''Disable I/O call profiling.'' @ NL @
     '' --no-threadsync-prof Disable thread barrier & mutex call profiling.'' @ NL @
     '' --no-mpi-prof'' @ TB @ ''Disable MPI call profiling.'' @ NL else []) @
     '' --no-mpi-gather Do not gather statistics across tasks using MPI.'' @ NL @
     TB @ TB @ ''This option is only meaningful with --classic.'' @ NL @
     '' --no-summary'' @ TB @ ''Do not generate any summary statistics (threads/MPI).'' @ NL @
     '' --no-derived'' @ TB @ ''Do not generate any derived statistics.'' @ NL @
     '' --no-scientific Do not print output numbers in scientific notation.'' @ NL @
     '' --no-ld-path'' @ TB @ ''Do not modify the LD_LIBRARY_PATH variable at all.'' @ NL @
     '' --no-compat-check Do not test events for compatibility'' @ NL @
     TB @ TB @ ''You should use this option with caution, as PAPI calls'' @ NL @
     TB @ TB @ ''may not behave correctly with this option.'' @ NL @
     TB @ TB @ ''It is provided for debugging purposes.'' @ NL @
     '' -E,--spec=<spec-file> Use the user-supplied processor spec file.'' @ NL @
     NL @ ''The runtime loader MUST find '' @ PAPIEX_SHARED_LIBS @ ''.'' @ NL @
     ''Set LD_LIBRARY_PATH appropriately if necessary.'' @ NL"

text \<open>The case 'h' of parse_args, before the exit with status 0.\<close>

definition usage :: "build \<Rightarrow> string \<Rightarrow> string option \<Rightarrow> string" where
  "usage b tool_name mail =
     usage_heading b @ print_common_opts @ print_common_output_opts tool_name @ print_common_papi_opts @
     print_common_instr_opts b @ usage_more b @ print_copyright mail"

section \<open>The names of domains and granularities\<close>

definition drv_stringify_domain :: "papi_domain set \<Rightarrow> string" where
  "drv_stringify_domain d =
    (let s1 = (if DomUser \<in> d then ''User'' else []);
         s2 = (if DomKernel \<in> d then append_option s1 ''Kernel'' else s1);
         s3 = (if DomOther \<in> d then append_option s2 ''Other'' else s2)
     in if DomSupervisor \<in> d then append_option s3 ''Supervisor'' else s3)"

definition drv_stringify_all_domains :: "papi_domain set \<Rightarrow> string" where
  "drv_stringify_all_domains ds =
     join_bars (map (\<lambda>(d, name). drv_stringify_domain {d}) (filter (\<lambda>(d, name). d \<in> ds) domain_names)) [] 0"

fun drv_stringify_granularity :: "granularity \<Rightarrow> string" where
  "drv_stringify_granularity GrnThr = ''PAPI_GRN_THR''"
| "drv_stringify_granularity GrnProc = ''PAPI_GRN_PROC''"
| "drv_stringify_granularity GrnProcg = ''PAPI_GRN_PROCG''"
| "drv_stringify_granularity GrnSysCpu = ''PAPI_GRN_SYS_CPU''"
| "drv_stringify_granularity GrnSys = ''PAPI_GRN_SYS''"
| "drv_stringify_granularity (GrnUnknown i) = ''Unrecognized granularity!''"

definition drv_stringify_all_granularities :: "granularity list \<Rightarrow> string" where
  "drv_stringify_all_granularities gs = join_bars (map drv_stringify_granularity gs) [] 0"

text \<open>The copies agree with those of papiex.c.\<close>

lemma drv_names_agree:
  "drv_stringify_domain d = stringify_domain d"
  "drv_stringify_all_domains d = stringify_all_domains d"
  "drv_stringify_granularity g = stringify_granularity g"
  "drv_stringify_all_granularities gs = stringify_all_granularities gs"
proof -
  show *: "drv_stringify_domain d = stringify_domain d" for d
    by (simp add: drv_stringify_domain_def stringify_domain_def append_option_def cat_comma_def Let_def)
  show g: "drv_stringify_granularity g = stringify_granularity g" for g
    by (cases g) simp_all
  show "drv_stringify_all_domains d = stringify_all_domains d"
    by (simp add: drv_stringify_all_domains_def stringify_all_domains_def *)
  show "drv_stringify_all_granularities gs = stringify_all_granularities gs"
    by (simp add: drv_stringify_all_granularities_def stringify_all_granularities_def g [abs_def])
qed

end
