(* ===== verification/Measured.thy ===== *)
theory Measured
  imports Process PapiexLife
begin

text \<open>
  libmonitor and papiex together: the events of libmonitor's main.c at which it calls its client
  are the callbacks of papiex.c, and a program that creates no threads is followed from the
  entry of the process to its one report.
\<close>

section \<open>papiex as the client\<close>

text \<open>Of the callbacks whose result libmonitor uses papiex defines two; the others are the
  weak ones.\<close>

definition papiex_client :: client where
  "papiex_client = default_client\<lparr>cl_init_process := (\<lambda>data. data), cl_init_thread := (\<lambda>tid data. NULL)\<rparr>"

text \<open>What PAPI, the system and the file system answer papiex at the two ends of the process.\<close>

record answers =
  an_start :: papi_sys
  an_start_reading :: reading
  an_end :: papi_sys
  an_end_reading :: reading
  an_shutdown :: shutdown_env

text \<open>The callbacks of papiex at an event of libmonitor; what the application calls of papiex
  itself, it calls from its main.\<close>

fun papiex_sees :: "answers \<Rightarrow> nat \<Rightarrow> string list \<Rightarrow> callback list \<Rightarrow> process_event \<Rightarrow> callback list" where
  "papiex_sees an self argv appl (InitProcess d) =
     [CbInitProcess (an_start an) self (an_start_reading an) argv]"
| "papiex_sees an self argv appl RealMain = appl"
| "papiex_sees an self argv appl (FiniProcess how d) =
     [CbFiniProcess (an_end an) (an_shutdown an) self (an_end_reading an)]"
| "papiex_sees an self argv appl e = []"

definition papiex_calls ::
  "answers \<Rightarrow> nat \<Rightarrow> string list \<Rightarrow> callback list \<Rightarrow> process_event list \<Rightarrow> callback list" where
  "papiex_calls an self argv appl evs = concat (map (papiex_sees an self argv appl) evs)"

text \<open>A caliper call of the application, on a caliper of its own.\<close>

fun own_caliper :: "nat \<Rightarrow> callback \<Rightarrow> bool" where
  "own_caliper self (CbCaliper s op) = (s = self \<and> 0 < op_point op)"
| "own_caliper self cb = False"

section \<open>The pieces\<close>

lemma run_callbacks_append:
  "run_callbacks b (xs @ ys) gf = Some (Inr gf') \<longleftrightarrow>
   (\<exists>gf1. run_callbacks b xs gf = Some (Inr gf1) \<and> run_callbacks b ys gf1 = Some (Inr gf'))"
  by (induction xs arbitrary: gf) auto

lemma own_foreign: "own_caliper self cb \<Longrightarrow> foreign self cb"
  by (cases cb) auto

lemma appl_run:
  "run_callbacks b cbs (g, fs) = Some (Inr (g', fs')) \<Longrightarrow> list_all (own_caliper self) cbs \<Longrightarrow>
   all_threads g' = all_threads g \<and> rep_key g' = rep_key g"
proof (induction cbs arbitrary: g fs)
  case (Cons cb cbs)
  obtain op where cb: "cb = CbCaliper self op" using Cons.prems(2) by (cases cb) auto
  obtain g1 fs1 where s: "run_callback b cb (g, fs) = Some (Inr (g1, fs1))"
    "run_callbacks b cbs (g1, fs1) = Some (Inr (g', fs'))" using Cons.prems(1) by auto
  have "with_thread self (run_op g op) g = Inr g1" using s(1) cb by simp
  then show ?case using caliper_call(2,3) Cons.IH [OF s(2)] Cons.prems(2) by fastforce
qed simp

text \<open>The start of the process opens caliper 0 of its thread.\<close>

lemma init_process_opens:
  assumes "monitor_init_process sys b self r argv fs g = Inr (g', fs')" "rt_inv g" "does_read g' r"
  obtains i where "lives g' self i" "cal_depth (caliper0 g' i) = 1" "real_cyc (caliper0 g' i) = 0"
    "tmp_real_cyc (caliper0 g' i) = rd_real_cyc r"
    "\<forall>k<eventcnt g'. counters (caliper0 g' i) k = 0 \<and> tmp_counters (caliper0 g' i) k = rd_counters r k"
proof -
  let ?g = "papi_workarounds sys ((init_process_globals g)\<lparr>process_args := join_with (CHR '' '') (tl argv)\<rparr>)"
  obtain codes where ti: "papiex_thread_init_routine sys self r (set_gates b True (process_ready sys codes ?g)) = Inr g'"
    using assms(1)
    by (auto simp: monitor_init_process_def papiex_process_init_routine_def Let_def split: if_splits)
  have "rt_inv ?g = rt_inv g"
    by (simp add: papi_workarounds_def Let_def init_process_globals_def rt_inv_def)
  moreover have "rt_inv (process_ready sys codes ?g) = rt_inv ?g"
    by (simp add: process_ready_def rt_inv_def)
  ultimately have "rt_inv (set_gates b True (process_ready sys codes ?g))"
    using rt_key_inv [OF rt_key_gates(1)] assms(2) by blast
  from init_opens [OF ti this assms(3)] that show thesis by blast
qed

text \<open>The events are chosen by then, and the application's calls do not change them.\<close>

lemma init_process_events:
  assumes "monitor_init_process sys b self r argv fs g = Inr (g', fs')"
  shows "eventnames g' \<noteq> []"
proof -
  obtain h where ti: "papiex_thread_init_routine sys self r h = Inr g'"
    using assms
    by (auto simp: monitor_init_process_def papiex_process_init_routine_def Let_def split: if_splits)
  obtain g1 where g1: "papiex_start self r 0 (Some []) g1 = Inr g'"
    "guard_of g1 = guard_of (default_events sys h)"
    using thread_init_parts [OF ti] by metis
  have "eventnames g1 \<noteq> []" using g1(2) default_events_parts(9) [of sys h] by (simp add: guard_of_def)
  then show ?thesis
    using g1(1) by (auto simp: papiex_start_def with_thread_def eventcnt_def split: option.splits)
qed

lemma callbacks_guard:
  "run_callbacks b cbs (g, fs) = Some (Inr (g', fs')) \<Longrightarrow> rt_inv g \<Longrightarrow> eventnames g \<noteq> [] \<Longrightarrow>
   list_all (own_caliper self) cbs \<Longrightarrow> guard_of g' = guard_of g"
proof (induction cbs arbitrary: g fs)
  case (Cons cb cbs)
  obtain op where cb: "cb = CbCaliper self op" using Cons.prems(4) by (cases cb) auto
  obtain g1 fs1 where s: "run_callback b cb (g, fs) = Some (Inr (g1, fs1))"
    "run_callbacks b cbs (g1, fs1) = Some (Inr (g', fs'))" using Cons.prems(1) by auto
  have w: "with_thread self (run_op g op) g = Inr g1" using s(1) cb by simp
  note st = rt_stepD(1,2) [OF caliper_call(1) [OF w] Cons.prems(2)]
  have "eventnames g1 \<noteq> []" using st(2) Cons.prems(3) by (simp add: guard_of_def)
  then show ?case using Cons.IH [OF s(2) st(1)] st(2) Cons.prems(3,4) by simp
qed simp

text \<open>The end of the process closes it; what is written after that leaves it alone.\<close>

lemma fini_process_closes:
  assumes "monitor_fini_process sys b sd self r fs g = Some (Inr (g', fs'))" "\<not> called_process_shutdown g"
    and "lives g self i" "cal_depth (caliper0 g i) \<noteq> 0" "read_status g r"
  shows "thread_data g' self = Some i" "cal_depth (caliper0 g' i) = cal_depth (caliper0 g i) - 1"
    and "real_cyc (caliper0 g' i) = real_cyc (caliper0 g i) + (rd_real_cyc r - tmp_real_cyc (caliper0 g i))"
    and "\<forall>k<eventcnt g. counters (caliper0 g' i) k = counters (caliper0 g i) k +
           (rd_counters r k - tmp_counters (caliper0 g i) k)"
    and "guard_of g' = guard_of g"
proof -
  obtain g1 g2 fs1 g3 fs2 g4 where g1: "shutdown_begin sys b self r g = Inr g1"
    and g2: "shutdown_paths sd fs g1 = Some (Inr (g2, fs1))"
    and g3: "print_process_stats sd fs1 g2 = Inr (g3, fs2)"
    and g4: "run_report sd fs2 g3 = Some (Inr (g4, fs'))" and g': "g' = run_exec_cmd sd g4"
    using assms(1,2) by (auto simp: monitor_fini_process_def papiex_process_shutdown_routine_def)
  define h1 where "h1 = close_gates b (g\<lparr>called_process_shutdown := True\<rparr>)"
  define h2 where "h2 = (if proc_fini_time h1 = 0 then h1\<lparr>proc_fini_time := ps_now sys\<rparr> else h1)"
  have k: "rt_key h2 = rt_key (g\<lparr>called_process_shutdown := True\<rparr>)" by (simp add: h2_def h1_def)
  have fini: "papiex_thread_shutdown_routine sys self r h2 = Inr g1"
    using g1 unfolding shutdown_begin_def Let_def h1_def h2_def .
  have l2: "lives h2 self i" and c2: "caliper0 h2 i = caliper0 g i" and gd: "guard_of h2 = guard_of g"
    using rt_keyD [OF k] rt_key_inv [OF k] assms(3)
    by (auto simp: lives_def caliper0_def rt_inv_def guard_of_def)
  note close = fini_closes [OF fini l2, unfolded c2 guard_facts(1,4) [OF gd], OF assms(4,5)]
  have gd1: "guard_of g1 = guard_of g" and inv1: "rt_inv g1"
    using rt_stepD(1,2) [OF shutdown_begin_step(1) [OF g1]] assms(3) by (auto simp: lives_def)
  then have l1: "lives g1 self i" using close(1) assms(3) by (simp add: lives_def guard_of_def)
  have k4: "rt_key g' = rt_key g3" using run_report_key [OF g4] g' by simp
  have "rt_step (self + 1) g1 g3"
    by (rule rt_step_trans [OF rt_step_key [OF shutdown_paths_key [OF g2]] print_stats_step(1) [OF g3]])
  then have later: "rt_step (self + 1) g1 g'"
    by (rule rt_step_trans) (rule rt_step_key [OF k4])
  note last = other_thread_keeps [OF later _ l1]
  show "thread_data g' self = Some i" "cal_depth (caliper0 g' i) = cal_depth (caliper0 g i) - 1"
    "real_cyc (caliper0 g' i) = real_cyc (caliper0 g i) + (rd_real_cyc r - tmp_real_cyc (caliper0 g i))"
    "\<forall>k<eventcnt g. counters (caliper0 g' i) k = counters (caliper0 g i) k +
           (rd_counters r k - tmp_counters (caliper0 g i) k)" "guard_of g' = guard_of g"
    using last close gd1 by (simp_all add: lives_def)
qed

section \<open>A measured program\<close>

text \<open>C4: a program measured by papiex under libmonitor.  A program that creates no threads,
  run with papiex as the client, keeps its exit status; and when papiex is loaded and its
  callbacks, made at the events of libmonitor, come to their end, whatever caliper calls the
  program makes on calipers of its own, papiex has reported exactly once, on exactly one thread,
  and that thread's caliper 0 is the difference of the two readings taken as the process
  began and ended.\<close>
theorem measured_program:
  assumes "\<not> monitor_has_used_threads (thr s)" "monitor_end_process_cookie s = 0"
    and "real_main = (\<lambda>u. Some (ret, f u))" "\<And>u. thr (f u) = thr u"
    and "\<And>u. monitor_end_process_cookie (f u) = monitor_end_process_cookie u"
    and "\<And>u. proc_trace (f u) = proc_trace u"
    and "monitor_init_library env b (pglob_start b) = Inr g" "list_all (own_caliper self) appl"
    and "libc_start_main papiex_client ssys ee self args bottom real_main s = Some (Inr (status, s'))"
    and "run_callbacks b (papiex_calls an self (ma_argv args) appl (drop (length (proc_trace s)) (proc_trace s')))
      (g, fs) = Some (Inr (g', fs'))"
    and "real_reading g' (an_start_reading an)" "real_reading g' (an_end_reading an)"
  shows "status = ret \<and> reports g' = [ProcessStats [0]] \<and> thread_data g' self = Some 0 \<and>
    cal_depth (caliper0 g' 0) = 0 \<and>
    real_cyc (caliper0 g' 0) = rd_real_cyc (an_end_reading an) - rd_real_cyc (an_start_reading an) \<and>
    (\<forall>k<eventcnt g'. counters (caliper0 g' 0) k =
       rd_counters (an_end_reading an) k - rd_counters (an_start_reading an) k)"
proof -
  let ?r0 = "an_start_reading an" and ?r1 = "an_end_reading an"
  have tr: "status = ret \<and> proc_trace s' = proc_trace s @ [InitProcess NULL, RealMain,
      BeginProcessExit MONITOR_EXIT_NORMAL, ShootdownDone,
      FiniProcess MONITOR_EXIT_NORMAL (cl_init_process papiex_client NULL)]"
    using monitor_main_brackets_main [OF assms(1-6), of papiex_client ssys ee self args bottom] assms(9) by auto
  obtain g1 fs1 g2 fs2 where init: "monitor_init_process (an_start an) b self ?r0 (ma_argv args) fs g = Inr (g1, fs1)"
    and appl: "run_callbacks b appl (g1, fs1) = Some (Inr (g2, fs2))"
    and fini: "monitor_fini_process (an_end an) b (an_shutdown an) self ?r1 fs2 g2 = Some (Inr (g', fs'))"
    using assms(10) tr by (auto simp: papiex_calls_def run_callbacks_append)
  note lib = library_start [OF assms(7)] and i = init_process_step [OF init]
  have inv1: "rt_inv g1" and rep1: "rep_key g1 = (False, [])"
    using i lib by (simp_all add: rep_key_def)
  have all1: "all_threads g1 = [(ps_thread_num (an_start an), 0)]"
    using i(3) lib(1,3) by (simp add: rt_inv_def)
  note a = appl_run [OF appl assms(8)]
  have key2: "\<not> called_process_shutdown g2" "reports g2 = []" "map snd (all_threads g2) = [0]"
    using a rep1 all1 by (simp_all add: rep_key_def)
  have "length (map snd (all_threads g1)) = length [0..<length (thread_heap g1)]"
    using inv1 unfolding rt_inv_def by metis
  then have "length (thread_heap g1) = 1" by (simp add: all1)
  then have only: "lives g1 self j \<Longrightarrow> j = 0" for j using inv1 by (auto simp: lives_def rt_inv_def)
  have ev1: "eventnames g1 \<noteq> []"
    using init_process_events [OF init] .
  have guards: "guard_of g' = guard_of g1"
    using process_shutdown_step(1) [OF fini [unfolded monitor_fini_process_def]] callbacks_inv [OF appl inv1]
      callbacks_guard [OF appl inv1 ev1 assms(8)] ev1 by (auto simp: rt_step_def guard_of_def)
  then have rd: "real_reading g1 ?r0" "real_reading g1 ?r1" using assms(11,12) guard_facts(3) by metis+
  obtain j where j: "lives g1 self j" "cal_depth (caliper0 g1 j) = 1" "real_cyc (caliper0 g1 j) = 0"
    "tmp_real_cyc (caliper0 g1 j) = rd_real_cyc ?r0"
    "\<forall>k<eventcnt g1. counters (caliper0 g1 j) k = 0 \<and> tmp_counters (caliper0 g1 j) k = rd_counters ?r0 k"
    using init_process_opens [OF init lib(1)] rd(1) by (metis real_reading_def)
  have "list_all (foreign self) appl" using assms(8) own_foreign by (auto simp: list_all_iff)
  note k = foreign_run [OF appl this j(1)]
  have "read_status g2 ?r1" using rd(2) real_reading_status guard_facts(4) k by metis
  note c = fini_process_closes [OF fini key2(1) _ _ this, of j]
  have j0: "j = 0" using only j(1) by simp
  have "reports g' = [ProcessStats [0]]"
    using process_shutdown_step(2) [OF fini [unfolded monitor_fini_process_def]] key2 by (simp add: rep_key_def)
  then show ?thesis
    using tr c k j guard_facts(1) [of g2 g1] guard_facts(1) [OF guards] by (simp add: j0)
qed

definition sample_answers :: answers where
  "sample_answers = \<lparr>an_start = sample_sys, an_start_reading = sample_reading 5, an_end = sample_sys,
     an_end_reading = sample_reading 9, an_shutdown = sample_sd\<rparr>"

definition sample_process :: procst where
  "sample_process = procst_start thst_start (sigst_start (\<lambda>_. zero_sigact))"

definition sample_args :: main_args where
  "sample_args = \<lparr>ma_argc = 1, ma_argv = [''app''], ma_envp = []\<rparr>"

definition sample_exit :: exit_env where
  "sample_exit = \<lparr>ee_sigaction_ok = True, ee_start = 0, ee_rounds = []\<rparr>"

theorem measured_program_witness:
  "\<exists>s' g' fs'. libc_start_main papiex_client linux_sys sample_exit 7 sample_args 99 (\<lambda>u. Some (3, u)) sample_process =
      Some (Inr (3, s')) \<and>
    run_callbacks sample_build (papiex_calls sample_answers 7 [''app''] [] (proc_trace s'))
      (projr (monitor_init_library sample_env sample_build (pglob_start sample_build)), \<lambda>_. None) = Some (Inr (g', fs')) \<and>
    reports g' = [ProcessStats [0]] \<and> real_cyc (caliper0 g' 0) = 8"
proof -
  have start: "\<not> monitor_has_used_threads (thr sample_process)" "monitor_end_process_cookie sample_process = 0"
    "proc_trace sample_process = []"
    by (simp_all add: sample_process_def procst_start_def thst_start_def)
  obtain s' where s': "libc_start_main papiex_client linux_sys sample_exit 7 sample_args 99 (\<lambda>u. Some (3, u)) sample_process =
      Some (Inr (3, s'))"
    "proc_trace s' = [InitProcess NULL, RealMain, BeginProcessExit MONITOR_EXIT_NORMAL, ShootdownDone,
      FiniProcess MONITOR_EXIT_NORMAL (cl_init_process papiex_client NULL)]"
    using monitor_main_brackets_main [OF start(1,2), of "\<lambda>u. Some (3, u)" 3 "\<lambda>u. u" papiex_client linux_sys
        sample_exit 7 sample_args 99] start(3) by auto
  obtain g0 g1 fs1 g2 fs2 where g0: "monitor_init_library sample_env sample_build (pglob_start sample_build) = Inr g0"
    "monitor_init_process sample_sys sample_build 7 (sample_reading 5) [''app''] (\<lambda>_. None) g0 = Inr (g1, fs1)"
    "started (Inr (g1, fs1))" "rt_inv g1"
    and g2: "monitor_fini_process sample_sys sample_build sample_sd 7 (sample_reading 9) fs1 g1 = Some (Inr (g2, fs2))"
    by (rule sample_run)
  have calls: "papiex_calls sample_answers 7 [''app''] [] (proc_trace s') =
      [CbInitProcess sample_sys 7 (sample_reading 5) [''app''], CbFiniProcess sample_sys sample_sd 7 (sample_reading 9)]"
    by (simp add: s'(2) papiex_calls_def sample_answers_def)
  have run: "run_callbacks sample_build (papiex_calls sample_answers 7 [''app''] [] (proc_trace s')) (g0, \<lambda>_. None) =
      Some (Inr (g2, fs2))"
    unfolding calls by (rule run_two [where t = "(g1, fs1)"]) (simp_all only: run_callback.simps g0(2) g2)
  have "guard_of g2 = guard_of g1"
    using rt_stepD(2) [OF process_shutdown_step(1) [OF g2 [unfolded monitor_fini_process_def]] g0(4)
        init_process_events [OF g0(2)]] .
  then have "\<not> multiplex g2" using g0(3) by (simp add: guard_of_def)
  then have rd: "real_reading g2 (sample_reading n)" for n
    by (simp add: real_reading_def does_read_def sample_reading_def)
  have "reports g2 = [ProcessStats [0]] \<and> real_cyc (caliper0 g2 0) = 8"
    using measured_program [OF start(1,2) refl, of "\<lambda>u. u" sample_env sample_build g0 7 "[]" linux_sys sample_exit
        sample_args 99 3 3 s' sample_answers "\<lambda>_. None" g2 fs2] s'(1) run g0(1) rd start(3)
    by (simp add: sample_args_def sample_answers_def) (simp add: sample_reading_def)
  then show ?thesis using s'(1) run g0(1) by auto
qed

end
