(* ===== verification/ThreadOrder.thy ===== *)
theory ThreadOrder
  imports ThreadFacts
begin

text \<open>
  The order in which the client is called for threads, over all interleavings of pthread.c:
  thread support once and first, then for every thread number the start of the thread, its
  ends only after it, and one end unless a delivering routine of the thread was overtaken.
\<close>

section \<open>The events at which the client is called\<close>

fun is_support :: "thread_event \<Rightarrow> bool" where
  "is_support InitThreadSupport = True"
| "is_support e = False"

fun of_thread :: "int \<Rightarrow> thread_event \<Rightarrow> bool" where
  "of_thread t (InitThread t' d) = (t = t')"
| "of_thread t (FiniThread t' d) = (t = t')"
| "of_thread t e = False"

fun started_by :: "thread_event \<Rightarrow> int list" where
  "started_by (InitThread t d) = [t]"
| "started_by e = []"

definition thread_starts :: "thread_event list \<Rightarrow> int list" where
  "thread_starts es = concat (map started_by es)"

fun ended_by :: "thread_event \<Rightarrow> int list" where
  "ended_by (FiniThread t d) = [t]"
| "ended_by e = []"

definition thread_finis :: "thread_event list \<Rightarrow> int list" where
  "thread_finis es = concat (map ended_by es)"

lemma thread_starts_simps [simp]:
  "thread_starts [] = []" "thread_starts (e # es) = started_by e @ thread_starts es"
  "thread_starts (xs @ ys) = thread_starts xs @ thread_starts ys"
  by (simp_all add: thread_starts_def)

lemma thread_finis_simps [simp]:
  "thread_finis [] = []" "thread_finis (e # es) = ended_by e @ thread_finis es"
  "thread_finis (xs @ ys) = thread_finis xs @ thread_finis ys"
  by (simp_all add: thread_finis_def)

lemma started_iff: "t \<in> set (started_by e) \<longleftrightarrow> (\<exists>d. e = InitThread t d)"
  by (cases e) auto

lemma ended_iff: "t \<in> set (ended_by e) \<longleftrightarrow> (\<exists>d. e = FiniThread t d)"
  by (cases e) auto

lemma of_thread_iff: "of_thread t e \<longleftrightarrow> t \<in> set (started_by e) \<or> is_fini t e"
  by (cases e) auto

lemma is_fini_iff: "is_fini t e \<longleftrightarrow> t \<in> set (ended_by e)"
  by (cases e) auto

text \<open>What one thread number gets, and the part of it where it ends at most once.\<close>

inductive thread_runs :: "int \<Rightarrow> thread_event list \<Rightarrow> bool" for t where
  unborn: "thread_runs t []"
| born: "list_all (is_fini t) es \<Longrightarrow> thread_runs t (InitThread t d # es)"

inductive_simps thread_runs_Nil [simp]: "thread_runs t []"
inductive_simps thread_runs_Cons [simp]: "thread_runs t (e # es)"

inductive thread_life :: "int \<Rightarrow> thread_event list \<Rightarrow> bool" for t where
  none: "thread_life t []"
| running: "thread_life t [InitThread t d]"
| ended: "thread_life t [InitThread t d, FiniThread t d']"

inductive_simps thread_life_Nil [simp]: "thread_life t []"
inductive_simps thread_life_one [simp]: "thread_life t [e]"
inductive_simps thread_life_two [simp]: "thread_life t (e # e' # es)"
inductive_cases thread_lifeE: "thread_life t es"

lemma is_fini_event: "is_fini t e \<Longrightarrow> \<exists>d. e = FiniThread t d"
  by (cases e) auto

lemma thread_runs_life:
  assumes "thread_runs t es" "length (filter (is_fini t) es) \<le> 1"
  shows "thread_life t es"
  using assms(1)
proof cases
  case (born fs d)
  then have "filter (is_fini t) es = fs" by (simp add: list_all_iff)
  then have "length fs \<le> 1" using assms(2) by simp
  then show ?thesis using born is_fini_event by (cases fs) auto
qed simp

lemma thread_runs_unstarted: "thread_runs t es \<Longrightarrow> \<forall>d. InitThread t d \<notin> set es \<Longrightarrow> es = []"
  by (auto elim!: thread_runs.cases)

lemma thread_runs_more:
  "thread_runs t es \<Longrightarrow> es \<noteq> [] \<Longrightarrow> list_all (is_fini t) fs \<Longrightarrow> thread_runs t (es @ fs)"
  by (auto elim!: thread_runs.cases)

section \<open>Steps that start no thread\<close>

definition later :: "thst \<Rightarrow> thst \<Rightarrow> bool" where
  "later s s' \<longleftrightarrow> (\<exists>es. thr_trace s' = thr_trace s @ es \<and> thread_starts es = [] \<and>
       filter is_support es = (if monitor_thread_support_done s = monitor_thread_support_done s' then []
                               else [InitThreadSupport])) \<and>
     (monitor_thread_support_done s \<longrightarrow> monitor_thread_support_done s') \<and>
     monitor_thread_num s' = monitor_thread_num s"

lemma later_same:
  "thr_trace s' = thr_trace s \<Longrightarrow> monitor_thread_support_done s' = monitor_thread_support_done s \<Longrightarrow>
   monitor_thread_num s' = monitor_thread_num s \<Longrightarrow> later s s'"
  by (auto simp: later_def)

lemma later_trans:
  assumes "later s s1" "later s1 s'"
  shows "later s s'"
proof -
  obtain es es' where "thr_trace s1 = thr_trace s @ es" "thr_trace s' = thr_trace s1 @ es'"
    "thread_starts es = []" "thread_starts es' = []"
    "filter is_support es = (if monitor_thread_support_done s = monitor_thread_support_done s1 then [] else [InitThreadSupport])"
    "filter is_support es' = (if monitor_thread_support_done s1 = monitor_thread_support_done s' then [] else [InitThreadSupport])"
    using assms by (auto simp: later_def)
  then show ?thesis using assms unfolding later_def by (intro conjI exI [of _ "es @ es'"]) auto
qed

lemma later_emit: "started_by e = [] \<Longrightarrow> \<not> is_support e \<Longrightarrow> later s (thr_emit e s)"
  unfolding later_def by (intro conjI exI [of _ "[e]"]) simp_all

lemma later_emitI: "later s u \<Longrightarrow> started_by e = [] \<Longrightarrow> \<not> is_support e \<Longrightarrow> later s (thr_emit e u)"
  using later_trans later_emit by blast

lemma later_refl [simp]: "later s s"
  by (simp add: later_same)

lemma upd_node_done [simp]:
  "monitor_thread_support_done (upd_node n f s) = monitor_thread_support_done s"
  "monitor_thread_support_done (memset_node n s) = monitor_thread_support_done s"
  "monitor_thread_support_done (thr_emit e s) = monitor_thread_support_done s"
  by (simp_all add: upd_node_def memset_node_def thr_emit_def)

lemma later_upd [simp]: "later s (upd_node n f s)"
  by (rule later_same) simp_all

lemma later_fini_begin: "later s (fini_begin n s)"
proof -
  let ?s1 = "upd_node n (\<lambda>e. e\<lparr>tn_fini_started := True\<rparr>) s"
  have "later s ?s1" by simp
  also have "later ?s1 (thr_emit (FiniThread (tn_tid (nodes ?s1 n)) (tn_user_data (nodes ?s1 n))) ?s1)"
    by (rule later_emit) simp_all
  finally (later_trans) show ?thesis unfolding fini_begin_def Let_def .
qed

lemma later_fini_thread: "later s (fini_thread n s)"
  unfolding fini_thread_def fini_end_def by (rule later_trans [OF later_fini_begin later_upd])

lemma later_support: "\<not> monitor_thread_support_done s \<Longrightarrow> later s (monitor_call_thread_support s)"
  unfolding later_def monitor_call_thread_support_def
  by (intro conjI exI [of _ "[InitThreadSupport]"]) simp_all

lemma later_unlink: "monitor_unlink_thread_node n s = Inr s' \<Longrightarrow> later s s'"
  by (rule later_same) (auto simp: monitor_unlink_thread_node_def Let_def split: if_splits option.splits)

lemma later_create:
  assumes "create_prepare cl sys r a s = Inr (n, s')"
  shows "later s (thr_emit (RealPthreadCreate n r) s')"
proof -
  define s0 where "s0 = (if \<not> monitor_thread_support_done s \<and> thr_has_reached_main s
     then monitor_call_thread_support s else s)"
  have 0: "later s s0" using later_support [of s] by (simp add: s0_def)
  obtain s1 where s1: "monitor_make_thread_node sys s0 = Inr (n, s1)"
    and s': "s' = upd_node n (\<lambda>e. e\<lparr>tn_user_data := cl_thread_pre_create cl\<rparr>) (thr_emit (ThreadPreCreate r)
      (upd_node n (\<lambda>e. e\<lparr>tn_start_routine := r, tn_arg := a\<rparr>) s1))"
    using assms by (auto simp: create_prepare_def s0_def Let_def)
  have "later s0 s1"
    by (rule later_same)
      (use s1 in \<open>auto simp: monitor_make_thread_node_def take_node_def split: option.splits if_splits\<close>)
  moreover have "later s1 s'"
    unfolding s' using later_trans [OF later_upd later_trans [OF later_emit later_upd]] by simp
  ultimately have "later s s'" using 0 later_trans by blast
  then show ?thesis by (rule later_emitI) simp_all
qed

lemma later_scan_node: "later s (snd (scan_node self n (t, s)))"
  by (auto simp: scan_node_def Let_def intro!: later_emitI)

lemma later_scan:
  assumes "shootdown_scan self s = Some (t, s')"
  shows "later s s'"
proof -
  have "later s (snd (fold (scan_node self) ns (t, s)))" for ns t s
  proof (induction ns arbitrary: t s)
    case (Cons n ns)
    obtain t1 s1 where one: "scan_node self n (t, s) = (t1, s1)" by fastforce
    have "later s s1" using later_scan_node [of s self n t] one by simp
    then show ?case using later_trans [OF _ Cons.IH [of s1 t1]] one by simp
  qed (simp add: later_same)
  from this [of s] show ?thesis using assms by (auto simp: shootdown_scan_def) (metis snd_conv)
qed

lemma later_release: "later s (monitor_thread_release s)"
proof -
  let ?s1 = "if monitor_has_used_threads s then monitor_call_thread_support s else s"
  have "later s ?s1"
    using later_support [of s] later_emitI [OF later_refl, of ThreadSupportTwice s]
    by (cases "monitor_thread_support_done s") (simp_all add: monitor_call_thread_support_def)
  moreover have "later ?s1 (?s1\<lparr>thr_has_reached_main := True\<rparr>)" by (rule later_same) simp_all
  ultimately show ?thesis unfolding monitor_thread_release_def Let_def by (rule later_trans)
qed

lemma later_shoot:
  assumes "shootdown_begin sig ok s = Inr s'"
  shows "later s s'"
proof -
  have "later s ((thr_emit (CancelState False) s)\<lparr>monitor_in_exit_cleanup := True, thr_shootdown_signal := sig\<rparr>)"
    by (rule later_trans [OF later_emit later_same]) simp_all
  then show ?thesis
    using assms by (auto simp: shootdown_begin_def Let_def split: if_splits intro!: later_emitI)
qed

section \<open>The invariant\<close>

definition unstarted :: "thst \<Rightarrow> (nid \<times> stage) set \<Rightarrow> int \<Rightarrow> bool" where
  "unstarted s W t \<longleftrightarrow> (\<exists>n. (n, Linked) \<in> W \<and> tn_tid (nodes s n) = t)"

definition support_first :: "thst \<Rightarrow> bool" where
  "support_first s \<longleftrightarrow>
     (if monitor_thread_support_done s
      then \<exists>es. filter is_thread_callback (thr_trace s) = InitThreadSupport # es \<and> list_all (\<lambda>e. \<not> is_support e) es
      else filter is_thread_callback (thr_trace s) = [] \<and> monitor_thread_num s = 0)"

definition order_inv :: "thst \<Rightarrow> (nid \<times> stage) set \<Rightarrow> bool" where
  "order_inv s W \<longleftrightarrow> support_first s \<and>
     (\<forall>t. thread_runs t (filter (of_thread t) (thr_trace s)) \<and>
        (t \<in> set (thread_starts (thr_trace s)) \<longleftrightarrow> 1 \<le> t \<and> t \<le> monitor_thread_num s \<and> \<not> unstarted s W t))"

lemma thread_starts_iff: "t \<in> set (thread_starts es) \<longleftrightarrow> (\<exists>d. InitThread t d \<in> set es)"
  by (auto simp: thread_starts_def started_iff)

lemma thread_finis_iff: "t \<in> set (thread_finis es) \<longleftrightarrow> (\<exists>d. FiniThread t d \<in> set es)"
  by (auto simp: thread_finis_def ended_iff)

lemma filter_no_starts:
  "thread_starts es = [] \<Longrightarrow> filter (of_thread t) es = filter (is_fini t) es"
  by (rule filter_cong) (auto simp: of_thread_iff thread_starts_def)

lemma callbacks_no_starts:
  "thread_starts es = [] \<Longrightarrow> (\<And>t. filter (is_fini t) es = []) \<Longrightarrow>
   filter is_thread_callback es = filter is_support es"
proof (rule filter_cong)
  fix e assume "thread_starts es = []" "\<And>t. filter (is_fini t) es = []" "e \<in> set es"
  then show "is_thread_callback e = is_support e"
    by (cases e) (force simp: thread_starts_def filter_empty_conv)+
qed simp

lemma order_invD:
  assumes "order_inv s W"
  shows "support_first s" "thread_runs t (filter (of_thread t) (thr_trace s))"
    "t \<in> set (thread_starts (thr_trace s)) \<longleftrightarrow> 1 \<le> t \<and> t \<le> monitor_thread_num s \<and> \<not> unstarted s W t"
  using assms unfolding order_inv_def by blast+

text \<open>A thread that has its fini-thread is not one before its init-thread.\<close>

lemma fini_after_start:
  assumes "run_inv s P W H" "0 < fini_count t s"
  shows "1 \<le> t \<and> t \<le> monitor_thread_num s \<and> \<not> unstarted s W t"
proof -
  obtain Q where Q: "th_inv s Q P" "win_inv s (set (Q ThreadList)) W H" using assms(1) by (auto simp: run_inv_def)
  have f: "1 \<le> t" "t \<le> monitor_thread_num s"
    "\<And>n. n \<in> set (Q ThreadList) \<Longrightarrow> tn_tid (nodes s n) = t \<Longrightarrow> tn_fini_started (nodes s n)"
    using Q(1) assms(2) unfolding th_inv_def fini_inv_def by blast+
  have "\<not> unstarted s W t"
    using f(3) win_listed [OF Q(2)] Q(2) unfolding unstarted_def win_inv_def by metis
  then show ?thesis using f(1,2) by blast
qed

lemma order_inv_later:
  assumes ok: "run_inv s' P W' H" and inv: "order_inv s W" and l: "later s s'"
    and un: "\<And>t. unstarted s' W' t = unstarted s W t"
  shows "order_inv s' W'"
proof -
  obtain es where es: "thr_trace s' = thr_trace s @ es" "thread_starts es = []"
    "filter is_support es = (if monitor_thread_support_done s = monitor_thread_support_done s' then []
       else [InitThreadSupport])"
    using l by (auto simp: later_def)
  have num: "monitor_thread_num s' = monitor_thread_num s"
    and dn: "monitor_thread_support_done s \<Longrightarrow> monitor_thread_support_done s'"
    using l by (auto simp: later_def)
  have range: "1 \<le> t \<and> t \<le> monitor_thread_num s \<and> \<not> unstarted s W t" if "filter (is_fini t) es \<noteq> []" for t
    using fini_after_start [OF ok, of t] that num un by (simp add: fini_count_def es(1))
  have life: "thread_runs t (filter (of_thread t) (thr_trace s'))" for t
  proof (cases "filter (is_fini t) es = []")
    case True
    then show ?thesis using order_invD(2) [OF inv] by (simp add: es(1) filter_no_starts [OF es(2)])
  next
    case False
    then have "t \<in> set (thread_starts (thr_trace s))" using range order_invD(3) [OF inv] by blast
    then obtain d where "InitThread t d \<in> set (thr_trace s)" by (auto simp: thread_starts_iff)
    then have "filter (of_thread t) (thr_trace s) \<noteq> []" by (force simp: filter_empty_conv)
    then show ?thesis
      using thread_runs_more [OF order_invD(2) [OF inv]]
      by (simp add: es(1) filter_no_starts [OF es(2)] list_all_iff)
  qed
  have nofini: "filter (is_fini t) es = []" if "\<not> monitor_thread_support_done s" for t
    using that order_invD(1) [OF inv] range [of t] by (force simp: support_first_def)
  have "list_all (\<lambda>e. \<not> is_support e) (filter is_thread_callback es)" if "monitor_thread_support_done s"
    using es(3) that dn by (auto simp: list_all_iff filter_empty_conv)
  then have "support_first s'"
    using order_invD(1) [OF inv] num dn es callbacks_no_starts [OF es(2) nofini]
    by (cases "monitor_thread_support_done s") (auto simp: support_first_def)
  then show ?thesis using life order_invD(3) [OF inv] un num es by (simp add: order_inv_def)
qed

lemma later_run:
  assumes "th_run cl s' P W H" "order_inv s W0" "later s s'"
    and "\<And>n. (n, Linked) \<in> W \<longleftrightarrow> (n, Linked) \<in> W0"
    and "\<And>n. (n, Linked) \<in> W0 \<Longrightarrow> tn_tid (nodes s' n) = tn_tid (nodes s n)"
  shows "order_inv s' W"
proof (rule order_inv_later [OF run_inv_run [OF assms(1)] assms(2,3)])
  show "unstarted s' W t = unstarted s W0 t" for t using assms(4,5) unfolding unstarted_def by metis
qed

lemma order_inv_enter:
  assumes ok: "run_inv s P W H" and n: "n \<in> P" and inv: "order_inv s W"
    and e: "begin_enter sys self b n s = Some (Inr (ret, s'))"
  shows "order_inv s' (if ret = 0 then insert (n, Linked) W else W)"
proof -
  obtain u where u: "u = (upd_node n (\<lambda>e. e\<lparr>tn_self := self, tn_stack_bottom := b\<rparr>) s)
       \<lparr>specific := (specific s)(self := Some n)\<rparr>"
    and l: "monitor_link_thread_node n u = (ret, s')" and no: "ret \<noteq> 0 \<Longrightarrow> s' = u"
    and sup: "monitor_thread_support_done s"
    using e by (rule enter_cases) blast
  have fu: "thr_trace u = thr_trace s" "tn_tid (nodes u m) = tn_tid (nodes s m)"
    "monitor_thread_num u = monitor_thread_num s" "monitor_thread_support_done u" for m
    using sup by (simp_all add: u)
  show ?thesis
  proof (cases "ret = 0")
    case False
    then show ?thesis using no inv fu sup by (simp add: order_inv_def support_first_def unstarted_def)
  next
    case True
    let ?num = "monitor_thread_num s"
    obtain Q where Q: "th_inv s Q P" "win_inv s (set (Q ThreadList)) W H" using ok by (auto simp: run_inv_def)
    have out: "(n, k) \<notin> W" for k using pending_fresh [OF Q(1) n] win_listed [OF Q(2)] by blast
    have old: "tn_tid (nodes s m) \<le> ?num" if "(m, k) \<in> W" for m k
      using win_listed [OF Q(2) that] Q(1) by (auto simp: th_inv_def node_inv_def)
    have f: "thr_trace s' = thr_trace s" "monitor_thread_num s' = ?num + 1" "monitor_thread_support_done s'"
      "tn_tid (nodes s' m) = (if m = n then ?num + 1 else tn_tid (nodes s m))" for m
      using l True fu by (auto simp: monitor_link_thread_node_def Let_def split: if_splits)
    have un: "unstarted s' (insert (n, Linked) W) t \<longleftrightarrow> t = ?num + 1 \<or> unstarted s W t" for t
      unfolding unstarted_def f(4) using out by auto metis
    have "\<not> unstarted s W (?num + 1)" using old by (force simp: unstarted_def)
    moreover have "0 \<le> ?num" using Q(1) by (simp add: th_inv_def node_inv_def)
    ultimately have "1 \<le> t \<and> t \<le> ?num \<and> \<not> unstarted s W t \<longleftrightarrow>
        1 \<le> t \<and> t \<le> ?num + 1 \<and> \<not> unstarted s' (insert (n, Linked) W) t" for t
      using un [of t] by auto
    then show ?thesis using True inv f sup by (simp add: order_inv_def support_first_def)
  qed
qed

lemma order_inv_init:
  assumes ok: "run_inv s P W H" and n: "(n, Linked) \<in> W" and inv: "order_inv s W"
  shows "order_inv (begin_init cl n s) (insert (n, Inited) (W - {(n, Linked)}))"
proof -
  let ?t = "tn_tid (nodes s n)" and ?W = "insert (n, Inited) (W - {(n, Linked)})" and ?s = "begin_init cl n s"
  obtain Q where Q: "th_inv s Q P" "win_inv s (set (Q ThreadList)) W H" using ok by (auto simp: run_inv_def)
  note L = win_listed [OF Q(2)]
  have t: "1 \<le> ?t" "?t \<le> monitor_thread_num s" using Q(1) L [OF n] by (auto simp: th_inv_def node_inv_def)
  have uniq: "m = n" if "(m, k) \<in> W" "tn_tid (nodes s m) = ?t" for m k
    using Q(1) L [OF n] L [OF that(1)] that(2) unfolding th_inv_def node_inv_def by blast
  obtain d where f: "thr_trace ?s = thr_trace s @ [InitThread ?t d]" "monitor_thread_num ?s = monitor_thread_num s"
    "monitor_thread_support_done ?s = monitor_thread_support_done s" "\<And>m. tn_tid (nodes ?s m) = tn_tid (nodes s m)"
    by (simp add: begin_init_def Let_def)
  have un: "unstarted ?s ?W t \<longleftrightarrow> t \<noteq> ?t \<and> unstarted s W t" for t
    using uniq by (auto simp: unstarted_def f(4))
  have "unstarted s W ?t" using n by (auto simp: unstarted_def)
  then have "?t \<notin> set (thread_starts (thr_trace s))" using order_invD(3) [OF inv] by blast
  then have "\<forall>d. InitThread ?t d \<notin> set (filter (of_thread ?t) (thr_trace s))" by (simp add: thread_starts_iff)
  then have new: "filter (of_thread ?t) (thr_trace s) = []"
    using thread_runs_unstarted [OF order_invD(2) [OF inv]] by blast
  have "thread_runs t (filter (of_thread t) (thr_trace ?s))" for t
    using order_invD(2) [OF inv, of t] new by (cases "t = ?t") (simp_all add: f(1))
  moreover have "t' \<in> set (thread_starts (thr_trace ?s)) \<longleftrightarrow>
      1 \<le> t' \<and> t' \<le> monitor_thread_num ?s \<and> \<not> unstarted ?s ?W t'" for t'
    using order_invD(3) [OF inv, of t'] t un [of t'] by (auto simp: f)
  moreover have "monitor_thread_support_done s"
    using order_invD(1) [OF inv] t by (cases "monitor_thread_support_done s") (simp_all add: support_first_def)
  then have "support_first ?s" using order_invD(1) [OF inv] f by (auto simp: support_first_def)
  ultimately show ?thesis by (simp add: order_inv_def)
qed

lemma run_not_linked: "th_run cl s P W H \<Longrightarrow> (n, k) \<in> W \<Longrightarrow> k \<noteq> Linked \<Longrightarrow> (n, Linked) \<notin> W"
  using run_inv_run win_not_linked unfolding run_inv_def by blast

lemma order_inv_run: "th_run cl s P W H \<Longrightarrow> order_inv s W"
proof (induction rule: th_run.induct)
  case (first s0 sys self s)
  then show ?case
    using list_init_facts(2-4) [OF first(2)]
    by (simp add: order_inv_def support_first_def no_threads_yet_def unstarted_def)
next
  case (create s P W H sys r a n s')
  have "(m, Linked) \<in> W \<Longrightarrow> tn_tid (nodes (thr_emit (RealPthreadCreate n r) s') m) = tn_tid (nodes s m)" for m
    using create_keeps_nodes [OF run_inv_run [OF create(1)] create(2)] by simp
  then show ?case
    by (intro later_run [OF th_run.create [OF create(1,2)] create.IH later_create [OF create(2)]]) auto
next
  case (event s P W H e)
  have "later s (thr_emit e s)" by (rule later_emit) (use event(2) in \<open>cases e; simp\<close>)+
  then show ?case by (intro later_run [OF th_run.event [OF event(1,2)] event.IH]) auto
next
  case (enter s P W H n sys self b ret s')
  show ?case by (rule order_inv_enter [OF run_inv_run [OF enter(1)] enter(2) enter.IH enter(3)])
next
  case (init s P W H n)
  show ?case by (rule order_inv_init [OF run_inv_run [OF init(1)] init(2) init.IH])
next
  case (start s P W H n)
  have "later s (begin_start n s)"
    unfolding begin_start_def Let_def by (rule later_emitI [OF later_upd]) simp_all
  then show ?case
    by (intro later_run [OF th_run.start [OF start(1,2)] start.IH]) (auto simp: begin_start_def Let_def)
next
  case (test s P W H self n k)
  show ?case by (rule later_run [OF th_run.test [OF test(1-5)] test.IH later_refl]) auto
next
  case (late s P W H n k)
  show ?case by (rule later_run [OF th_run.late [OF late(1-3)] late.IH later_refl]) auto
next
  case (fini s P W H n k)
  show ?case by (rule later_run [OF th_run.fini [OF fini(1-3)] fini.IH later_fini_begin]) auto
next
  case (over s P W H n k)
  have "later s (fini_end n s)" by (simp add: fini_end_def)
  then show ?case by (rule later_run [OF th_run.over [OF over(1-3)] over.IH]) (auto simp: fini_end_def)
next
  case (unlink s P W H n self s')
  have l: "later s (s'\<lparr>specific := (specific s')(self := None)\<rparr>)"
    by (rule later_trans [OF later_unlink [OF unlink(5)] later_same]) simp_all
  have "(n, Linked) \<notin> W" using run_not_linked [OF unlink(1,2)] by simp
  moreover have "nodes s' m = nodes s m" if "m \<noteq> n" for m
    using unlink(5) that by (auto simp: monitor_unlink_thread_node_def Let_def split: if_splits option.splits)
  ultimately show ?case
    by (intro later_run [OF th_run.unlink [OF unlink(1-5)] unlink.IH l]) (auto, metis+)
next
  case (ends s P W H self n)
  have "(n, Linked) \<notin> W"
    using run_inv_run [OF ends(1)] ends(3) by (auto simp: run_inv_def win_inv_def)
  then show ?case
    by (intro later_run [OF th_run.ends [OF ends(1-4)] ends.IH later_same]) auto
next
  case (release s P W H)
  have "nodes (monitor_thread_release s) = nodes s"
    by (auto simp: monitor_thread_release_def monitor_call_thread_support_def Let_def)
  then show ?case by (intro later_run [OF th_run.release [OF release(1)] release.IH later_release]) auto
next
  case (shoot s P W H sig ok s')
  have "nodes s' = nodes s" using shoot(2) by (auto simp: shootdown_begin_def Let_def split: if_splits)
  then show ?case
    by (intro later_run [OF th_run.shoot [OF shoot(1,2)] shoot.IH later_shoot [OF shoot(2)]]) auto
next
  case (scan s P W H self t s')
  obtain ns where "fold (scan_node self) ns (zero_tally, s) = (t, s')"
    using scan(2) by (auto simp: shootdown_scan_def)
  then have "nodes s' = nodes s" using scan_fold by blast
  then show ?case
    by (intro later_run [OF th_run.scan [OF scan(1,2)] scan.IH later_scan [OF scan(2)]]) auto
next
  case (set_done s P W H)
  show ?case by (rule later_run [OF th_run.set_done [OF set_done(1)] set_done.IH later_same]) auto
next
  case (own s P W H ns n)
  show ?case
    by (rule later_run [OF th_run.own [OF own(1-6)] own.IH later_fini_thread]) (auto simp: fini_thread_defs)
next
  case (exit_win s P W H n)
  show ?case by (rule later_run [OF th_run.exit_win [OF exit_win(1)] exit_win.IH later_upd]) auto
next
  case (block s P W H self)
  then show ?case
    by (intro later_run [OF th_run.block [OF block(1)] block.IH])
      (auto simp: monitor_block_shootdown_def split: option.split)
next
  case (unblock s P W H self)
  then show ?case
    by (intro later_run [OF th_run.unblock [OF unblock(1)] unblock.IH])
      (auto simp: monitor_unblock_shootdown_def split: option.split)
next
  case (disable s P W H self)
  then show ?case
    by (intro later_run [OF th_run.disable [OF disable(1)] disable.IH])
      (auto simp: monitor_disable_new_threads_def split: option.split)
next
  case (enable s P W H self)
  then show ?case
    by (intro later_run [OF th_run.enable [OF enable(1)] enable.IH])
      (auto simp: monitor_enable_new_threads_def split: option.split)
qed

lemma run_thread_life:
  assumes "th_run cl s P W H" "t \<notin> H"
  shows "thread_life t (filter (of_thread t) (thr_trace s))"
proof (rule thread_runs_life [OF order_invD(2) [OF order_inv_run [OF assms(1)]]])
  have "filter (is_fini t) (filter (of_thread t) (thr_trace s)) = filter (is_fini t) (thr_trace s)"
    by (simp add: of_thread_iff conj_commute cong: filter_cong) (rule filter_cong; auto)
  then show "length (filter (is_fini t) (filter (of_thread t) (thr_trace s))) \<le> 1"
    using fini_thread_at_most_once [OF assms] by simp
qed

lemma order_reach:
  assumes "th_reach cl s P"
  shows "thread_life t (filter (of_thread t) (thr_trace s))" "support_first s"
  using run_thread_life [of cl s P "{}" "{}"] order_invD(1) [OF order_inv_run] assms unfolding th_reach_def by auto



end
