(* ===== verification/PapiexFollows.thy ===== *)
theory PapiexFollows
  imports Measured ThreadOrder
begin

text \<open>
  The callbacks papiex gets for the events of pthread.c, with the caliper calls of the threads
  in between, and what its thread structures show after any such sequence.
\<close>

section \<open>The callbacks of threads\<close>

text \<open>The thread a number stands for, and what PAPI answers at its start and its end.\<close>

record thread_answers =
  ta_self :: nat
  ta_begin_sys :: papi_sys
  ta_begin :: reading
  ta_end_sys :: papi_sys
  ta_end :: reading

fun thread_sees :: "papi_sys \<Rightarrow> (int \<Rightarrow> thread_answers) \<Rightarrow> thread_event \<Rightarrow> callback list" where
  "thread_sees sys ta InitThreadSupport = [CbInitThreadSupport sys]"
| "thread_sees sys ta (InitThread t d) = [CbInitThread (ta_begin_sys (ta t)) (ta_self (ta t)) (ta_begin (ta t))]"
| "thread_sees sys ta (FiniThread t d) = [CbFiniThread (ta_end_sys (ta t)) (ta_self (ta t)) (ta_end (ta t))]"
| "thread_sees sys ta e = []"

definition thread_calls :: "papi_sys \<Rightarrow> (int \<Rightarrow> thread_answers) \<Rightarrow> thread_event list \<Rightarrow> callback list" where
  "thread_calls sys ta es = concat (map (thread_sees sys ta) es)"

text \<open>A caliper call of any thread, on a caliper of its own.\<close>

fun own_point :: "callback \<Rightarrow> bool" where
  "own_point (CbCaliper s op) = (0 < op_point op)"
| "own_point cb = False"

text \<open>The system gives a thread an id no thread has that has not ended; an id may come back
  after its thread's end.\<close>

fun id_step :: "(int \<Rightarrow> nat) \<Rightarrow> thread_event \<Rightarrow> nat set \<Rightarrow> nat set" where
  "id_step who (InitThread t d) A = insert (who t) A"
| "id_step who (FiniThread t d) A = A - {who t}"
| "id_step who e A = A"

fun ids_apart :: "(int \<Rightarrow> nat) \<Rightarrow> nat set \<Rightarrow> thread_event list \<Rightarrow> bool" where
  "ids_apart who A [] = True"
| "ids_apart who A (e # es) = (list_all (\<lambda>t. who t \<notin> A) (started_by e) \<and> ids_apart who (id_step who e A) es)"

lemma ids_apart_snoc:
  "ids_apart who A (es @ [e]) \<longleftrightarrow> ids_apart who A es \<and> list_all (\<lambda>t. who t \<notin> fold (id_step who) es A) (started_by e)"
  by (induction es arbitrary: A) auto

lemma thread_calls_filter: "thread_calls sys ta (filter is_thread_callback es) = thread_calls sys ta es"
proof (induction es)
  case (Cons e es)
  then show ?case by (cases e) (simp_all add: thread_calls_def)
qed simp

lemma ids_apart_filter: "ids_apart who A (filter is_thread_callback es) = ids_apart who A es"
proof (induction es arbitrary: A)
  case (Cons e es)
  then show ?case by (cases e) simp_all
qed simp

lemma starts_filter: "thread_starts (filter is_thread_callback es) = thread_starts es"
proof (induction es)
  case (Cons e es)
  then show ?case by (cases e) simp_all
qed simp

lemma finis_filter: "thread_finis (filter is_thread_callback es) = thread_finis es"
proof (induction es)
  case (Cons e es)
  then show ?case by (cases e) simp_all
qed simp

lemma life_filter: "filter (of_thread t) (filter is_thread_callback es) = filter (of_thread t) es"
proof (induction es)
  case (Cons e es)
  then show ?case by (cases e) auto
qed simp

lemma thread_life_prefix: "thread_life t (xs @ ys) \<Longrightarrow> thread_life t xs"
  by (auto elim!: thread_lifeE simp: append_eq_Cons_conv intro: thread_life.intros)

section \<open>What a caliper 0 shows\<close>

definition counted :: "pglob \<Rightarrow> nat \<Rightarrow> reading \<Rightarrow> reading \<Rightarrow> bool" where
  "counted g i r0 r1 \<longleftrightarrow> cal_depth (caliper0 g i) = 0 \<and>
     real_cyc (caliper0 g i) = rd_real_cyc r1 - rd_real_cyc r0 \<and>
     (\<forall>k<eventcnt g. counters (caliper0 g i) k = rd_counters r1 k - rd_counters r0 k)"

definition counting :: "pglob \<Rightarrow> nat \<Rightarrow> reading \<Rightarrow> bool" where
  "counting g i r0 \<longleftrightarrow> cal_depth (caliper0 g i) = 1 \<and> real_cyc (caliper0 g i) = 0 \<and>
     tmp_real_cyc (caliper0 g i) = rd_real_cyc r0 \<and>
     (\<forall>k<eventcnt g. counters (caliper0 g i) k = 0 \<and> tmp_counters (caliper0 g i) k = rd_counters r0 k)"

lemma counts_frame:
  assumes "caliper0 g' i = caliper0 g i" "guard_of g' = guard_of g"
  shows "counted g' i r0 r1 = counted g i r0 r1" "counting g' i r0 = counting g i r0"
  using assms guard_facts(1) [OF assms(2)] by (simp_all add: counted_def counting_def)

section \<open>The steps\<close>

text \<open>What the state of the threads looks like from outside a callback.\<close>

definition same_threads :: "pglob \<Rightarrow> pglob \<Rightarrow> bool" where
  "same_threads g g' \<longleftrightarrow> rt_inv g' \<and> thread_data g' = thread_data g \<and>
     length (thread_heap g') = length (thread_heap g) \<and> guard_of g' = guard_of g \<and> rep_key g' = rep_key g"

lemma own_point_step:
  assumes "run_callback b cb (g, fs) = Some (Inr (g', fs'))" "own_point cb" "rt_inv g" "eventnames g \<noteq> []"
  shows "same_threads g g'" "caliper0 g' i = caliper0 g i"
proof -
  obtain s op where cb: "cb = CbCaliper s op" "0 < op_point op" using assms(2) by (cases cb) auto
  have w: "with_thread s (run_op g op) g = Inr g'" using assms(1) cb(1) by simp
  obtain j t where t: "thread_data g s = Some j" "run_op g op (thread_heap g ! j) = Inr t"
    and g': "g' = g\<lparr>thread_heap := (thread_heap g)[j := t]\<rparr>"
    using w assms(4) by (auto simp: with_thread_def eventcnt_def split: option.splits)
  have "j < length (thread_heap g)" using t(1) assms(3) by (auto simp: rt_inv_def)
  moreover have "pt_data t ! 0 = pt_data (thread_heap g ! j) ! 0"
    using cal_step_frame(3) [OF t(2), of 0] cb(2) by simp
  ultimately show "caliper0 g' i = caliper0 g i" by (cases "i = j") (simp_all add: g' caliper0_def)
  have "rt_inv g'" using caliper_call(1) [OF w] assms(3) by (simp add: rt_step_def)
  then show "same_threads g g'" by (simp add: same_threads_def g' guard_of_def)
qed

lemma support_step:
  assumes "monitor_init_thread_support sys g = Inr g'" "rt_inv g"
  shows "same_threads g g'" "caliper0 g' i = caliper0 g i"
proof -
  have "rt_key g' = rt_key g" using assms(1) by (auto simp: monitor_init_thread_support_def)
  then show "same_threads g g'" "caliper0 g' i = caliper0 g i"
    using rt_keyD [of g' g] rt_key_inv [of g' g] assms(2)
    by (simp_all add: same_threads_def caliper0_def guard_of_def rep_key_def)
qed

lemma thread_begin_step:
  assumes "monitor_init_thread sys self r g = Inr g'" "rt_inv g" "eventnames g \<noteq> []" "real_reading g r"
  shows "rt_inv g'" "guard_of g' = guard_of g" "rep_key g' = rep_key g"
    and "thread_data g' = (thread_data g)(self := Some (length (thread_heap g)))"
    and "length (thread_heap g') = length (thread_heap g) + 1"
    and "i < length (thread_heap g) \<Longrightarrow> caliper0 g' i = caliper0 g i"
    and "counting g' (length (thread_heap g)) r"
proof -
  note ti = assms(1) [unfolded monitor_init_thread_def]
  obtain g1 where g1: "papiex_start self r 0 (Some []) g1 = Inr g'"
    "thread_heap g1 = thread_heap g @ [new_thread sys]"
    "thread_data g1 = (thread_data g)(self := Some (length (thread_heap g)))"
    "guard_of g1 = guard_of (default_events sys g)"
    using thread_init_parts [OF ti] by metis
  have "eventnames g1 \<noteq> []" using g1(4) default_events_parts(9) [of sys g] by (simp add: guard_of_def)
  then obtain t where g': "g' = g1\<lparr>thread_heap := (thread_heap g1)[length (thread_heap g) := t]\<rparr>"
    using g1(1,2,3) by (auto simp: papiex_start_def with_thread_def eventcnt_def)
  show td: "thread_data g' = (thread_data g)(self := Some (length (thread_heap g)))"
    "length (thread_heap g') = length (thread_heap g) + 1" using g1(2,3) by (simp_all add: g')
  show "i < length (thread_heap g) \<Longrightarrow> caliper0 g' i = caliper0 g i"
    using g1(2) by (simp add: g' caliper0_def nth_append)
  show "rep_key g' = rep_key g" using thread_init_step(2) [OF ti] .
  show gd: "guard_of g' = guard_of g" and "rt_inv g'"
    using rt_stepD(1,2) [OF thread_init_step(1) [OF ti] assms(2)] assms(3) by simp_all
  have "does_read g' r" using assms(4) guard_facts(2) [OF gd] by (simp add: real_reading_def)
  then obtain i where "lives g' self i" "counting g' i r"
    using init_opens [OF ti assms(2)] unfolding counting_def by metis
  then show "counting g' (length (thread_heap g)) r" using td(1) by (simp add: lives_def)
qed

lemma thread_end_step:
  assumes "papiex_thread_shutdown_routine sys self r g = Inr g'" "lives g self i"
    and "counting g i r0" "real_reading g r"
  shows "same_threads g g'" "counted g' i r0 r" "j \<noteq> i \<Longrightarrow> caliper0 g' j = caliper0 g j"
proof -
  have td: "thread_data g self = Some i" and inv: "rt_inv g" and ev: "eventnames g \<noteq> []"
    using assms(2) by (simp_all add: lives_def)
  then obtain t where st: "papiex_stop self r 0 g = Inr (g\<lparr>thread_heap := (thread_heap g)[i := t]\<rparr>)"
    using assms(1)
    by (auto simp: papiex_thread_shutdown_routine_def papiex_stop_def with_thread_def eventcnt_def)
  define g2 where "g2 = stop_counters sys i (g\<lparr>thread_heap := (thread_heap g)[i := t]\<rparr>)"
  have k: "rt_key g2 = rt_key (g\<lparr>thread_heap := (thread_heap g)[i := t]\<rparr>)"
    by (simp add: g2_def stop_counters_def)
  have g': "g' = g2\<lparr>thread_heap := (thread_heap g2)[i := (thread_heap g2 ! i)\<lparr>pt_finish := ps_now sys\<rparr>]\<rparr>"
    using assms(1) st td by (simp add: papiex_thread_shutdown_routine_def Let_def g2_def)
  show "j \<noteq> i \<Longrightarrow> caliper0 g' j = caliper0 g j" using rt_keyD(3) [OF k] by (simp add: g' caliper0_def)
  have gd: "guard_of g' = guard_of g" and "rt_inv g'" and rep: "rep_key g' = rep_key g"
    using rt_stepD(1,2) [OF thread_fini_step(1) [OF assms(1)] inv] ev thread_fini_step(2) [OF assms(1)] by simp_all
  then show "same_threads g g'" using rt_keyD(3,4) [OF k] by (simp add: same_threads_def g')
  have "cal_depth (caliper0 g i) \<noteq> 0" using assms(3) by (simp add: counting_def)
  from fini_closes [OF assms(1,2) this conjunct1 [OF real_reading_status [OF assms(4)]]] assms(3)
  show "counted g' i r0 r" by (simp add: counted_def counting_def guard_facts(1) [OF gd])
qed

section \<open>papiex follows libmonitor\<close>

text \<open>The structure of the k-th thread to start has index k + 1, the main thread's is 0.\<close>

definition thread_shows :: "(int \<Rightarrow> thread_answers) \<Rightarrow> int list \<Rightarrow> pglob \<Rightarrow> nat \<Rightarrow> int \<Rightarrow> bool" where
  "thread_shows ta ended g i t \<longleftrightarrow>
     (if t \<in> set ended then counted g i (ta_begin (ta t)) (ta_end (ta t))
      else thread_data g (ta_self (ta t)) = Some i \<and> counting g i (ta_begin (ta t)))"

definition follows ::
  "(int \<Rightarrow> thread_answers) \<Rightarrow> nat \<Rightarrow> reading \<Rightarrow> thread_event list \<Rightarrow> pglob \<Rightarrow> pglob \<Rightarrow> bool" where
  "follows ta main r0 es g0 g \<longleftrightarrow> rt_inv g \<and> guard_of g = guard_of g0 \<and> rep_key g = rep_key g0 \<and>
     length (thread_heap g) = length (thread_starts es) + 1 \<and>
     thread_data g main = Some 0 \<and> counting g 0 r0 \<and>
     (\<forall>k < length (thread_starts es).
        thread_shows ta (thread_finis es) g (Suc k) (thread_starts es ! k)) \<and>
     insert main ((\<lambda>t. ta_self (ta t)) ` (set (thread_starts es) - set (thread_finis es)))
       \<subseteq> fold (id_step (\<lambda>t. ta_self (ta t))) es {main}"

lemma follows_same:
  assumes "follows ta main r0 es g0 g" "same_threads g g'" "\<And>i. caliper0 g' i = caliper0 g i"
    and "thread_starts es' = thread_starts es" "thread_finis es' = thread_finis es"
    and "fold (id_step (\<lambda>t. ta_self (ta t))) es' {main} = fold (id_step (\<lambda>t. ta_self (ta t))) es {main}"
  shows "follows ta main r0 es' g0 g'"
proof -
  have gd: "guard_of g' = guard_of g" using assms(2) by (simp add: same_threads_def)
  have "thread_shows ta ended g' i t = thread_shows ta ended g i t" for ended i t
    using assms(2) by (simp add: thread_shows_def counts_frame [OF assms(3) gd] same_threads_def)
  then show ?thesis
    using assms(1,2,4-6) by (simp add: follows_def same_threads_def counts_frame [OF assms(3) gd])
qed

lemma follows_begin:
  assumes "follows ta main r0 es g0 g" "monitor_init_thread (ta_begin_sys (ta t)) (ta_self (ta t)) (ta_begin (ta t)) g = Inr g'"
    and "eventnames g0 \<noteq> []" "real_reading g0 (ta_begin (ta t))"
    and "t \<notin> set (thread_starts es)" "t \<notin> set (thread_finis es)"
    and "ids_apart (\<lambda>t. ta_self (ta t)) {main} (es @ [InitThread t d])"
  shows "follows ta main r0 (es @ [InitThread t d]) g0 g'"
proof -
  let ?n = "length (thread_heap g)"
  have f: "rt_inv g" "guard_of g = guard_of g0" "?n = length (thread_starts es) + 1" "counting g 0 r0"
    "thread_data g main = Some 0" "rep_key g = rep_key g0"
    using assms(1) by (simp_all add: follows_def)
  have ev: "eventnames g \<noteq> []" and rd: "real_reading g (ta_begin (ta t))"
    using f(2) assms(3,4) guard_facts(3) [OF f(2)] by (simp_all add: guard_of_def)
  note b = thread_begin_step [OF assms(2) f(1) ev rd]
  have self: "ta_self (ta t) \<notin> fold (id_step (\<lambda>t. ta_self (ta t))) es {main}"
    using assms(7) by (simp add: ids_apart_snoc)
  have old: "thread_shows ta (thread_finis es) g' (Suc k) (thread_starts es ! k)"
    if k: "k < length (thread_starts es)" for k
  proof -
    let ?u = "thread_starts es ! k"
    have c: "caliper0 g' (Suc k) = caliper0 g (Suc k)" by (rule b(6)) (use f(3) k in simp)
    have sh: "thread_shows ta (thread_finis es) g (Suc k) ?u" using assms(1) k by (simp add: follows_def)
    have "ta_self (ta ?u) \<noteq> ta_self (ta t)" if "?u \<notin> set (thread_finis es)"
    proof -
      have "?u \<in> set (thread_starts es) - set (thread_finis es)" using k that by simp
      then show ?thesis using self assms(1) by (auto simp: follows_def)
    qed
    then show ?thesis using sh by (simp add: thread_shows_def counts_frame [OF c b(2)] b(4))
  qed
  have new: "thread_shows ta (thread_finis es) g' ?n t"
    using assms(6) b(4,7) by (simp add: thread_shows_def)
  have "thread_shows ta (thread_finis es) g' (Suc k) ((thread_starts es @ [t]) ! k)"
    if "k < length (thread_starts es) + 1" for k
    using that old [of k] new f(3) by (cases "k = length (thread_starts es)") (simp_all add: nth_append)
  moreover have "counting g' 0 r0" using counts_frame(2) [OF b(6) b(2), of 0] f(3,4) by simp
  moreover have "main \<noteq> ta_self (ta t)" using self assms(1) by (auto simp: follows_def)
  moreover have "insert main ((\<lambda>t. ta_self (ta t)) ` (insert t (set (thread_starts es)) - set (thread_finis es)))
      \<subseteq> insert (ta_self (ta t)) (fold (id_step (\<lambda>t. ta_self (ta t))) es {main})"
    using assms(1) by (auto simp: follows_def)
  ultimately show ?thesis using b f by (simp add: follows_def)
qed

lemma follows_end:
  assumes "follows ta main r0 es g0 g" "monitor_fini_thread (ta_end_sys (ta t)) (ta_self (ta t)) (ta_end (ta t)) g = Inr g'"
    and "eventnames g0 \<noteq> []" "real_reading g0 (ta_end (ta t))"
    and "distinct (thread_starts es)" "t \<in> set (thread_starts es)" "t \<notin> set (thread_finis es)"
  shows "follows ta main r0 (es @ [FiniThread t d]) g0 g'"
    and "\<exists>i. thread_data g' (ta_self (ta t)) = Some i \<and> cal_depth (caliper0 g' i) = 0"
proof -
  let ?ts = "thread_starts es"
  obtain k where k: "k < length ?ts" "?ts ! k = t" using assms(6) by (auto simp: in_set_conv_nth)
  have f: "rt_inv g" "guard_of g = guard_of g0" "counting g 0 r0" "thread_data g main = Some 0"
    "\<And>j. j < length ?ts \<Longrightarrow> thread_shows ta (thread_finis es) g (Suc j) (?ts ! j)"
    using assms(1) by (simp_all add: follows_def)
  have ev: "eventnames g \<noteq> []" and rd: "real_reading g (ta_end (ta t))"
    using f(2) assms(3,4) guard_facts(3) [OF f(2)] by (simp_all add: guard_of_def)
  have t: "thread_data g (ta_self (ta t)) = Some (Suc k)" "counting g (Suc k) (ta_begin (ta t))"
    using f(5) [OF k(1)] assms(7) k(2) by (simp_all add: thread_shows_def)
  then have lv: "lives g (ta_self (ta t)) (Suc k)" using f(1) ev by (simp add: lives_def)
  note e = thread_end_step [OF assms(2) [unfolded monitor_fini_thread_def] lv t(2) rd]
  have gd: "guard_of g' = guard_of g" and td: "thread_data g' = thread_data g"
    using e(1) by (simp_all add: same_threads_def)
  have own: "ta_self (ta (?ts ! j)) \<noteq> ta_self (ta t)" if "j < length ?ts" "j \<noteq> k" "?ts ! j \<notin> set (thread_finis es)" for j
    using f(5) [OF that(1)] that t(1) by (auto simp: thread_shows_def)
  have "thread_shows ta (t # thread_finis es) g' (Suc j) (?ts ! j)" if j: "j < length ?ts" for j
  proof (cases "j = k")
    case True
    then show ?thesis using e(2) k by (simp add: thread_shows_def)
  next
    case False
    then have "?ts ! j \<noteq> t" using k j assms(5) nth_eq_iff_index_eq by blast
    moreover have c: "caliper0 g' (Suc j) = caliper0 g (Suc j)" using False by (intro e(3)) simp
    ultimately show ?thesis using f(5) [OF j] by (simp add: thread_shows_def counts_frame [OF c gd] td)
  qed
  then have shown: "thread_shows ta (thread_finis es @ [t]) g' (Suc j) (?ts ! j)" if "j < length ?ts" for j
    using that by (simp add: thread_shows_def)
  have m: "counting g' 0 r0" using counts_frame(2) [OF e(3) gd, of 0] f(3) by simp
  have "main \<noteq> ta_self (ta t)" using f(4) t(1) by auto
  moreover have "ta_self (ta u) \<noteq> ta_self (ta t)" if u: "u \<in> set ?ts" "u \<noteq> t" "u \<notin> set (thread_finis es)" for u
  proof -
    obtain j where "j < length ?ts" "?ts ! j = u" using u(1) by (auto simp: in_set_conv_nth)
    then show ?thesis using own [of j] u(2,3) k by auto
  qed
  ultimately have "insert main ((\<lambda>t. ta_self (ta t)) ` (set ?ts - insert t (set (thread_finis es))))
      \<subseteq> fold (id_step (\<lambda>t. ta_self (ta t))) es {main} - {ta_self (ta t)}"
    using assms(1) by (auto simp: follows_def)
  then show "follows ta main r0 (es @ [FiniThread t d]) g0 g'"
    using assms(1) e(1) shown m by (simp add: follows_def same_threads_def)
  show "\<exists>i. thread_data g' (ta_self (ta t)) = Some i \<and> cal_depth (caliper0 g' i) = 0"
    using t(1) td e(2) by (auto simp: counted_def)
qed

text \<open>The sequences of events libmonitor makes.\<close>

definition in_order :: "thread_event list \<Rightarrow> bool" where
  "in_order es \<longleftrightarrow> (\<forall>t. thread_life t (filter (of_thread t) es))"

lemma in_order_prefix: "in_order (xs @ ys) \<Longrightarrow> in_order xs"
  unfolding in_order_def using thread_life_prefix by (metis filter_append)

lemma in_order_begin:
  assumes "in_order (es @ [InitThread t d])"
  shows "t \<notin> set (thread_starts es)" "t \<notin> set (thread_finis es)"
proof -
  have "thread_life t (filter (of_thread t) es @ [InitThread t d])"
    using assms unfolding in_order_def by (drule_tac x = t in spec) simp
  then have "filter (of_thread t) es = []" by (auto elim!: thread_lifeE simp: append_eq_Cons_conv)
  then show "t \<notin> set (thread_starts es)" "t \<notin> set (thread_finis es)"
    by (force simp: filter_empty_conv thread_starts_iff thread_finis_iff)+
qed

lemma in_order_end:
  assumes "in_order (es @ [FiniThread t d])"
  shows "t \<in> set (thread_starts es)" "t \<notin> set (thread_finis es)"
proof -
  have "thread_life t (filter (of_thread t) es @ [FiniThread t d])"
    using assms unfolding in_order_def by (drule_tac x = t in spec) simp
  then obtain d' where f: "filter (of_thread t) es = [InitThread t d']"
    by (auto elim!: thread_lifeE simp: append_eq_Cons_conv)
  then have "InitThread t d' \<in> set (filter (of_thread t) es)" by simp
  then show "t \<in> set (thread_starts es)" by (auto simp: thread_starts_iff)
  have "\<forall>d. FiniThread t d \<notin> set (filter (of_thread t) es)" by (simp add: f)
  then show "t \<notin> set (thread_finis es)" by (simp add: thread_finis_iff)
qed

lemma in_order_distinct: "in_order es \<Longrightarrow> distinct (thread_starts es)"
proof (induction es rule: rev_induct)
  case (snoc e es)
  then show ?case using in_order_prefix in_order_begin(1) [of es] by (cases e) fastforce+
qed simp

text \<open>A run of papiex over the callbacks of a sequence of events.\<close>

lemma run_follows:
  assumes "run_callbacks b cbs (g0, fs0) = Some (Inr (g, fs))"
    and "filter (\<lambda>cb. \<not> own_point cb) cbs = thread_calls sys ta es" "list_all is_thread_callback es"
    and "in_order es" "ids_apart (\<lambda>t. ta_self (ta t)) {main} es"
    and "follows ta main r0 [] g0 g0" "eventnames g0 \<noteq> []"
    and "\<And>t. real_reading g0 (ta_begin (ta t))" "\<And>t. real_reading g0 (ta_end (ta t))"
  shows "follows ta main r0 es g0 g"
  using assms(1-5)
proof (induction cbs arbitrary: es g fs rule: rev_induct)
  case Nil
  have "es = []"
  proof (cases es)
    case (Cons e es')
    then show ?thesis using Nil.prems(2,3) by (cases e) (simp_all add: thread_calls_def)
  qed simp
  then show ?case using Nil.prems(1) assms(6) by simp
next
  case (snoc cb cbs)
  obtain g1 fs1 where r: "run_callbacks b cbs (g0, fs0) = Some (Inr (g1, fs1))"
    and c: "run_callback b cb (g1, fs1) = Some (Inr (g, fs))"
    using snoc.prems(1) by (auto simp: run_callbacks_append)
  show ?case
  proof (cases "own_point cb")
    case True
    then have f: "follows ta main r0 es g0 g1" using snoc.IH [OF r] snoc.prems(2-5) by simp
    then have "rt_inv g1" "eventnames g1 \<noteq> []" using assms(7) by (auto simp: follows_def guard_of_def)
    from own_point_step [OF c True this] show ?thesis by (rule follows_same [OF f]) simp_all
  next
    case False
    obtain es' e where es: "es = es' @ [e]"
    proof (cases es rule: rev_cases)
      case Nil
      then show ?thesis using snoc.prems(2) False by (simp add: thread_calls_def)
    qed (use that in blast)
    have e: "is_thread_callback e" "list_all is_thread_callback es'" using snoc.prems(3) es by simp_all
    have calls: "filter (\<lambda>cb. \<not> own_point cb) cbs @ [cb] = thread_calls sys ta es' @ thread_sees sys ta e"
      using snoc.prems(2) es False by (simp add: thread_calls_def)
    then have one: "thread_sees sys ta e = [cb]" "filter (\<lambda>cb. \<not> own_point cb) cbs = thread_calls sys ta es'"
      using e(1) by (cases e; simp)+
    have f: "follows ta main r0 es' g0 g1"
      using snoc.IH [OF r one(2) e(2)] snoc.prems(4,5) in_order_prefix es ids_apart_snoc by blast
    have inv: "rt_inv g1" using f by (simp add: follows_def)
    show ?thesis
    proof (cases e)
      case InitThreadSupport
      then have "monitor_init_thread_support sys g1 = Inr g" using one(1) c by auto
      from support_step [OF this inv] show ?thesis
        by (rule follows_same [OF f]) (simp_all add: es InitThreadSupport)
    next
      case (InitThread t d)
      then have "monitor_init_thread (ta_begin_sys (ta t)) (ta_self (ta t)) (ta_begin (ta t)) g1 = Inr g"
        using one(1) c by auto
      with follows_begin [OF f this assms(7,8) in_order_begin] snoc.prems(4,5) show ?thesis
        by (simp add: es InitThread)
    next
      case (FiniThread t d)
      then have "monitor_fini_thread (ta_end_sys (ta t)) (ta_self (ta t)) (ta_end (ta t)) g1 = Inr g"
        using one(1) c by auto
      with follows_end(1) [OF f this assms(7,9) in_order_distinct in_order_end] snoc.prems(4) in_order_prefix
      show ?thesis by (simp add: es FiniThread)
    qed (use e(1) in simp_all)
  qed
qed

end
