(* ===== verification/MeasuredThreads.thy ===== *)
theory MeasuredThreads
  imports PapiexFollows
begin

text \<open>
  libmonitor and papiex together for a program with threads: what papiex reports when the main
  thread ends the process, in any interleaving of pthread.c, and what becomes of the report
  when another thread ends it.
\<close>

section \<open>The end of the process\<close>

lemma write_threads_data:
  "write_threads sd i ts (g, fs) = Inr (g', fs') \<Longrightarrow> map pt_data (thread_heap g') = map pt_data (thread_heap g)"
proof (induction ts arbitrary: i g fs)
  case (Cons t ts)
  let ?th = "if pt_finish (thread_heap g ! t) = 0
    then (thread_heap g ! t)\<lparr>pt_finish := proc_fini_time g\<rparr> else thread_heap g ! t"
  let ?g1 = "g\<lparr>thread_heap := (thread_heap g)[t := ?th]\<rparr>"
  obtain path fs1 where "write_threads sd (i + 1) ts (papiex_emit (ThreadStats i path t) ?g1, fs1) = Inr (g', fs')"
    using Cons.prems by (auto simp: Let_def split: if_splits)
  then have "map pt_data (thread_heap g') = map pt_data (thread_heap ?g1)"
    using Cons.IH by (simp add: papiex_emit_def)
  moreover have "map pt_data ((thread_heap g)[t := ?th]) = map pt_data (thread_heap g)"
    by (cases "t < length (thread_heap g)") (simp_all add: map_update list_update_same_conv list_update_beyond)
  ultimately show ?case by simp
qed simp

lemma print_stats_data:
  assumes "print_process_stats sd fs g = Inr (g', fs')"
  shows "map pt_data (thread_heap g') = map pt_data (thread_heap g)"
proof -
  define g1 where "g1 = get_proc_output_path g"
  define g2 where "g2 = papiex_emit (ProcessStats (map snd (all_threads g1)))
    (g1\<lparr>proc_stats_path := proc_output_path g1 @ (if papiex_threaded g1 then [] else suffix)\<rparr>)"
  have "thread_heap g2 = thread_heap g"
    using rt_keyD(3) [of g1 g] by (simp add: g2_def papiex_emit_def g1_def)
  moreover obtain fs1 where "g' = g2 \<or> write_threads sd 0 (map snd (all_threads g2)) (g2, fs) = Inr (g', fs1)"
    using assms by (auto simp: print_process_stats_def Let_def g1_def g2_def split: if_splits)
  ultimately show ?thesis using write_threads_data by metis
qed

lemma caliper0_map:
  "map pt_data (thread_heap g') = map pt_data (thread_heap g) \<Longrightarrow> i < length (thread_heap g) \<Longrightarrow>
   caliper0 g' i = caliper0 g i"
  unfolding caliper0_def by (metis length_map nth_map)

text \<open>The thread that ends the process closes its caliper 0; the others are left as they are.\<close>

lemma fini_process_threads:
  assumes "monitor_fini_process sys b sd self r fs g = Some (Inr (g', fs'))" "\<not> called_process_shutdown g"
    and "lives g self i" "counting g i r0" "real_reading g r"
  shows "counted g' i r0 r" "guard_of g' = guard_of g"
    and "j < length (thread_heap g) \<Longrightarrow> j \<noteq> i \<Longrightarrow> caliper0 g' j = caliper0 g j"
proof -
  obtain g1 g2 fs1 g3 fs2 g4 where g1: "shutdown_begin sys b self r g = Inr g1"
    and g2: "shutdown_paths sd fs g1 = Some (Inr (g2, fs1))"
    and g3: "print_process_stats sd fs1 g2 = Inr (g3, fs2)"
    and g4: "run_report sd fs2 g3 = Some (Inr (g4, fs'))" and g': "g' = run_exec_cmd sd g4"
    using assms(1,2) by (auto simp: monitor_fini_process_def papiex_process_shutdown_routine_def)
  define h1 where "h1 = close_gates b (g\<lparr>called_process_shutdown := True\<rparr>)"
  define h2 where "h2 = (if proc_fini_time h1 = 0 then h1\<lparr>proc_fini_time := ps_now sys\<rparr> else h1)"
  have k: "rt_key h2 = rt_key (g\<lparr>called_process_shutdown := True\<rparr>)" by (simp add: h2_def h1_def)
  have fini: "papiex_thread_shutdown_routine sys self r h2 = Inr g1"
    using g1 unfolding shutdown_begin_def Let_def h1_def h2_def .
  have l2: "lives h2 self i" and c2: "\<And>j. caliper0 h2 j = caliper0 g j" and gd: "guard_of h2 = guard_of g"
    and len: "length (thread_heap h2) = length (thread_heap g)"
    using rt_keyD [OF k] rt_key_inv [OF k] assms(3)
    by (auto simp: lives_def caliper0_def rt_inv_def guard_of_def)
  have "counting h2 i r0" "real_reading h2 r"
    using counts_frame(2) [OF c2 gd] guard_facts(3) [OF gd] assms(4,5) by simp_all
  note e = thread_end_step [OF fini l2 this]
  have gd1: "guard_of g1 = guard_of g" and len1: "length (thread_heap g1) = length (thread_heap g)"
    using e(1) gd len by (simp_all add: same_threads_def)
  have k4: "rt_key g' = rt_key g3" using run_report_key [OF g4] g' by simp
  have "map pt_data (thread_heap g') = map pt_data (thread_heap g1)"
    using print_stats_data [OF g3] rt_keyD(3) [OF k4] rt_keyD(3) [OF shutdown_paths_key [OF g2]] by simp
  then have c: "j < length (thread_heap g) \<Longrightarrow> caliper0 g' j = caliper0 g1 j" for j
    by (rule caliper0_map) (simp add: len1)
  show gd': "guard_of g' = guard_of g"
    using process_shutdown_step(1) [OF assms(1) [unfolded monitor_fini_process_def]] assms(3)
    by (simp add: rt_step_def lives_def)
  have i: "i < length (thread_heap g)" using assms(3) by (auto simp: lives_def rt_inv_def)
  have "guard_of g' = guard_of g1" using gd' gd1 by simp
  from counts_frame(1) [OF c [OF i] this] e(2) show "counted g' i r0 r" by simp
  show "j < length (thread_heap g) \<Longrightarrow> j \<noteq> i \<Longrightarrow> caliper0 g' j = caliper0 g j"
    using c e(3) c2 by simp
qed

text \<open>The state the callbacks of threads start in.\<close>

lemma process_begins:
  assumes "monitor_init_library env b (pglob_start b) = Inr gl"
    and "monitor_init_process sys b main r0 argv fs gl = Inr (g, fs0)" "real_reading g r0"
  shows "follows ta main r0 [] g g" "eventnames g \<noteq> []" "rep_key g = (False, [])"
proof -
  note lib = library_start [OF assms(1)] and i = init_process_step [OF assms(2)]
  have inv: "rt_inv g" and rep: "rep_key g = (False, [])" using i lib by (simp_all add: rep_key_def)
  have "map snd (all_threads g) = [0]" using i(3) lib(1,3) by (simp add: rt_inv_def)
  moreover have "length (map snd (all_threads g)) = length [0..<length (thread_heap g)]"
    using inv unfolding rt_inv_def by metis
  ultimately have len: "length (thread_heap g) = 1" by simp
  obtain j where j: "lives g main j" "counting g j r0"
    using init_process_opens [OF assms(2) lib(1)] assms(3) unfolding counting_def real_reading_def by metis
  then have "j = 0" using len inv by (auto simp: lives_def rt_inv_def)
  then show "follows ta main r0 [] g g" using inv len j by (simp add: follows_def lives_def)
  show "eventnames g \<noteq> []" using j(1) by (simp add: lives_def)
  show "rep_key g = (False, [])" by (rule rep)
qed

section \<open>A measured program with threads\<close>

text \<open>C5: a threaded program measured by papiex under libmonitor.  Take any interleaving of
  pthread.c, and let papiex get the callbacks of its events, with any caliper calls of the
  threads on calipers of their own in between, between the start of the process and its end on
  the main thread.  When all of them come to their end papiex has reported once, on the main
  thread and every thread that started, in the order of their starts; caliper 0 of the main
  thread and of every thread that ended is the difference of the two readings at its start
  and its end; a thread that did not end shows no cycles, its caliper still open.\<close>
theorem measured_threads:
  assumes "th_reach cl s P"
    and "monitor_init_library env b (pglob_start b) = Inr gl"
    and "monitor_init_process sys0 b main r0 argv fs gl = Inr (g, fs0)"
    and "filter (\<lambda>cb. \<not> own_point cb) cbs = thread_calls sys ta (thr_trace s)"
    and "ids_apart (\<lambda>t. ta_self (ta t)) {main} (thr_trace s)"
    and "run_callbacks b (cbs @ [CbFiniProcess sys1 sd main r1]) (g, fs0) = Some (Inr (g', fs'))"
    and "real_reading g r0" "real_reading g r1"
    and "\<And>t. real_reading g (ta_begin (ta t))" "\<And>t. real_reading g (ta_end (ta t))"
  defines "ts \<equiv> thread_starts (thr_trace s)"
  shows "reports g' = [ProcessStats [0..<length ts + 1]] \<and> counted g' 0 r0 r1 \<and>
    (\<forall>k < length ts.
       if ts ! k \<in> set (thread_finis (thr_trace s))
       then counted g' (Suc k) (ta_begin (ta (ts ! k))) (ta_end (ta (ts ! k)))
       else cal_depth (caliper0 g' (Suc k)) = 1 \<and> real_cyc (caliper0 g' (Suc k)) = 0)"
proof -
  let ?es = "filter is_thread_callback (thr_trace s)"
  note filters = thread_calls_filter ids_apart_filter starts_filter finis_filter life_filter
  note start = process_begins [OF assms(2,3,7)]
  obtain g1 fs1 where run: "run_callbacks b cbs (g, fs0) = Some (Inr (g1, fs1))"
    and fini: "monitor_fini_process sys1 b sd main r1 fs1 g1 = Some (Inr (g', fs'))"
    using assms(6) by (auto simp: run_callbacks_append)
  have ord: "in_order ?es"
    using order_reach [OF assms(1)] unfolding in_order_def life_filter by (simp add: support_first_def)
  have f: "follows ta main r0 ?es g g1"
    by (rule run_follows [OF run _ _ ord _ start(1,2) assms(9,10)])
      (simp_all add: assms(4,5) filters list_all_iff)
  then have lv: "lives g1 main 0" and c0: "counting g1 0 r0" and gd: "guard_of g1 = guard_of g"
    and len: "length (thread_heap g1) = length ts + 1" and rep: "rep_key g1 = (False, [])"
    using start(2,3) by (simp_all add: follows_def lives_def guard_of_def filters ts_def)
  have rd: "real_reading g1 r1" using assms(8) guard_facts(3) [OF gd] by simp
  have sd: "\<not> called_process_shutdown g1" "reports g1 = []" using rep by (simp_all add: rep_key_def)
  note e = fini_process_threads [OF fini sd(1) lv c0 rd]
  have "map snd (all_threads g1) = [0..<length ts + 1]" using lv len by (simp add: lives_def rt_inv_def)
  then have "reports g' = [ProcessStats [0..<length ts + 1]]"
    using process_shutdown_step(2) [OF fini [unfolded monitor_fini_process_def]] sd by (simp add: rep_key_def)
  moreover have "if ts ! k \<in> set (thread_finis (thr_trace s))
       then counted g' (Suc k) (ta_begin (ta (ts ! k))) (ta_end (ta (ts ! k)))
       else cal_depth (caliper0 g' (Suc k)) = 1 \<and> real_cyc (caliper0 g' (Suc k)) = 0" if k: "k < length ts" for k
  proof -
    have "caliper0 g' (Suc k) = caliper0 g1 (Suc k)" by (rule e(3)) (use k len in simp_all)
    note c = counts_frame [OF this e(2)] and same = this
    have "thread_shows ta (thread_finis (thr_trace s)) g1 (Suc k) (ts ! k)"
      using f k by (simp add: follows_def filters ts_def)
    then show ?thesis by (simp add: thread_shows_def c same counting_def split: if_splits)
  qed
  ultimately show ?thesis using e(1) by blast
qed

section \<open>A thread that ends the process\<close>

lemma run_callbacks_then:
  "run_callbacks b xs gf = Some (Inr gf') \<Longrightarrow> run_callbacks b (xs @ ys) gf = run_callbacks b ys gf'"
  by (induction xs arbitrary: gf) (auto simp: obind_def split: option.splits sum.splits)

lemma own_points_run:
  assumes "run_callbacks b cbs (g, fs) = Some (Inr (g', fs'))" "list_all own_point cbs" "rt_inv g" "eventnames g \<noteq> []"
  shows "same_threads g g' \<and> caliper0 g' i = caliper0 g i"
  using assms
proof (induction cbs arbitrary: g fs)
  case (Cons cb cbs)
  obtain g1 fs1 where r: "run_callback b cb (g, fs) = Some (Inr (g1, fs1))"
    "run_callbacks b cbs (g1, fs1) = Some (Inr (g', fs'))" using Cons.prems(1) by auto
  have o: "own_point cb" "list_all own_point cbs" using Cons.prems(2) by simp_all
  note s = own_point_step [OF r(1) o(1) Cons.prems(3,4)]
  then have "rt_inv g1" "eventnames g1 \<noteq> []" using Cons.prems(4) by (simp_all add: same_threads_def guard_of_def)
  then show ?case using Cons.IH [OF r(2) o(2)] s by (simp add: same_threads_def)
qed (simp add: same_threads_def)

text \<open>A thread whose caliper 0 is at rest cannot be shut down again.\<close>

lemma second_shutdown_fails:
  assumes "lives g self i" "cal_depth (caliper0 g i) = 0" "\<not> called_process_shutdown g"
  shows "monitor_fini_process sys b sd self r fs g = Some (Inl (CaliperNotInUse 0))"
proof -
  define h1 where "h1 = close_gates b (g\<lparr>called_process_shutdown := True\<rparr>)"
  define h2 where "h2 = (if proc_fini_time h1 = 0 then h1\<lparr>proc_fini_time := ps_now sys\<rparr> else h1)"
  have k: "rt_key h2 = rt_key (g\<lparr>called_process_shutdown := True\<rparr>)" by (simp add: h2_def h1_def)
  have h: "thread_data h2 self = Some i" "eventcnt h2 \<noteq> 0" "thread_heap h2 = thread_heap g"
    using rt_keyD [OF k] assms(1) by (auto simp: lives_def eventcnt_def)
  have "depths_ok (thread_heap g ! i)" using assms(1) by (auto simp: lives_def rt_inv_def)
  then have "0 < max_caliper_entries (thread_heap g ! i)"
    by (simp add: depths_ok_def cal_size_ok_def PAPIEX_MAX_CALIPERS_def)
  then have "cal_stop h2 r 0 (thread_heap g ! i) = Inl (CaliperNotInUse 0)"
    using assms(2) by (simp add: cal_stop_def caliper0_def)
  then have "papiex_thread_shutdown_routine sys self r h2 = Inl (CaliperNotInUse 0)"
    using h by (simp add: papiex_thread_shutdown_routine_def papiex_stop_def with_thread_def)
  then have "shutdown_begin sys b self r g = Inl (CaliperNotInUse 0)"
    unfolding shutdown_begin_def Let_def h2_def h1_def .
  then show ?thesis
    using assms(3) by (simp add: monitor_fini_process_def papiex_process_shutdown_routine_def obind_def)
qed

text \<open>The shootdown of a process with no other thread left delivers fini-thread to the thread
  that ends it.\<close>

lemma scan_outcome:
  assumes "fold (scan_node self) ns (t, s) = (t', s')" "others_done self s ns"
    and "\<forall>m\<in>set ns. tn_self (nodes s m) = self \<longleftrightarrow> m = n"
  shows "num_unfinished t' = num_unfinished t \<and> nodes s' = nodes s \<and>
    filter is_thread_callback (thr_trace s') = filter is_thread_callback (thr_trace s) \<and>
    my_tn t' = (if n \<in> set ns then Some n else my_tn t)"
  using assms
proof (induction ns arbitrary: t s)
  case (Cons m ns)
  obtain t1 s1 where one: "scan_node self m (t, s) = (t1, s1)" by fastforce
  have f: "nodes s1 = nodes s" "my_tn t1 = (if m = n then Some n else my_tn t)"
    "num_unfinished t1 = num_unfinished t"
    "filter is_thread_callback (thr_trace s1) = filter is_thread_callback (thr_trace s)"
    using one Cons.prems(2,3) by (auto simp: scan_node_def Let_def others_done_def split: if_splits)
  have "others_done self s1 ns" "\<forall>m\<in>set ns. tn_self (nodes s1 m) = self \<longleftrightarrow> m = n"
    using Cons.prems(2,3) by (simp_all add: f others_done_def)
  moreover have "fold (scan_node self) ns (t1, s1) = (t', s')" using Cons.prems(1) one by simp
  ultimately show ?case using Cons.IH [of t1 s1] f by auto
qed simp

lemma exit_race_won:
  assumes "end_race self s = (role, s1)" "monitor_end_process_cookie s = 0"
  shows "role = Winner" "proc_trace s1 = proc_trace s"
    and "thr s1 = thr s \<or> (\<exists>m. thr s1 = upd_node m (\<lambda>e. e\<lparr>tn_exit_win := True\<rparr>) (thr s))"
  using assms by (auto simp: end_race_def compare_and_swap_def Let_def split: option.splits)

lemma exit_win_frame:
  assumes "t' = t \<or> (\<exists>m. t' = upd_node m (\<lambda>e. e\<lparr>tn_exit_win := True\<rparr>) t)"
  shows "tn_self (nodes t' m) = tn_self (nodes t m)" "tn_tid (nodes t' m) = tn_tid (nodes t m)"
    "tn_appl_started (nodes t' m) = tn_appl_started (nodes t m)"
    "tn_fini_started (nodes t' m) = tn_fini_started (nodes t m)"
    "tn_fini_done (nodes t' m) = tn_fini_done (nodes t m)"
    "thr_trace t' = thr_trace t" "monitor_has_used_threads t' = monitor_has_used_threads t"
    "links t' = links t" "tn_arrays t' = tn_arrays t" "th_reach cl t P \<Longrightarrow> th_reach cl t' P"
  using assms th_reach_frames(1) by (auto split: if_splits)

lemma thread_ends_process:
  assumes "th_reach cl (thr s) P" "monitor_has_used_threads (thr s)" "monitor_end_process_cookie s = 0"
    and "walk_threads (thr s) = Some ns" "n \<in> set ns" "\<forall>m\<in>set ns. tn_self (nodes (thr s) m) = self \<longleftrightarrow> m = n"
    and "\<not> tn_fini_started (nodes (thr s) n)" "others_done self (thr s) ns"
    and "monitor_end_process_fcn ee self how s = Some (Inr s')"
  shows "th_reach cl (thr s') P"
    and "\<exists>d. filter is_thread_callback (thr_trace (thr s')) =
           filter is_thread_callback (thr_trace (thr s)) @ [FiniThread (tn_tid (nodes (thr s) n)) d]"
    and "\<exists>d. proc_trace s' = proc_trace s @ [BeginProcessExit how, ShootdownDone, FiniProcess how d]"
proof -
  obtain role s1 where race: "end_race self s = (role, s1)" by fastforce
  note w = exit_race_won [OF race assms(3)]
  note f1 = exit_win_frame [OF w(3)]
  define s2 where "s2 = end_begin_exit how s1"
  obtain s3 where s3: "end_shootdown ee self s2 = Some (Inr s3)" and s': "s' = end_resume (end_fini_process how s3)"
    using assms(9) race w(1) by (auto simp: monitor_end_process_fcn_def s2_def)
  have t2: "thr s2 = thr s1" "proc_trace s2 = proc_trace s1 @ [BeginProcessExit how]"
    by (simp_all add: s2_def end_begin_exit_def)
  obtain sig t where t: "monitor_thread_shootdown sig (ee_sigaction_ok ee) self (ee_start ee) (ee_rounds ee) (thr s1) = Some (Inr t)"
    and t3: "thr s3 = t" "proc_trace s3 = proc_trace s2 @ [ShootdownDone]"
    using s3 by (auto simp: end_shootdown_def t2 Let_def split: prod.splits)
  obtain u my u2 where u: "shootdown_begin sig (ee_sigaction_ok ee) (thr s1) = Inr u"
    and l: "shootdown_loop self (ee_start ee) 0 (ee_rounds ee) u = Some (my, u2)" and tf: "t = shootdown_finish my u2"
    using t f1(7) assms(2) by (auto simp: monitor_thread_shootdown_def split: sum.splits)
  have fu: "nodes u = nodes (thr s1)" "walk_threads u = Some ns"
    "filter is_thread_callback (thr_trace u) = filter is_thread_callback (thr_trace (thr s))"
    using u assms(4) f1 by (auto simp: shootdown_begin_def Let_def walk_threads_def split: if_splits)
  obtain t1 u1 where sc: "shootdown_scan self u = Some (t1, u1)" and fo: "fold (scan_node self) ns (zero_tally, u) = (t1, u1)"
    using fu(2) by (cases "fold (scan_node self) ns (zero_tally, u)") (simp add: shootdown_scan_def)
  have "others_done self u ns" "\<forall>m\<in>set ns. tn_self (nodes u m) = self \<longleftrightarrow> m = n"
    using assms(6,8) f1(1,3,5) by (simp_all add: fu(1) others_done_def)
  note out = scan_outcome [OF fo this]
  have "ee_rounds ee \<noteq> []" using l by auto
  then obtain now env rounds where "ee_rounds ee = (now, env) # rounds" by (metis neq_Nil_conv surj_pair)
  then have m: "my = my_tn t1" "u2 = u1" using l sc out by (simp_all add: zero_tally_def)
  have "th_reach cl u P" using f1(10) [OF assms(1)] u by (rule th_reach_frames(3))
  then show "th_reach cl (thr s') P"
    using th_reach_finish [OF _ sc] by (simp add: s' end_resume_def end_fini_process_def t3 tf m)
  have my: "my = Some n" using out m assms(5) by simp
  show "\<exists>d. filter is_thread_callback (thr_trace (thr s')) =
           filter is_thread_callback (thr_trace (thr s)) @ [FiniThread (tn_tid (nodes (thr s) n)) d]"
    using out fu assms(7) f1(2,4)
    by (simp add: s' end_resume_def end_fini_process_def t3 tf my m(2) shootdown_finish_def Let_def fini_thread_defs)
  show "\<exists>d. proc_trace s' = proc_trace s @ [BeginProcessExit how, ShootdownDone, FiniProcess how d]"
    by (simp add: s' end_resume_def end_fini_process_def t3 t2 w(2))
qed

lemma filter_snoc_split:
  "filter Q xs = ys @ [c] \<Longrightarrow> \<exists>pre post. xs = pre @ c # post \<and> filter Q pre = ys \<and> list_all (\<lambda>x. \<not> Q x) post"
proof (induction xs rule: rev_induct)
  case (snoc x xs)
  show ?case
  proof (cases "Q x")
    case True
    then show ?thesis using snoc.prems by (intro exI [of _ xs] exI [of _ "[]"]) simp
  next
    case False
    then obtain pre post where "xs = pre @ c # post" "filter Q pre = ys" "list_all (\<lambda>x. \<not> Q x) post"
      using snoc by auto
    then show ?thesis using False by (intro exI [of _ pre] exI [of _ "post @ [x]"]) simp
  qed
qed simp

text \<open>C6: exit in a thread loses the measurement.  A thread other than the main one, with no
  other thread left running, ends the process: libmonitor first gives it its fini-thread and
  then the fini-process, both on this thread.  papiex takes the second for another stop of the
  thread's caliper 0, an error that ends the process before anything is reported.\<close>
theorem thread_exit_loses_report:
  assumes "th_reach cl (thr s) P" "monitor_has_used_threads (thr s)" "monitor_end_process_cookie s = 0"
    and "walk_threads (thr s) = Some ns" "n \<in> set ns" "\<forall>m\<in>set ns. tn_self (nodes (thr s) m) = self \<longleftrightarrow> m = n"
    and "\<not> tn_fini_started (nodes (thr s) n)" "others_done self (thr s) ns"
    and "monitor_end_process_fcn ee self how s = Some (Inr s')"
    and "monitor_init_library env b (pglob_start b) = Inr gl"
    and "monitor_init_process sys0 b main r0 argv fs gl = Inr (g, fs0)"
    and "filter (\<lambda>cb. \<not> own_point cb) cbs = thread_calls sys ta (thr_trace (thr s'))"
    and "ids_apart (\<lambda>t. ta_self (ta t)) {main} (thr_trace (thr s'))"
    and "run_callbacks b cbs (g, fs0) = Some (Inr (g1, fs1))"
    and "real_reading g r0" "\<And>t. real_reading g (ta_begin (ta t))" "\<And>t. real_reading g (ta_end (ta t))"
    and "ta_self (ta (tn_tid (nodes (thr s) n))) = self"
  shows "(\<exists>d. proc_trace s' = proc_trace s @ [BeginProcessExit how, ShootdownDone, FiniProcess how d]) \<and>
    run_callbacks b (cbs @ [CbFiniProcess sys1 sd self r1]) (g, fs0) = Some (Inl (CaliperNotInUse 0))"
proof -
  let ?t = "tn_tid (nodes (thr s) n)" and ?es = "filter is_thread_callback (thr_trace (thr s))"
  note filters = thread_calls_filter ids_apart_filter
  note ends = thread_ends_process [OF assms(1-9)]
  note start = process_begins [OF assms(10,11,15)]
  obtain d where es: "filter is_thread_callback (thr_trace (thr s')) = ?es @ [FiniThread ?t d]"
    using ends(2) by blast
  have ord: "in_order (?es @ [FiniThread ?t d])"
    using order_reach [OF ends(1)] unfolding es [symmetric] in_order_def life_filter by (simp add: support_first_def)
  have ids: "ids_apart (\<lambda>t. ta_self (ta t)) {main} (?es @ [FiniThread ?t d])"
    using assms(13) by (simp add: es [symmetric] ids_apart_filter)
  have "thread_calls sys ta (thr_trace (thr s')) = thread_calls sys ta (?es @ [FiniThread ?t d])"
    by (simp add: es [symmetric] thread_calls_filter)
  also have "\<dots> = thread_calls sys ta ?es @ [CbFiniThread (ta_end_sys (ta ?t)) self (ta_end (ta ?t))]"
    by (simp add: thread_calls_def assms(18))
  finally obtain pre post where cbs: "cbs = pre @ CbFiniThread (ta_end_sys (ta ?t)) self (ta_end (ta ?t)) # post"
    "filter (\<lambda>cb. \<not> own_point cb) pre = thread_calls sys ta ?es" "list_all own_point post"
    using filter_snoc_split assms(12) by fastforce
  obtain g2 g3 fs2 fs3 where r: "run_callbacks b pre (g, fs0) = Some (Inr (g2, fs2))"
    "monitor_fini_thread (ta_end_sys (ta ?t)) self (ta_end (ta ?t)) g2 = Inr g3"
    "run_callbacks b post (g3, fs3) = Some (Inr (g1, fs1))"
    using assms(14) cbs(1) by (auto simp: run_callbacks_append)
  have f: "follows ta main r0 ?es g g2"
    by (rule run_follows [OF r(1) cbs(2) _ _ _ start(1,2) assms(16,17)])
      (use ord in_order_prefix ids ids_apart_snoc in \<open>auto simp: list_all_iff\<close>)
  note e = follows_end [OF f _ start(2) assms(17) in_order_distinct in_order_end [OF ord], unfolded assms(18), OF r(2)]
  have f3: "follows ta main r0 (?es @ [FiniThread ?t d]) g g3"
    and "\<exists>i. thread_data g3 self = Some i \<and> cal_depth (caliper0 g3 i) = 0"
    using e ord in_order_prefix by blast+
  then obtain i where i: "thread_data g3 self = Some i" "cal_depth (caliper0 g3 i) = 0" by blast
  have "rt_inv g3" "eventnames g3 \<noteq> []" "rep_key g3 = (False, [])"
    using f3 start(2,3) by (auto simp: follows_def guard_of_def)
  then have "lives g1 self i" "cal_depth (caliper0 g1 i) = 0" "\<not> called_process_shutdown g1"
    using own_points_run [OF r(3) cbs(3), of i] i by (auto simp: lives_def same_threads_def guard_of_def rep_key_def)
  from second_shutdown_fails [OF this] show ?thesis
    using ends(3) by (simp add: run_callbacks_then [OF assms(14)] obind_def)
qed

section \<open>A run on concrete values\<close>

lemma thread_init_writes:
  assumes "papiex_thread_init_routine sys self r g = Inr g'"
  shows "writes_out g' = writes_out g"
proof -
  let ?g = "default_events sys g"
  obtain g1 where g1: "thread_table_add sys (length (thread_heap ?g)) (thread_ready sys self ?g) = Inr g1"
    "papiex_start self r 0 (Some []) g1 = Inr g'"
    using assms by (auto simp: papiex_thread_init_routine_def Let_def)
  have "writes_out (thread_ready sys self ?g) = writes_out g"
    by (simp add: thread_ready_def default_events_def papiex_emit_def writes_out_def Let_def)
  moreover have "writes_out g1 = writes_out (thread_ready sys self ?g)"
    using g1(1) by (auto simp: thread_table_add_def writes_out_def split: if_splits)
  moreover have "writes_out g' = writes_out g1"
    using g1(2) by (auto simp: papiex_start_def with_thread_def writes_out_key split: if_splits option.splits)
  ultimately show ?thesis by simp
qed

definition sample_threads :: "nat \<Rightarrow> int \<Rightarrow> thread_answers" where
  "sample_threads self t = \<lparr>ta_self = self, ta_begin_sys = sample_sys, ta_begin = sample_reading 6,
     ta_end_sys = sample_sys, ta_end = sample_reading 9\<rparr>"

definition sample_calls :: "nat \<Rightarrow> callback list" where
  "sample_calls self = [CbInitThreadSupport sample_sys, CbInitThread sample_sys self (sample_reading 6),
     CbFiniThread sample_sys self (sample_reading 9)]"

lemma sample_thread_run:
  assumes "self \<noteq> 7"
  obtains gl g fs g' where "monitor_init_library sample_env sample_build (pglob_start sample_build) = Inr gl"
    "monitor_init_process sample_sys sample_build 7 (sample_reading 5) [''app''] (\<lambda>_. None) gl = Inr (g, fs)"
    "\<forall>n. real_reading g (sample_reading n)"
    "run_callbacks sample_build (sample_calls self) (g, fs) = Some (Inr (g', fs))"
    "lives g' 7 0" "cal_depth (caliper0 g' 0) \<noteq> 0" "writes_out g'" "fs ''out'' = None"
proof -
  obtain gl g fs where gl: "monitor_init_library sample_env sample_build (pglob_start sample_build) = Inr gl"
    and g: "monitor_init_process sample_sys sample_build 7 (sample_reading 5) [''app''] (\<lambda>_. None) gl = Inr (g, fs)"
      "started (Inr (g, fs))"
    by (rule sample_run)
  have rd: "real_reading g (sample_reading n)" for n
    using g(2) by (simp add: real_reading_def does_read_def sample_reading_def)
  note start = process_begins [OF gl g(1) rd]
  let ?ta = "sample_threads self"
  define g1 where "g1 = g\<lparr>papiex_threaded := True\<rparr>"
  have g1: "monitor_init_thread_support sample_sys g = Inr g1"
    by (simp add: monitor_init_thread_support_def sample_sys_def g1_def ensure_def)
  have "\<not> multiplex g1" using g(2) by (simp add: g1_def)
  then obtain g2 where g2: "monitor_init_thread sample_sys self (sample_reading 6) g1 = Inr g2"
    using thread_init_goes unfolding monitor_init_thread_def by blast
  let ?two = "[CbInitThreadSupport sample_sys, CbInitThread sample_sys self (sample_reading 6)]"
  have run2: "run_callbacks sample_build ?two (g, fs) = Some (Inr (g2, fs))" by (simp add: g1 g2)
  have f: "follows ?ta 7 (sample_reading 5) [InitThreadSupport, InitThread 1 NULL] g g2"
  proof (rule run_follows [OF run2 _ _ _ _ start(1,2)])
    show "filter (\<lambda>cb. \<not> own_point cb) ?two = thread_calls sample_sys ?ta [InitThreadSupport, InitThread 1 NULL]"
      by (simp add: thread_calls_def sample_threads_def)
    show "in_order [InitThreadSupport, InitThread 1 NULL]"
      by (simp add: in_order_def thread_life.intros)
  qed (use assms rd in \<open>simp_all add: sample_threads_def\<close>)
  have ev: "eventnames g2 \<noteq> []" using f start(2) by (auto simp: follows_def guard_of_def)
  have "thread_shows ?ta [] g2 (Suc 0) 1" using f by (simp add: follows_def)
  then have l2: "lives g2 self 1" "cal_depth (caliper0 g2 1) \<noteq> 0"
    using f ev by (simp_all add: thread_shows_def sample_threads_def counting_def follows_def lives_def)
  have "ps_unregister_ok sample_sys" by (simp add: sample_sys_def)
  with thread_fini_goes [OF l2] obtain g3 where g3: "monitor_fini_thread sample_sys self (sample_reading 9) g2 = Inr g3"
    "writes_out g3 = writes_out g2" unfolding monitor_fini_thread_def by blast
  have run3: "run_callbacks sample_build (sample_calls self) (g, fs) = Some (Inr (g3, fs))"
    by (simp add: sample_calls_def g1 g2 g3(1))
  have "writes_out g2"
    using thread_init_writes [OF g2 [unfolded monitor_init_thread_def]] g(2) by (simp add: g1_def writes_out_def)
  moreover have "lives g2 7 0" "cal_depth (caliper0 g2 0) \<noteq> 0"
    using f ev by (simp_all add: follows_def lives_def counting_def)
  then have "lives g3 7 0 \<and> caliper0 g3 0 = caliper0 g2 0"
    using other_thread_keeps [OF thread_fini_step(1) [OF g3(1) [unfolded monitor_fini_thread_def]] assms] by blast
  ultimately show thesis
    using that [OF gl g(1) allI [OF rd] run3] g(2) g3(2) \<open>cal_depth (caliper0 g2 0) \<noteq> 0\<close> by simp
qed

lemma demo_traces:
  "thr_trace demo_first = []" "filter is_thread_callback (thr_trace demo_created) = []"
proof -
  show f: "thr_trace demo_first = []"
    by (simp add: demo_first_def monitor_thread_list_init_def Let_def host_ok_def
        monitor_early_init_def thst_start_def memset_node_def upd_node_def)
  show "filter is_thread_callback (thr_trace demo_created) = []"
    by (simp add: demo_created_def pthread_create_def Let_def monitor_get_tn_def demo_first_facts f
        create_prepare_def create_launch_def monitor_make_thread_node_def take_node_def host_ok_def attr_after_def
        monitor_adjust_stack_size_def default_client_def default_reset_stacksize_def
        MONITOR_TN_ARRAY_SIZE_def zero_node_def memset_node_def upd_node_def thr_emit_def
        zero_links_def queue_simps)
qed

lemma demo_callbacks:
  "\<exists>d. filter is_thread_callback (thr_trace demo_running) = [InitThreadSupport, InitThread 1 d]"
  by (simp add: demo_running_def monitor_begin_thread_def begin_enter_def begin_init_def begin_start_def monitor_thread_release_def Let_def
      monitor_call_thread_support_def demo_created_facts demo_traces host_ok_def monitor_link_thread_node_def)

text \<open>The callbacks of a trace with one thread that has ended.\<close>

lemma one_thread_ended:
  assumes "filter is_thread_callback es = [InitThreadSupport, InitThread 1 d, FiniThread 1 d']" "self \<noteq> 7"
  shows "thread_calls sample_sys (sample_threads self) es = sample_calls self"
    and "ids_apart (\<lambda>t. ta_self (sample_threads self t)) {7} es"
    and "thread_starts es = [1]" "thread_finis es = [1]"
proof -
  show "thread_calls sample_sys (sample_threads self) es = sample_calls self"
    unfolding thread_calls_filter [of _ _ es, symmetric] assms(1)
    by (simp add: thread_calls_def sample_calls_def sample_threads_def)
  show "ids_apart (\<lambda>t. ta_self (sample_threads self t)) {7} es"
    unfolding ids_apart_filter [of _ _ es, symmetric] assms(1) using assms(2) by (simp add: sample_threads_def)
  show "thread_starts es = [1]" unfolding starts_filter [of es, symmetric] assms(1) by simp
  show "thread_finis es = [1]" unfolding finis_filter [of es, symmetric] assms(1) by simp
qed

lemma sample_calls_points: "filter (\<lambda>cb. \<not> own_point cb) (sample_calls self) = sample_calls self"
  by (simp add: sample_calls_def)

theorem measured_threads_witness:
  "\<exists>(s :: thst) g fs g' fs'. th_reach default_client s {} \<and>
    thread_calls sample_sys (sample_threads 8) (thr_trace s) = sample_calls 8 \<and>
    run_callbacks sample_build (sample_calls 8 @ [CbFiniProcess sample_sys sample_sd 7 (sample_reading 12)]) (g, fs) =
      Some (Inr (g', fs')) \<and>
    reports g' = [ProcessStats [0, 1]] \<and> real_cyc (caliper0 g' 0) = 14 \<and> real_cyc (caliper0 g' 1) = 6"
proof -
  let ?s = "monitor_shootdown_handler 2 demo_running"
  have reach: "th_reach default_client ?s {}" by (rule th_reach_handler [OF demo_reach])
  obtain d d' where es: "filter is_thread_callback (thr_trace ?s) = [InitThreadSupport, InitThread 1 d, FiniThread 1 d']"
    using demo_callbacks by (auto simp: monitor_shootdown_handler_def demo_running_facts fini_thread_defs Let_def)
  have eight: "(8 :: nat) \<noteq> 7" by simp
  note one = one_thread_ended [OF es eight]
  obtain gl g fs g1 where r: "monitor_init_library sample_env sample_build (pglob_start sample_build) = Inr gl"
    "monitor_init_process sample_sys sample_build 7 (sample_reading 5) [''app''] (\<lambda>_. None) gl = Inr (g, fs)"
    "\<forall>n. real_reading g (sample_reading n)"
    "run_callbacks sample_build (sample_calls 8) (g, fs) = Some (Inr (g1, fs))"
    "lives g1 7 0" "cal_depth (caliper0 g1 0) \<noteq> 0" "writes_out g1" "fs ''out'' = None"
    by (rule sample_thread_run [OF eight])
  have "ps_unregister_ok sample_sys" by (simp add: sample_sys_def)
  from process_fini_goes [where fs = fs, OF r(5,6) this r(7,8)]
  obtain g' fs' where fini: "monitor_fini_process sample_sys sample_build sample_sd 7 (sample_reading 12) fs g1 =
      Some (Inr (g', fs'))" by blast
  then have run: "run_callbacks sample_build (sample_calls 8 @ [CbFiniProcess sample_sys sample_sd 7 (sample_reading 12)])
      (g, fs) = Some (Inr (g', fs'))"
    by (simp add: run_callbacks_then [OF r(4)])
  have "filter (\<lambda>cb. \<not> own_point cb) (sample_calls 8) = thread_calls sample_sys (sample_threads 8) (thr_trace ?s)"
    using one(1) sample_calls_points by simp
  from measured_threads [OF reach r(1,2) this one(2) run] one(3,4) r(3)
  have "reports g' = [ProcessStats [0, Suc 0]]" "counted g' 0 (sample_reading 5) (sample_reading 12)"
    "counted g' 1 (sample_reading 6) (sample_reading 9)"
    by (auto simp: sample_threads_def)
  then have "reports g' = [ProcessStats [0, 1]]" "real_cyc (caliper0 g' 0) = 14" "real_cyc (caliper0 g' 1) = 6"
    by (simp_all add: counted_def sample_reading_def)
  then show ?thesis using reach run one(1) by blast
qed

definition sample_exit_round :: exit_env where
  "sample_exit_round = \<lparr>ee_sigaction_ok = True, ee_start = 0, ee_rounds = [(0, id)]\<rparr>"

theorem thread_exit_loses_report_witness:
  "\<exists>s s' g fs d. monitor_end_process_fcn sample_exit_round 2 MONITOR_EXIT_NORMAL s = Some (Inr s') \<and>
    proc_trace s' = [BeginProcessExit MONITOR_EXIT_NORMAL, ShootdownDone, FiniProcess MONITOR_EXIT_NORMAL d] \<and>
    run_callbacks sample_build (sample_calls 2 @ [CbFiniProcess sample_sys sample_sd 2 (sample_reading 12)]) (g, fs) =
      Some (Inl (CaliperNotInUse 0))"
proof -
  let ?s = "procst_start demo_running (sigst_start (\<lambda>_. zero_sigact))"
  have s: "thr ?s = demo_running" "monitor_end_process_cookie ?s = 0" "proc_trace ?s = []"
    by (simp_all add: procst_start_def)
  have nf: "\<not> tn_fini_started (nodes demo_running (Slot 0 0))" using demo_running_facts(4) by (simp add: fini_wanted_def)
  have walk: "walk_threads demo_running = Some [Slot 0 0]" by (rule demo_walk) (simp_all add: demo_lists)
  obtain sig h where sg: "Signal.monitor_shootdown_signal (sgn ?s) = (sig, h)" by fastforce
  obtain s' where s': "monitor_end_process_fcn sample_exit_round 2 MONITOR_EXIT_NORMAL ?s = Some (Inr s')"
    by (simp add: monitor_end_process_fcn_def end_race_def compare_and_swap_def monitor_get_tn_def Let_def s sg
        demo_lists demo_running_facts end_begin_exit_def end_shootdown_def monitor_thread_shootdown_def
        sample_exit_round_def shootdown_begin_def shootdown_scan_def demo_walk scan_node_def zero_tally_def)
  have od: "others_done 2 demo_running [Slot 0 0]" by (simp add: others_done_def demo_lists)
  have fits: "th_reach default_client (thr ?s) {}" "monitor_has_used_threads (thr ?s)" "walk_threads (thr ?s) = Some [Slot 0 0]"
    "Slot 0 0 \<in> set [Slot 0 0]" "\<forall>m\<in>set [Slot 0 0]. tn_self (nodes (thr ?s) m) = 2 \<longleftrightarrow> m = Slot 0 0"
    "\<not> tn_fini_started (nodes (thr ?s) (Slot 0 0))" "others_done 2 (thr ?s) [Slot 0 0]"
    "tn_tid (nodes (thr ?s) (Slot 0 0)) = 1"
    using demo_reach walk od nf by (simp_all add: s demo_lists demo_running_facts)
  obtain d d' where es: "filter is_thread_callback (thr_trace (thr s')) = [InitThreadSupport, InitThread 1 d, FiniThread 1 d']"
    using thread_ends_process(2) [OF fits(1,2) s(2) fits(3-7) s'] demo_callbacks fits(8) by (auto simp: s(1))
  have two: "(2 :: nat) \<noteq> 7" by simp
  note one = one_thread_ended [OF es two]
  obtain gl g fs g1 where r: "monitor_init_library sample_env sample_build (pglob_start sample_build) = Inr gl"
    "monitor_init_process sample_sys sample_build 7 (sample_reading 5) [''app''] (\<lambda>_. None) gl = Inr (g, fs)"
    "\<forall>n. real_reading g (sample_reading n)"
    "run_callbacks sample_build (sample_calls 2) (g, fs) = Some (Inr (g1, fs))"
    by (rule sample_thread_run [OF two])
  have calls: "filter (\<lambda>cb. \<not> own_point cb) (sample_calls 2) = thread_calls sample_sys (sample_threads 2) (thr_trace (thr s'))"
    using one(1) sample_calls_points by simp
  have "ta_self (sample_threads 2 (tn_tid (nodes (thr ?s) (Slot 0 0)))) = 2" by (simp add: sample_threads_def)
  from thread_exit_loses_report [OF fits(1,2) s(2) fits(3-7) s' r(1,2) calls one(2) r(4) _ _ _ this] r(3) s(3) s'
  show ?thesis by (simp add: sample_threads_def) blast
qed

end
